(* ===== verification/Prelude.thy ===== *)
theory Prelude
  imports Main "HOL-Library.Word" "HOL-Library.List_Lexorder" "HOL-Library.Char_ord"
    "HOL-Library.Product_Lexorder"
begin

text \<open>
  What every component of the development shares: the machine types of the Rust source
  (\<open>u8\<close>, \<open>u32\<close> and \<open>u64\<close> at their width, \<open>usize\<close> as a natural number below \<open>2 ^ 64\<close>), the
  error type of \<^verbatim>\<open>src/src/error.rs\<close> with the result type and its sequencing (Rust's \<open>?\<close>
  operator), the saturating and checked additions of the standard library, big-endian byte
  strings, UTF-8 well-formedness of \<open>str\<close>, and the ordered map \<open>BTreeMap\<close> as a sorted
  association list, with the locale \<open>ordered_map\<close> that its clients rely on.
\<close>

named_theorems result_simps \<comment> \<open>how a sequence of fallible steps succeeds or fails\<close>
named_theorems codec_simps \<comment> \<open>what a reader returns on what a writer wrote\<close>
named_theorems bmap_simps \<comment> \<open>lookups after updates of an ordered map\<close>

type_synonym byte = "8 word"
type_synonym bytes = "8 word list"
type_synonym u32 = "32 word"
type_synonym u64 = "64 word"

section \<open>Errors and results\<close>

datatype error =
    Unauthorized
  | CertificateExpired
  | InvalidSignature
  | InvalidTopic
  | NoSubscribers
  | AlreadySubscribed
  | QueueFull
  | MessageTooLarge
  | PeerUnavailable
  | DeliveryExpired
  | Timeout
  | Protocol string
  | ShuttingDown
  | SubscriptionClosed
  | Config string
  | Clock
  | Io string

type_synonym 'a result = "error + 'a"

text \<open>\<open>m?\<close> followed by the rest of the function: the first error is returned.\<close>

definition rbind :: "'a result \<Rightarrow> ('a \<Rightarrow> 'b result) \<Rightarrow> 'b result" where
  "rbind m f = (case m of Inl e \<Rightarrow> Inl e | Inr x \<Rightarrow> f x)"

text \<open>\<open>if c { return Err(e); }\<close> in front of the rest of the function.\<close>

definition fail_if :: "bool \<Rightarrow> error \<Rightarrow> unit result" where
  "fail_if c e = (if c then Inl e else Inr ())"

text \<open>\<open>Option::ok_or\<close>.\<close>

definition ok_or :: "'a option \<Rightarrow> error \<Rightarrow> 'a result" where
  "ok_or x e = (case x of None \<Rightarrow> Inl e | Some v \<Rightarrow> Inr v)"

lemma rbind_Inr [simp]: "rbind (Inr x) f = f x"
  and rbind_Inl [simp]: "rbind (Inl e) f = Inl e"
  by (simp_all add: rbind_def)

lemma rbind_eq_Inr [result_simps]: "rbind m f = Inr y \<longleftrightarrow> (\<exists>x. m = Inr x \<and> f x = Inr y)"
  by (cases m) auto

lemma rbind_eq_Inl [result_simps]:
  "rbind m f = Inl e \<longleftrightarrow> m = Inl e \<or> (\<exists>x. m = Inr x \<and> f x = Inl e)"
  by (cases m) auto

lemma fail_if_simps [simp]: "fail_if True e = Inl e" "fail_if False e = Inr ()"
  by (simp_all add: fail_if_def)

lemma fail_if_eq [result_simps]:
  "fail_if c e = Inr u \<longleftrightarrow> \<not> c" "fail_if c e = Inl e' \<longleftrightarrow> c \<and> e' = e"
  by (auto simp: fail_if_def)

lemma ok_or_simps [simp]: "ok_or None e = Inl e" "ok_or (Some v) e = Inr v"
  by (simp_all add: ok_or_def)

lemma ok_or_eq [result_simps]:
  "ok_or x e = Inr v \<longleftrightarrow> x = Some v" "ok_or x e = Inl e' \<longleftrightarrow> x = None \<and> e' = e"
  by (auto simp: ok_or_def split: option.splits)

lemma rbind_fail_if [simp]: "rbind (fail_if c e) f = (if c then Inl e else f ())"
  by (simp add: fail_if_def)

lemma if_Inl_eq [result_simps]:
  "(if c then Inl e else m) = Inr y \<longleftrightarrow> \<not> c \<and> m = Inr y"
  "(if c then m else Inl e) = Inr y \<longleftrightarrow> c \<and> m = Inr y"
  by auto

text \<open>\<open>m?\<close> in a function that also changes the state: the state so far is kept on an error.\<close>

definition sbind :: "'a result \<times> 's \<Rightarrow> ('a \<Rightarrow> 's \<Rightarrow> 'b result \<times> 's) \<Rightarrow> 'b result \<times> 's" where
  "sbind r f = (case r of (Inl e, s) \<Rightarrow> (Inl e, s) | (Inr x, s) \<Rightarrow> f x s)"

text \<open>An operation that changes the state only when it succeeds.\<close>

definition tryop :: "('a \<times> 's) result \<Rightarrow> 's \<Rightarrow> 'a result \<times> 's" where
  "tryop r s = (case r of Inl e \<Rightarrow> (Inl e, s) | Inr (x, s') \<Rightarrow> (Inr x, s'))"

lemma sbind_simps [simp]: "sbind (Inl e, s) f = (Inl e, s)" "sbind (Inr x, s) f = f x s"
  by (simp_all add: sbind_def)

lemma tryop_simps [simp]: "tryop (Inl e) s = (Inl e, s)" "tryop (Inr (x, t)) s = (Inr x, t)"
  by (simp_all add: tryop_def)

lemma sbind_eq [result_simps]:
  "sbind r f = (Inr y, t) \<longleftrightarrow> (\<exists>x s. r = (Inr x, s) \<and> f x s = (Inr y, t))"
  "sbind r f = (Inl e, t) \<longleftrightarrow> r = (Inl e, t) \<or> (\<exists>x s. r = (Inr x, s) \<and> f x s = (Inl e, t))"
  by (auto simp: sbind_def split: prod.splits sum.splits)

text \<open>For recursion inside a sequence.\<close>

lemma sbind_cong [fundef_cong]:
  "r = r' \<Longrightarrow> (\<And>x s. r' = (Inr x, s) \<Longrightarrow> f x s = g x s) \<Longrightarrow> sbind r f = sbind r' g"
  by (auto simp: sbind_def split: prod.split sum.split)

lemma tryop_eq [result_simps]:
  "tryop r s = (Inr x, t) \<longleftrightarrow> r = Inr (x, t)"
  "tryop r s = (Inl e, t) \<longleftrightarrow> r = Inl e \<and> t = s"
  by (auto simp: tryop_def split: sum.splits)

text \<open>A predicate on the state, through a sequence of fallible steps.\<close>

lemma sbind_inv: "P (snd r) \<Longrightarrow> (\<And>x s. r = (Inr x, s) \<Longrightarrow> P s \<Longrightarrow> P (snd (f x s))) \<Longrightarrow> P (snd (sbind r f))"
  by (cases r) (auto simp: sbind_def split: sum.splits)

lemma tryop_inv: "P s \<Longrightarrow> (\<And>x t. r = Inr (x, t) \<Longrightarrow> P t) \<Longrightarrow> P (snd (tryop r s))"
  by (auto simp: tryop_def split: sum.splits)

lemma sbind_pure_inv: "P s \<Longrightarrow> (\<And>x. m = Inr x \<Longrightarrow> P (snd (f x s))) \<Longrightarrow> P (snd (sbind (m, s) f))"
  by (cases m) auto

lemma sbind_try_inv: "P s \<Longrightarrow> (\<And>x t. r = Inr (x, t) \<Longrightarrow> P (snd (f x t))) \<Longrightarrow> P (snd (sbind (tryop r s) f))"
  by (auto simp: tryop_def split: sum.splits)

section \<open>Machine arithmetic\<close>

definition checked_add :: "u64 \<Rightarrow> u64 \<Rightarrow> u64 option" where
  "checked_add a b = (if unat a + unat b < 2 ^ 64 then Some (a + b) else None)"

definition saturating_add :: "u64 \<Rightarrow> u64 \<Rightarrow> u64" where
  "saturating_add a b = (if unat a + unat b < 2 ^ 64 then a + b else - 1)"

text \<open>The \<open>usize\<close> version, on natural numbers: \<open>None\<close> when the sum does not fit.\<close>

definition checked_add_usize :: "nat \<Rightarrow> nat \<Rightarrow> nat option" where
  "checked_add_usize a b = (if a + b < 2 ^ 64 then Some (a + b) else None)"

lemma unat_u64_less: "unat a < 2 ^ 64" for a :: u64
  using unsigned_less [of a, where ?'a = nat] by simp

lemma unat_byte_less: "unat b < 256" for b :: byte
  using unsigned_less [of b, where ?'a = nat] by simp

lemma unat_add_no_overflow:
  "unat a + unat b < 2 ^ 64 \<Longrightarrow> unat (a + b) = unat a + unat b" for a b :: u64
  by (simp add: unat_word_ariths)

lemma unat_saturating_add:
  "unat (saturating_add a b) = min (unat a + unat b) (2 ^ 64 - 1)"
proof (cases "unat a + unat b < 2 ^ 64")
  case True
  then show ?thesis by (simp add: saturating_add_def unat_add_no_overflow)
next
  case False
  moreover have "unat (- 1 :: u64) = 2 ^ 64 - 1"
    by (simp add: unsigned_minus_1_eq_mask mask_eq_exp_minus_1)
  ultimately show ?thesis by (simp add: saturating_add_def)
qed

lemma saturating_add_0 [simp]: "saturating_add a 0 = a" "saturating_add 0 a = a"
  using unat_u64_less [of a] by (simp_all add: saturating_add_def)

lemma le_saturating_add: "a \<le> saturating_add a b"
  using unat_u64_less [of a] by (simp add: word_le_nat_alt unat_saturating_add)

lemma checked_add_Some:
  "checked_add a b = Some c \<Longrightarrow> unat c = unat a + unat b"
  by (auto simp: checked_add_def unat_add_no_overflow split: if_splits)

section \<open>Big-endian byte strings\<close>

text \<open>\<open>be_bytes k v\<close> is \<open>to_be_bytes\<close> of a \<open>k\<close>-byte integer, \<open>be_val\<close> is \<open>from_be_bytes\<close>.\<close>

fun be_bytes :: "nat \<Rightarrow> nat \<Rightarrow> bytes" where
  "be_bytes 0 v = []"
| "be_bytes (Suc k) v = be_bytes k (v div 256) @ [word_of_nat (v mod 256)]"

definition be_val :: "bytes \<Rightarrow> nat" where
  "be_val bs = foldl (\<lambda>a b. a * 256 + unat b) 0 bs"

lemma length_be_bytes [simp]: "length (be_bytes k v) = k"
  by (induction k arbitrary: v) auto

lemma be_val_snoc [simp]: "be_val (bs @ [b]) = be_val bs * 256 + unat b"
  by (simp add: be_val_def)

lemma be_val_Nil [simp]: "be_val [] = 0"
  by (simp add: be_val_def)

lemma unat_byte_of_nat [simp]: "unat (word_of_nat n :: byte) = n mod 256"
  by (simp add: unat_of_nat)

lemma be_val_be_bytes: "be_val (be_bytes k v) = v mod 256 ^ k"
proof (induction k arbitrary: v)
  case (Suc k)
  then show ?case
    by (simp add: mod_mult2_eq mult.commute)
qed simp

lemma be_bytes_be_val: "be_bytes (length bs) (be_val bs) = bs"
proof (induction bs rule: rev_induct)
  case (snoc b bs)
  have "unat b < 256" using unat_byte_less [of b] by simp
  with snoc show ?case by simp
qed simp

lemma be_val_bound: "be_val bs < 256 ^ length bs"
proof (induction bs rule: rev_induct)
  case (snoc b bs)
  have "unat b < 256" using unat_byte_less [of b] by simp
  with snoc show ?case by simp
qed simp

section \<open>UTF-8\<close>

text \<open>
  A Rust \<open>str\<close> is a byte string that is well-formed UTF-8 (the table of well-formed byte
  sequences of the Unicode standard: no overlong forms, no surrogates, nothing above
  \<open>U+10FFFF\<close>). Strings of the model are \<open>char\<close> lists whose characters are the bytes, so
  \<open>length\<close> is \<open>str::len\<close>.
\<close>

definition cont :: "nat \<Rightarrow> bool" where
  "cont b \<longleftrightarrow> 128 \<le> b \<and> b < 192"

fun utf8_codes :: "nat list \<Rightarrow> bool" where
  "utf8_codes [] = True"
| "utf8_codes (a # bs) =
     (if a < 128 then utf8_codes bs
      else case bs of
        [] \<Rightarrow> False
      | b # cs \<Rightarrow>
        (if 194 \<le> a \<and> a < 224 then cont b \<and> utf8_codes cs
         else case cs of
           [] \<Rightarrow> False
         | c # ds \<Rightarrow>
           (if 224 \<le> a \<and> a < 240
            then cont b \<and> cont c \<and> (a = 224 \<longrightarrow> 160 \<le> b) \<and> (a = 237 \<longrightarrow> b < 160) \<and> utf8_codes ds
            else case ds of
              [] \<Rightarrow> False
            | d # es \<Rightarrow>
              240 \<le> a \<and> a < 245 \<and> cont b \<and> cont c \<and> cont d
                \<and> (a = 240 \<longrightarrow> 144 \<le> b) \<and> (a = 244 \<longrightarrow> b < 144) \<and> utf8_codes es)))"

declare utf8_codes.simps(2) [simp del]

definition utf8 :: "string \<Rightarrow> bool" where
  "utf8 s \<longleftrightarrow> utf8_codes (map of_char s)"

lemma utf8_codes_ascii: "\<forall>a \<in> set as. a < 128 \<Longrightarrow> utf8_codes as"
  by (induction as) (simp_all add: utf8_codes.simps(2))

lemma utf8_ascii: "\<forall>c \<in> set s. of_char c < (128 :: nat) \<Longrightarrow> utf8 s"
  by (simp add: utf8_def utf8_codes_ascii)

text \<open>\<open>str::as_bytes\<close>, also for byte string literals, and its inverse.\<close>

definition str_bytes :: "string \<Rightarrow> bytes" where
  "str_bytes s = map (\<lambda>c. word_of_nat (of_char c)) s"

definition bytes_str :: "bytes \<Rightarrow> string" where
  "bytes_str b = map (\<lambda>w. char_of (unat w)) b"

lemma bytes_str_bytes [simp]: "bytes_str (str_bytes s) = s"
proof -
  have "char_of (of_char c mod 256 :: nat) = c" for c
    by (simp add: of_char_mod_256)
  then show ?thesis
    by (simp add: bytes_str_def str_bytes_def comp_def)
qed

lemma length_str_bytes [simp]: "length (str_bytes s) = length s"
  by (simp add: str_bytes_def)

section \<open>Ordered maps\<close>

text \<open>
  \<open>BTreeMap\<close>: an association list sorted by key. \<open>bm_entries\<close> order is the iteration order of
  the Rust map. \<open>bm_get\<close>, \<open>bm_put\<close>, \<open>bm_del\<close> and \<open>bm_retain\<close> are \<open>get\<close>, \<open>insert\<close>, \<open>remove\<close> and
  \<open>retain\<close>; \<open>length\<close> is \<open>len\<close>; \<open>bm_adjust\<close> is an update through \<open>get_mut\<close> and \<open>bm_map\<close> one
  through \<open>iter_mut\<close>.
\<close>

type_synonym ('k, 'v) bmap = "('k \<times> 'v) list"

definition bm_ok :: "('k::linorder, 'v) bmap \<Rightarrow> bool" where
  "bm_ok m \<longleftrightarrow> sorted_wrt (<) (map fst m)"

definition bm_get :: "'k \<Rightarrow> ('k, 'v) bmap \<Rightarrow> 'v option" where
  "bm_get k m = map_of m k"

definition bm_has :: "'k \<Rightarrow> ('k, 'v) bmap \<Rightarrow> bool" where
  "bm_has k m \<longleftrightarrow> bm_get k m \<noteq> None"

fun bm_put :: "'k::linorder \<Rightarrow> 'v \<Rightarrow> ('k, 'v) bmap \<Rightarrow> ('k, 'v) bmap" where
  "bm_put k v [] = [(k, v)]"
| "bm_put k v (p # m) =
     (if k < fst p then (k, v) # p # m
      else if k = fst p then (k, v) # m
      else p # bm_put k v m)"

definition bm_del :: "'k \<Rightarrow> ('k, 'v) bmap \<Rightarrow> ('k, 'v) bmap" where
  "bm_del k m = filter (\<lambda>p. fst p \<noteq> k) m"

definition bm_retain :: "('k \<Rightarrow> 'v \<Rightarrow> bool) \<Rightarrow> ('k, 'v) bmap \<Rightarrow> ('k, 'v) bmap" where
  "bm_retain P m = filter (\<lambda>p. P (fst p) (snd p)) m"

definition bm_map :: "('k \<Rightarrow> 'v \<Rightarrow> 'w) \<Rightarrow> ('k, 'v) bmap \<Rightarrow> ('k, 'w) bmap" where
  "bm_map f m = map (\<lambda>p. (fst p, f (fst p) (snd p))) m"

definition bm_adjust :: "'k \<Rightarrow> ('v \<Rightarrow> 'v) \<Rightarrow> ('k, 'v) bmap \<Rightarrow> ('k, 'v) bmap" where
  "bm_adjust k f m = bm_map (\<lambda>k' v. if k' = k then f v else v) m"

definition bm_keys :: "('k, 'v) bmap \<Rightarrow> 'k list" where
  "bm_keys m = map fst m"

definition bm_vals :: "('k, 'v) bmap \<Rightarrow> 'v list" where
  "bm_vals m = map snd m"

lemma bm_ok_distinct: "bm_ok m \<Longrightarrow> distinct (map fst m)"
  by (auto simp: bm_ok_def strict_sorted_iff)

lemma bm_get_Nil [simp]: "bm_get k [] = None"
  by (simp add: bm_get_def)

lemma bm_has_Nil [simp]: "\<not> bm_has k []"
  by (simp add: bm_has_def)

lemma bm_ok_Nil [simp]: "bm_ok []"
  by (simp add: bm_ok_def)

lemma bm_get_put [bmap_simps]: "bm_get j (bm_put k v m) = (if j = k then Some v else bm_get j m)"
  by (induction m) (auto simp: bm_get_def)

lemma bm_get_del [bmap_simps]: "bm_get j (bm_del k m) = (if j = k then None else bm_get j m)"
  by (induction m) (auto simp: bm_get_def bm_del_def)

lemma bm_get_map [bmap_simps]: "bm_get k (bm_map f m) = map_option (f k) (bm_get k m)"
  by (induction m) (auto simp: bm_get_def bm_map_def)

lemma bm_get_adjust [bmap_simps]:
  "bm_get j (bm_adjust k f m) = (if j = k then map_option f (bm_get j m) else bm_get j m)"
  by (cases "bm_get j m") (auto simp: bm_adjust_def bm_get_map)

lemma bm_has_simps [bmap_simps]:
  "bm_has j (bm_put k v m) \<longleftrightarrow> j = k \<or> bm_has j m"
  "bm_has j (bm_del k m) \<longleftrightarrow> j \<noteq> k \<and> bm_has j m"
  "bm_has j (bm_map f m) \<longleftrightarrow> bm_has j m"
  "bm_has j (bm_adjust k g m) \<longleftrightarrow> bm_has j m"
  by (auto simp: bm_has_def bmap_simps)

lemma bm_get_in_set: "bm_get k m = Some v \<Longrightarrow> (k, v) \<in> set m"
  by (simp add: bm_get_def map_of_SomeD)

lemma bm_in_set_get: "bm_ok m \<Longrightarrow> (k, v) \<in> set m \<Longrightarrow> bm_get k m = Some v"
  by (simp add: bm_get_def bm_ok_distinct)

lemma bm_in_set_iff: "bm_ok m \<Longrightarrow> (k, v) \<in> set m \<longleftrightarrow> bm_get k m = Some v"
  by (auto dest: bm_get_in_set bm_in_set_get)

lemma bm_get_retain:
  "bm_ok m \<Longrightarrow> bm_get k (bm_retain P m) =
     (case bm_get k m of None \<Rightarrow> None | Some v \<Rightarrow> if P k v then Some v else None)"
proof (induction m)
  case (Cons p m)
  then have "bm_ok m" and "\<forall>q \<in> set m. fst p < fst q"
    by (auto simp: bm_ok_def)
  then have "k = fst p \<Longrightarrow> map_of m k = None"
    by (auto simp: map_of_eq_None_iff)
  moreover have "k = fst p \<Longrightarrow> map_of (filter (\<lambda>p. P (fst p) (snd p)) m) k = None"
    using \<open>\<forall>q \<in> set m. fst p < fst q\<close> by (auto simp: map_of_eq_None_iff)
  ultimately show ?case
    using Cons.IH [OF \<open>bm_ok m\<close>]
    by (cases p) (auto simp: bm_get_def bm_retain_def split: option.splits)
qed (simp add: bm_retain_def)

lemma bm_has_iff: "bm_has k m \<longleftrightarrow> k \<in> fst ` set m"
  by (auto simp: bm_has_def bm_get_def map_of_eq_None_iff)

lemma set_keys_put: "fst ` set (bm_put k v m) = insert k (fst ` set m)"
  by (induction m) (auto split: if_splits)

lemma bm_ok_put: "bm_ok m \<Longrightarrow> bm_ok (bm_put k v m)"
proof (induction m)
  case (Cons p m)
  then show ?case
    using set_keys_put [of k v m] by (auto simp: bm_ok_def)
qed (simp add: bm_ok_def)

lemma bm_ok_filter: "bm_ok m \<Longrightarrow> bm_ok (filter P m)"
  by (induction m) (auto simp: bm_ok_def)

lemma bm_ok_del: "bm_ok m \<Longrightarrow> bm_ok (bm_del k m)"
  and bm_ok_retain: "bm_ok m \<Longrightarrow> bm_ok (bm_retain Q m)"
  by (simp_all add: bm_del_def bm_retain_def bm_ok_filter)

lemma bm_ok_map: "bm_ok (bm_map f m) = bm_ok m"
  by (simp add: bm_ok_def bm_map_def comp_def)

lemma bm_ok_adjust: "bm_ok (bm_adjust k g m) = bm_ok m"
  by (simp add: bm_adjust_def bm_ok_map)

lemmas bm_ok_simps = bm_ok_put bm_ok_del bm_ok_retain bm_ok_map bm_ok_adjust

lemma length_bm_put: "length (bm_put k v m) = (if bm_has k m then length m else Suc (length m))"
  if "bm_ok m"
  using that
proof (induction m)
  case (Cons p m)
  then have "bm_ok m" and "\<forall>q \<in> set m. fst p < fst q"
    by (auto simp: bm_ok_def)
  with Cons.IH show ?case
    by (cases p) (force simp: bm_has_iff)
qed simp

lemma length_bm_del_le: "length (bm_del k m) \<le> length m"
  and length_bm_retain_le: "length (bm_retain Q m) \<le> length m"
  by (simp_all add: bm_del_def bm_retain_def)

lemma length_bm_map [simp]: "length (bm_map f m) = length m"
  by (simp add: bm_map_def)

lemma length_bm_adjust [simp]: "length (bm_adjust k g m) = length m"
  by (simp add: bm_adjust_def)

lemma bm_put_last: "\<forall>q \<in> set m. fst q < k \<Longrightarrow> bm_put k v m = m @ [(k, v)]"
  by (induction m) auto

lemma bm_ok_append_Cons:
  "bm_ok (m @ (k, v) # n) \<longleftrightarrow> bm_ok (m @ [(k, w)]) \<and> (\<forall>q \<in> set m. fst q < k) \<and> bm_ok ((m @ [(k, w)]) @ n)"
  by (auto simp: bm_ok_def sorted_wrt_append)

lemma bm_has_less: "\<forall>q \<in> set m. fst q < k \<Longrightarrow> \<not> bm_has k m" for k :: "'k::linorder"
  by (auto simp: bm_has_iff)

lemma bm_vals_map [simp]: "bm_vals (bm_map f m) = map (\<lambda>p. f (fst p) (snd p)) m"
  by (simp add: bm_vals_def bm_map_def)

text \<open>The interface the components use, and its provider.\<close>

locale ordered_map =
  fixes ok :: "'m \<Rightarrow> bool"
    and get :: "'k \<Rightarrow> 'm \<Rightarrow> 'v option"
    and put :: "'k \<Rightarrow> 'v \<Rightarrow> 'm \<Rightarrow> 'm"
    and del :: "'k \<Rightarrow> 'm \<Rightarrow> 'm"
    and size :: "'m \<Rightarrow> nat"
  assumes get_put: "get j (put k v m) = (if j = k then Some v else get j m)"
    and get_del: "get j (del k m) = (if j = k then None else get j m)"
    and ok_put: "ok m \<Longrightarrow> ok (put k v m)"
    and ok_del: "ok m \<Longrightarrow> ok (del k m)"
    and size_put: "ok m \<Longrightarrow> size (put k v m) = (if get k m = None then Suc (size m) else size m)"
    and size_del: "size (del k m) \<le> size m"
begin

lemma rollback_insert: "get k m = None \<Longrightarrow> get j (del k (put k v m)) = get j m"
  by (simp add: get_put get_del)

lemma rollback_remove: "get k m = Some v \<Longrightarrow> get j (put k v (del k m)) = get j m"
  by (simp add: get_put get_del)

lemma rollback_replace: "get k m = Some w \<Longrightarrow> get j (put k w (put k v m)) = get j m"
  by (simp add: get_put)

lemma bounded_put:
  "ok m \<Longrightarrow> size m \<le> n \<Longrightarrow> get k m \<noteq> None \<or> size m < n \<Longrightarrow> size (put k v m) \<le> n"
  by (auto simp: size_put)

end

interpretation btree: ordered_map bm_ok bm_get bm_put bm_del length
  by unfold_locales
    (auto simp: bm_get_put bm_get_del bm_ok_put bm_ok_del length_bm_put length_bm_del_le bm_has_def)

lemma bm_ext:
  assumes ok: "bm_ok m" "bm_ok n" and eq: "\<And>k. bm_get k m = bm_get k n"
  shows "m = n"
proof (rule map_sorted_distinct_set_unique [where f = fst])
  from ok eq show sets: "set m = set n"
    by (auto simp: bm_in_set_iff)
  from ok(1) have "inj_on fst (set m)"
    using bm_ok_distinct by (auto simp: distinct_map)
  with sets show "inj_on fst (set m \<union> set n)"
    by simp
qed (use ok in \<open>auto simp: bm_ok_def strict_sorted_iff\<close>)

text \<open>Undoing an update.\<close>

lemma bm_del_put: "bm_ok m \<Longrightarrow> \<not> bm_has k m \<Longrightarrow> bm_del k (bm_put k v m) = m"
  by (rule bm_ext) (auto simp: bm_ok_simps bmap_simps bm_has_def)

lemma bm_put_del: "bm_ok m \<Longrightarrow> bm_get k m = Some v \<Longrightarrow> bm_put k v (bm_del k m) = m"
  by (rule bm_ext) (auto simp: bm_ok_simps bmap_simps)

lemma bm_put_put: "bm_ok m \<Longrightarrow> bm_get k m = Some v \<Longrightarrow> bm_put k v (bm_put k w m) = m"
  by (rule bm_ext) (auto simp: bm_ok_simps bmap_simps)

lemma bm_del_absent: "bm_ok m \<Longrightarrow> \<not> bm_has k m \<Longrightarrow> bm_del k m = m"
  by (rule bm_ext) (auto simp: bm_ok_simps bmap_simps bm_has_def)

lemma bm_adjust_adjust: "bm_adjust k f (bm_adjust k g m) = bm_adjust k (\<lambda>v. f (g v)) m"
  by (simp add: bm_adjust_def bm_map_def)

lemma bm_adjust_same: "bm_ok m \<Longrightarrow> (\<And>v. bm_get k m = Some v \<Longrightarrow> f v = v) \<Longrightarrow> bm_adjust k f m = m"
  by (rule bm_ext) (auto simp: bm_ok_simps bmap_simps intro!: option.map_ident_strong)

text \<open>What the entries of an updated map are.\<close>

lemma set_bm_put: "set (bm_put k v m) \<subseteq> insert (k, v) (set m)"
  by (induction m) auto

lemma set_bm_del: "x \<in> set (bm_del k m) \<longleftrightarrow> x \<in> set m \<and> fst x \<noteq> k"
  by (auto simp: bm_del_def)

lemma set_bm_retain: "x \<in> set (bm_retain P m) \<longleftrightarrow> x \<in> set m \<and> P (fst x) (snd x)"
  by (auto simp: bm_retain_def)

lemma set_bm_adjust: "x \<in> set (bm_adjust k f m) \<longleftrightarrow> (\<exists>v. (fst x, v) \<in> set m \<and> snd x = (if fst x = k then f v else v))"
  by (cases x) (force simp: bm_adjust_def bm_map_def)

text \<open>A property of every entry.\<close>

definition bm_all :: "('k \<Rightarrow> 'v \<Rightarrow> bool) \<Rightarrow> ('k, 'v) bmap \<Rightarrow> bool" where
  "bm_all P m \<longleftrightarrow> list_all (\<lambda>(k, v). P k v) m"

lemma bm_all_Nil [simp]: "bm_all P []"
  by (simp add: bm_all_def)

lemma bm_allD: "bm_all P m \<Longrightarrow> bm_get k m = Some v \<Longrightarrow> P k v"
  by (auto simp: bm_all_def list_all_iff dest: bm_get_in_set)

lemma bm_all_iff: "bm_ok m \<Longrightarrow> bm_all P m \<longleftrightarrow> (\<forall>k v. bm_get k m = Some v \<longrightarrow> P k v)"
  by (force simp: bm_all_def list_all_iff bm_in_set_iff)

lemma bm_all_mono: "bm_all P m \<Longrightarrow> (\<And>k v. bm_has k m \<Longrightarrow> P k v \<Longrightarrow> Q k v) \<Longrightarrow> bm_all Q m"
  by (force simp: bm_all_def list_all_iff bm_has_iff)

lemma bm_all_put: "bm_all P m \<Longrightarrow> P k v \<Longrightarrow> bm_all P (bm_put k v m)"
  using set_bm_put [of k v m] by (auto simp: bm_all_def list_all_iff)

lemma bm_all_del: "bm_all P m \<Longrightarrow> bm_all P (bm_del k m)"
  by (auto simp: bm_all_def list_all_iff set_bm_del)

lemma bm_all_retain: "bm_all P m \<Longrightarrow> bm_all P (bm_retain Q m)"
  by (auto simp: bm_all_def list_all_iff set_bm_retain)

lemma bm_all_map: "bm_all P (bm_map f m) \<longleftrightarrow> bm_all (\<lambda>k v. P k (f k v)) m"
  by (auto simp: bm_all_def list_all_iff bm_map_def)

lemma bm_all_adjust:
  "bm_ok m \<Longrightarrow> bm_all P m \<Longrightarrow> (\<And>v. bm_get k m = Some v \<Longrightarrow> P k v \<Longrightarrow> P k (f v)) \<Longrightarrow> bm_all P (bm_adjust k f m)"
  by (auto simp: bm_all_iff bm_ok_adjust bm_get_adjust)

lemmas bm_all_intros = bm_all_put bm_all_del bm_all_retain bm_all_adjust

lemma bm_keys_simps [simp]:
  "set (bm_keys (bm_put k v m)) = insert k (set (bm_keys m))"
  "set (bm_keys (bm_del k m)) = set (bm_keys m) - {k}"
  "set (bm_keys (bm_adjust k g m)) = set (bm_keys m)"
  "set (bm_keys (bm_map f m)) = set (bm_keys m)"
  "bm_keys [] = []"
  by (auto simp: bm_keys_def set_keys_put bm_del_def bm_adjust_def bm_map_def image_iff)

lemma bm_keys_iff: "k \<in> set (bm_keys m) \<longleftrightarrow> bm_has k m"
  by (simp add: bm_keys_def bm_has_iff)

lemma bm_keys_retain: "set (bm_keys (bm_retain P m)) \<subseteq> set (bm_keys m)"
  by (auto simp: bm_keys_def bm_retain_def)

lemma fold_same: "(\<And>x s. g (f x s) = g s) \<Longrightarrow> g (fold f xs s) = g s"
  by (induction xs arbitrary: s) auto

lemma fold_inv: "(\<And>x s. x \<in> set xs \<Longrightarrow> P s \<Longrightarrow> P (f x s)) \<Longrightarrow> P s \<Longrightarrow> P (fold f xs s)"
  by (induction xs arbitrary: s) auto

end
