(* ===== verification/Cbor.thy ===== *)
theory Cbor
  imports Prelude
begin

text \<open>
  The fixed-schema CBOR layer of \<^verbatim>\<open>src/src/cbor.rs\<close>. The encoder and decoder of the
  \<^verbatim>\<open>minicbor\<close> crate are not part of the repository: they are the parameter \<open>minicbor\<close> of
  every definition, a record of its primitive operations, and the locale \<open>cbor_codec\<close> states
  what the code relies on (decoding what was encoded gives it back and leaves the rest of the
  input). \<open>Writer\<close> and \<open>Reader\<close> are modelled method by method; a reader is the input that is
  still unread, so \<open>position() != input().len()\<close> is "some input is left". The locale
  \<open>canonical_codec\<close> is the contract every message format of the protocol is shown to meet.
\<close>

section \<open>The CBOR library\<close>

record minicbor =
  enc_array :: "u64 \<Rightarrow> bytes"
  enc_u64 :: "u64 \<Rightarrow> bytes"
  enc_bytes :: "bytes \<Rightarrow> bytes"
  enc_str :: "string \<Rightarrow> bytes"
  enc_map :: "u64 \<Rightarrow> bytes"
  dec_array :: "bytes \<Rightarrow> (u64 option \<times> bytes) option"
  dec_u64 :: "bytes \<Rightarrow> (u64 \<times> bytes) option"
  dec_bytes :: "bytes \<Rightarrow> (bytes \<times> bytes) option"
  dec_str :: "bytes \<Rightarrow> (string \<times> bytes) option"
  dec_map :: "bytes \<Rightarrow> (u64 option \<times> bytes) option"

section \<open>Writer\<close>

type_synonym writer = bytes

definition w_new :: writer where
  "w_new = []"

definition w_array :: "minicbor \<Rightarrow> nat \<Rightarrow> writer \<Rightarrow> writer" where
  "w_array mc len w = w @ enc_array mc (word_of_nat len)"

definition w_u :: "minicbor \<Rightarrow> u64 \<Rightarrow> writer \<Rightarrow> writer" where
  "w_u mc n w = w @ enc_u64 mc n"

definition w_bytes :: "minicbor \<Rightarrow> bytes \<Rightarrow> writer \<Rightarrow> writer" where
  "w_bytes mc b w = w @ enc_bytes mc b"

definition w_text :: "minicbor \<Rightarrow> string \<Rightarrow> writer \<Rightarrow> writer" where
  "w_text mc s w = w @ enc_str mc s"

definition w_empty_map :: "minicbor \<Rightarrow> writer \<Rightarrow> writer" where
  "w_empty_map mc w = w @ enc_map mc 0"

definition w_finish :: "writer \<Rightarrow> bytes" where
  "w_finish w = w"

text \<open>A sequence of writer calls, in the order of the source.\<close>

definition w_calls :: "(writer \<Rightarrow> writer) list \<Rightarrow> writer \<Rightarrow> writer" where
  "w_calls cs w = fold (\<lambda>c w. c w) cs w"

definition written :: "(writer \<Rightarrow> writer) list \<Rightarrow> bytes" where
  "written cs = w_finish (w_calls cs w_new)"

section \<open>Reader\<close>

type_synonym reader = bytes
type_synonym 'a read = "('a \<times> reader) result"

definition invalid_cbor :: error where
  "invalid_cbor = Protocol ''invalid CBOR''"

definition r_array :: "minicbor \<Rightarrow> nat \<Rightarrow> reader \<Rightarrow> unit read" where
  "r_array mc len r =
     rbind (ok_or (dec_array mc r) invalid_cbor) (\<lambda>(n, r').
       if n \<noteq> Some (word_of_nat len) then Inl (Protocol ''array length'') else Inr ((), r'))"

definition r_list :: "minicbor \<Rightarrow> nat \<Rightarrow> reader \<Rightarrow> nat read" where
  "r_list mc mx r =
     rbind (ok_or (dec_array mc r) invalid_cbor) (\<lambda>(m, r').
     rbind (ok_or m (Protocol ''indefinite array'')) (\<lambda>n.
       if n > word_of_nat mx then Inl (Protocol ''collection limit'') else Inr (unat n, r')))"

definition r_u :: "minicbor \<Rightarrow> reader \<Rightarrow> u64 read" where
  "r_u mc r = ok_or (dec_u64 mc r) invalid_cbor"

definition r_bytes :: "minicbor \<Rightarrow> nat \<Rightarrow> reader \<Rightarrow> bytes read" where
  "r_bytes mc mx r =
     rbind (ok_or (dec_bytes mc r) invalid_cbor) (\<lambda>(b, r').
       if length b > mx then Inl MessageTooLarge else Inr (b, r'))"

definition r_fixed :: "minicbor \<Rightarrow> nat \<Rightarrow> reader \<Rightarrow> bytes read" where
  "r_fixed mc n r =
     rbind (r_bytes mc n r) (\<lambda>(b, r').
       if length b \<noteq> n then Inl (Protocol ''byte string length'') else Inr (b, r'))"

definition r_text :: "minicbor \<Rightarrow> nat \<Rightarrow> reader \<Rightarrow> string read" where
  "r_text mc mx r =
     rbind (ok_or (dec_str mc r) invalid_cbor) (\<lambda>(s, r').
       if length s > mx then Inl MessageTooLarge else Inr (s, r'))"

definition r_empty_map :: "minicbor \<Rightarrow> reader \<Rightarrow> unit read" where
  "r_empty_map mc r =
     rbind (ok_or (dec_map mc r) invalid_cbor) (\<lambda>(n, r').
       if n \<noteq> Some 0 then Inl (Protocol ''unprotected headers'') else Inr ((), r'))"

definition r_end :: "reader \<Rightarrow> unit result" where
  "r_end r = fail_if (r \<noteq> []) (Protocol ''trailing bytes'')"

definition canonical :: "bytes \<Rightarrow> bytes \<Rightarrow> unit result" where
  "canonical input encoded = fail_if (input \<noteq> encoded) (Protocol ''noncanonical CBOR'')"

lemmas writer_defs = written_def w_calls_def w_finish_def w_new_def w_array_def w_u_def
  w_bytes_def w_text_def w_empty_map_def

lemma canonical_Inr [result_simps]: "canonical a b = Inr u \<longleftrightarrow> a = b"
  by (simp add: canonical_def result_simps)

lemma canonical_refl [simp]: "canonical a a = Inr ()"
  by (simp add: canonical_def)

lemma r_end_Nil [simp]: "r_end [] = Inr ()"
  and r_end_Cons [simp]: "r \<noteq> [] \<Longrightarrow> r_end r = Inl (Protocol ''trailing bytes'')"
  by (simp_all add: r_end_def)

lemma r_end_Inr [result_simps]: "r_end r = Inr u \<longleftrightarrow> r = []"
  by (simp add: r_end_def result_simps)

text \<open>What a successful read guarantees of the value, whatever the library does.\<close>

lemma r_bytes_bound: "r_bytes mc mx r = Inr (b, r') \<Longrightarrow> length b \<le> mx"
  by (auto simp: r_bytes_def result_simps split: if_splits)

lemma r_fixed_length: "r_fixed mc n r = Inr (b, r') \<Longrightarrow> length b = n"
  by (auto simp: r_fixed_def result_simps split: if_splits)

lemma r_text_bound: "r_text mc mx r = Inr (s, r') \<Longrightarrow> length s \<le> mx"
  by (auto simp: r_text_def result_simps split: if_splits)

lemma r_list_bound: "r_list mc mx r = Inr (n, r') \<Longrightarrow> mx < 2 ^ 64 \<Longrightarrow> n \<le> mx"
  by (auto simp: r_list_def result_simps word_less_nat_alt unat_of_nat split: if_splits)

section \<open>What the code relies on of the library\<close>

locale cbor_codec =
  fixes mc :: minicbor
  assumes dec_array_enc: "dec_array mc (enc_array mc n @ r) = Some (Some n, r)"
    and dec_u64_enc: "dec_u64 mc (enc_u64 mc n @ r) = Some (n, r)"
    and dec_bytes_enc: "length b < 2 ^ 64 \<Longrightarrow> dec_bytes mc (enc_bytes mc b @ r) = Some (b, r)"
    and dec_str_enc: "utf8 s \<Longrightarrow> length s < 2 ^ 64 \<Longrightarrow> dec_str mc (enc_str mc s @ r) = Some (s, r)"
    and dec_map_enc: "dec_map mc (enc_map mc n @ r) = Some (Some n, r)"
    and dec_str_utf8: "dec_str mc r = Some (s, r') \<Longrightarrow> utf8 s"
    and enc_bytes_length: "length b \<le> length (enc_bytes mc b)"
    and enc_array_size: "length (enc_array mc n) \<le> 9"
    and enc_u64_size: "length (enc_u64 mc n) \<le> 9"
    and enc_map_size: "length (enc_map mc n) \<le> 9"
    and enc_bytes_size: "length (enc_bytes mc b) \<le> length b + 9"
    and enc_str_size: "length (enc_str mc s) \<le> length s + 9"
begin

lemma r_array_enc [codec_simps]: "r_array mc n (enc_array mc (word_of_nat n) @ r) = Inr ((), r)"
  by (simp add: r_array_def dec_array_enc)

lemma r_list_enc [codec_simps]:
  "n \<le> mx \<Longrightarrow> mx < 2 ^ 64 \<Longrightarrow> r_list mc mx (enc_array mc (word_of_nat n) @ r) = Inr (n, r)"
  by (simp add: r_list_def dec_array_enc word_less_nat_alt unat_of_nat)

lemma r_u_enc [codec_simps]: "r_u mc (enc_u64 mc n @ r) = Inr (n, r)"
  by (simp add: r_u_def dec_u64_enc)

lemma r_bytes_enc [codec_simps]:
  "length b \<le> mx \<Longrightarrow> mx < 2 ^ 64 \<Longrightarrow> r_bytes mc mx (enc_bytes mc b @ r) = Inr (b, r)"
  by (simp add: r_bytes_def dec_bytes_enc)

lemma r_fixed_enc [codec_simps]:
  "length b = n \<Longrightarrow> n < 2 ^ 64 \<Longrightarrow> r_fixed mc n (enc_bytes mc b @ r) = Inr (b, r)"
  by (simp add: r_fixed_def r_bytes_enc)

lemma r_text_enc [codec_simps]:
  "utf8 s \<Longrightarrow> length s \<le> mx \<Longrightarrow> mx < 2 ^ 64 \<Longrightarrow> r_text mc mx (enc_str mc s @ r) = Inr (s, r)"
  by (simp add: r_text_def dec_str_enc)

lemma r_empty_map_enc [codec_simps]: "r_empty_map mc (enc_map mc 0 @ r) = Inr ((), r)"
  by (simp add: r_empty_map_def dec_map_enc)

lemma r_text_wf: "r_text mc mx r = Inr (s, r') \<Longrightarrow> length s \<le> mx \<and> utf8 s"
  by (auto simp: r_text_def result_simps dest: dec_str_utf8 split: if_splits)

text \<open>The same at the end of the input.\<close>

lemmas at_end = r_u_enc [of _ "[]", simplified] r_bytes_enc [of _ _ "[]", simplified]
  r_fixed_enc [of _ _ "[]", simplified] r_text_enc [of _ _ "[]", simplified]
  r_array_enc [of _ "[]", simplified]

declare at_end [codec_simps]

end

section \<open>The contract of a message format\<close>

text \<open>
  A format is a set of values, an encoder and a decoder such that decoding an encoding gives
  the value back, a decoder accepts nothing but the encoding of the value it returns, and an
  encoding followed by more bytes is refused.
\<close>

locale canonical_codec =
  fixes wf :: "'a \<Rightarrow> bool"
    and enc :: "'a \<Rightarrow> bytes"
    and dec :: "bytes \<Rightarrow> 'a result"
  assumes dec_enc: "wf x \<Longrightarrow> dec (enc x) = Inr x"
    and enc_dec: "dec b = Inr x \<Longrightarrow> enc x = b"
    and dec_wf: "dec b = Inr x \<Longrightarrow> wf x"
    and dec_trailing: "wf x \<Longrightarrow> t \<noteq> [] \<Longrightarrow> \<exists>e. dec (enc x @ t) = Inl e"
begin

lemma enc_inject:
  assumes "wf x" and "wf y" and "enc x = enc y"
  shows "x = y"
proof -
  from assms(1) have "dec (enc y) = Inr x"
    unfolding assms(3) [symmetric] by (rule dec_enc)
  with dec_enc [OF assms(2)] show ?thesis
    by simp
qed

lemma dec_inject: "dec b = Inr x \<Longrightarrow> dec c = Inr x \<Longrightarrow> b = c"
  using enc_dec by blast

lemma accepts_iff: "(\<exists>x. dec b = Inr x) \<longleftrightarrow> (\<exists>x. wf x \<and> b = enc x)"
  using dec_enc enc_dec dec_wf by metis

text \<open>An accepted message cut short, or extended, is not accepted.\<close>

lemma prefix_free: "dec b = Inr x \<Longrightarrow> b = p @ t \<Longrightarrow> t \<noteq> [] \<Longrightarrow> \<exists>e. dec p = Inl e"
proof (rule ccontr)
  assume b: "dec b = Inr x" "b = p @ t" "t \<noteq> []" and "\<nexists>e. dec p = Inl e"
  then obtain y where "dec p = Inr y"
    by (cases "dec p") auto
  then have "wf y" and "enc y = p"
    using enc_dec dec_wf by auto
  with dec_trailing [of y t] b show False
    by auto
qed

lemma extension_refused: "dec b = Inr x \<Longrightarrow> t \<noteq> [] \<Longrightarrow> \<exists>e. dec (b @ t) = Inl e"
  using dec_trailing dec_wf enc_dec by metis

end

end
