(* ===== verification/Cbor_RFC8949.thy ===== *)
theory Cbor_RFC8949
  imports Cbor
begin

text \<open>
  An implementation of the CBOR primitives as RFC 8949 defines them, with the shortest form
  of every head on output and every definite form accepted on input. It shows that the laws
  of \<open>cbor_codec\<close> can be met, and it is the library at which the witnesses of the
  development are evaluated.
\<close>

definition head :: "nat \<Rightarrow> u64 \<Rightarrow> bytes" where
  "head m n =
     (let v = unat n; ib = (\<lambda>a. word_of_nat (m * 32 + a)) in
      if v < 24 then [ib v]
      else if v < 256 then ib 24 # be_bytes 1 v
      else if v < 65536 then ib 25 # be_bytes 2 v
      else if v < 4294967296 then ib 26 # be_bytes 4 v
      else ib 27 # be_bytes 8 v)"

definition take_be :: "nat \<Rightarrow> bytes \<Rightarrow> (u64 \<times> bytes) option" where
  "take_be k r = (if length r < k then None else Some (word_of_nat (be_val (take k r)), drop k r))"

text \<open>The major type, the argument (\<open>None\<close> for an indefinite length) and the rest.\<close>

definition argument :: "nat \<Rightarrow> nat \<Rightarrow> bytes \<Rightarrow> (nat \<times> u64 option \<times> bytes) option" where
  "argument m a r =
     (let arg = (\<lambda>k. map_option (\<lambda>(n, r'). (m, Some n, r')) (take_be k r)) in
      if a < 24 then Some (m, Some (word_of_nat a), r)
      else if a = 24 then arg 1
      else if a = 25 then arg 2
      else if a = 26 then arg 4
      else if a = 27 then arg 8
      else if a = 31 then Some (m, None, r)
      else None)"

definition unhead :: "bytes \<Rightarrow> (nat \<times> u64 option \<times> bytes) option" where
  "unhead bs = (case bs of [] \<Rightarrow> None | b # r \<Rightarrow> argument (unat b div 32) (unat b mod 32) r)"

definition expect :: "nat \<Rightarrow> bytes \<Rightarrow> (u64 option \<times> bytes) option" where
  "expect m bs =
     (case unhead bs of
        None \<Rightarrow> None
      | Some (m', n, r) \<Rightarrow> if m' = m then Some (n, r) else None)"

definition expect_definite :: "nat \<Rightarrow> bytes \<Rightarrow> (u64 \<times> bytes) option" where
  "expect_definite m bs =
     (case expect m bs of Some (Some n, r) \<Rightarrow> Some (n, r) | _ \<Rightarrow> None)"

definition expect_body :: "nat \<Rightarrow> bytes \<Rightarrow> (bytes \<times> bytes) option" where
  "expect_body m bs =
     (case expect_definite m bs of
        None \<Rightarrow> None
      | Some (n, r) \<Rightarrow>
        if length r < unat n then None else Some (take (unat n) r, drop (unat n) r))"

definition rfc8949 :: minicbor where
  "rfc8949 =
     \<lparr>enc_array = head 4,
      enc_u64 = head 0,
      enc_bytes = (\<lambda>b. head 2 (word_of_nat (length b)) @ b),
      enc_str = (\<lambda>s. head 3 (word_of_nat (length s)) @ str_bytes s),
      enc_map = head 5,
      dec_array = expect 4,
      dec_u64 = expect_definite 0,
      dec_bytes = expect_body 2,
      dec_str = (\<lambda>bs. case expect_body 3 bs of
          None \<Rightarrow> None
        | Some (b, r) \<Rightarrow> if utf8 (bytes_str b) then Some (bytes_str b, r) else None),
      dec_map = expect 5\<rparr>"

lemma take_be_be_bytes:
  "v < 256 ^ k \<Longrightarrow> take_be k (be_bytes k v @ r) = Some (word_of_nat v, r)"
  by (simp add: take_be_def be_val_be_bytes)

lemma unhead_Cons:
  assumes "m < 8" and "a < 32"
  shows "unhead (word_of_nat (m * 32 + a) # r) = argument m a r"
proof -
  from assms have "m * 32 + a < 256"
    by linarith
  then have "unat (word_of_nat (m * 32 + a) :: byte) = m * 32 + a"
    by (simp only: unat_byte_of_nat mod_less)
  then have "unhead (word_of_nat (m * 32 + a) # r)
      = argument ((m * 32 + a) div 32) ((m * 32 + a) mod 32) r"
    by (simp only: unhead_def list.case)
  with assms show ?thesis
    by simp
qed

lemma unhead_arg:
  assumes "m < 8" and "(a, k) \<in> {(24, 1), (25, 2), (26, 4), (27, 8)}" and "unat n < 256 ^ k"
  shows "unhead (word_of_nat (m * 32 + a) # be_bytes k (unat n) @ r) = Some (m, Some n, r)"
proof -
  have "take_be k (be_bytes k (unat n) @ r) = Some (n, r)"
    using take_be_be_bytes [OF assms(3)] by simp
  with assms(2) have "argument m a (be_bytes k (unat n) @ r) = Some (m, Some n, r)"
    by (auto simp: argument_def)
  moreover from assms(2) have "a < 32"
    by auto
  ultimately show ?thesis
    using assms(1) by (simp only: unhead_Cons)
qed

lemma unhead_head [simp]:
  assumes "m < 8"
  shows "unhead (head m n @ r) = Some (m, Some n, r)"
proof -
  have small: "unhead (word_of_nat (m * 32 + unat n) # r) = Some (m, Some n, r)" if "unat n < 24"
    using that unhead_Cons [OF assms, of "unat n" r] by (simp add: argument_def)
  show ?thesis
    using unhead_arg [OF assms, of 24 1 n r] unhead_arg [OF assms, of 25 2 n r]
      unhead_arg [OF assms, of 26 4 n r] unhead_arg [OF assms, of 27 8 n r]
      small unat_u64_less [of n]
    by (simp add: head_def Let_def)
qed

lemma expect_head [simp]: "m < 8 \<Longrightarrow> expect m (head m n @ r) = Some (Some n, r)"
  by (simp add: expect_def)

lemma expect_definite_head [simp]: "m < 8 \<Longrightarrow> expect_definite m (head m n @ r) = Some (n, r)"
  by (simp add: expect_definite_def)

lemma expect_body_head [simp]:
  "m < 8 \<Longrightarrow> length b < 2 ^ 64 \<Longrightarrow>
     expect_body m (head m (word_of_nat (length b)) @ b @ r) = Some (b, r)"
  by (simp add: expect_body_def unat_of_nat)

lemma head_size: "length (head m n) \<le> 9"
  by (simp add: head_def Let_def)

interpretation rfc: cbor_codec rfc8949
proof
  show "utf8 s \<Longrightarrow> length s < 2 ^ 64 \<Longrightarrow> dec_str rfc8949 (enc_str rfc8949 s @ r) = Some (s, r)" for s r
    using expect_body_head [of 3 "str_bytes s" r] by (simp add: rfc8949_def)
  show "dec_str rfc8949 r = Some (s, r') \<Longrightarrow> utf8 s" for r s r'
    by (auto simp: rfc8949_def split: option.splits if_splits)
qed (simp_all add: rfc8949_def head_size)

end
