(* ===== verification/External.thy ===== *)
theory External
  imports Cbor_RFC8949
begin

text \<open>
  The code of other crates that the source calls, as one parameter \<open>lib\<close> of the model: the
  CBOR primitives of \<^verbatim>\<open>minicbor\<close>, the identities and Ed25519 keys of \<^verbatim>\<open>iroh\<close> (\<open>EndpointId\<close> is
  the type variable \<open>'e\<close>, ordered as the crate orders it; a \<open>SecretKey\<close> is its 32 bytes; a
  \<open>RelayUrl\<close> is the string it prints as), SHA-256 of \<^verbatim>\<open>sha2\<close> and the URL-safe alphabet of
  \<^verbatim>\<open>base64\<close>. The locale \<open>external\<close> states what the code relies on; no law says that a
  signature cannot be forged or that a digest has no collision.
\<close>

record 'e lib =
  codec :: minicbor
  ep_bytes :: "'e \<Rightarrow> bytes"
  ep_from_bytes :: "bytes \<Rightarrow> 'e option"
  key_public :: "bytes \<Rightarrow> 'e"
  key_sign :: "bytes \<Rightarrow> bytes \<Rightarrow> bytes"
  ep_verify :: "'e \<Rightarrow> bytes \<Rightarrow> bytes \<Rightarrow> bool"
  sha256 :: "bytes \<Rightarrow> bytes"
  relay_parse :: "string \<Rightarrow> string option"
  b64_encode :: "bytes \<Rightarrow> string"
  b64_decode :: "string \<Rightarrow> bytes option"

locale external = cbor_codec "codec L" for L :: "'e lib" +
  assumes ep_from_bytes_bytes: "ep_from_bytes L (ep_bytes L e) = Some e"
    and ep_bytes_from_bytes: "ep_from_bytes L b = Some e \<Longrightarrow> ep_bytes L e = b"
    and ep_bytes_length: "length (ep_bytes L e) = 32"
    and verify_sign: "ep_verify L (key_public L k) m (key_sign L k m)"
    and sign_length: "length (key_sign L k m) = 64"
    and sha256_length: "length (sha256 L b) = 32"
    and relay_parse_again: "relay_parse L s = Some u \<Longrightarrow> relay_parse L u = Some u \<and> utf8 u"
    and b64_decode_encode: "b64_decode L (b64_encode L b) = Some b"
begin

lemma ep_bytes_inject: "ep_bytes L e = ep_bytes L f \<longleftrightarrow> e = f"
  by (metis ep_from_bytes_bytes option.inject)

end

text \<open>The same for identities with their order, which the maps keyed by identities need.\<close>

locale ordered_external = external L for L :: "('e::linorder) lib"

text \<open>
  An instance of the laws, for the evaluation of witnesses: endpoint identities are 256-bit
  words, signatures and digests are checksums of the right length (they have none of the
  security of the real ones, which no law claims).
\<close>

definition checksum :: "nat \<Rightarrow> nat \<Rightarrow> bytes \<Rightarrow> nat" where
  "checksum w s m = foldl (\<lambda>h b. (h * 257 + unat b + 1) mod 256 ^ w) s m"

definition hex_digit :: "nat \<Rightarrow> char" where
  "hex_digit n = char_of (97 + n)"

definition hex_encode :: "bytes \<Rightarrow> string" where
  "hex_encode b = concat (map (\<lambda>w. [hex_digit (unat w div 16), hex_digit (unat w mod 16)]) b)"

fun hex_decode :: "string \<Rightarrow> bytes option" where
  "hex_decode [] = Some []"
| "hex_decode [c] = None"
| "hex_decode (c # d # s) =
     map_option ((#) (word_of_nat ((of_char c - 97) * 16 + (of_char d - 97)))) (hex_decode s)"

lemma hex_digit_value: "n < 16 \<Longrightarrow> of_char (hex_digit n) - (97 :: nat) = n"
  by (simp add: hex_digit_def)

lemma hex_decode_encode: "hex_decode (hex_encode b) = Some b"
proof (induction b)
  case (Cons w b)
  have "unat w div 16 < 16" "unat w mod 16 < 16"
    using unat_byte_less [of w] by (simp_all add: less_mult_imp_div_less)
  with Cons show ?case
    by (simp add: hex_encode_def hex_digit_value)
qed (simp add: hex_encode_def)

lemma length_hex_encode: "length (hex_encode b) = 2 * length b"
  by (induction b) (simp_all add: hex_encode_def)

definition sample_lib :: "256 word lib" where
  "sample_lib =
     \<lparr>codec = rfc8949,
      ep_bytes = (\<lambda>e. be_bytes 32 (unat e)),
      ep_from_bytes = (\<lambda>b. if length b = 32 then Some (word_of_nat (be_val b)) else None),
      key_public = (\<lambda>k. word_of_nat (be_val k)),
      key_sign = (\<lambda>k m. be_bytes 64 (checksum 64 (unat (word_of_nat (be_val k) :: 256 word)) m)),
      ep_verify = (\<lambda>e m s. s = be_bytes 64 (checksum 64 (unat e) m)),
      sha256 = (\<lambda>m. be_bytes 32 (checksum 32 7 m)),
      relay_parse = (\<lambda>s. if utf8 s then Some s else None),
      b64_encode = hex_encode,
      b64_decode = hex_decode\<rparr>"

lemma unat_256_less: "unat e < 256 ^ 32" for e :: "256 word"
  using unsigned_less [of e, where ?'a = nat] by simp

interpretation sample: external sample_lib
proof
  show "utf8 s \<Longrightarrow> length s < 2 ^ 64 \<Longrightarrow>
      dec_str (codec sample_lib) (enc_str (codec sample_lib) s @ r) = Some (s, r)" for s r
    by (simp add: sample_lib_def rfc.dec_str_enc)
  show "length b < 2 ^ 64 \<Longrightarrow>
      dec_bytes (codec sample_lib) (enc_bytes (codec sample_lib) b @ r) = Some (b, r)" for b r
    by (simp add: sample_lib_def rfc.dec_bytes_enc)
  show "dec_str (codec sample_lib) r = Some (s, r') \<Longrightarrow> utf8 s" for r s r'
    using rfc.dec_str_utf8 by (simp add: sample_lib_def)
  show "ep_from_bytes sample_lib (ep_bytes sample_lib e) = Some e" for e
    using unat_256_less [of e] by (simp add: sample_lib_def be_val_be_bytes)
  show "ep_from_bytes sample_lib b = Some e \<Longrightarrow> ep_bytes sample_lib e = b" for b e
    using be_val_bound [of b] be_bytes_be_val [of b]
    by (auto simp: sample_lib_def unat_of_nat split: if_splits)
qed (simp_all add: sample_lib_def rfc.dec_array_enc rfc.dec_u64_enc rfc.dec_map_enc rfc.enc_bytes_length
    rfc.enc_array_size rfc.enc_u64_size rfc.enc_map_size rfc.enc_bytes_size rfc.enc_str_size
    hex_decode_encode split: if_splits)

interpretation sample: ordered_external sample_lib
  by (rule ordered_external.intro) (rule sample.external_axioms)

end
