(* ===== verification/Topics.thy ===== *)
theory Topics
  imports Prelude
begin

text \<open>
  Topic names, delivery modes and message identities: the plain data of
  \<^verbatim>\<open>src/src/message.rs\<close>. A \<open>Topic\<close> is a checked string; its order (used by the ordered maps and
  by the certificate format) is the derived one, the byte order of the string.
\<close>

section \<open>Topics\<close>

datatype topic = Topic (as_str: string)

instantiation topic :: linorder
begin

definition less_eq_topic :: "topic \<Rightarrow> topic \<Rightarrow> bool" where
  "less_eq_topic a b \<longleftrightarrow> as_str a \<le> as_str b"

definition less_topic :: "topic \<Rightarrow> topic \<Rightarrow> bool" where
  "less_topic a b \<longleftrightarrow> as_str a < as_str b"

instance
  by standard (auto simp: less_eq_topic_def less_topic_def topic.expand)

end

text \<open>\<open>str::split\<close> with a single separator: \<open>n\<close> separators give \<open>n + 1\<close> pieces.\<close>

fun split_on :: "char \<Rightarrow> string \<Rightarrow> string list" where
  "split_on c [] = [[]]"
| "split_on c (x # xs) =
     (if x = c then [] # split_on c xs
      else case split_on c xs of [] \<Rightarrow> [[x]] | p # ps \<Rightarrow> (x # p) # ps)"

definition is_ascii_alphanumeric :: "char \<Rightarrow> bool" where
  "is_ascii_alphanumeric c \<longleftrightarrow>
     (let b = (of_char c :: nat) in
      (48 \<le> b \<and> b \<le> 57) \<or> (65 \<le> b \<and> b \<le> 90) \<or> (97 \<le> b \<and> b \<le> 122))"

definition topic_new :: "string \<Rightarrow> topic result" where
  "topic_new s =
     (if s = [] \<or> length s > 256 \<or> list_ex (\<lambda>p. p = []) (split_on (CHR ''/'') s)
         \<or> \<not> list_all (\<lambda>b. is_ascii_alphanumeric b \<or> List.member ''-_./'' b) s
      then Inl InvalidTopic
      else Inr (Topic s))"

definition wf_topic :: "topic \<Rightarrow> bool" where
  "wf_topic t \<longleftrightarrow> topic_new (as_str t) = Inr t"

text \<open>The specification of a topic name: a path of non-empty segments joined by slashes.\<close>

definition topic_char :: "char \<Rightarrow> bool" where
  "topic_char b \<longleftrightarrow> is_ascii_alphanumeric b \<or> b \<in> set ''-_.''"

fun join_slash :: "string list \<Rightarrow> string" where
  "join_slash [] = []"
| "join_slash [p] = p"
| "join_slash (p # q # ps) = p @ CHR ''/'' # join_slash (q # ps)"

definition topic_path :: "string list \<Rightarrow> bool" where
  "topic_path ps \<longleftrightarrow> ps \<noteq> [] \<and> (\<forall>p \<in> set ps. p \<noteq> [] \<and> (\<forall>b \<in> set p. topic_char b))
     \<and> length (join_slash ps) \<le> 256"

lemma split_on_nonempty [simp]: "split_on c s \<noteq> []"
  by (induction s) (auto split: list.splits)

lemma join_split: "join_slash (split_on (CHR ''/'') s) = s"
proof (induction s)
  case (Cons x xs)
  obtain p ps where "split_on (CHR ''/'') xs = p # ps"
    using split_on_nonempty by (cases "split_on (CHR ''/'') xs") auto
  with Cons show ?case
    by (cases ps) auto
qed simp

lemma split_on_append:
  "c \<notin> set p \<Longrightarrow> split_on c (p @ c # s) = p # split_on c s"
  by (induction p) auto

lemma split_on_single: "c \<notin> set p \<Longrightarrow> split_on c p = [p]"
  by (induction p) auto

lemma split_join:
  "ps \<noteq> [] \<Longrightarrow> \<forall>p \<in> set ps. CHR ''/'' \<notin> set p \<Longrightarrow> split_on (CHR ''/'') (join_slash ps) = ps"
  by (induction ps rule: join_slash.induct) (auto simp: split_on_append split_on_single)

lemma split_on_chars: "p \<in> set (split_on c s) \<Longrightarrow> b \<in> set p \<Longrightarrow> b \<in> set s \<and> b \<noteq> c"
proof (induction s arbitrary: p)
  case (Cons x xs)
  then show ?case
    by (cases "split_on c xs") (fastforce split: if_splits)+
qed simp

lemma join_slash_chars:
  "b \<in> set (join_slash ps) \<Longrightarrow> b = CHR ''/'' \<or> (\<exists>p \<in> set ps. b \<in> set p)"
  by (induction ps rule: join_slash.induct) auto

lemma topic_char_slash [simp]: "\<not> topic_char (CHR ''/'')"
  by (simp add: topic_char_def is_ascii_alphanumeric_def)

lemma topic_char_or_slash:
  "is_ascii_alphanumeric b \<or> b \<in> set ''-_./'' \<longleftrightarrow> topic_char b \<or> b = CHR ''/''"
  by (auto simp: topic_char_def)

lemma topic_new_Inr: "topic_new s = Inr t \<longleftrightarrow> t = Topic s \<and> (\<exists>ps. topic_path ps \<and> s = join_slash ps)"
proof
  assume new: "topic_new s = Inr t"
  define ps where "ps = split_on (CHR ''/'') s"
  from new have t: "t = Topic s" and len: "length s \<le> 256"
    and nonempty: "\<forall>p \<in> set ps. p \<noteq> []" and chars: "\<forall>b \<in> set s. topic_char b \<or> b = CHR ''/''"
    by (auto simp: topic_new_def list_ex_iff list_all_iff ps_def topic_char_or_slash [symmetric]
        split: if_splits)
  have s: "join_slash ps = s"
    by (simp add: ps_def join_split)
  have "topic_char b" if "p \<in> set ps" "b \<in> set p" for p b
    using split_on_chars [of p "CHR ''/''" s b] that chars by (auto simp: ps_def)
  with nonempty len s have "topic_path ps"
    by (auto simp: topic_path_def) (simp add: ps_def)
  with t s show "t = Topic s \<and> (\<exists>ps. topic_path ps \<and> s = join_slash ps)"
    by auto
next
  assume "t = Topic s \<and> (\<exists>ps. topic_path ps \<and> s = join_slash ps)"
  then obtain ps where t: "t = Topic s" and ps: "topic_path ps" and s: "s = join_slash ps"
    by auto
  then have "\<forall>p \<in> set ps. CHR ''/'' \<notin> set p"
    using topic_char_slash by (auto simp: topic_path_def simp del: topic_char_slash)
  with ps have split: "split_on (CHR ''/'') s = ps"
    unfolding s by (intro split_join) (auto simp: topic_path_def)
  have "s \<noteq> []"
    using ps split by (auto simp: topic_path_def)
  moreover have "\<forall>b \<in> set s. is_ascii_alphanumeric b \<or> b \<in> set ''-_./''"
    using join_slash_chars [of _ ps] ps
    unfolding s topic_char_or_slash by (auto simp: topic_path_def)
  ultimately show "topic_new s = Inr t"
    using ps by (auto simp: topic_new_def t split list_ex_iff list_all_iff topic_path_def s [symmetric])
qed

lemma topic_new_wf: "topic_new s = Inr t \<Longrightarrow> wf_topic t \<and> as_str t = s"
  by (auto simp: wf_topic_def topic_new_def split: if_splits)

lemma wf_topic_new: "wf_topic t \<Longrightarrow> topic_new (as_str t) = Inr t"
  by (simp add: wf_topic_def)

lemma topic_new_error: "topic_new s = Inl e \<Longrightarrow> e = InvalidTopic"
  by (auto simp: topic_new_def split: if_splits)

lemma wf_topic_length: "wf_topic t \<Longrightarrow> length (as_str t) \<le> 256"
  by (auto simp: wf_topic_def topic_new_def split: if_splits)

lemma wf_topic_utf8: "wf_topic t \<Longrightarrow> utf8 (as_str t)"
proof (rule utf8_ascii, rule ballI)
  fix c assume "wf_topic t" and "c \<in> set (as_str t)"
  then have "is_ascii_alphanumeric c \<or> c \<in> set ''-_./''"
    by (auto simp: wf_topic_def topic_new_def list_all_iff split: if_splits)
  then show "of_char c < (128 :: nat)"
    by (auto simp: is_ascii_alphanumeric_def Let_def)
qed

section \<open>Delivery modes\<close>

datatype delivery_mode = BestEffort | Acknowledged

fun mode_number :: "delivery_mode \<Rightarrow> u64" where
  "mode_number BestEffort = 0"
| "mode_number Acknowledged = 1"

definition mode_decode :: "u64 \<Rightarrow> delivery_mode result" where
  "mode_decode n =
     (if n = 0 then Inr BestEffort
      else if n = 1 then Inr Acknowledged
      else Inl (Protocol ''delivery mode''))"

datatype nack = NackRetryable | NackPermanent

lemma mode_decode_number [simp]: "mode_decode (mode_number m) = Inr m"
  by (cases m) (simp_all add: mode_decode_def)

lemma mode_number_decode: "mode_decode n = Inr m \<Longrightarrow> mode_number m = n"
  by (auto simp: mode_decode_def split: if_splits)

section \<open>Properties\<close>

text \<open>A string is accepted as a topic exactly when it is a path of non-empty segments of letters,
  digits, dashes, underscores and dots joined by single slashes, of at most 256 bytes; then the
  topic is the string itself and otherwise the error is \<open>InvalidTopic\<close>.\<close>

theorem topic_new_paths:
  "topic_new s = (if \<exists>ps. topic_path ps \<and> s = join_slash ps then Inr (Topic s) else Inl InvalidTopic)"
proof (cases "topic_new s")
  case (Inl e)
  with topic_new_error [OF Inl] topic_new_Inr [of s "Topic s"] show ?thesis
    by auto
next
  case (Inr t)
  with topic_new_Inr [of s t] show ?thesis
    by auto
qed

end
