(* ===== verification/Buffer.thy ===== *)
theory Buffer
  imports Prelude
begin

text \<open>
  The memory accounting of \<^verbatim>\<open>src/src/buffer.rs\<close>. A \<open>Budget\<close> is a limit with two atomic
  counters; a \<open>Permit\<close> is a charge against it that is given back when the permit is dropped.
  The first part models the operations as the code performs them on the counters, the second
  one lets any number of threads interleave them at the granularity of the atomic
  instructions and shows that the counter always is the sum of the live permits, never passes
  the limit, and that the peak is the highest value ever reached. The third part is the view the other
  components use: the charge of a budget is the sum of the permits that are still reachable
  (dropping a value is forgetting its permits), with the lemma that both views agree.
\<close>

definition PAYLOAD_OVERHEAD :: nat where
  "PAYLOAD_OVERHEAD = 256"

text \<open>\<open>budget_id\<close> and \<open>permit_id\<close> stand for the identity of the allocations (\<open>Arc::ptr_eq\<close>);
  \<open>wake\<close> says that a notification of \<open>Budget::wake\<close> is outstanding.\<close>

record budget =
  budget_id :: nat
  limit :: nat
  used :: nat
  peak :: nat
  wake :: bool

record permit =
  permit_id :: nat
  permit_budget :: nat
  permit_n :: nat

definition budget_new :: "nat \<Rightarrow> nat \<Rightarrow> budget" where
  "budget_new i lim = \<lparr>budget_id = i, limit = lim, used = 0, peak = 0, wake = False\<rparr>"

text \<open>The closure of \<open>fetch_update\<close>: the new value of the counter, if it is allowed.\<close>

definition charge :: "budget \<Rightarrow> nat \<Rightarrow> nat option" where
  "charge b n =
     (case checked_add_usize (used b) n of
        None \<Rightarrow> None
      | Some v \<Rightarrow> if v \<le> limit b then Some v else None)"

definition reserve :: "budget \<Rightarrow> nat \<Rightarrow> nat \<Rightarrow> (permit \<times> budget) result" where
  "reserve b n i =
     (case charge b n of
        None \<Rightarrow> Inl QueueFull
      | Some v \<Rightarrow>
          Inr (\<lparr>permit_id = i, permit_budget = budget_id b, permit_n = n\<rparr>,
               b\<lparr>used := v, peak := max (peak b) (used b + n)\<rparr>))"

text \<open>\<open>AtomicUsize::fetch_sub\<close> wraps around.\<close>

definition fetch_sub :: "nat \<Rightarrow> nat \<Rightarrow> nat" where
  "fetch_sub a b = (a + 2 ^ 64 - b) mod 2 ^ 64"

text \<open>\<open>None\<close> is the panic of \<open>assert!\<close>.\<close>

definition shrink_to :: "permit \<Rightarrow> nat \<Rightarrow> budget \<Rightarrow> (permit \<times> budget) option" where
  "shrink_to p n b =
     (if n \<le> permit_n p
      then Some (p\<lparr>permit_n := n\<rparr>, b\<lparr>used := fetch_sub (used b) (permit_n p - n)\<rparr>)
      else None)"

definition drop_permit :: "permit \<Rightarrow> budget \<Rightarrow> budget" where
  "drop_permit p b = b\<lparr>used := fetch_sub (used b) (permit_n p), wake := True\<rparr>"

section \<open>Payload leases and the buffer pool\<close>

text \<open>A lease is shared by its clones: they are the same value.\<close>

record lease =
  lease_bytes :: bytes
  lease_permits :: "permit list"

definition lease_len :: "lease \<Rightarrow> nat" where
  "lease_len l = length (lease_bytes l)"

definition lease_received :: "bytes \<Rightarrow> permit list \<Rightarrow> lease" where
  "lease_received bs ps = \<lparr>lease_bytes = bs, lease_permits = ps\<rparr>"

record pool =
  pool_budget :: budget
  pool_max :: nat

definition pool_new :: "nat \<Rightarrow> nat \<Rightarrow> nat \<Rightarrow> pool" where
  "pool_new i max_bytes max_payload = \<lparr>pool_budget = budget_new i max_bytes, pool_max = max_payload\<rparr>"

definition resident_bytes :: "pool \<Rightarrow> nat" where
  "resident_bytes p = used (pool_budget p)"

definition copy_from_slice :: "pool \<Rightarrow> bytes \<Rightarrow> nat \<Rightarrow> (lease \<times> pool) result" where
  "copy_from_slice pl bs i =
     rbind (fail_if (length bs > pool_max pl) MessageTooLarge) (\<lambda>_.
     rbind (reserve (pool_budget pl) (length bs + PAYLOAD_OVERHEAD) i) (\<lambda>(p, b).
       Inr (lease_received bs [p], pl\<lparr>pool_budget := b\<rparr>)))"

text \<open>\<open>from_vec\<close> charges the capacity of the allocation it takes over.\<close>

definition from_vec :: "pool \<Rightarrow> bytes \<Rightarrow> nat \<Rightarrow> nat \<Rightarrow> (lease \<times> pool) result" where
  "from_vec pl bs capacity i =
     rbind (fail_if (length bs > pool_max pl) MessageTooLarge) (\<lambda>_.
     rbind (reserve (pool_budget pl) (capacity + PAYLOAD_OVERHEAD) i) (\<lambda>(p, b).
       Inr (lease_received bs [p], pl\<lparr>pool_budget := b\<rparr>)))"

definition owns :: "pool \<Rightarrow> lease \<Rightarrow> bool" where
  "owns pl l \<longleftrightarrow> list_ex (\<lambda>p. permit_budget p = budget_id (pool_budget pl)) (lease_permits l)"

section \<open>Lemmas on single operations\<close>

lemma charge_Some: "charge b n = Some v \<longleftrightarrow> v = used b + n \<and> v < 2 ^ 64 \<and> v \<le> limit b"
  by (auto simp: charge_def checked_add_usize_def split: option.splits if_splits)

lemma charge_None: "charge b n = None \<longleftrightarrow> \<not> (used b + n < 2 ^ 64 \<and> used b + n \<le> limit b)"
  by (auto simp: charge_def checked_add_usize_def split: option.splits if_splits)

lemma reserve_Inr:
  "reserve b n i = Inr (p, b') \<longleftrightarrow>
     used b + n < 2 ^ 64 \<and> used b + n \<le> limit b
     \<and> p = \<lparr>permit_id = i, permit_budget = budget_id b, permit_n = n\<rparr>
     \<and> b' = b\<lparr>used := used b + n, peak := max (peak b) (used b + n)\<rparr>"
  by (auto simp: reserve_def charge_def checked_add_usize_def split: option.splits if_splits)

lemma reserve_Inl: "reserve b n i = Inl e \<longleftrightarrow> e = QueueFull \<and> charge b n = None"
  by (auto simp: reserve_def split: option.splits)

lemma fetch_sub_eq [simp]: "n \<le> a \<Longrightarrow> a < 2 ^ 64 \<Longrightarrow> fetch_sub a n = a - n"
proof -
  assume "n \<le> a" and "a < 2 ^ 64"
  then have "a + 2 ^ 64 - n = (a - n) + 2 ^ 64" and "a - n < 2 ^ 64"
    by simp_all
  then show ?thesis
    by (simp only: fetch_sub_def mod_add_self2 mod_less)
qed

section \<open>Interleavings of the atomic instructions\<close>

text \<open>
  \<open>live\<close> are the permits that exist, \<open>inflight\<close> the reservations between the \<open>fetch_update\<close>
  and the \<open>fetch_max\<close> (with the value \<open>old + n\<close> they will report), \<open>high\<close> is the highest
  value the counter ever had.
\<close>

record accounting =
  counter :: budget
  live :: "permit list"
  inflight :: "(permit \<times> nat) list"
  high :: nat

definition accounting_init :: "nat \<Rightarrow> nat \<Rightarrow> accounting" where
  "accounting_init i lim = \<lparr>counter = budget_new i lim, live = [], inflight = [], high = 0\<rparr>"

text \<open>One atomic instruction of one thread. A refused \<open>fetch_update\<close> changes nothing.\<close>

inductive acc_step :: "accounting \<Rightarrow> accounting \<Rightarrow> bool" where
  fetch_update: "charge (counter s) n = Some v \<Longrightarrow>
    p = \<lparr>permit_id = i, permit_budget = budget_id (counter s), permit_n = n\<rparr> \<Longrightarrow>
    acc_step s (s\<lparr>counter := (counter s)\<lparr>used := v\<rparr>, inflight := (p, v) # inflight s,
                  high := max (high s) v\<rparr>)"
| fetch_max: "inflight s = xs @ (p, v) # ys \<Longrightarrow>
    acc_step s (s\<lparr>counter := (counter s)\<lparr>peak := max (peak (counter s)) v\<rparr>,
                  live := p # live s, inflight := xs @ ys\<rparr>)"
| shrink: "live s = xs @ p # ys \<Longrightarrow> shrink_to p n (counter s) = Some (p', b') \<Longrightarrow>
    acc_step s (s\<lparr>counter := b', live := xs @ p' # ys\<rparr>)"
| drop: "live s = xs @ p # ys \<Longrightarrow>
    acc_step s (s\<lparr>counter := drop_permit p (counter s), live := xs @ ys\<rparr>)"

inductive acc_reach :: "nat \<Rightarrow> nat \<Rightarrow> accounting \<Rightarrow> bool" for i lim where
  init: "acc_reach i lim (accounting_init i lim)"
| step: "acc_reach i lim s \<Longrightarrow> acc_step s t \<Longrightarrow> acc_reach i lim t"

definition total :: "permit list \<Rightarrow> nat" where
  "total ps = sum_list (map permit_n ps)"

definition acc_inv :: "nat \<Rightarrow> accounting \<Rightarrow> bool" where
  "acc_inv lim s \<longleftrightarrow>
     limit (counter s) = lim
     \<and> used (counter s) = total (live s) + total (map fst (inflight s))
     \<and> used (counter s) \<le> high s
     \<and> high s \<le> lim \<and> high s < 2 ^ 64
     \<and> high s = foldr max (map snd (inflight s)) (peak (counter s))"

lemma total_simps [simp]:
  "total [] = 0" "total (p # ps) = permit_n p + total ps" "total (ps @ qs) = total ps + total qs"
  by (simp_all add: total_def)

lemma foldr_max_start: "foldr max xs (max a v) = max v (foldr max xs a)" for a v :: nat
  by (induction xs) (simp_all add: max.left_commute max.commute)

lemma foldr_max_mid: "foldr max xs (max v (foldr max ys a)) = max v (foldr max xs (foldr max ys a))"
  for a v :: nat
  using foldr_max_start [of xs "foldr max ys a" v] by (simp add: max.commute)

lemma acc_step_inv: "acc_step s t \<Longrightarrow> acc_inv lim s \<Longrightarrow> acc_inv lim t"
proof (induction rule: acc_step.induct)
  case (fetch_update s n v p i)
  then show ?case
    by (auto simp: acc_inv_def charge_Some)
next
  case (fetch_max s xs p v ys)
  then show ?case
    by (auto simp: acc_inv_def foldr_max_start foldr_max_mid)
next
  case (shrink s xs p ys n p' b')
  then have n: "n \<le> permit_n p" and eqs: "p' = p\<lparr>permit_n := n\<rparr>"
      "b' = (counter s)\<lparr>used := fetch_sub (used (counter s)) (permit_n p - n)\<rparr>"
    by (auto simp: shrink_to_def split: if_splits)
  moreover have "permit_n p - n \<le> used (counter s)" "used (counter s) < 2 ^ 64"
    using shrink by (auto simp: acc_inv_def)
  ultimately show ?case
    using shrink.prems shrink.hyps(1) by (simp add: acc_inv_def)
next
  case (drop s xs p ys)
  then have "permit_n p \<le> used (counter s)" "used (counter s) < 2 ^ 64"
    by (auto simp: acc_inv_def)
  with drop show ?case
    by (simp add: acc_inv_def drop_permit_def)
qed

lemma acc_reach_inv: "acc_reach i lim s \<Longrightarrow> acc_inv lim s"
proof (induction rule: acc_reach.induct)
  case init
  show ?case by (simp add: acc_inv_def accounting_init_def budget_new_def)
next
  case (step s t)
  then show ?case by (blast intro: acc_step_inv)
qed

section \<open>The charge as the sum of the reachable permits\<close>

text \<open>
  The components that hold permits inside their state (in maps, queues, certificates shared by
  reference counting) do not call \<open>drop\<close>: a permit is given back when the last value that
  holds it goes away. Their models count a budget's charge as the sum of the permits that are
  still held somewhere, each once.
\<close>

definition charged :: "nat \<Rightarrow> permit list \<Rightarrow> nat" where
  "charged i ps = total (filter (\<lambda>p. permit_budget p = i) (remdups ps))"

record meter =
  meter_budget :: nat
  meter_limit :: nat
  meter_live :: "permit list"
  meter_next :: nat

definition meter_used :: "meter \<Rightarrow> nat" where
  "meter_used m = charged (meter_budget m) (meter_live m)"

definition meter_permit :: "meter \<Rightarrow> nat \<Rightarrow> permit" where
  "meter_permit m n = \<lparr>permit_id = meter_next m, permit_budget = meter_budget m, permit_n = n\<rparr>"

text \<open>\<open>Budget::reserve\<close> in this view; the new permit has a new identity.\<close>

definition admit :: "meter \<Rightarrow> nat \<Rightarrow> (permit \<times> meter) result" where
  "admit m n =
     (if meter_used m + n < 2 ^ 64 \<and> meter_used m + n \<le> meter_limit m
      then Inr (meter_permit m n,
                m\<lparr>meter_live := meter_permit m n # meter_live m, meter_next := Suc (meter_next m)\<rparr>)
      else Inl QueueFull)"

definition forget :: "permit \<Rightarrow> meter \<Rightarrow> meter" where
  "forget p m = m\<lparr>meter_live := removeAll p (meter_live m)\<rparr>"

definition meter_ok :: "meter \<Rightarrow> bool" where
  "meter_ok m \<longleftrightarrow>
     (\<forall>p \<in> set (meter_live m). permit_id p < meter_next m) \<and> meter_used m \<le> meter_limit m"

text \<open>What the clients of a budget rely on, for whichever way its charge is kept.\<close>

locale budget_view =
  fixes inv :: "'s \<Rightarrow> bool"
    and charge_of :: "'s \<Rightarrow> nat"
    and bound_of :: "'s \<Rightarrow> nat"
    and acquire :: "'s \<Rightarrow> nat \<Rightarrow> (permit \<times> 's) result"
    and release :: "permit \<Rightarrow> 's \<Rightarrow> 's"
  assumes acquire_ok: "inv s \<Longrightarrow> acquire s n = Inr (p, t) \<Longrightarrow>
      inv t \<and> permit_n p = n \<and> charge_of t = charge_of s + n \<and> bound_of t = bound_of s"
    and acquire_full: "acquire s n = Inl e \<Longrightarrow>
      e = QueueFull \<and> \<not> (charge_of s + n < 2 ^ 64 \<and> charge_of s + n \<le> bound_of s)"
    and acquire_bound: "acquire s n = Inr (p, t) \<Longrightarrow> charge_of s + n \<le> bound_of s"
    and acquire_release: "inv s \<Longrightarrow> acquire s n = Inr (p, t) \<Longrightarrow>
      charge_of (release p t) = charge_of s \<and> bound_of (release p t) = bound_of s"
begin

text \<open>A series of reservations, as \<open>publish\<close> and \<open>grant_credits\<close> make them: the first failure
  ends it.\<close>

fun acquire_all :: "'s \<Rightarrow> nat list \<Rightarrow> (permit list \<times> 's) result" where
  "acquire_all s [] = Inr ([], s)"
| "acquire_all s (n # ns) =
     rbind (acquire s n) (\<lambda>(p, t). rbind (acquire_all t ns) (\<lambda>(ps, u). Inr (p # ps, u)))"

lemma acquire_all_charge:
  "inv s \<Longrightarrow> acquire_all s ns = Inr (ps, t) \<Longrightarrow>
     inv t \<and> map permit_n ps = ns \<and> charge_of t = charge_of s + sum_list ns \<and> bound_of t = bound_of s"
proof (induction ns arbitrary: s ps t)
  case (Cons n ns)
  then obtain p u qs where "acquire s n = Inr (p, u)" "acquire_all u ns = Inr (qs, t)" "ps = p # qs"
    by (auto simp: result_simps)
  with acquire_ok [OF Cons.prems(1)] Cons.IH [of u qs t] show ?case
    by fastforce
qed simp

lemma acquire_all_bound:
  assumes "inv s" and "charge_of s \<le> bound_of s" and "acquire_all s ns = Inr (ps, t)"
  shows "charge_of t \<le> bound_of t"
  using assms
proof (induction ns arbitrary: s ps)
  case (Cons n ns)
  then obtain p u qs where st: "acquire s n = Inr (p, u)" "acquire_all u ns = Inr (qs, t)"
    by (auto simp: result_simps)
  with acquire_ok [OF Cons.prems(1) st(1)] acquire_bound [OF st(1)] have "charge_of u \<le> bound_of u"
    by simp
  with Cons.IH [of u qs] st acquire_ok [OF Cons.prems(1) st(1)] show ?case
    by simp
qed simp

lemma acquire_all_error: "acquire_all s ns = Inl e \<Longrightarrow> e = QueueFull"
proof (induction ns arbitrary: s)
  case (Cons n ns)
  then show ?case
    by (auto simp: result_simps dest: acquire_full split: prod.splits)
qed simp

end

lemma charged_Cons:
  "p \<notin> set ps \<Longrightarrow> charged i (p # ps) = (if permit_budget p = i then permit_n p else 0) + charged i ps"
  by (simp add: charged_def)

lemma fresh_not_live: "meter_ok m \<Longrightarrow> meter_permit m n \<notin> set (meter_live m)"
  by (auto simp: meter_ok_def meter_permit_def)

lemma removeAll_fresh: "p \<notin> set ps \<Longrightarrow> removeAll p (p # ps) = ps"
  by simp

interpretation counting: budget_view
  "\<lambda>(b, i). used b \<le> limit b \<and> used b < 2 ^ 64"
  "\<lambda>(b, i). used b" "\<lambda>(b, i). limit b"
  "\<lambda>(b, i) n. rbind (reserve b n i) (\<lambda>(p, b'). Inr (p, (b', Suc i)))"
  "\<lambda>p (b, i). (drop_permit p b, i)"
  by unfold_locales
    (auto simp: result_simps reserve_Inr reserve_Inl charge_None drop_permit_def split: prod.splits)

interpretation reachable: budget_view meter_ok meter_used meter_limit admit forget
proof
  show "meter_ok t \<and> permit_n p = n \<and> meter_used t = meter_used s + n \<and> meter_limit t = meter_limit s"
    if "meter_ok s" "admit s n = Inr (p, t)" for s n p t
  proof -
    from that have p: "p = meter_permit s n"
      and t: "t = s\<lparr>meter_live := p # meter_live s, meter_next := Suc (meter_next s)\<rparr>"
      and bound: "meter_used s + n \<le> meter_limit s"
      by (auto simp: admit_def split: if_splits)
    have "meter_used t = meter_used s + n"
      using fresh_not_live [OF that(1), of n]
      by (simp add: t p meter_used_def charged_Cons) (simp add: meter_permit_def)
    with bound that(1) show ?thesis
      by (auto simp: t p meter_ok_def meter_permit_def)
  qed
  show "meter_used (forget p t) = meter_used s \<and> meter_limit (forget p t) = meter_limit s"
    if "meter_ok s" "admit s n = Inr (p, t)" for s n p t
    using that fresh_not_live [OF that(1), of n]
    by (auto simp: admit_def forget_def meter_used_def split: if_splits)
qed (auto simp: admit_def split: if_splits)

text \<open>The two views agree step by step.\<close>

definition agree :: "budget \<Rightarrow> meter \<Rightarrow> bool" where
  "agree b m \<longleftrightarrow> budget_id b = meter_budget m \<and> limit b = meter_limit m \<and> used b = meter_used m"

lemma agree_reserve:
  assumes "agree b m" and "meter_ok m"
  shows "(\<exists>e. reserve b n (meter_next m) = Inl e \<and> admit m n = Inl e)
    \<or> (\<exists>p b' m'. reserve b n (meter_next m) = Inr (p, b') \<and> admit m n = Inr (p, m') \<and> agree b' m')"
proof (cases "admit m n")
  case (Inl e)
  with assms(1) show ?thesis
    by (auto simp: admit_def agree_def reserve_Inl charge_None split: if_splits)
next
  case (Inr q)
  then obtain p m' where q: "admit m n = Inr (p, m')"
    by (cases q) auto
  with reachable.acquire_ok [OF assms(2) q] assms(1) show ?thesis
    by (auto simp: admit_def agree_def reserve_Inr meter_permit_def split: if_splits)
qed

section \<open>Properties\<close>

text \<open>C31. Whatever order the atomic instructions of concurrent reservations, shrinks and drops take,
  the counter of a budget is the sum of the permits that exist or are being handed out, it
  never exceeds the limit, and when no reservation is in flight the recorded peak is the highest value
  the counter ever had.\<close>

theorem budget_accounting:
  assumes "acc_reach i lim s"
  shows "used (counter s) = total (live s) + total (map fst (inflight s))
    \<and> used (counter s) \<le> lim \<and> limit (counter s) = lim
    \<and> (inflight s = [] \<longrightarrow> peak (counter s) = high s)"
  using acc_reach_inv [OF assms] by (auto simp: acc_inv_def)

lemma budget_run:
  "acc_reach 0 10
     \<lparr>counter = \<lparr>budget_id = 0, limit = 10, used = 0, peak = 7, wake = True\<rparr>, live = [], inflight = [], high = 7\<rparr>"
proof -
  let ?p = "\<lparr>permit_id = 5, permit_budget = 0, permit_n = 7\<rparr>"
  let ?s1 = "\<lparr>counter = \<lparr>budget_id = 0, limit = 10, used = 7, peak = 0, wake = False\<rparr>, live = [],
      inflight = [(?p, 7)], high = 7\<rparr>"
  let ?s2 = "\<lparr>counter = \<lparr>budget_id = 0, limit = 10, used = 7, peak = 7, wake = False\<rparr>, live = [?p],
      inflight = [], high = 7\<rparr>"
  have "acc_reach 0 10 (accounting_init 0 10)"
    by (rule acc_reach.init)
  moreover have "acc_step (accounting_init 0 10) ?s1"
    using acc_step.fetch_update [of "accounting_init 0 10" 7 7 ?p 5]
    by (simp add: accounting_init_def budget_new_def charge_def checked_add_usize_def)
  moreover have "acc_step ?s1 ?s2"
    using acc_step.fetch_max [of ?s1 "[]" ?p 7 "[]"] by simp
  moreover have "acc_step ?s2
     \<lparr>counter = \<lparr>budget_id = 0, limit = 10, used = 0, peak = 7, wake = True\<rparr>, live = [], inflight = [], high = 7\<rparr>"
    using acc_step.drop [of ?s2 "[]" ?p "[]"] by (simp add: drop_permit_def)
  ultimately show ?thesis
    by (blast intro: acc_reach.step)
qed

theorem budget_accounting_witness:
  "peak (counter \<lparr>counter = \<lparr>budget_id = 0, limit = 10, used = 0, peak = 7, wake = True\<rparr>, live = [],
     inflight = [], high = 7\<rparr>) = (7 :: nat)"
  using budget_accounting [OF budget_run] by simp

text \<open>Charging the counter of a budget and charging the sum of the reachable permits are the same:
  from agreeing states a reservation fails in both with the same error or succeeds in both with
  the same permit, and the states agree again.\<close>

theorem budget_refinement:
  assumes "agree b m" and "meter_ok m"
  shows "case (reserve b n (meter_next m), admit m n) of
      (Inl e, Inl e') \<Rightarrow> e = QueueFull \<and> e' = QueueFull
    | (Inr (p, b'), Inr (p', m')) \<Rightarrow> p = p' \<and> permit_n p = n \<and> agree b' m' \<and> meter_ok m'
        \<and> used b' = used b + n
    | _ \<Rightarrow> False"
proof -
  from agree_reserve [OF assms, of n] consider
      (full) e where "reserve b n (meter_next m) = Inl e" "admit m n = Inl e"
    | (ok) p b' m' where "reserve b n (meter_next m) = Inr (p, b')" "admit m n = Inr (p, m')" "agree b' m'"
    by auto
  then show ?thesis
  proof cases
    case full
    moreover from full(1) have "e = QueueFull"
      by (simp add: reserve_Inl)
    ultimately show ?thesis
      by simp
  next
    case ok
    moreover from ok(1) have "used b' = used b + n"
      by (simp add: reserve_Inr)
    ultimately show ?thesis
      using reachable.acquire_ok [OF assms(2) ok(2)] by simp
  qed
qed

theorem budget_refinement_witness:
  "admit \<lparr>meter_budget = 3, meter_limit = 10, meter_live = [], meter_next = 0\<rparr> 10 \<noteq> Inl QueueFull"
  using budget_refinement [of "budget_new 3 10" "\<lparr>meter_budget = 3, meter_limit = 10, meter_live = [], meter_next = 0\<rparr>" 10]
  by (auto simp: agree_def meter_ok_def meter_used_def charged_def budget_new_def reserve_def
      charge_def checked_add_usize_def split: sum.splits)

end
