(* ===== verification/Auth.thy ===== *)
theory Auth
  imports External Topics Buffer
begin

text \<open>
  Authorization, \<^verbatim>\<open>src/src/auth.rs\<close>: permissions, certificate claims and their CBOR form, the
  COSE envelope and its signature, certificates, the realm authority that issues them, signed
  revocation snapshots and the \<open>Trust\<close> that decides whether a certificate is valid for an
  authenticated peer at a time. The lemmas show that the claims format is a canonical codec,
  that an issued certificate is accepted for its subject within its validity interval, what an
  accepted certificate guarantees, and that revocations only accumulate.
\<close>

unbundle bit_operations_syntax

definition MAX_CERT :: nat where
  "MAX_CERT = 15 * 1024"

definition MAX_PERMISSIONS :: nat where
  "MAX_PERMISSIONS = 256"

definition CERT_CONTEXT :: bytes where
  "CERT_CONTEXT = str_bytes ''iroh-mq/certificate/v1''"

definition REVOCATION_CONTEXT :: bytes where
  "REVOCATION_CONTEXT = str_bytes ''iroh-mq/revocation/v1''"

definition PROTECTED :: bytes where
  "PROTECTED = [0xa1, 0x01, 0x27]"

section \<open>Permissions and claims\<close>

record permission =
  p_topic :: topic
  p_publish :: bool
  p_subscribe :: bool

definition permission_publish :: "string \<Rightarrow> permission result" where
  "permission_publish s =
     rbind (topic_new s) (\<lambda>t. Inr \<lparr>p_topic = t, p_publish = True, p_subscribe = False\<rparr>)"

definition permission_subscribe :: "string \<Rightarrow> permission result" where
  "permission_subscribe s =
     rbind (topic_new s) (\<lambda>t. Inr \<lparr>p_topic = t, p_publish = False, p_subscribe = True\<rparr>)"

definition permission_both :: "string \<Rightarrow> permission result" where
  "permission_both s =
     rbind (topic_new s) (\<lambda>t. Inr \<lparr>p_topic = t, p_publish = True, p_subscribe = True\<rparr>)"

record limits =
  max_payload :: u64
  max_subscriptions :: u64

record 'e claims =
  cl_realm :: bytes
  cl_issuer :: 'e
  cl_id :: bytes
  cl_subject :: 'e
  cl_not_before :: u64
  cl_expires :: u64
  cl_permissions :: "permission list"
  cl_limits :: limits

text \<open>\<open>u64::from(publish) | (u64::from(subscribe) << 1)\<close>.\<close>

definition permission_mask :: "permission \<Rightarrow> u64" where
  "permission_mask p = of_bool (p_publish p) OR push_bit 1 (of_bool (p_subscribe p))"

definition w_permission :: "minicbor \<Rightarrow> permission \<Rightarrow> writer \<Rightarrow> writer" where
  "w_permission mc p =
     w_calls [w_array mc 2, w_text mc (as_str (p_topic p)), w_u mc (permission_mask p)]"

definition claims_encode :: "'e lib \<Rightarrow> 'e claims \<Rightarrow> bytes" where
  "claims_encode L c =
     (let mc = codec L in
      written
        [w_array mc 9,
         w_u mc 1,
         w_bytes mc (cl_realm c),
         w_bytes mc (ep_bytes L (cl_issuer c)),
         w_bytes mc (cl_id c),
         w_bytes mc (ep_bytes L (cl_subject c)),
         w_u mc (cl_not_before c),
         w_u mc (cl_expires c),
         w_array mc (length (cl_permissions c)),
         w_calls (map (w_permission mc) (cl_permissions c)),
         w_array mc 2,
         w_u mc (max_payload (cl_limits c)),
         w_u mc (max_subscriptions (cl_limits c))])"

text \<open>The loop of \<open>validate\<close>: every permission allows something and the topics increase.\<close>

fun permissions_sorted :: "topic option \<Rightarrow> permission list \<Rightarrow> bool" where
  "permissions_sorted prev [] = True"
| "permissions_sorted prev (p # ps) =
     (if (\<not> p_publish p \<and> \<not> p_subscribe p) 
         \<or> (case prev of None \<Rightarrow> False | Some v \<Rightarrow> v \<ge> p_topic p) then False
      else permissions_sorted (Some (p_topic p)) ps)"

definition claims_validate :: "'e claims \<Rightarrow> unit result" where
  "claims_validate c =
     (if cl_not_before c \<ge> cl_expires c \<or> length (cl_permissions c) > MAX_PERMISSIONS
      then Inl (Protocol ''certificate claims'')
      else if \<not> permissions_sorted None (cl_permissions c)
      then Inl (Protocol ''permissions must be unique and sorted'')
      else Inr ())"

definition endpoint :: "'e lib \<Rightarrow> bytes \<Rightarrow> 'e result" where
  "endpoint L b = ok_or (ep_from_bytes L b) (Protocol ''invalid endpoint key'')"

definition version :: "u64 \<Rightarrow> unit result" where
  "version v = fail_if (v \<noteq> 1) (Protocol ''unsupported version'')"

fun r_permissions :: "minicbor \<Rightarrow> nat \<Rightarrow> reader \<Rightarrow> permission list read" where
  "r_permissions mc 0 r = Inr ([], r)"
| "r_permissions mc (Suc n) r =
     rbind (r_array mc 2 r) (\<lambda>(_, r).
     rbind (r_text mc 256 r) (\<lambda>(s, r).
     rbind (topic_new s) (\<lambda>topic.
     rbind (r_u mc r) (\<lambda>(mask, r).
     rbind (fail_if (\<not> (1 \<le> mask \<and> mask \<le> 3)) (Protocol ''permission mask'')) (\<lambda>_.
     rbind (r_permissions mc n r) (\<lambda>(ps, r).
       Inr (\<lparr>p_topic = topic, p_publish = mask AND 1 \<noteq> 0, p_subscribe = mask AND 2 \<noteq> 0\<rparr> # ps, r)))))))"

definition claims_decode :: "'e lib \<Rightarrow> bytes \<Rightarrow> 'e claims result" where
  "claims_decode L b =
     (let mc = codec L in
      rbind (r_array mc 9 b) (\<lambda>(_, r).
      rbind (r_u mc r) (\<lambda>(v, r).
      rbind (version v) (\<lambda>_.
      rbind (r_fixed mc 16 r) (\<lambda>(realm, r).
      rbind (r_fixed mc 32 r) (\<lambda>(k, r).
      rbind (endpoint L k) (\<lambda>issuer.
      rbind (r_fixed mc 16 r) (\<lambda>(cid, r).
      rbind (r_fixed mc 32 r) (\<lambda>(k, r).
      rbind (endpoint L k) (\<lambda>subject.
      rbind (r_u mc r) (\<lambda>(not_before, r).
      rbind (r_u mc r) (\<lambda>(expires, r).
      rbind (r_list mc MAX_PERMISSIONS r) (\<lambda>(count, r).
      rbind (r_permissions mc count r) (\<lambda>(permissions, r).
      rbind (r_array mc 2 r) (\<lambda>(_, r).
      rbind (r_u mc r) (\<lambda>(mp, r).
      rbind (r_u mc r) (\<lambda>(ms, r).
      rbind (r_end r) (\<lambda>_.
      (let c = \<lparr>cl_realm = realm, cl_issuer = issuer, cl_id = cid, cl_subject = subject,
                cl_not_before = not_before, cl_expires = expires, cl_permissions = permissions,
                cl_limits = \<lparr>max_payload = mp, max_subscriptions = ms\<rparr>\<rparr>
       in rbind (claims_validate c) (\<lambda>_.
          rbind (canonical b (claims_encode L c)) (\<lambda>_.
            Inr c)))))))))))))))))))))"

section \<open>COSE\<close>

definition signing_bytes :: "'e lib \<Rightarrow> bytes \<Rightarrow> bytes \<Rightarrow> bytes" where
  "signing_bytes L payload context =
     (let mc = codec L in
      written [w_array mc 4, w_text mc ''Signature1'', w_bytes mc PROTECTED,
               w_bytes mc context, w_bytes mc payload])"

definition cose :: "'e lib \<Rightarrow> bytes \<Rightarrow> bytes \<Rightarrow> bytes" where
  "cose L payload signature =
     (let mc = codec L in
      written [w_array mc 4, w_bytes mc PROTECTED, w_empty_map mc, w_bytes mc payload,
               w_bytes mc signature])"

definition sign_cose :: "'e lib \<Rightarrow> bytes \<Rightarrow> bytes \<Rightarrow> bytes \<Rightarrow> bytes" where
  "sign_cose L payload key context =
     cose L payload (key_sign L key (signing_bytes L payload context))"

definition parse_cose :: "'e lib \<Rightarrow> bytes \<Rightarrow> nat \<Rightarrow> (bytes \<times> bytes) result" where
  "parse_cose L bs mx =
     (let mc = codec L in
      rbind (fail_if (length bs > mx) MessageTooLarge) (\<lambda>_.
      rbind (r_array mc 4 bs) (\<lambda>(_, r).
      rbind (r_bytes mc 3 r) (\<lambda>(p, r).
      rbind (fail_if (p \<noteq> PROTECTED) (Protocol ''unsupported COSE protected headers'')) (\<lambda>_.
      rbind (r_empty_map mc r) (\<lambda>(_, r).
      rbind (r_bytes mc mx r) (\<lambda>(payload, r).
      rbind (r_fixed mc 64 r) (\<lambda>(signature, r).
      rbind (r_end r) (\<lambda>_.
      rbind (canonical bs (cose L payload signature)) (\<lambda>_.
        Inr (payload, signature)))))))))))"

definition verify_cose :: "'e lib \<Rightarrow> bytes \<Rightarrow> 'e \<Rightarrow> bytes \<Rightarrow> nat \<Rightarrow> bytes result" where
  "verify_cose L bs key context mx =
     rbind (parse_cose L bs mx) (\<lambda>(payload, signature).
     rbind (fail_if (\<not> ep_verify L key (signing_bytes L payload context) signature) InvalidSignature) (\<lambda>_.
       Inr payload))"

section \<open>Certificates\<close>

record 'e certificate =
  c_claims :: "'e claims"
  c_bytes :: bytes
  c_memory :: "permit option"

definition certificate_from_bytes :: "'e lib \<Rightarrow> bytes \<Rightarrow> 'e certificate result" where
  "certificate_from_bytes L b =
     rbind (parse_cose L b MAX_CERT) (\<lambda>(payload, _).
     rbind (claims_decode L payload) (\<lambda>claims.
       Inr \<lparr>c_claims = claims, c_bytes = b, c_memory = None\<rparr>))"

definition certificate_metered :: "'e certificate \<Rightarrow> meter \<Rightarrow> ('e certificate \<times> meter) result" where
  "certificate_metered c m =
     rbind (admit m (length (c_bytes c) * 4 + 16 * 1024)) (\<lambda>(p, m).
       Inr (c\<lparr>c_memory := Some p\<rparr>, m))"

definition endpoint_id :: "'e certificate \<Rightarrow> 'e" where
  "endpoint_id c = cl_subject (c_claims c)"

definition certificate_id :: "'e certificate \<Rightarrow> bytes" where
  "certificate_id c = cl_id (c_claims c)"

definition expires_at :: "'e certificate \<Rightarrow> u64" where
  "expires_at c = cl_expires (c_claims c)"

definition certificate_limits :: "'e certificate \<Rightarrow> limits" where
  "certificate_limits c = cl_limits (c_claims c)"

definition allows :: "'e certificate \<Rightarrow> topic \<Rightarrow> bool \<Rightarrow> bool" where
  "allows c topic publish =
     list_ex (\<lambda>p. p_topic p = topic \<and> (if publish then p_publish p else p_subscribe p))
       (cl_permissions (c_claims c))"

section \<open>Trust\<close>

record 'e trust =
  t_realm :: bytes
  t_root :: 'e
  t_revoked :: "bytes set"
  t_version :: u64
  t_freshness :: "u64 option"
  clock_skew_secs :: u64

definition trust_new :: "bytes \<Rightarrow> 'e \<Rightarrow> 'e trust" where
  "trust_new realm root =
     \<lparr>t_realm = realm, t_root = root, t_revoked = {}, t_version = 0, t_freshness = None,
      clock_skew_secs = 0\<rparr>"

definition revoked_count :: "'e trust \<Rightarrow> nat" where
  "revoked_count t = card (t_revoked t)"

definition deny_certificate :: "'e trust \<Rightarrow> bytes \<Rightarrow> 'e trust result" where
  "deny_certificate t cid =
     (if card (t_revoked t) \<ge> 4096 \<and> cid \<notin> t_revoked t then Inl QueueFull
      else Inr (t\<lparr>t_revoked := insert cid (t_revoked t)\<rparr>))"

fun r_ids :: "minicbor \<Rightarrow> nat \<Rightarrow> reader \<Rightarrow> bytes list read" where
  "r_ids mc 0 r = Inr ([], r)"
| "r_ids mc (Suc n) r =
     rbind (r_fixed mc 16 r) (\<lambda>(cid, r). rbind (r_ids mc n r) (\<lambda>(ids, r). Inr (cid # ids, r)))"

definition revocation_encode :: "'e lib \<Rightarrow> bytes \<Rightarrow> u64 \<Rightarrow> u64 \<Rightarrow> u64 \<Rightarrow> bytes list \<Rightarrow> bytes" where
  "revocation_encode L realm v issued expires ids =
     (let mc = codec L in
      written [w_array mc 6, w_u mc 1, w_bytes mc realm, w_u mc v, w_u mc issued, w_u mc expires,
               w_array mc (length ids), w_calls (map (w_bytes mc) ids)])"

definition apply_revocations :: "'e lib \<Rightarrow> 'e trust \<Rightarrow> bytes \<Rightarrow> u64 \<Rightarrow> 'e trust result" where
  "apply_revocations L t snapshot now =
     (let mc = codec L in
      rbind (verify_cose L snapshot (t_root t) REVOCATION_CONTEXT (128 * 1024)) (\<lambda>b.
      rbind (r_array mc 6 b) (\<lambda>(_, r).
      rbind (r_u mc r) (\<lambda>(ver, r).
      rbind (version ver) (\<lambda>_.
      rbind (r_fixed mc 16 r) (\<lambda>(realm, r).
      rbind (fail_if (realm \<noteq> t_realm t) Unauthorized) (\<lambda>_.
      rbind (r_u mc r) (\<lambda>(v, r).
      rbind (r_u mc r) (\<lambda>(issued, r).
      rbind (r_u mc r) (\<lambda>(expires, r).
      rbind (fail_if (v \<le> t_version t \<or> issued > now \<or> now \<ge> expires \<or> issued \<ge> expires)
               Unauthorized) (\<lambda>_.
      rbind (r_list mc 4096 r) (\<lambda>(n, r).
      rbind (r_ids mc n r) (\<lambda>(ids, r).
      rbind (r_end r) (\<lambda>_.
      rbind (canonical b (revocation_encode L (t_realm t) v issued expires ids)) (\<lambda>_.
      (let merged = set ids \<union> t_revoked t in
       rbind (fail_if (card merged > 4096) QueueFull) (\<lambda>_.
         Inr (t\<lparr>t_revoked := merged, t_version := v, t_freshness := Some expires\<rparr>))))))))))))))))))"

text \<open>A revocation snapshot is its COSE bytes.\<close>

definition snapshot_from_bytes :: "'e lib \<Rightarrow> bytes \<Rightarrow> bytes result" where
  "snapshot_from_bytes L b = rbind (parse_cose L b (128 * 1024)) (\<lambda>_. Inr b)"

definition check :: "'e trust \<Rightarrow> 'e certificate \<Rightarrow> 'e \<Rightarrow> u64 \<Rightarrow> unit result" where
  "check t c peer now =
     (if cl_realm (c_claims c) \<noteq> t_realm t \<or> cl_issuer (c_claims c) \<noteq> t_root t
         \<or> cl_subject (c_claims c) \<noteq> peer \<or> certificate_id c \<in> t_revoked t
      then Inl Unauthorized
      else if saturating_add now (clock_skew_secs t) < cl_not_before (c_claims c)
         \<or> now \<ge> saturating_add (cl_expires (c_claims c)) (clock_skew_secs t)
      then Inl CertificateExpired
      else if (case t_freshness t of None \<Rightarrow> False | Some deadline \<Rightarrow> now \<ge> deadline)
      then Inl Unauthorized
      else Inr ())"

definition trust_verify :: "'e lib \<Rightarrow> 'e trust \<Rightarrow> 'e certificate \<Rightarrow> 'e \<Rightarrow> u64 \<Rightarrow> unit result" where
  "trust_verify L t c peer now =
     rbind (verify_cose L (c_bytes c) (t_root t) CERT_CONTEXT MAX_CERT) (\<lambda>_. check t c peer now)"

section \<open>The authority\<close>

record authority =
  a_key :: bytes
  a_realm :: bytes

definition authority_trust :: "'e lib \<Rightarrow> authority \<Rightarrow> 'e trust" where
  "authority_trust L a = trust_new (a_realm a) (key_public L (a_key a))"

text \<open>\<open>cid\<close> is the random certificate identifier that \<open>issue\<close> draws.\<close>

definition authority_issue ::
  "'e lib \<Rightarrow> authority \<Rightarrow> bytes \<Rightarrow> 'e \<Rightarrow> permission list \<Rightarrow> u64 \<Rightarrow> u64 \<Rightarrow> limits \<Rightarrow> 'e certificate result"
where
  "authority_issue L a cid subject permissions not_before expires lims =
     (let c = \<lparr>cl_realm = a_realm a, cl_issuer = key_public L (a_key a), cl_id = cid,
               cl_subject = subject, cl_not_before = not_before, cl_expires = expires,
               cl_permissions = sort_key p_topic permissions, cl_limits = lims\<rparr>
      in rbind (claims_validate c) (\<lambda>_.
           certificate_from_bytes L (sign_cose L (claims_encode L c) (a_key a) CERT_CONTEXT)))"

text \<open>What \<open>issue\<close> signs.\<close>

definition issued_bytes ::
  "'e lib \<Rightarrow> authority \<Rightarrow> bytes \<Rightarrow> 'e \<Rightarrow> permission list \<Rightarrow> u64 \<Rightarrow> u64 \<Rightarrow> limits \<Rightarrow> bytes"
where
  "issued_bytes L a cid subject permissions not_before expires lims =
     sign_cose L (claims_encode L \<lparr>cl_realm = a_realm a, cl_issuer = key_public L (a_key a), cl_id = cid,
         cl_subject = subject, cl_not_before = not_before, cl_expires = expires,
         cl_permissions = sort_key p_topic permissions, cl_limits = lims\<rparr>) (a_key a) CERT_CONTEXT"

section \<open>The claims format\<close>

definition wf_permission :: "permission \<Rightarrow> bool" where
  "wf_permission p \<longleftrightarrow> wf_topic (p_topic p) \<and> (p_publish p \<or> p_subscribe p)"

definition wf_claims :: "'e claims \<Rightarrow> bool" where
  "wf_claims c \<longleftrightarrow> length (cl_realm c) = 16 \<and> length (cl_id c) = 16
     \<and> (\<forall>p \<in> set (cl_permissions c). wf_topic (p_topic p)) \<and> claims_validate c = Inr ()"

lemma record_eta [simp]:
  "\<lparr>max_payload = max_payload l, max_subscriptions = max_subscriptions l\<rparr> = l"
  "\<lparr>p_topic = p_topic p, p_publish = p_publish p, p_subscribe = p_subscribe p\<rparr> = p"
  "\<lparr>cl_realm = cl_realm c, cl_issuer = cl_issuer c, cl_id = cl_id c, cl_subject = cl_subject c,
    cl_not_before = cl_not_before c, cl_expires = cl_expires c, cl_permissions = cl_permissions c,
    cl_limits = cl_limits c\<rparr> = c"
  by simp_all

lemma version_Inr [result_simps]: "version v = Inr u \<longleftrightarrow> v = 1"
  by (simp add: version_def result_simps)

lemma version_1 [simp]: "version 1 = Inr ()"
  by (simp add: version_def)

lemma endpoint_Inr [result_simps]: "endpoint L b = Inr e \<longleftrightarrow> ep_from_bytes L b = Some e"
  by (simp add: endpoint_def result_simps)

lemma permission_mask_bits:
  "permission_mask p AND 1 \<noteq> 0 \<longleftrightarrow> p_publish p"
  "permission_mask p AND 2 \<noteq> 0 \<longleftrightarrow> p_subscribe p"
  "1 \<le> permission_mask p \<and> permission_mask p \<le> 3 \<longleftrightarrow> p_publish p \<or> p_subscribe p"
  by (cases "p_publish p"; cases "p_subscribe p"; simp add: permission_mask_def)+

lemma w_calls_map:
  assumes "\<And>x w. f x w = w @ g x"
  shows "w_calls (map f xs) w = w @ concat (map g xs)"
  unfolding w_calls_def by (induction xs arbitrary: w) (simp_all add: assms)

definition permission_bytes :: "minicbor \<Rightarrow> permission \<Rightarrow> bytes" where
  "permission_bytes mc p =
     enc_array mc 2 @ enc_str mc (as_str (p_topic p)) @ enc_u64 mc (permission_mask p)"

lemma w_permission_append: "w_permission mc p w = w @ permission_bytes mc p"
  by (simp add: w_permission_def permission_bytes_def writer_defs)

lemma w_permissions_append:
  "w_calls (map (w_permission mc) ps) w = w @ concat (map (permission_bytes mc) ps)"
  by (intro w_calls_map w_permission_append)

text \<open>The encoding after its first head.\<close>

definition claims_body :: "'e lib \<Rightarrow> 'e claims \<Rightarrow> bytes" where
  "claims_body L c =
     enc_u64 (codec L) 1 @ enc_bytes (codec L) (cl_realm c)
     @ enc_bytes (codec L) (ep_bytes L (cl_issuer c)) @ enc_bytes (codec L) (cl_id c)
     @ enc_bytes (codec L) (ep_bytes L (cl_subject c)) @ enc_u64 (codec L) (cl_not_before c)
     @ enc_u64 (codec L) (cl_expires c) @ enc_array (codec L) (word_of_nat (length (cl_permissions c)))
     @ concat (map (permission_bytes (codec L)) (cl_permissions c)) @ enc_array (codec L) 2
     @ enc_u64 (codec L) (max_payload (cl_limits c)) @ enc_u64 (codec L) (max_subscriptions (cl_limits c))"

lemma claims_encode_eq: "claims_encode L c = enc_array (codec L) 9 @ claims_body L c"
  by (simp add: claims_encode_def claims_body_def Let_def written_def w_finish_def w_new_def
      w_calls_def [of "_ # _"] w_permissions_append w_array_def w_u_def w_bytes_def)

lemma permissions_sorted_allow: "permissions_sorted prev ps \<Longrightarrow> p \<in> set ps \<Longrightarrow> p_publish p \<or> p_subscribe p"
  by (induction prev ps rule: permissions_sorted.induct) (auto split: if_splits option.splits)

lemma permissions_sorted_iff:
  "permissions_sorted prev ps \<longleftrightarrow>
     (\<forall>p \<in> set ps. p_publish p \<or> p_subscribe p)
     \<and> sorted_wrt (<) (case prev of None \<Rightarrow> map p_topic ps | Some t \<Rightarrow> t # map p_topic ps)"
proof (induction prev ps rule: permissions_sorted.induct)
  case (2 prev p ps)
  then show ?case
    by (cases prev) (auto simp: not_le dest: less_trans)
qed (simp split: option.splits)

lemma claims_validate_Inr:
  "claims_validate c = Inr u \<longleftrightarrow>
     cl_not_before c < cl_expires c \<and> length (cl_permissions c) \<le> MAX_PERMISSIONS
     \<and> (\<forall>p \<in> set (cl_permissions c). p_publish p \<or> p_subscribe p)
     \<and> sorted_wrt (<) (map p_topic (cl_permissions c))"
  by (auto simp: claims_validate_def permissions_sorted_iff)

lemma r_permissions_wf:
  "r_permissions mc n r = Inr (ps, r') \<Longrightarrow> length ps = n \<and> (\<forall>p \<in> set ps. wf_topic (p_topic p))"
proof (induction n arbitrary: r ps)
  case (Suc n)
  from Suc.prems obtain t m q qs where "ps = q # qs" and "p_topic q = t" and "wf_topic t"
      and "r_permissions mc n m = Inr (qs, r')"
    by (auto simp: result_simps dest!: topic_new_wf split: if_splits)
  with Suc.IH show ?case
    by auto
qed simp

context external
begin

lemma r_permissions_enc [codec_simps]:
  "\<forall>p \<in> set ps. wf_permission p \<Longrightarrow>
     r_permissions (codec L) (length ps) (concat (map (permission_bytes (codec L)) ps) @ t) = Inr (ps, t)"
proof (induction ps)
  case (Cons p ps)
  then have "wf_topic (p_topic p)" and mask: "1 \<le> permission_mask p \<and> permission_mask p \<le> 3"
    by (auto simp: wf_permission_def permission_mask_bits)
  then show ?case
    using Cons r_array_enc [of 2]
    by (simp add: permission_bytes_def codec_simps wf_topic_utf8 wf_topic_length wf_topic_new
        permission_mask_bits)
qed simp

lemma claims_decode_encode:
  assumes "wf_claims c"
  shows "claims_decode L (claims_encode L c @ t)
    = (if t = [] then Inr c else Inl (Protocol ''trailing bytes''))"
proof -
  from assms have len: "length (cl_permissions c) \<le> MAX_PERMISSIONS"
    and perms: "\<forall>p \<in> set (cl_permissions c). wf_permission p"
    and lens: "length (cl_realm c) = 16" "length (cl_id c) = 16" and val: "claims_validate c = Inr ()"
    by (auto simp: wf_claims_def claims_validate_Inr wf_permission_def)
  have start: "r_array (codec L) 9 (claims_encode L c @ t) = Inr ((), claims_body L c @ t)" for t
    using r_array_enc [of 9] by (simp add: claims_encode_eq)
  show ?thesis
    using r_array_enc [of 2] perms len lens val
    by (cases "t = []")
      (simp_all add: claims_decode_def Let_def start start [of "[]", simplified] claims_body_def codec_simps ep_bytes_length
        endpoint_def ep_from_bytes_bytes MAX_PERMISSIONS_def)
qed

lemma claims_decode_wf: "claims_decode L b = Inr c \<Longrightarrow> wf_claims c \<and> claims_encode L c = b"
  by (auto simp: claims_decode_def Let_def result_simps wf_claims_def
      dest!: r_fixed_length r_permissions_wf)

sublocale claims: canonical_codec wf_claims "claims_encode L" "claims_decode L"
  using claims_decode_encode [of _ "[]"] claims_decode_encode claims_decode_wf
  by unfold_locales auto

end

section \<open>Signatures\<close>

lemma cose_eq: "cose L payload sig = enc_array (codec L) 4 @ enc_bytes (codec L) PROTECTED
    @ enc_map (codec L) 0 @ enc_bytes (codec L) payload @ enc_bytes (codec L) sig"
  by (simp add: cose_def Let_def writer_defs)

lemma signing_bytes_eq: "signing_bytes L payload context = enc_array (codec L) 4
    @ enc_str (codec L) ''Signature1'' @ enc_bytes (codec L) PROTECTED
    @ enc_bytes (codec L) context @ enc_bytes (codec L) payload"
  by (simp add: signing_bytes_def Let_def writer_defs)

lemma parse_cose_Inr:
  "parse_cose L bs mx = Inr (payload, sig) \<Longrightarrow>
     bs = cose L payload sig \<and> length bs \<le> mx \<and> length sig = 64"
  by (auto simp: parse_cose_def Let_def result_simps dest!: r_fixed_length)

lemma verify_cose_Inr:
  "verify_cose L bs key context mx = Inr payload \<Longrightarrow>
     \<exists>sig. bs = cose L payload sig \<and> length sig = 64
       \<and> ep_verify L key (signing_bytes L payload context) sig"
  by (auto simp: verify_cose_def result_simps dest!: parse_cose_Inr)

context external
begin

lemma parse_cose_cose:
  assumes "length (cose L payload sig) \<le> mx" and "length sig = 64" and "mx < 2 ^ 64"
  shows "parse_cose L (cose L payload sig) mx = Inr (payload, sig)"
proof -
  have "length payload \<le> mx"
    using assms(1) enc_bytes_length [of payload] by (simp add: cose_eq)
  moreover have "r_array (codec L) 4 (cose L payload sig) = Inr ((), enc_bytes (codec L) PROTECTED
      @ enc_map (codec L) 0 @ enc_bytes (codec L) payload @ enc_bytes (codec L) sig)"
    using r_array_enc [of 4] by (simp add: cose_eq)
  moreover have "length PROTECTED = 3"
    by (simp add: PROTECTED_def)
  ultimately show ?thesis
    using assms by (simp add: parse_cose_def Let_def codec_simps)
qed

lemma verify_sign_cose:
  assumes "length (sign_cose L payload k context) \<le> mx" and "mx < 2 ^ 64"
  shows "verify_cose L (sign_cose L payload k context) (key_public L k) context mx = Inr payload"
  using assms parse_cose_cose [OF _ sign_length]
  by (simp add: verify_cose_def sign_cose_def verify_sign)

text \<open>What is signed determines the context and the payload: a signature made for one purpose
  is a signature over different bytes than any made for another.\<close>

lemma signing_bytes_inject:
  assumes "signing_bytes L p c = signing_bytes L p' c'"
    and "length p < 2 ^ 64" "length c < 2 ^ 64" "length p' < 2 ^ 64" "length c' < 2 ^ 64"
  shows "p = p' \<and> c = c'"
proof -
  from assms(1) have eq: "enc_bytes (codec L) c @ enc_bytes (codec L) p
      = enc_bytes (codec L) c' @ enc_bytes (codec L) p'"
    by (simp add: signing_bytes_eq)
  have "Some (c, enc_bytes (codec L) p) = Some (c', enc_bytes (codec L) p')"
    unfolding dec_bytes_enc [OF assms(3), symmetric] dec_bytes_enc [OF assms(5), symmetric] eq ..
  then have c: "c = c'" and p: "enc_bytes (codec L) p @ [] = enc_bytes (codec L) p' @ []"
    by simp_all
  have "Some (p, [] :: bytes) = Some (p', [])"
    unfolding dec_bytes_enc [OF assms(2), symmetric] dec_bytes_enc [OF assms(4), symmetric] p ..
  with c show ?thesis
    by simp
qed

end

section \<open>Trust decisions\<close>

lemma check_Inr:
  "check t c peer now = Inr u \<longleftrightarrow>
     cl_realm (c_claims c) = t_realm t \<and> cl_issuer (c_claims c) = t_root t
     \<and> cl_subject (c_claims c) = peer \<and> certificate_id c \<notin> t_revoked t
     \<and> cl_not_before (c_claims c) \<le> saturating_add now (clock_skew_secs t)
     \<and> now < saturating_add (cl_expires (c_claims c)) (clock_skew_secs t)
     \<and> (\<forall>deadline. t_freshness t = Some deadline \<longrightarrow> now < deadline)"
  by (auto simp: check_def split: option.splits if_splits)

lemma check_error: "check t c peer now = Inl e \<Longrightarrow> e = Unauthorized \<or> e = CertificateExpired"
  by (auto simp: check_def split: if_splits)

text \<open>The certificate value is what its bytes say.\<close>

definition wf_certificate :: "'e lib \<Rightarrow> 'e certificate \<Rightarrow> bool" where
  "wf_certificate L c \<longleftrightarrow>
     (case certificate_from_bytes L (c_bytes c) of Inl _ \<Rightarrow> False | Inr d \<Rightarrow> c_claims d = c_claims c)"

lemma certificate_from_bytes_wf: "certificate_from_bytes L b = Inr c \<Longrightarrow> wf_certificate L c \<and> c_bytes c = b"
  by (auto simp: certificate_from_bytes_def wf_certificate_def result_simps)

lemma certificate_metered_wf:
  "certificate_metered c m = Inr (c', m') \<Longrightarrow>
     c_claims c' = c_claims c \<and> c_bytes c' = c_bytes c \<and> (wf_certificate L c' \<longleftrightarrow> wf_certificate L c)"
  by (cases "certificate_from_bytes L (c_bytes c)")
    (auto simp: certificate_metered_def wf_certificate_def result_simps)

context external
begin

lemma wf_certificate_payload:
  assumes "wf_certificate L c"
  shows "wf_claims (c_claims c) \<and> (\<exists>sig. length sig = 64
    \<and> c_bytes c = cose L (claims_encode L (c_claims c)) sig \<and> length (c_bytes c) \<le> MAX_CERT)"
  using assms
  by (auto simp: wf_certificate_def certificate_from_bytes_def result_simps
      dest!: parse_cose_Inr claims_decode_wf split: sum.splits)

text \<open>An accepted certificate carries a signature of the trusted root over exactly its claims.\<close>

lemma trust_verify_sound:
  assumes "trust_verify L t c peer now = Inr u" and "wf_certificate L c"
  shows "check t c peer now = Inr () \<and>
    (\<exists>sig. c_bytes c = cose L (claims_encode L (c_claims c)) sig
       \<and> ep_verify L (t_root t) (signing_bytes L (claims_encode L (c_claims c)) CERT_CONTEXT) sig)"
proof -
  from wf_certificate_payload [OF assms(2)] obtain sig where
    sig: "c_bytes c = cose L (claims_encode L (c_claims c)) sig" "length sig = 64"
      "length (c_bytes c) \<le> MAX_CERT"
    by auto
  from assms(1) obtain payload where v: "verify_cose L (c_bytes c) (t_root t) CERT_CONTEXT MAX_CERT = Inr payload"
    and chk: "check t c peer now = Inr u"
    by (auto simp: trust_verify_def result_simps)
  have "parse_cose L (c_bytes c) MAX_CERT = Inr (claims_encode L (c_claims c), sig)"
    using parse_cose_cose [of "claims_encode L (c_claims c)" sig MAX_CERT] sig
    by (simp add: MAX_CERT_def)
  with v have "ep_verify L (t_root t) (signing_bytes L (claims_encode L (c_claims c)) CERT_CONTEXT) sig"
    by (auto simp: verify_cose_def result_simps)
  with sig chk show ?thesis
    by auto
qed

end

section \<open>Issuing\<close>

lemma allows_sort_key:
  "list_ex P (sort_key p_topic ps) = list_ex P ps"
  by (simp add: list_ex_iff)

context external
begin

lemma authority_issue_Inr:
  assumes issue: "authority_issue L a cid subject perms nb ex lims = Inr c"
    and lens: "length (a_realm a) = 16" "length cid = 16" and topics: "\<forall>p \<in> set perms. wf_topic (p_topic p)"
  shows "c_claims c = \<lparr>cl_realm = a_realm a, cl_issuer = key_public L (a_key a), cl_id = cid,
      cl_subject = subject, cl_not_before = nb, cl_expires = ex,
      cl_permissions = sort_key p_topic perms, cl_limits = lims\<rparr>
    \<and> c_memory c = None \<and> wf_certificate L c \<and> nb < ex
    \<and> verify_cose L (c_bytes c) (key_public L (a_key a)) CERT_CONTEXT MAX_CERT
        = Inr (claims_encode L (c_claims c))"
proof -
  define k where "k = \<lparr>cl_realm = a_realm a, cl_issuer = key_public L (a_key a), cl_id = cid,
      cl_subject = subject, cl_not_before = nb, cl_expires = ex,
      cl_permissions = sort_key p_topic perms, cl_limits = lims\<rparr>"
  define b where "b = sign_cose L (claims_encode L k) (a_key a) CERT_CONTEXT"
  from issue have val: "claims_validate k = Inr ()" and from_b: "certificate_from_bytes L b = Inr c"
    by (auto simp: authority_issue_def Let_def result_simps k_def b_def)
  have wf: "wf_claims k"
    using lens topics val by (auto simp: wf_claims_def k_def)
  from from_b have len: "length b \<le> MAX_CERT"
    by (auto simp: certificate_from_bytes_def result_simps dest!: parse_cose_Inr)
  have ver: "verify_cose L b (key_public L (a_key a)) CERT_CONTEXT MAX_CERT = Inr (claims_encode L k)"
    using verify_sign_cose [of "claims_encode L k" "a_key a" CERT_CONTEXT MAX_CERT] len
    by (simp add: b_def MAX_CERT_def)
  then obtain sig where "parse_cose L b MAX_CERT = Inr (claims_encode L k, sig)"
    by (auto simp: verify_cose_def result_simps)
  with from_b claims.dec_enc [OF wf] have c: "c_claims c = k" "c_bytes c = b" "c_memory c = None"
    by (auto simp: certificate_from_bytes_def result_simps)
  moreover have "nb < ex"
    using val by (simp add: claims_validate_Inr k_def)
  ultimately show ?thesis
    using ver certificate_from_bytes_wf [OF from_b] by (simp add: k_def)
qed

lemma authority_issue_verifies:
  assumes issue: "authority_issue L a cid subject perms nb ex lims = Inr c"
    and lens: "length (a_realm a) = 16" "length cid = 16" and topics: "\<forall>p \<in> set perms. wf_topic (p_topic p)"
    and time: "nb \<le> now" "now < ex"
  shows "trust_verify L (authority_trust L a) c subject now = Inr ()"
  using authority_issue_Inr [OF issue lens topics] time
  by (auto simp: trust_verify_def authority_trust_def trust_new_def check_Inr certificate_id_def)

end

section \<open>Revocation\<close>

definition wf_trust :: "'e trust \<Rightarrow> bool" where
  "wf_trust t \<longleftrightarrow> finite (t_revoked t) \<and> card (t_revoked t) \<le> 4096"

text \<open>The updates of a \<open>Trust\<close>; a refused one leaves it as it was.\<close>

inductive trust_step :: "'e lib \<Rightarrow> 'e trust \<Rightarrow> 'e trust \<Rightarrow> bool" for L where
  deny: "deny_certificate t cid = Inr t' \<Longrightarrow> trust_step L t t'"
| apply_snapshot: "apply_revocations L t snapshot now = Inr t' \<Longrightarrow> trust_step L t t'"

lemma deny_certificate_Inr:
  "deny_certificate t cid = Inr t' \<Longrightarrow> wf_trust t \<Longrightarrow>
     wf_trust t' \<and> t' = t\<lparr>t_revoked := insert cid (t_revoked t)\<rparr>"
  by (auto simp: deny_certificate_def wf_trust_def card_insert_if split: if_splits)

lemma apply_revocations_Inr:
  assumes "apply_revocations L t snapshot now = Inr t'"
  shows "\<exists>ids v ex. t' = t\<lparr>t_revoked := set ids \<union> t_revoked t, t_version := v, t_freshness := Some ex\<rparr>
       \<and> t_version t < v \<and> now < ex \<and> card (t_revoked t') \<le> 4096
       \<and> (\<exists>sig issued b. b = revocation_encode L (t_realm t) v issued ex ids \<and> issued \<le> now
            \<and> snapshot = cose L b sig \<and> ep_verify L (t_root t) (signing_bytes L b REVOCATION_CONTEXT) sig)"
proof -
  from assms obtain b ids v issued ex where
      v: "verify_cose L snapshot (t_root t) REVOCATION_CONTEXT (128 * 1024) = Inr b"
    and b: "b = revocation_encode L (t_realm t) v issued ex ids"
    and fresh: "t_version t < v" "issued \<le> now" "now < ex"
    and t': "card (set ids \<union> t_revoked t) \<le> 4096"
      "t' = t\<lparr>t_revoked := set ids \<union> t_revoked t, t_version := v, t_freshness := Some ex\<rparr>"
    by (auto simp: apply_revocations_def Let_def result_simps not_le not_less)
  from verify_cose_Inr [OF v] obtain sig where "snapshot = cose L b sig"
      "ep_verify L (t_root t) (signing_bytes L b REVOCATION_CONTEXT) sig"
    by auto
  with b fresh t' show ?thesis
    by (intro exI [of _ ids] exI [of _ v] exI [of _ ex]) auto
qed

lemma trust_step_mono:
  "trust_step L t t' \<Longrightarrow> wf_trust t \<Longrightarrow>
     wf_trust t' \<and> t_revoked t \<subseteq> t_revoked t' \<and> t_version t \<le> t_version t'
     \<and> t_realm t' = t_realm t \<and> t_root t' = t_root t \<and> clock_skew_secs t' = clock_skew_secs t"
proof (induction rule: trust_step.induct)
  case (deny t cid t')
  then show ?case
    by (auto dest!: deny_certificate_Inr)
next
  case (apply_snapshot t snapshot now t')
  then show ?case
    by (auto dest!: apply_revocations_Inr simp: wf_trust_def)
qed

section \<open>Size of an issued certificate\<close>

context external
begin

lemma permission_bytes_size: "wf_topic (p_topic p) \<Longrightarrow> length (permission_bytes (codec L) p) \<le> 283"
  using enc_array_size [of 2] enc_u64_size [of "permission_mask p"] enc_str_size [of "as_str (p_topic p)"]
    wf_topic_length [of "p_topic p"] by (simp add: permission_bytes_def)

lemma permissions_bytes_size:
  "\<forall>p \<in> set ps. wf_topic (p_topic p) \<Longrightarrow>
     length (concat (map (permission_bytes (codec L)) ps)) \<le> 283 * length ps"
  by (induction ps) (auto dest!: permission_bytes_size)

lemma claims_encode_size:
  assumes "length (cl_realm c) = 16" and "length (cl_id c) = 16"
    and "\<forall>p \<in> set (cl_permissions c). wf_topic (p_topic p)"
  shows "length (claims_encode L c) \<le> 204 + 283 * length (cl_permissions c)"
proof -
  have u: "length (enc_u64 (codec L) n) \<le> 9" and a: "length (enc_array (codec L) n) \<le> 9" for n
    by (rule enc_u64_size, rule enc_array_size)
  have "length (claims_encode L c) \<le> 9 + (9 + (25 + (41 + (25 + (41 + (9 + (9 + (9
      + (283 * length (cl_permissions c) + (9 + (9 + 9)))))))))))"
    unfolding claims_encode_eq claims_body_def length_append
    using permissions_bytes_size [OF assms(3)] enc_bytes_size [of "cl_realm c"] enc_bytes_size [of "cl_id c"]
      enc_bytes_size [of "ep_bytes L (cl_issuer c)"] enc_bytes_size [of "ep_bytes L (cl_subject c)"] assms
    by (intro add_mono a u) (simp_all add: ep_bytes_length)
  then show ?thesis
    by simp
qed

lemma cose_size: "length (cose L payload sig) \<le> 48 + length payload + length sig"
proof -
  have p: "length (enc_bytes (codec L) PROTECTED) \<le> 12"
    using enc_bytes_size [of PROTECTED] by (simp add: PROTECTED_def)
  have "length (cose L payload sig) \<le> 9 + (12 + (9 + ((length payload + 9) + (length sig + 9))))"
    unfolding cose_eq length_append
    by (intro add_mono p enc_array_size enc_map_size enc_bytes_size)
  then show ?thesis
    by simp
qed

text \<open>The bytes of the certificate that is issued. With valid permissions their size decides alone.\<close>

lemma authority_issue_size:
  assumes lens: "length (a_realm a) = 16" "length cid = 16"
    and perms: "\<forall>p \<in> set perms. wf_permission p" "distinct (map p_topic perms)" "length perms \<le> MAX_PERMISSIONS"
    and time: "nb < ex"
  shows "authority_issue L a cid subject perms nb ex lims =
    (let k = \<lparr>cl_realm = a_realm a, cl_issuer = key_public L (a_key a), cl_id = cid, cl_subject = subject, cl_not_before = nb,
              cl_expires = ex, cl_permissions = sort_key p_topic perms, cl_limits = lims\<rparr>;
         b = issued_bytes L a cid subject perms nb ex lims
     in if length b \<le> MAX_CERT then Inr \<lparr>c_claims = k, c_bytes = b, c_memory = None\<rparr> else Inl MessageTooLarge)"
proof -
  define k where "k = \<lparr>cl_realm = a_realm a, cl_issuer = key_public L (a_key a), cl_id = cid,
      cl_subject = subject, cl_not_before = nb, cl_expires = ex,
      cl_permissions = sort_key p_topic perms, cl_limits = lims\<rparr>"
  have "sorted_wrt (<) (map p_topic (sort_key p_topic perms))"
    using perms(2) by (simp add: strict_sorted_iff distinct_map)
  then have val: "claims_validate k = Inr ()"
    using perms time by (auto simp: claims_validate_Inr k_def wf_permission_def)
  then have wf: "wf_claims k"
    using lens perms by (auto simp: wf_claims_def k_def wf_permission_def)
  have "parse_cose L (sign_cose L (claims_encode L k) (a_key a) CERT_CONTEXT) MAX_CERT
      = Inr (claims_encode L k, key_sign L (a_key a) (signing_bytes L (claims_encode L k) CERT_CONTEXT))"
    if "length (sign_cose L (claims_encode L k) (a_key a) CERT_CONTEXT) \<le> MAX_CERT"
    using that parse_cose_cose [OF _ sign_length] by (simp add: sign_cose_def MAX_CERT_def)
  with claims.dec_enc [OF wf] val show ?thesis
    unfolding authority_issue_def issued_bytes_def Let_def k_def [symmetric]
    by (auto simp: certificate_from_bytes_def) (simp add: parse_cose_def)
qed

lemma issued_bytes_size:
  assumes "length (a_realm a) = 16" "length cid = 16" and "\<forall>p \<in> set perms. wf_permission p"
  shows "length (issued_bytes L a cid subject perms nb ex lims) \<le> 316 + 283 * length perms"
  using assms cose_size claims_encode_size
    [of "\<lparr>cl_realm = a_realm a, cl_issuer = key_public L (a_key a), cl_id = cid, cl_subject = subject, cl_not_before = nb,
      cl_expires = ex, cl_permissions = sort_key p_topic perms, cl_limits = lims\<rparr>"]
  unfolding issued_bytes_def sign_cose_def
  by (intro order_trans [OF cose_size]) (auto simp: sign_length wf_permission_def)

lemma issued_bytes_fit:
  assumes "length (a_realm a) = 16" "length cid = 16" and "\<forall>p \<in> set perms. wf_permission p" and "length perms \<le> 53"
  shows "length (issued_bytes L a cid subject perms nb ex lims) \<le> MAX_CERT"
  using issued_bytes_size [OF assms(1-3), of subject nb ex lims] assms(4) by (simp add: MAX_CERT_def)

lemma authority_issue_succeeds:
  assumes lens: "length (a_realm a) = 16" "length cid = 16"
    and perms: "\<forall>p \<in> set perms. wf_permission p" "distinct (map p_topic perms)" "length perms \<le> 53"
    and time: "nb < ex"
  shows "\<exists>c. authority_issue L a cid subject perms nb ex lims = Inr c"
proof -
  have "length perms \<le> MAX_PERMISSIONS"
    using perms(3) by (simp add: MAX_PERMISSIONS_def)
  from authority_issue_size [OF lens perms(1,2) this time] issued_bytes_fit [OF lens perms(1,3)] show ?thesis
    by (simp add: Let_def)
qed

end

lemma trust_steps_mono:
  "(trust_step L)\<^sup>*\<^sup>* t t' \<Longrightarrow> wf_trust t \<Longrightarrow>
     wf_trust t' \<and> t_revoked t \<subseteq> t_revoked t' \<and> t_version t \<le> t_version t'
     \<and> t_realm t' = t_realm t \<and> t_root t' = t_root t"
proof (induction rule: rtranclp_induct)
  case (step u v)
  then show ?case
    using trust_step_mono [of L u v] by auto
qed simp

section \<open>Properties\<close>

text \<open>The claims format is canonical: the decoder accepts exactly the encodings of valid claims,
  gives the encoded claims back, and refuses an encoding that is extended by any bytes.\<close>

theorem claims_canonical:
  assumes "external L"
  shows "(claims_decode L b = Inr c \<longleftrightarrow> wf_claims c \<and> b = claims_encode L c)
    \<and> (wf_claims c \<and> t \<noteq> [] \<longrightarrow> (\<exists>e. claims_decode L (claims_encode L c @ t) = Inl e))"
  using external.claims_decode_encode [OF assms, of c] external.claims_decode_encode [OF assms, of c "[]"]
    external.claims_decode_wf [OF assms, of b c]
  by auto

theorem claims_canonical_witness:
  "\<exists>e. claims_decode sample_lib (claims_encode sample_lib
     \<lparr>cl_realm = replicate 16 2, cl_issuer = 1, cl_id = replicate 16 3, cl_subject = 5, cl_not_before = 10,
      cl_expires = 20, cl_permissions = [\<lparr>p_topic = Topic ''jobs'', p_publish = True, p_subscribe = False\<rparr>],
      cl_limits = \<lparr>max_payload = 0, max_subscriptions = 0\<rparr>\<rparr> @ [0]) = Inl e"
  using claims_canonical [OF sample.external_axioms, of "[]"
     "\<lparr>cl_realm = replicate 16 2, cl_issuer = 1, cl_id = replicate 16 3, cl_subject = 5, cl_not_before = 10,
      cl_expires = 20, cl_permissions = [\<lparr>p_topic = Topic ''jobs'', p_publish = True, p_subscribe = False\<rparr>],
      cl_limits = \<lparr>max_payload = 0, max_subscriptions = 0\<rparr>\<rparr>" "[0]"]
  by (simp add: wf_claims_def claims_validate_def MAX_PERMISSIONS_def wf_topic_def topic_new_def
      is_ascii_alphanumeric_def)

text \<open>C34. An accepted certificate is genuine: when \<open>verify\<close> accepts a parsed certificate for a peer, its
  bytes carry a signature by the trusted root over exactly its claims, it names the realm, the
  root and the peer, it has not been revoked, the time is within its validity (with the allowed
  clock skew) and the revocation list is fresh.\<close>

theorem trust_verify_genuine:
  assumes "external L" and "certificate_from_bytes L b = Inr c" and "trust_verify L t c peer now = Inr u"
  shows "(\<exists>sig. b = cose L (claims_encode L (c_claims c)) sig
       \<and> ep_verify L (t_root t) (signing_bytes L (claims_encode L (c_claims c)) CERT_CONTEXT) sig)
    \<and> cl_realm (c_claims c) = t_realm t \<and> cl_issuer (c_claims c) = t_root t
    \<and> endpoint_id c = peer \<and> certificate_id c \<notin> t_revoked t
    \<and> cl_not_before (c_claims c) \<le> saturating_add now (clock_skew_secs t)
    \<and> now < saturating_add (expires_at c) (clock_skew_secs t)
    \<and> (\<forall>deadline. t_freshness t = Some deadline \<longrightarrow> now < deadline)"
  using external.trust_verify_sound [OF assms(1,3)] certificate_from_bytes_wf [OF assms(2)]
  by (auto simp: check_Inr endpoint_id_def expires_at_def)

definition sample_authority :: authority where
  "sample_authority = \<lparr>a_key = replicate 32 1, a_realm = replicate 16 2\<rparr>"

definition sample_permission :: permission where
  "sample_permission = \<lparr>p_topic = Topic ''jobs'', p_publish = True, p_subscribe = True\<rparr>"

lemma sample_permission_wf [simp]: "wf_permission sample_permission"
  by (simp add: wf_permission_def sample_permission_def wf_topic_def topic_new_def is_ascii_alphanumeric_def)

lemma sample_certificate:
  obtains c where "authority_issue sample_lib sample_authority (replicate 16 3) 5 [sample_permission] 10 20
      \<lparr>max_payload = 0, max_subscriptions = 0\<rparr> = Inr c"
    "certificate_from_bytes sample_lib (c_bytes c) = Inr c"
    "trust_verify sample_lib (authority_trust sample_lib sample_authority) c 5 15 = Inr ()"
proof -
  obtain c where c: "authority_issue sample_lib sample_authority (replicate 16 3) 5 [sample_permission] 10 20
      \<lparr>max_payload = 0, max_subscriptions = 0\<rparr> = Inr c"
    using sample.authority_issue_succeeds [of sample_authority "replicate 16 3" "[sample_permission]" 10 20]
    by (auto simp: sample_authority_def)
  moreover from c have "certificate_from_bytes sample_lib (c_bytes c) = Inr c"
    using certificate_from_bytes_wf [of sample_lib _ c]
    by (auto simp: authority_issue_def Let_def result_simps)
  moreover from c have "trust_verify sample_lib (authority_trust sample_lib sample_authority) c 5 15 = Inr ()"
    by (rule sample.authority_issue_verifies)
      (auto simp: sample_authority_def sample_permission_wf [unfolded wf_permission_def])
  ultimately show ?thesis
    by (rule that)
qed

theorem trust_verify_genuine_witness:
  "\<exists>c. endpoint_id c = (5 :: 256 word) \<and> certificate_id c \<notin> t_revoked (authority_trust sample_lib sample_authority)"
proof -
  obtain c where "certificate_from_bytes sample_lib (c_bytes c) = Inr c"
    "trust_verify sample_lib (authority_trust sample_lib sample_authority) c 5 15 = Inr ()"
    by (rule sample_certificate)
  from trust_verify_genuine [OF sample.external_axioms this] show ?thesis
    by (intro exI [of _ c]) simp
qed

text \<open>Issuing works: for up to 53 distinct valid permissions and a non-empty validity interval the
  authority issues a certificate that names the subject, that its own trust accepts for the
  subject at every time of the interval, and that allows exactly what the permissions say.\<close>

theorem issue_verifies:
  assumes "external L" and "length (a_realm a) = 16" and "length cid = 16"
    and "\<forall>p \<in> set perms. wf_permission p" and "distinct (map p_topic perms)" and "length perms \<le> 53"
    and "nb < ex"
  shows "\<exists>c. authority_issue L a cid subject perms nb ex lims = Inr c
    \<and> endpoint_id c = subject \<and> certificate_id c = cid \<and> expires_at c = ex \<and> certificate_limits c = lims
    \<and> (\<forall>now. nb \<le> now \<and> now < ex \<longrightarrow> trust_verify L (authority_trust L a) c subject now = Inr ())
    \<and> (\<forall>topic publish. allows c topic publish \<longleftrightarrow>
         (\<exists>p \<in> set perms. p_topic p = topic \<and> (if publish then p_publish p else p_subscribe p)))"
proof -
  from external.authority_issue_succeeds [OF assms] obtain c where
    c: "authority_issue L a cid subject perms nb ex lims = Inr c"
    by auto
  have topics: "\<forall>p \<in> set perms. wf_topic (p_topic p)"
    using assms(4) by (auto simp: wf_permission_def)
  show ?thesis
    using c external.authority_issue_Inr [OF assms(1) c assms(2,3) topics]
      external.authority_issue_verifies [OF assms(1) c assms(2,3) topics]
    by (auto simp: endpoint_id_def certificate_id_def expires_at_def certificate_limits_def allows_def
        list_ex_iff)
qed

theorem issue_verifies_witness:
  "\<exists>c. trust_verify sample_lib (authority_trust sample_lib sample_authority) c 5 15 = Inr ()
     \<and> allows c (Topic ''jobs'') True \<and> \<not> allows c (Topic ''other'') True"
proof -
  have "\<exists>c. (\<forall>now. (10 :: u64) \<le> now \<and> now < 20 \<longrightarrow>
      trust_verify sample_lib (authority_trust sample_lib sample_authority) c 5 now = Inr ())
    \<and> (\<forall>topic publish. allows c topic publish \<longleftrightarrow>
        (\<exists>p \<in> set [sample_permission]. p_topic p = topic \<and> (if publish then p_publish p else p_subscribe p)))"
    using issue_verifies [OF sample.external_axioms, of sample_authority "replicate 16 3" "[sample_permission]" 10 20 5
        "\<lparr>max_payload = 0, max_subscriptions = 0\<rparr>"]
    by (auto simp: sample_authority_def)
  then obtain c where "\<forall>now. (10 :: u64) \<le> now \<and> now < 20 \<longrightarrow>
      trust_verify sample_lib (authority_trust sample_lib sample_authority) c 5 now = Inr ()"
    and "\<forall>topic publish. allows c topic publish \<longleftrightarrow>
        (\<exists>p \<in> set [sample_permission]. p_topic p = topic \<and> (if publish then p_publish p else p_subscribe p))"
    by blast
  then show ?thesis
    by (intro exI [of _ c]) (simp add: sample_permission_def)
qed

text \<open>C35. Revocation is for ever: however many denials and signed snapshots a trust applies, what was
  revoked stays revoked, so \<open>check\<close> refuses such a certificate at every time for every peer; the
  list stays within its bound of 4096 entries and its version never goes back.\<close>

theorem revocation_permanent:
  assumes "(trust_step L)\<^sup>*\<^sup>* t t'" and "wf_trust t" and "certificate_id c \<in> t_revoked t"
  shows "check t' c peer now = Inl Unauthorized \<and> revoked_count t' \<le> 4096 \<and> t_version t \<le> t_version t'"
  using trust_steps_mono [OF assms(1,2)] assms(3)
  by (auto simp: check_def wf_trust_def revoked_count_def)

theorem revocation_permanent_witness:
  "check \<lparr>t_realm = [], t_root = (0 :: nat), t_revoked = {[1], [2]}, t_version = 0, t_freshness = None, clock_skew_secs = 0\<rparr>
     \<lparr>c_claims = \<lparr>cl_realm = [], cl_issuer = 0, cl_id = [1], cl_subject = 5, cl_not_before = 10, cl_expires = 20,
        cl_permissions = [], cl_limits = \<lparr>max_payload = 0, max_subscriptions = 0\<rparr>\<rparr>, c_bytes = [], c_memory = None\<rparr>
     5 15 = Inl Unauthorized"
proof -
  let ?t = "\<lparr>t_realm = [], t_root = (0 :: nat), t_revoked = {[1]}, t_version = 0, t_freshness = None, clock_skew_secs = 0\<rparr>"
  have "(trust_step undefined)\<^sup>*\<^sup>* ?t (?t\<lparr>t_revoked := {[1], [2]}\<rparr>)"
    by (rule r_into_rtranclp, rule trust_step.deny [where cid = "[2]"])
      (auto simp: deny_certificate_def insert_commute)
  from revocation_permanent [OF this, of "\<lparr>c_claims = \<lparr>cl_realm = [], cl_issuer = 0, cl_id = [1],
      cl_subject = 5, cl_not_before = 10, cl_expires = 20, cl_permissions = [],
      cl_limits = \<lparr>max_payload = 0, max_subscriptions = 0\<rparr>\<rparr>, c_bytes = [], c_memory = None\<rparr>" 5 15]
  show ?thesis
    by (simp add: wf_trust_def certificate_id_def)
qed

end
