(* ===== verification/Message.thy ===== *)
theory Message
  imports Auth
begin

text \<open>
  Message identities and signed envelopes, the rest of \<^verbatim>\<open>src/src/message.rs\<close>. An envelope is
  encoded as CBOR, signed by its publisher and verified against the authenticated peer it came
  from. The lemmas show that the format is canonical, that a signed envelope verifies to itself
  for its publisher and for nobody else, and that the digest ties the payload to it.
\<close>

definition MESSAGE_CONTEXT :: bytes where
  "MESSAGE_CONTEXT = str_bytes ''iroh-mq/message/v1''"

datatype 'e message_id = MessageId
  (realm_id: bytes)
  (publisher_endpoint_id: 'e)
  (publisher_epoch: bytes)
  (mid_topic: topic)
  (mid_sequence: u64)

text \<open>The derived order compares the fields in their order.\<close>

definition message_id_key :: "'e message_id \<Rightarrow> bytes \<times> 'e \<times> bytes \<times> topic \<times> u64" where
  "message_id_key m = (realm_id m, publisher_endpoint_id m, publisher_epoch m, mid_topic m, mid_sequence m)"

lemma message_id_key_inject: "message_id_key a = message_id_key b \<longleftrightarrow> a = b"
  by (cases a; cases b) (simp add: message_id_key_def)

instantiation message_id :: (linorder) linorder
begin

definition less_eq_message_id :: "'a message_id \<Rightarrow> 'a message_id \<Rightarrow> bool" where
  "less_eq_message_id a b \<longleftrightarrow> message_id_key a \<le> message_id_key b"

definition less_message_id :: "'a message_id \<Rightarrow> 'a message_id \<Rightarrow> bool" where
  "less_message_id a b \<longleftrightarrow> message_id_key a < message_id_key b"

instance
  by standard (auto simp: less_eq_message_id_def less_message_id_def message_id_key_inject
      intro: order_trans)

end

record 'e envelope =
  env_id :: "'e message_id"
  env_created :: u64
  env_expires :: u64
  env_format :: string
  env_len :: nat
  env_digest :: bytes
  env_mode :: delivery_mode

definition envelope_encode :: "'e lib \<Rightarrow> 'e envelope \<Rightarrow> bytes" where
  "envelope_encode L e =
     (let mc = codec L in
      written
        [w_array mc 12,
         w_u mc 1,
         w_bytes mc (realm_id (env_id e)),
         w_bytes mc (ep_bytes L (publisher_endpoint_id (env_id e))),
         w_bytes mc (publisher_epoch (env_id e)),
         w_text mc (as_str (mid_topic (env_id e))),
         w_u mc (mid_sequence (env_id e)),
         w_u mc (env_created e),
         w_u mc (env_expires e),
         w_text mc (env_format e),
         w_u mc (word_of_nat (env_len e)),
         w_bytes mc (env_digest e),
         w_u mc (mode_number (env_mode e))])"

definition envelope_sign :: "'e lib \<Rightarrow> 'e envelope \<Rightarrow> bytes \<Rightarrow> bytes" where
  "envelope_sign L e key = sign_cose L (envelope_encode L e) key MESSAGE_CONTEXT"

text \<open>What \<open>verify\<close> does with the signed bytes.\<close>

definition envelope_parse :: "'e lib \<Rightarrow> 'e \<Rightarrow> bytes \<Rightarrow> 'e envelope result" where
  "envelope_parse L peer b =
     (let mc = codec L in
      rbind (r_array mc 12 b) (\<lambda>(_, r).
      rbind (r_u mc r) (\<lambda>(v, r).
      rbind (version v) (\<lambda>_.
      rbind (r_fixed mc 16 r) (\<lambda>(realm, r).
      rbind (r_fixed mc 32 r) (\<lambda>(k, r).
      rbind (endpoint L k) (\<lambda>publisher.
      rbind (r_fixed mc 16 r) (\<lambda>(epoch, r).
      rbind (r_text mc 256 r) (\<lambda>(s, r).
      rbind (topic_new s) (\<lambda>topic.
      rbind (r_u mc r) (\<lambda>(sequence, r).
      rbind (r_u mc r) (\<lambda>(created, r).
      rbind (r_u mc r) (\<lambda>(expires, r).
      rbind (r_text mc 256 r) (\<lambda>(format, r).
      rbind (r_u mc r) (\<lambda>(len, r).
      rbind (r_fixed mc 32 r) (\<lambda>(dig, r).
      rbind (r_u mc r) (\<lambda>(m, r).
      rbind (mode_decode m) (\<lambda>mode.
      rbind (r_end r) (\<lambda>_.
      (let e = \<lparr>env_id = MessageId realm publisher epoch topic sequence, env_created = created,
                env_expires = expires, env_format = format, env_len = unat len, env_digest = dig,
                env_mode = mode\<rparr>
       in rbind (fail_if (publisher \<noteq> peer \<or> created \<ge> expires) Unauthorized) (\<lambda>_.
          rbind (canonical b (envelope_encode L e)) (\<lambda>_.
            Inr e))))))))))))))))))))))"

definition envelope_verify :: "'e lib \<Rightarrow> bytes \<Rightarrow> 'e \<Rightarrow> 'e envelope result" where
  "envelope_verify L bs peer =
     rbind (verify_cose L bs peer MESSAGE_CONTEXT 4096) (envelope_parse L peer)"

definition digest :: "'e lib \<Rightarrow> bytes \<Rightarrow> bytes" where
  "digest L b = sha256 L b"

definition payload_matches :: "'e lib \<Rightarrow> 'e envelope \<Rightarrow> bytes \<Rightarrow> bool" where
  "payload_matches L e payload \<longleftrightarrow> env_len e = length payload \<and> env_digest e = digest L payload"

section \<open>The envelope format\<close>

definition wf_envelope :: "'e \<Rightarrow> 'e envelope \<Rightarrow> bool" where
  "wf_envelope peer e \<longleftrightarrow>
     length (realm_id (env_id e)) = 16 \<and> publisher_endpoint_id (env_id e) = peer
     \<and> length (publisher_epoch (env_id e)) = 16 \<and> wf_topic (mid_topic (env_id e))
     \<and> env_created e < env_expires e \<and> utf8 (env_format e) \<and> length (env_format e) \<le> 256
     \<and> env_len e < 2 ^ 64 \<and> length (env_digest e) = 32"

definition envelope_body :: "'e lib \<Rightarrow> 'e envelope \<Rightarrow> bytes" where
  "envelope_body L e =
     enc_u64 (codec L) 1 @ enc_bytes (codec L) (realm_id (env_id e))
     @ enc_bytes (codec L) (ep_bytes L (publisher_endpoint_id (env_id e)))
     @ enc_bytes (codec L) (publisher_epoch (env_id e)) @ enc_str (codec L) (as_str (mid_topic (env_id e)))
     @ enc_u64 (codec L) (mid_sequence (env_id e)) @ enc_u64 (codec L) (env_created e)
     @ enc_u64 (codec L) (env_expires e) @ enc_str (codec L) (env_format e)
     @ enc_u64 (codec L) (word_of_nat (env_len e)) @ enc_bytes (codec L) (env_digest e)
     @ enc_u64 (codec L) (mode_number (env_mode e))"

lemma envelope_encode_eq: "envelope_encode L e = enc_array (codec L) 12 @ envelope_body L e"
  by (simp add: envelope_encode_def envelope_body_def Let_def writer_defs)

lemma envelope_eta:
  "publisher_endpoint_id (env_id e) = peer \<Longrightarrow>
   \<lparr>env_id = MessageId (realm_id (env_id e)) peer
      (publisher_epoch (env_id e)) (mid_topic (env_id e)) (mid_sequence (env_id e)),
    env_created = env_created e, env_expires = env_expires e, env_format = env_format e,
    env_len = env_len e, env_digest = env_digest e, env_mode = env_mode e\<rparr> = e"
  by auto

lemma unat_word_of_nat_u64 [simp]: "n < 2 ^ 64 \<Longrightarrow> unat (word_of_nat n :: u64) = n"
  by (simp add: unat_of_nat)

context external
begin

lemma envelope_parse_encode:
  assumes "wf_envelope peer e"
  shows "envelope_parse L peer (envelope_encode L e @ t)
    = (if t = [] then Inr e else Inl (Protocol ''trailing bytes''))"
proof -
  have start: "r_array (codec L) 12 (envelope_encode L e @ t) = Inr ((), envelope_body L e @ t)" for t
    using r_array_enc [of 12] by (simp add: envelope_encode_eq)
  show ?thesis
    using assms
    by (cases "t = []")
      (simp_all add: wf_envelope_def envelope_parse_def Let_def start start [of "[]", simplified]
        envelope_body_def codec_simps ep_bytes_length endpoint_def ep_from_bytes_bytes
        wf_topic_utf8 wf_topic_length wf_topic_new
        envelope_eta not_le)
qed

lemma envelope_parse_wf:
  "envelope_parse L peer b = Inr e \<Longrightarrow> wf_envelope peer e \<and> envelope_encode L e = b"
  by (auto simp: envelope_parse_def Let_def result_simps wf_envelope_def not_le unat_u64_less [simplified]
      dest!: r_fixed_length r_text_wf topic_new_wf)

sublocale envelope: canonical_codec "wf_envelope peer" "envelope_encode L" "envelope_parse L peer" for peer
  using envelope_parse_encode [of peer _ "[]"] envelope_parse_encode envelope_parse_wf
  by unfold_locales auto

lemma envelope_verify_sign:
  assumes "wf_envelope (key_public L k) e" and "length (envelope_sign L e k) \<le> 4096"
  shows "envelope_verify L (envelope_sign L e k) (key_public L k) = Inr e"
  using assms verify_sign_cose [of "envelope_encode L e" k MESSAGE_CONTEXT 4096] envelope.dec_enc
  by (simp add: envelope_verify_def envelope_sign_def)

lemma envelope_verify_sound:
  assumes "envelope_verify L bs peer = Inr e"
  shows "wf_envelope peer e \<and> (\<exists>sig. bs = cose L (envelope_encode L e) sig
    \<and> ep_verify L peer (signing_bytes L (envelope_encode L e) MESSAGE_CONTEXT) sig)"
  using assms
  by (auto simp: envelope_verify_def result_simps dest!: verify_cose_Inr envelope_parse_wf)

end

section \<open>Properties\<close>

text \<open>What a key signs for one purpose is never what it signs for another, nor for another
  content: the signed bytes of certificates, revocation snapshots and messages determine the purpose and
  the content.\<close>

theorem signatures_separated:
  assumes "external L" and "length p < 2 ^ 64" and "length q < 2 ^ 64"
    and "c \<in> {CERT_CONTEXT, REVOCATION_CONTEXT, MESSAGE_CONTEXT}"
    and "d \<in> {CERT_CONTEXT, REVOCATION_CONTEXT, MESSAGE_CONTEXT}"
  shows "signing_bytes L p c = signing_bytes L q d \<longleftrightarrow> p = q \<and> c = d"
proof -
  have "length c < 2 ^ 64" "length d < 2 ^ 64"
    using assms(4,5) by (auto simp: CERT_CONTEXT_def REVOCATION_CONTEXT_def MESSAGE_CONTEXT_def)
  with external.signing_bytes_inject [OF assms(1) _ assms(2) _ assms(3)] show ?thesis
    by auto
qed

theorem signatures_separated_witness:
  "signing_bytes sample_lib [1] CERT_CONTEXT \<noteq> signing_bytes sample_lib [1] MESSAGE_CONTEXT"
  using signatures_separated [OF sample.external_axioms, of "[1]" "[1]" CERT_CONTEXT MESSAGE_CONTEXT]
  by (simp add: CERT_CONTEXT_def MESSAGE_CONTEXT_def str_bytes_def)

text \<open>An envelope signed by its publisher verifies for that publisher and comes back unchanged;
  whatever verifies for a peer names that peer as its publisher, has a lifetime, and is exactly the content of a
  signature by that peer, so the same bytes never verify to another envelope.\<close>

theorem envelope_authentic:
  assumes "external L"
  shows "(wf_envelope (key_public L k) e \<and> length (envelope_sign L e k) \<le> 4096 \<longrightarrow>
       envelope_verify L (envelope_sign L e k) (key_public L k) = Inr e)
    \<and> (envelope_verify L bs peer = Inr e' \<longrightarrow>
       publisher_endpoint_id (env_id e') = peer \<and> env_created e' < env_expires e' \<and> wf_topic (mid_topic (env_id e'))
       \<and> (\<exists>sig. bs = cose L (envelope_encode L e') sig
           \<and> ep_verify L peer (signing_bytes L (envelope_encode L e') MESSAGE_CONTEXT) sig))"
  using external.envelope_verify_sign [OF assms, of k e] external.envelope_verify_sound [OF assms, of bs peer e']
  by (auto simp: wf_envelope_def)

definition sample_envelope :: "256 word envelope" where
  "sample_envelope =
     \<lparr>env_id = MessageId (replicate 16 2) (key_public sample_lib (replicate 32 1)) (replicate 16 4) (Topic ''jobs'') 1,
      env_created = 10, env_expires = 20, env_format = ''opaque'', env_len = 3,
      env_digest = digest sample_lib [1, 2, 3], env_mode = Acknowledged\<rparr>"

lemma envelope_sign_size:
  assumes "external L" and "wf_envelope peer e"
  shows "length (envelope_sign L e k) \<le> 864"
proof -
  note u = cbor_codec.enc_u64_size [OF external.axioms(1) [OF assms(1)]]
    and a = cbor_codec.enc_array_size [OF external.axioms(1) [OF assms(1)]]
    and b = cbor_codec.enc_bytes_size [OF external.axioms(1) [OF assms(1)]]
    and s = cbor_codec.enc_str_size [OF external.axioms(1) [OF assms(1)]]
  have b': "length (enc_bytes (codec L) x) \<le> n + 9" if "length x = n" for x n
    using b [of x] that by simp
  have s': "length (enc_str (codec L) x) \<le> 256 + 9" if "length x \<le> 256" for x
    using s [of x] that by simp
  have "length (envelope_encode L e) \<le> 9 + (9 + ((16 + 9) + ((32 + 9) + ((16 + 9) + ((256 + 9) + (9 + (9 + (9
      + ((256 + 9) + (9 + ((32 + 9) + 9)))))))))))"
    unfolding envelope_encode_eq envelope_body_def length_append
    using assms by (intro add_mono u a b' s') (auto simp: wf_envelope_def external.ep_bytes_length wf_topic_length)
  moreover have "length (envelope_sign L e k) \<le> 48 + length (envelope_encode L e) + 64"
    using external.cose_size [OF assms(1)] external.sign_length [OF assms(1)]
    by (metis envelope_sign_def sign_cose_def)
  ultimately show ?thesis
    by simp
qed

lemma sample_envelope_wf: "wf_envelope (key_public sample_lib (replicate 32 1)) sample_envelope"
  by (simp add: wf_envelope_def sample_envelope_def wf_topic_def topic_new_def is_ascii_alphanumeric_def
      digest_def sample.sha256_length utf8_def utf8_codes.simps)

theorem envelope_authentic_witness:
  "envelope_verify sample_lib (envelope_sign sample_lib sample_envelope (replicate 32 1))
     (key_public sample_lib (replicate 32 1)) = Inr sample_envelope"
  using envelope_authentic [OF sample.external_axioms, of "replicate 32 1" sample_envelope] sample_envelope_wf
    envelope_sign_size [OF sample.external_axioms sample_envelope_wf, of "replicate 32 1"]
  by simp

end
