(* ===== verification/JoinCode.thy ===== *)
theory JoinCode
  imports Message
begin

text \<open>
  Join codes, the first part of \<^verbatim>\<open>src/src/join.rs\<close>: the options a host attaches to a code, the
  bearer credential itself and its textual form. The lemmas show that a code that encodes is
  decoded to itself with the compacted address, and that nothing but the encoding of the
  decoded code is accepted.
\<close>

definition PREFIX :: string where
  "PREFIX = ''rtn-mq://join/''"

text \<open>A \<open>Duration\<close> is its nanoseconds.\<close>

type_synonym duration = nat

definition from_secs :: "nat \<Rightarrow> duration" where
  "from_secs s = s * 10 ^ 9"

definition as_secs :: "duration \<Rightarrow> u64" where
  "as_secs d = word_of_nat (d div 10 ^ 9)"

definition MAX_JOIN_LIFETIME :: duration where
  "MAX_JOIN_LIFETIME = from_secs (10 * 365 * 24 * 60 * 60)"

section \<open>Options\<close>

record join_options =
  jo_permissions :: "permission list"
  jo_limits :: limits
  jo_lifetime :: duration
  jo_certificate_lifetime :: duration
  jo_max_uses :: nat

text \<open>\<open>CertificateLimits::default()\<close>.\<close>

definition limits_default :: limits where
  "limits_default = \<lparr>max_payload = 0, max_subscriptions = 0\<rparr>"

definition join_options_new :: "permission list \<Rightarrow> join_options" where
  "join_options_new permissions =
     \<lparr>jo_permissions = permissions, jo_limits = limits_default, jo_lifetime = from_secs 3600,
      jo_certificate_lifetime = from_secs 3600, jo_max_uses = 256\<rparr>"

definition join_options_validate :: "join_options \<Rightarrow> unit result" where
  "join_options_validate opts =
     fail_if (length (jo_permissions opts) > MAX_PERMISSIONS
       \<or> as_secs (jo_lifetime opts) = 0
       \<or> jo_lifetime opts > MAX_JOIN_LIFETIME
       \<or> as_secs (jo_certificate_lifetime opts) = 0
       \<or> jo_certificate_lifetime opts > MAX_JOIN_LIFETIME
       \<or> \<not> (1 \<le> jo_max_uses opts \<and> jo_max_uses opts \<le> 256))
       (Config ''invalid join code limits'')"

section \<open>Addresses\<close>

text \<open>A \<open>SocketAddr\<close>: octets and port, and the flow and scope of an IPv6 address.\<close>

datatype socket_addr = V4 bytes "16 word" | V6 bytes "16 word" u32 u32

fun socket_key :: "socket_addr \<Rightarrow> nat \<times> bytes \<times> 16 word \<times> u32 \<times> u32" where
  "socket_key (V4 octets port) = (0, octets, port, 0, 0)"
| "socket_key (V6 octets port flow scope) = (1, octets, port, flow, scope)"

lemma socket_key_inject: "socket_key a = socket_key b \<longleftrightarrow> a = b"
  by (cases a; cases b) simp_all

instantiation socket_addr :: linorder
begin

definition less_eq_socket_addr :: "socket_addr \<Rightarrow> socket_addr \<Rightarrow> bool" where
  "less_eq_socket_addr a b \<longleftrightarrow> socket_key a \<le> socket_key b"

definition less_socket_addr :: "socket_addr \<Rightarrow> socket_addr \<Rightarrow> bool" where
  "less_socket_addr a b \<longleftrightarrow> socket_key a < socket_key b"

instance
  by standard (auto simp: less_eq_socket_addr_def less_socket_addr_def socket_key_inject
      intro: order_trans)

end

text \<open>
  An \<open>EndpointAddr\<close>: the identity with its ordered sets of direct addresses and relays, which
  \<open>ip_addrs()\<close> and \<open>relay_urls()\<close> iterate.
\<close>

record 'e address =
  ad_id :: 'e
  ad_ips :: "socket_addr list"
  ad_relays :: "string list"

definition address_new :: "'e \<Rightarrow> 'e address" where
  "address_new e = \<lparr>ad_id = e, ad_ips = [], ad_relays = []\<rparr>"

definition with_ip_addr :: "socket_addr \<Rightarrow> 'e address \<Rightarrow> 'e address" where
  "with_ip_addr ip a = a\<lparr>ad_ips := insort_insert ip (ad_ips a)\<rparr>"

definition with_relay_url :: "string \<Rightarrow> 'e address \<Rightarrow> 'e address" where
  "with_relay_url relay a = a\<lparr>ad_relays := insort_insert relay (ad_relays a)\<rparr>"

definition compact_address :: "'e address \<Rightarrow> 'e address" where
  "compact_address a =
     (if ad_relays a \<noteq> [] then fold with_relay_url (ad_relays a) (address_new (ad_id a)) else a)"

section \<open>Codes\<close>

record 'e join_code =
  jc_address :: "'e address"
  jc_secret :: bytes

definition join_code_id :: "'e lib \<Rightarrow> 'e join_code \<Rightarrow> bytes" where
  "join_code_id L c = take 16 (digest L (str_bytes ''iroh-mq/join-code-id/v3'' @ jc_secret c))"

definition host_id :: "'e join_code \<Rightarrow> 'e" where
  "host_id c = ad_id (jc_address c)"

fun w_ip :: "minicbor \<Rightarrow> socket_addr \<Rightarrow> writer \<Rightarrow> writer" where
  "w_ip mc (V4 octets port) =
     w_calls [w_array mc 2, w_u mc 0, w_bytes mc (octets @ be_bytes 2 (unat port))]"
| "w_ip mc (V6 octets port flow scope) =
     w_calls [w_array mc 2, w_u mc 1,
              w_bytes mc (octets @ be_bytes 2 (unat port) @ be_bytes 4 (unat flow) @ be_bytes 4 (unat scope))]"

definition w_relay :: "minicbor \<Rightarrow> string \<Rightarrow> writer \<Rightarrow> writer" where
  "w_relay mc url = w_calls [w_array mc 2, w_u mc 2, w_text mc url]"

definition join_code_encode :: "'e lib \<Rightarrow> 'e join_code \<Rightarrow> string result" where
  "join_code_encode L c =
     (let mc = codec L; address = compact_address (jc_address c);
          count = length (ad_ips address) + length (ad_relays address) in
      rbind (fail_if (count = 0 \<or> count > 16) (Protocol ''join address count'')) (\<lambda>_.
      rbind (fail_if (list_ex (\<lambda>url. length url > 1024) (ad_relays address)) MessageTooLarge) (\<lambda>_.
        Inr (PREFIX @ b64_encode L
          (written
             [w_array mc 4,
              w_u mc 3,
              w_bytes mc (ep_bytes L (ad_id address)),
              w_array mc count,
              w_calls (map (w_ip mc) (ad_ips address)),
              w_calls (map (w_relay mc) (ad_relays address)),
              w_bytes mc (jc_secret c)])))))"

text \<open>One turn of the address loop of \<open>decode\<close>, and the loop.\<close>

definition r_address :: "'e lib \<Rightarrow> 'e address \<Rightarrow> reader \<Rightarrow> 'e address read" where
  "r_address L address r =
     (let mc = codec L in
      rbind (r_array mc 2 r) (\<lambda>(_, r).
      rbind (r_u mc r) (\<lambda>(k, r).
        if k = 0 then
          rbind (r_fixed mc 6 r) (\<lambda>(b, r).
            Inr (with_ip_addr (V4 (take 4 b) (word_of_nat (be_val (drop 4 b)))) address, r))
        else if k = 1 then
          rbind (r_fixed mc 26 r) (\<lambda>(b, r).
            Inr (with_ip_addr (V6 (take 16 b) (word_of_nat (be_val (take 2 (drop 16 b))))
                   (word_of_nat (be_val (take 4 (drop 18 b)))) (word_of_nat (be_val (drop 22 b)))) address, r))
        else if k = 2 then
          rbind (r_text mc 1024 r) (\<lambda>(s, r).
          rbind (ok_or (relay_parse L s) (Protocol ''join relay address'')) (\<lambda>u.
            Inr (with_relay_url u address, r)))
        else Inl (Protocol ''join address type''))))"

fun r_addresses :: "'e lib \<Rightarrow> nat \<Rightarrow> 'e address \<Rightarrow> reader \<Rightarrow> 'e address read" where
  "r_addresses L 0 address r = Inr (address, r)"
| "r_addresses L (Suc n) address r =
     rbind (r_address L address r) (\<lambda>(address, r). r_addresses L n address r)"

text \<open>\<open>str::strip_prefix\<close>.\<close>

definition strip_prefix :: "string \<Rightarrow> string \<Rightarrow> string option" where
  "strip_prefix p s = (if take (length p) s = p then Some (drop (length p) s) else None)"

definition join_code_decode :: "'e lib \<Rightarrow> string \<Rightarrow> 'e join_code result" where
  "join_code_decode L code =
     (let mc = codec L in
      rbind (fail_if (length code > 32768) MessageTooLarge) (\<lambda>_.
      rbind (ok_or (strip_prefix PREFIX code) (Protocol ''join code prefix'')) (\<lambda>encoded.
      rbind (ok_or (b64_decode L encoded) (Protocol ''join code base64'')) (\<lambda>b.
      rbind (r_array mc 4 b) (\<lambda>(_, r).
      rbind (r_u mc r) (\<lambda>(v, r).
      rbind (fail_if (v \<noteq> 3) (Protocol ''join code version'')) (\<lambda>_.
      rbind (r_fixed mc 32 r) (\<lambda>(k, r).
      rbind (endpoint L k) (\<lambda>host.
      rbind (r_list mc 16 r) (\<lambda>(n, r).
      rbind (r_addresses L n (address_new host) r) (\<lambda>(address, r).
      rbind (r_fixed mc 32 r) (\<lambda>(secret, r).
      rbind (r_end r) (\<lambda>_.
      (let value = \<lparr>jc_address = address, jc_secret = secret\<rparr> in
       rbind (join_code_encode L value) (\<lambda>s.
       rbind (fail_if (s \<noteq> code) (Protocol ''noncanonical join code'')) (\<lambda>_.
         Inr value))))))))))))))))"

section \<open>The textual form\<close>

fun wf_socket :: "socket_addr \<Rightarrow> bool" where
  "wf_socket (V4 octets port) = (length octets = 4)"
| "wf_socket (V6 octets port flow scope) = (length octets = 16)"

definition wf_address :: "'e lib \<Rightarrow> 'e address \<Rightarrow> bool" where
  "wf_address L a \<longleftrightarrow> (\<forall>ip \<in> set (ad_ips a). wf_socket ip) \<and> sorted_wrt (<) (ad_ips a)
     \<and> (\<forall>u \<in> set (ad_relays a). relay_parse L u = Some u) \<and> sorted_wrt (<) (ad_relays a)"

definition wf_join_code :: "'e lib \<Rightarrow> 'e join_code \<Rightarrow> bool" where
  "wf_join_code L c \<longleftrightarrow> wf_address L (jc_address c) \<and> length (jc_secret c) = 32"

lemma insort_insert_last:
  "\<forall>y \<in> set ys. y < x \<Longrightarrow> insort_insert x ys = ys @ [x]" for x :: "'a :: linorder"
proof -
  assume "\<forall>y \<in> set ys. y < x"
  then have "x \<notin> set ys" and "insort x ys = ys @ [x]"
    by auto (induction ys, auto)
  then show ?thesis
    by (simp add: insort_insert_key_def)
qed

lemma fold_with_ip:
  "sorted_wrt (<) (ad_ips a @ ips) \<Longrightarrow> fold with_ip_addr ips a = a\<lparr>ad_ips := ad_ips a @ ips\<rparr>"
proof (induction ips arbitrary: a)
  case (Cons ip ips)
  then show ?case
    by (simp add: with_ip_addr_def insort_insert_last sorted_wrt_append)
qed simp

lemma fold_with_relay:
  "sorted_wrt (<) (ad_relays a @ us) \<Longrightarrow> fold with_relay_url us a = a\<lparr>ad_relays := ad_relays a @ us\<rparr>"
proof (induction us arbitrary: a)
  case (Cons u us)
  then show ?case
    by (simp add: with_relay_url_def insort_insert_last sorted_wrt_append)
qed simp

lemma compact_address_eq:
  "wf_address L a \<Longrightarrow> compact_address a = (if ad_relays a = [] then a else a\<lparr>ad_ips := []\<rparr>)"
  by (auto simp: compact_address_def wf_address_def fold_with_relay address_new_def)

lemma wf_compact: "wf_address L a \<Longrightarrow> wf_address L (compact_address a)"
  by (auto simp: compact_address_eq) (auto simp: wf_address_def)

lemma compact_idem: "wf_address L a \<Longrightarrow> compact_address (compact_address a) = compact_address a"
  using wf_compact [of L a] by (simp add: compact_address_eq [of L])

lemma wf_insort_insert: "sorted_wrt (<) xs \<Longrightarrow> sorted_wrt (<) (insort_insert x xs)" for x :: "'a :: linorder"
  unfolding strict_sorted_iff
  by (simp add: sorted_insort_insert distinct_insort_insert)

fun ip_bytes :: "minicbor \<Rightarrow> socket_addr \<Rightarrow> bytes" where
  "ip_bytes mc (V4 octets port) =
     enc_array mc 2 @ enc_u64 mc 0 @ enc_bytes mc (octets @ be_bytes 2 (unat port))"
| "ip_bytes mc (V6 octets port flow scope) =
     enc_array mc 2 @ enc_u64 mc 1
     @ enc_bytes mc (octets @ be_bytes 2 (unat port) @ be_bytes 4 (unat flow) @ be_bytes 4 (unat scope))"

definition relay_bytes :: "minicbor \<Rightarrow> string \<Rightarrow> bytes" where
  "relay_bytes mc url = enc_array mc 2 @ enc_u64 mc 2 @ enc_str mc url"

lemma w_ip_append: "w_ip mc ip w = w @ ip_bytes mc ip"
  by (cases ip) (simp_all add: writer_defs)

lemma w_relay_append: "w_relay mc u w = w @ relay_bytes mc u"
  by (simp add: w_relay_def relay_bytes_def writer_defs)

definition join_code_body :: "'e lib \<Rightarrow> 'e address \<Rightarrow> bytes \<Rightarrow> bytes" where
  "join_code_body L a secret =
     enc_u64 (codec L) 3 @ enc_bytes (codec L) (ep_bytes L (ad_id a))
     @ enc_array (codec L) (word_of_nat (length (ad_ips a) + length (ad_relays a)))
     @ concat (map (ip_bytes (codec L)) (ad_ips a)) @ concat (map (relay_bytes (codec L)) (ad_relays a))
     @ enc_bytes (codec L) secret"

lemma join_code_encode_Inr:
  "join_code_encode L c = Inr s \<longleftrightarrow>
     (let a = compact_address (jc_address c); n = length (ad_ips a) + length (ad_relays a) in
      0 < n \<and> n \<le> 16 \<and> (\<forall>u \<in> set (ad_relays a). length u \<le> 1024)
      \<and> s = PREFIX @ b64_encode L (enc_array (codec L) 4 @ join_code_body L a (jc_secret c)))"
  by (auto simp: join_code_encode_def Let_def result_simps list_ex_iff written_def w_finish_def w_new_def
      w_calls_def [of "_ # _"] w_calls_map [OF w_ip_append] w_calls_map [OF w_relay_append]
      w_array_def w_u_def w_bytes_def join_code_body_def not_less)

lemma r_addresses_add:
  "r_addresses L (m + n) a r = rbind (r_addresses L m a r) (\<lambda>(a, r). r_addresses L n a r)"
proof (induction m arbitrary: a r)
  case (Suc m)
  then show ?case
    by (cases "r_address L a r") auto
qed simp

lemma unat_parts:
  "unat (p :: 16 word) < 256 ^ 2" "unat (q :: u32) < 256 ^ 4"
  using unsigned_less [of p, where ?'a = nat] unsigned_less [of q, where ?'a = nat] by simp_all

lemma be_val_parts [simp]:
  "word_of_nat (be_val (be_bytes 2 (unat p))) = (p :: 16 word)"
  "word_of_nat (be_val (be_bytes 4 (unat q))) = (q :: u32)"
  using unat_parts(1) [of p] unat_parts(2) [of q] by (simp_all add: be_val_be_bytes)

context external
begin

lemma r_address_ip:
  "wf_socket ip \<Longrightarrow> r_address L a (ip_bytes (codec L) ip @ t) = Inr (with_ip_addr ip a, t)"
  using r_array_enc [of 2] by (cases ip) (simp_all add: r_address_def Let_def codec_simps)

lemma r_address_relay:
  "relay_parse L u = Some u \<Longrightarrow> length u \<le> 1024 \<Longrightarrow>
     r_address L a (relay_bytes (codec L) u @ t) = Inr (with_relay_url u a, t)"
  using r_array_enc [of 2] relay_parse_again [of u u]
  by (simp add: r_address_def Let_def codec_simps relay_bytes_def)

lemma r_addresses_ips:
  "\<forall>ip \<in> set ips. wf_socket ip \<Longrightarrow>
     r_addresses L (length ips) a (concat (map (ip_bytes (codec L)) ips) @ t) = Inr (fold with_ip_addr ips a, t)"
  by (induction ips arbitrary: a) (simp_all add: r_address_ip)

lemma r_addresses_relays:
  "\<forall>u \<in> set us. relay_parse L u = Some u \<and> length u \<le> 1024 \<Longrightarrow>
     r_addresses L (length us) a (concat (map (relay_bytes (codec L)) us) @ t) = Inr (fold with_relay_url us a, t)"
  by (induction us arbitrary: a) (simp_all add: r_address_relay)

lemma r_addresses_enc [codec_simps]:
  assumes "wf_address L a" and "\<forall>u \<in> set (ad_relays a). length u \<le> 1024"
  shows "r_addresses L (length (ad_ips a) + length (ad_relays a)) (address_new (ad_id a))
      (concat (map (ip_bytes (codec L)) (ad_ips a)) @ concat (map (relay_bytes (codec L)) (ad_relays a)) @ t)
    = Inr (a, t)"
  using assms
  by (simp add: r_addresses_add r_addresses_ips r_addresses_relays wf_address_def
      fold_with_ip fold_with_relay address_new_def)

lemma r_address_wf:
  assumes "r_address L a r = Inr (a', r')" and "wf_address L a"
  shows "wf_address L a'"
proof -
  from assms(1) obtain ip u where "a' = with_ip_addr ip a \<and> wf_socket ip
      \<or> a' = with_relay_url u a \<and> relay_parse L u = Some u"
    by (auto simp: r_address_def Let_def result_simps dest!: r_fixed_length dest: relay_parse_again
        split: if_splits) force+
  with assms(2) show ?thesis
    by (auto simp: wf_address_def with_ip_addr_def with_relay_url_def wf_insort_insert set_insort_insert)
qed

lemma r_addresses_wf: "r_addresses L n a r = Inr (a', r') \<Longrightarrow> wf_address L a \<Longrightarrow> wf_address L a'"
  by (induction n arbitrary: a r) (auto simp: result_simps dest: r_address_wf)

lemma join_code_decode_encode:
  assumes wf: "wf_join_code L c" and enc: "join_code_encode L c = Inr s" and len: "length s \<le> 32768"
  shows "join_code_decode L s = Inr (c\<lparr>jc_address := compact_address (jc_address c)\<rparr>)"
proof -
  define a where "a = compact_address (jc_address c)"
  define body where "body = join_code_body L a (jc_secret c)"
  have wfa: "wf_address L a" and secret: "length (jc_secret c) = 32" and idem: "compact_address a = a"
    using wf compact_idem wf_compact by (auto simp: wf_join_code_def a_def)
  from enc have n: "length (ad_ips a) + length (ad_relays a) \<le> 16"
      and us: "\<forall>u \<in> set (ad_relays a). length u \<le> 1024"
      and s: "s = PREFIX @ b64_encode L (enc_array (codec L) 4 @ body)"
    by (auto simp: join_code_encode_Inr Let_def a_def body_def)
  have start: "r_array (codec L) 4 (enc_array (codec L) 4 @ body) = Inr ((), body)"
    using r_array_enc [of 4] by simp
  have again: "join_code_encode L \<lparr>jc_address = a, jc_secret = jc_secret c\<rparr> = Inr s"
    using enc idem by (simp add: join_code_encode_Inr Let_def a_def)
  have strip: "strip_prefix PREFIX s = Some (b64_encode L (enc_array (codec L) 4 @ body))"
    by (simp add: s strip_prefix_def)
  have "join_code_decode L s = Inr \<lparr>jc_address = a, jc_secret = jc_secret c\<rparr>"
    using len again n secret
    by (simp add: join_code_decode_def Let_def strip b64_decode_encode start)
      (simp add: body_def join_code_body_def codec_simps wfa us ep_bytes_length endpoint_def ep_from_bytes_bytes
        del: of_nat_add)
  then show ?thesis
    by (simp add: a_def)
qed

lemma join_code_decode_wf:
  assumes "join_code_decode L s = Inr c"
  shows "wf_join_code L c \<and> join_code_encode L c = Inr s \<and> length s \<le> 32768"
proof -
  have "wf_address L (address_new h)" for h
    by (simp add: wf_address_def address_new_def)
  with assms show ?thesis
    by (auto simp: join_code_decode_def Let_def result_simps wf_join_code_def
        dest!: r_fixed_length intro: r_addresses_wf)
qed

lemma join_code_decode_compact:
  assumes "join_code_decode L s = Inr c"
  shows "compact_address (jc_address c) = jc_address c"
proof -
  from join_code_decode_wf [OF assms] join_code_decode_encode
  have "join_code_decode L s = Inr (c\<lparr>jc_address := compact_address (jc_address c)\<rparr>)"
    by blast
  with assms show ?thesis
    by (metis join_code.select_convs(1) join_code.surjective join_code.update_convs(1) sum.inject(2))
qed

end

section \<open>Properties\<close>

text \<open>C39. A join code survives its textual form: what a well-formed code encodes to, within the length
  limit, decodes to the code with its address compacted; and a text is accepted only when it is the
  encoding of the code it decodes to, whose address is well-formed and compact.\<close>

theorem join_code_roundtrip:
  assumes "external L"
  shows "(wf_join_code L c \<and> join_code_encode L c = Inr s \<and> length s \<le> 32768 \<longrightarrow>
       join_code_decode L s = Inr (c\<lparr>jc_address := compact_address (jc_address c)\<rparr>))
    \<and> (join_code_decode L s = Inr d \<longrightarrow>
       wf_join_code L d \<and> compact_address (jc_address d) = jc_address d \<and> join_code_encode L d = Inr s)"
  using external.join_code_decode_encode [OF assms] external.join_code_decode_wf [OF assms]
    external.join_code_decode_compact [OF assms]
  by blast

definition sample_join_code :: "256 word join_code" where
  "sample_join_code =
     \<lparr>jc_address = \<lparr>ad_id = 7, ad_ips = [V4 [127, 0, 0, 1] 80], ad_relays = [''https://r'']\<rparr>,
      jc_secret = replicate 32 9\<rparr>"

lemma sample_join_code_length:
  assumes "join_code_encode sample_lib sample_join_code = Inr s"
  shows "length s \<le> 32768"
proof -
  let ?a = "\<lparr>ad_id = 7 :: 256 word, ad_ips = [], ad_relays = [''https://r'']\<rparr>"
  have "compact_address (jc_address sample_join_code) = ?a"
    by (simp add: sample_join_code_def compact_address_def address_new_def with_relay_url_def insort_insert_key_def)
  with assms have s: "s = PREFIX @ hex_encode (enc_array (codec sample_lib) 4
      @ join_code_body sample_lib ?a (replicate 32 9))"
    by (auto simp: join_code_encode_Inr Let_def sample_join_code_def) (simp add: sample_lib_def)
  show ?thesis
    by (simp add: s length_hex_encode PREFIX_def join_code_body_def relay_bytes_def sample_lib_def rfc8949_def
        head_def Let_def)
qed

theorem join_code_roundtrip_witness:
  "\<exists>s. join_code_encode sample_lib sample_join_code = Inr s
     \<and> join_code_decode sample_lib s = Inr (sample_join_code\<lparr>jc_address :=
        \<lparr>ad_id = 7, ad_ips = [], ad_relays = [''https://r'']\<rparr>\<rparr>)"
proof -
  have c: "compact_address (jc_address sample_join_code) = \<lparr>ad_id = 7, ad_ips = [], ad_relays = [''https://r'']\<rparr>"
    by (simp add: sample_join_code_def compact_address_def address_new_def with_relay_url_def insort_insert_key_def)
  have wf: "wf_join_code sample_lib sample_join_code"
    by (simp add: wf_join_code_def wf_address_def sample_join_code_def sample_lib_def utf8_def utf8_codes.simps)
  obtain s where s: "join_code_encode sample_lib sample_join_code = Inr s"
    by (auto simp: join_code_encode_def Let_def c)
  with join_code_roundtrip [OF sample.external_axioms, of sample_join_code s] wf c
    sample_join_code_length [OF s] show ?thesis
    by (intro exI [of _ s]) simp
qed

end
