(* ===== verification/Wire.thy ===== *)
theory Wire
  imports Message
begin

text \<open>
  The wire format, \<^verbatim>\<open>src/src/wire.rs\<close>: the twelve-byte frame prefix, reading and writing a
  frame on a byte stream, and the metadata of every frame kind (HELLO, READY, the control
  frames, DATA). The lemmas show that the prefix round trips within its bounds, that a written
  frame is read back with exactly its bytes consumed, and that every metadata format is a
  canonical codec for its kind and session.
\<close>

definition MAX_METADATA :: nat where
  "MAX_METADATA = 16 * 1024"

definition HELLO :: byte where
  "HELLO = 1"

definition READY :: byte where
  "READY = 2"

definition DATA :: byte where
  "DATA = 7"

section \<open>The frame prefix\<close>

record header =
  h_kind :: byte
  h_metadata :: nat
  h_payload :: nat

definition header_encode :: "header \<Rightarrow> bytes result" where
  "header_encode h =
     rbind (ok_or (checked_add_usize (h_metadata h) (h_payload h)) MessageTooLarge) (\<lambda>n.
     rbind (fail_if (\<not> n < 2 ^ 32) MessageTooLarge) (\<lambda>_.
       Inr (be_bytes 4 n @ [h_kind h] @ [0, 0, 0] @ be_bytes 4 (h_metadata h mod 2 ^ 32))))"

definition header_decode :: "bytes \<Rightarrow> nat \<Rightarrow> header result" where
  "header_decode b mxp =
     (let body = be_val (take 4 b); metadata = be_val (drop 8 b) in
      if take 3 (drop 5 b) \<noteq> [0, 0, 0] \<or> \<not> (1 \<le> b ! 4 \<and> b ! 4 \<le> 12) \<or> metadata > body
      then Inl (Protocol ''frame prefix'')
      else let payload = body - metadata in
        if metadata > MAX_METADATA \<or> payload > mxp then Inl MessageTooLarge
        else if b ! 4 \<noteq> DATA \<and> payload \<noteq> 0 then Inl (Protocol ''control payload'')
        else Inr \<lparr>h_kind = b ! 4, h_metadata = metadata, h_payload = payload\<rparr>)"

section \<open>Frames on a byte stream\<close>

text \<open>
  A stream is the bytes that will still arrive before its end. \<open>timely\<close> says that the rest of
  the prefix, or the end of the stream, arrives within the ten seconds of the source.
\<close>

definition read_exact :: "nat \<Rightarrow> bytes \<Rightarrow> (bytes \<times> bytes) result" where
  "read_exact n s = (if length s < n then Inl (Io ''early eof'') else Inr (take n s, drop n s))"

definition read_header :: "bool \<Rightarrow> bytes \<Rightarrow> nat \<Rightarrow> (header option \<times> bytes) result" where
  "read_header timely s mxp =
     (case s of
        [] \<Rightarrow> Inr (None, [])
      | b0 # s \<Rightarrow>
        rbind (fail_if (\<not> timely) Timeout) (\<lambda>_.
        rbind (read_exact 11 s) (\<lambda>(b, s).
        rbind (header_decode (b0 # b) mxp) (\<lambda>h.
          Inr (Some h, s)))))"

text \<open>\<open>write_all\<close> is the stream that is written to.\<close>

definition write_frame ::
  "('s \<Rightarrow> bytes \<Rightarrow> 's result) \<Rightarrow> 's \<Rightarrow> byte \<Rightarrow> bytes \<Rightarrow> bytes \<Rightarrow> 's result"
where
  "write_frame write_all w kind metadata payload =
     rbind (fail_if (length metadata > MAX_METADATA) MessageTooLarge) (\<lambda>_.
     rbind (header_encode \<lparr>h_kind = kind, h_metadata = length metadata, h_payload = length payload\<rparr>) (\<lambda>p.
     rbind (write_all w p) (\<lambda>w.
     rbind (write_all w metadata) (\<lambda>w.
       write_all w payload))))"

section \<open>HELLO and READY\<close>

record hello_data =
  he_cert :: bytes
  he_nonce :: bytes
  he_max_payload :: nat
  he_max_topics :: nat
  he_window_secs :: u64

definition hello :: "minicbor \<Rightarrow> bytes \<Rightarrow> bytes \<Rightarrow> nat \<Rightarrow> nat \<Rightarrow> u64 \<Rightarrow> bytes" where
  "hello mc cert nonce mp mt window_secs =
     written
       [w_array mc 6, w_u mc 1, w_bytes mc cert, w_bytes mc nonce, w_u mc (word_of_nat mp),
        w_u mc (word_of_nat mt), w_u mc window_secs]"

definition parse_hello :: "minicbor \<Rightarrow> bytes \<Rightarrow> hello_data result" where
  "parse_hello mc b =
     rbind (r_array mc 6 b) (\<lambda>(_, r).
     rbind (r_u mc r) (\<lambda>(v, r).
     rbind (version v) (\<lambda>_.
     rbind (r_bytes mc MAX_CERT r) (\<lambda>(cert, r).
     rbind (r_fixed mc 16 r) (\<lambda>(nonce, r).
     rbind (r_u mc r) (\<lambda>(mp, r).
     rbind (r_u mc r) (\<lambda>(mt, r).
     rbind (r_u mc r) (\<lambda>(window_secs, r).
     rbind (r_end r) (\<lambda>_.
     rbind (fail_if (unat mp = 0 \<or> unat mp > 1024 * 1024 \<or> unat mt = 0 \<or> unat mt > 256
              \<or> window_secs = 0 \<or> window_secs > 300) (Protocol ''HELLO limits'')) (\<lambda>_.
     rbind (canonical b (hello mc cert nonce (unat mp) (unat mt) window_secs)) (\<lambda>_.
       Inr \<lparr>he_cert = cert, he_nonce = nonce, he_max_payload = unat mp, he_max_topics = unat mt,
            he_window_secs = window_secs\<rparr>)))))))))))"

definition ready_frame :: "minicbor \<Rightarrow> bytes \<Rightarrow> bytes \<Rightarrow> bytes" where
  "ready_frame mc local remote =
     written [w_array mc 3, w_u mc 1, w_bytes mc local, w_bytes mc remote]"

section \<open>Control frames\<close>

datatype control =
    Subscribe topic bytes delivery_mode
  | Suback topic bytes u64
  | Unsubscribe topic bytes
  | Credit topic bytes nat
  | RequestCredit topic bytes nat
  | Outcome topic bytes bytes u64 u64
  | ControlError u64
  | Goodbye

text \<open>The frame kind and the length of the array.\<close>

fun control_kind :: "control \<Rightarrow> byte \<times> nat" where
  "control_kind (Subscribe _ _ _) = (3, 5)"
| "control_kind (Suback _ _ _) = (4, 5)"
| "control_kind (Unsubscribe _ _) = (5, 4)"
| "control_kind (Credit _ _ _) = (6, 6)"
| "control_kind (RequestCredit _ _ _) = (6, 6)"
| "control_kind (Outcome _ _ _ _ code) = (if code = 0 then (8, 7) else (9, 7))"
| "control_kind (ControlError _) = (11, 3)"
| "control_kind Goodbye = (12, 2)"

fun control_fields :: "minicbor \<Rightarrow> control \<Rightarrow> (writer \<Rightarrow> writer) list" where
  "control_fields mc (Subscribe topic sub mode) =
     [w_text mc (as_str topic), w_bytes mc sub, w_u mc (mode_number mode)]"
| "control_fields mc (Suback topic sub code) =
     [w_text mc (as_str topic), w_bytes mc sub, w_u mc code]"
| "control_fields mc (Unsubscribe topic sub) =
     [w_text mc (as_str topic), w_bytes mc sub]"
| "control_fields mc (RequestCredit topic sub n) =
     [w_text mc (as_str topic), w_bytes mc sub, w_u mc 0, w_u mc (word_of_nat n)]"
| "control_fields mc (Credit topic sub n) =
     [w_text mc (as_str topic), w_bytes mc sub, w_u mc 1, w_u mc (word_of_nat n)]"
| "control_fields mc (Outcome topic sub epoch sequence code) =
     [w_text mc (as_str topic), w_bytes mc sub, w_bytes mc epoch, w_u mc sequence, w_u mc code]"
| "control_fields mc (ControlError code) = [w_u mc code]"
| "control_fields mc Goodbye = []"

definition control_encode :: "minicbor \<Rightarrow> control \<Rightarrow> bytes \<Rightarrow> byte \<times> bytes" where
  "control_encode mc c session =
     (case control_kind c of (kind, len) \<Rightarrow>
        (kind, written ([w_array mc len, w_u mc 1, w_bytes mc session] @ control_fields mc c)))"

definition control_len :: "byte \<Rightarrow> nat option" where
  "control_len kind =
     (if kind = 3 \<or> kind = 4 then Some 5
      else if kind = 5 then Some 4
      else if kind = 6 then Some 6
      else if kind = 8 \<or> kind = 9 then Some 7
      else if kind = 11 then Some 3
      else if kind = 12 then Some 2
      else None)"

text \<open>The two fields most of the kinds begin with.\<close>

definition r_topic_sub :: "minicbor \<Rightarrow> reader \<Rightarrow> (topic \<times> bytes) read" where
  "r_topic_sub mc r =
     rbind (r_text mc 256 r) (\<lambda>(s, r).
     rbind (topic_new s) (\<lambda>topic.
     rbind (r_fixed mc 16 r) (\<lambda>(sub, r).
       Inr ((topic, sub), r))))"

definition r_control :: "minicbor \<Rightarrow> byte \<Rightarrow> reader \<Rightarrow> control read" where
  "r_control mc kind r =
     (if kind = 3 then
        rbind (r_topic_sub mc r) (\<lambda>((topic, sub), r).
        rbind (r_u mc r) (\<lambda>(m, r).
        rbind (mode_decode m) (\<lambda>mode. Inr (Subscribe topic sub mode, r))))
      else if kind = 4 then
        rbind (r_topic_sub mc r) (\<lambda>((topic, sub), r).
        rbind (r_u mc r) (\<lambda>(code, r). Inr (Suback topic sub code, r)))
      else if kind = 5 then
        rbind (r_topic_sub mc r) (\<lambda>((topic, sub), r). Inr (Unsubscribe topic sub, r))
      else if kind = 6 then
        rbind (r_topic_sub mc r) (\<lambda>((topic, sub), r).
        rbind (r_u mc r) (\<lambda>(slot, r).
        rbind (r_u mc r) (\<lambda>(n, r).
          if slot = 0 then Inr (RequestCredit topic sub (unat n), r)
          else if slot = 1 then Inr (Credit topic sub (unat n), r)
          else Inl (Protocol ''credit slots''))))
      else if kind = 8 \<or> kind = 9 then
        rbind (r_topic_sub mc r) (\<lambda>((topic, sub), r).
        rbind (r_fixed mc 16 r) (\<lambda>(epoch, r).
        rbind (r_u mc r) (\<lambda>(sequence, r).
        rbind (r_u mc r) (\<lambda>(code, r).
          if (kind = 8 \<and> code \<noteq> 0) \<or> (kind = 9 \<and> \<not> (1 \<le> code \<and> code \<le> 2))
          then Inl (Protocol ''outcome code'')
          else Inr (Outcome topic sub epoch sequence code, r)))))
      else if kind = 11 then
        rbind (r_u mc r) (\<lambda>(code, r). Inr (ControlError code, r))
      else Inr (Goodbye, r))"

definition control_decode :: "minicbor \<Rightarrow> byte \<Rightarrow> bytes \<Rightarrow> bytes \<Rightarrow> control result" where
  "control_decode mc kind b session =
     rbind (ok_or (control_len kind) (Protocol ''control frame type'')) (\<lambda>len.
     rbind (r_array mc len b) (\<lambda>(_, r).
     rbind (r_u mc r) (\<lambda>(v, r).
     rbind (version v) (\<lambda>_.
     rbind (r_fixed mc 16 r) (\<lambda>(s, r).
     rbind (fail_if (s \<noteq> session) (Protocol ''session mismatch'')) (\<lambda>_.
     rbind (r_control mc kind r) (\<lambda>(c, r).
     rbind (r_end r) (\<lambda>_.
     rbind (canonical b (snd (control_encode mc c session))) (\<lambda>_.
       Inr c)))))))))"

section \<open>DATA\<close>

definition data_frame :: "minicbor \<Rightarrow> bytes \<Rightarrow> bytes \<Rightarrow> bytes \<Rightarrow> bytes" where
  "data_frame mc session sub envelope =
     written [w_array mc 4, w_u mc 1, w_bytes mc session, w_bytes mc sub, w_bytes mc envelope]"

definition parse_data :: "minicbor \<Rightarrow> bytes \<Rightarrow> bytes \<Rightarrow> (bytes \<times> bytes) result" where
  "parse_data mc b expected =
     rbind (r_array mc 4 b) (\<lambda>(_, r).
     rbind (r_u mc r) (\<lambda>(v, r).
     rbind (version v) (\<lambda>_.
     rbind (r_fixed mc 16 r) (\<lambda>(s, r).
     rbind (fail_if (s \<noteq> expected) (Protocol ''DATA session'')) (\<lambda>_.
     rbind (r_fixed mc 16 r) (\<lambda>(sub, r).
     rbind (r_bytes mc 4096 r) (\<lambda>(envelope, r).
     rbind (r_end r) (\<lambda>_.
     rbind (canonical b (data_frame mc expected sub envelope)) (\<lambda>_.
       Inr (sub, envelope))))))))))"

section \<open>The prefix\<close>

definition wf_header :: "nat \<Rightarrow> header \<Rightarrow> bool" where
  "wf_header mxp h \<longleftrightarrow> 1 \<le> h_kind h \<and> h_kind h \<le> 12 \<and> h_metadata h \<le> MAX_METADATA
     \<and> h_payload h \<le> mxp \<and> h_metadata h + h_payload h < 2 ^ 32
     \<and> (h_kind h \<noteq> DATA \<longrightarrow> h_payload h = 0)"

lemma header_encode_Inr:
  "header_encode h = Inr b \<longleftrightarrow> h_metadata h + h_payload h < 2 ^ 32
     \<and> b = be_bytes 4 (h_metadata h + h_payload h) @ [h_kind h, 0, 0, 0] @ be_bytes 4 (h_metadata h)"
  by (auto simp: header_encode_def checked_add_usize_def result_simps)

lemma header_decode_encode:
  assumes "wf_header mxp h"
  shows "\<exists>b. header_encode h = Inr b \<and> length b = 12 \<and> header_decode b mxp = Inr h"
proof -
  have nth: "(be_bytes 4 n @ k # r) ! 4 = k" for n k r
    by (simp add: nth_append)
  have "header_decode (be_bytes 4 (h_metadata h + h_payload h) @ [h_kind h, 0, 0, 0]
      @ be_bytes 4 (h_metadata h)) mxp = Inr h"
    using assms by (auto simp: header_decode_def Let_def wf_header_def be_val_be_bytes nth)
  with assms show ?thesis
    by (auto simp: header_encode_Inr wf_header_def)
qed

lemma header_decode_wf:
  assumes "header_decode b mxp = Inr h" and "length b = 12"
  shows "wf_header mxp h \<and> header_encode h = Inr b"
proof -
  define body where "body = be_val (take 4 b)"
  have body: "body < 2 ^ 32"
    using be_val_bound [of "take 4 b"] assms(2) by (simp add: body_def)
  have h: "h_metadata h = be_val (drop 8 b)" "h_metadata h + h_payload h = body" "h_kind h = b ! 4"
    and wf: "1 \<le> h_kind h \<and> h_kind h \<le> 12 \<and> h_metadata h \<le> MAX_METADATA
      \<and> h_payload h \<le> mxp \<and> (h_kind h \<noteq> DATA \<longrightarrow> h_payload h = 0)"
    and zeros: "take 3 (drop 5 b) = [0, 0, 0]"
    using assms(1) by (auto simp: header_decode_def Let_def body_def split: if_splits)
  have split: "b = take 4 b @ b ! 4 # take 3 (drop 5 b) @ drop 8 b"
    using assms(2) append_take_drop_id [of 3 "drop 5 b"] append_take_drop_id [of 4 b]
      Cons_nth_drop_Suc [of 4 b] by simp
  have pieces: "take 4 b = be_bytes 4 body" "drop 8 b = be_bytes 4 (h_metadata h)"
    using be_bytes_be_val [of "take 4 b"] be_bytes_be_val [of "drop 8 b"] assms(2)
    by (simp_all add: body_def h)
  have "b = be_bytes 4 body @ [h_kind h, 0, 0, 0] @ be_bytes 4 (h_metadata h)"
    by (subst split) (simp add: pieces zeros h(3))
  with h(2) wf body show ?thesis
    by (simp add: wf_header_def header_encode_Inr)
qed

lemma read_header_encode:
  assumes "wf_header mxp h" and "header_encode h = Inr p"
  shows "read_header True (p @ r) mxp = Inr (Some h, r)"
proof -
  from header_decode_encode [OF assms(1)] assms(2) have "length p = 12" and dec: "header_decode p mxp = Inr h"
    by auto
  then obtain b0 b where p: "p = b0 # b" and "length b = 11"
    by (cases p) auto
  then have "read_exact 11 (b @ r) = Inr (b, r)"
    by (simp add: read_exact_def)
  with dec show ?thesis
    by (simp add: read_header_def p)
qed

text \<open>A byte stream in memory.\<close>

definition pipe :: "bytes \<Rightarrow> bytes \<Rightarrow> bytes result" where
  "pipe w b = Inr (w @ b)"

lemma write_frame_pipe:
  "write_frame pipe w kind metadata payload = Inr w' \<longleftrightarrow>
     length metadata \<le> MAX_METADATA \<and> (\<exists>p. header_encode \<lparr>h_kind = kind, h_metadata = length metadata,
        h_payload = length payload\<rparr> = Inr p \<and> w' = w @ p @ metadata @ payload)"
  by (auto simp: write_frame_def pipe_def result_simps)

lemma read_written_frame:
  assumes "write_frame pipe w kind metadata payload = Inr w'" and "1 \<le> kind" and "kind \<le> 12"
    and "length payload \<le> mxp" and "kind \<noteq> DATA \<longrightarrow> payload = []"
  shows "\<exists>f. w' = w @ f \<and> read_header True (f @ rest) mxp =
    Inr (Some \<lparr>h_kind = kind, h_metadata = length metadata, h_payload = length payload\<rparr>, metadata @ payload @ rest)"
proof -
  define h where "h = \<lparr>h_kind = kind, h_metadata = length metadata, h_payload = length payload\<rparr>"
  from assms(1) obtain p where p: "header_encode h = Inr p" "w' = w @ p @ metadata @ payload"
      "length metadata \<le> MAX_METADATA"
    by (auto simp: write_frame_pipe h_def)
  moreover have "wf_header mxp h"
    using assms p by (auto simp: wf_header_def header_encode_Inr h_def)
  ultimately show ?thesis
    using read_header_encode [of mxp h p "metadata @ payload @ rest"] by (simp add: h_def)
qed

section \<open>The metadata formats\<close>

definition wf_hello :: "hello_data \<Rightarrow> bool" where
  "wf_hello h \<longleftrightarrow> length (he_cert h) \<le> MAX_CERT \<and> length (he_nonce h) = 16
     \<and> 0 < he_max_payload h \<and> he_max_payload h \<le> 1024 * 1024
     \<and> 0 < he_max_topics h \<and> he_max_topics h \<le> 256
     \<and> he_window_secs h \<noteq> 0 \<and> he_window_secs h \<le> 300"

definition hello_encode :: "minicbor \<Rightarrow> hello_data \<Rightarrow> bytes" where
  "hello_encode mc h =
     hello mc (he_cert h) (he_nonce h) (he_max_payload h) (he_max_topics h) (he_window_secs h)"

definition hello_body :: "minicbor \<Rightarrow> hello_data \<Rightarrow> bytes" where
  "hello_body mc h =
     enc_u64 mc 1 @ enc_bytes mc (he_cert h) @ enc_bytes mc (he_nonce h)
     @ enc_u64 mc (word_of_nat (he_max_payload h)) @ enc_u64 mc (word_of_nat (he_max_topics h))
     @ enc_u64 mc (he_window_secs h)"

lemma hello_encode_eq: "hello_encode mc h = enc_array mc 6 @ hello_body mc h"
  by (simp add: hello_encode_def hello_def hello_body_def writer_defs)

lemma hello_eta [simp]:
  "\<lparr>he_cert = he_cert h, he_nonce = he_nonce h, he_max_payload = he_max_payload h,
    he_max_topics = he_max_topics h, he_window_secs = he_window_secs h\<rparr> = h"
  by simp

fun wf_control :: "control \<Rightarrow> bool" where
  "wf_control (Subscribe topic sub mode) = (wf_topic topic \<and> length sub = 16)"
| "wf_control (Suback topic sub code) = (wf_topic topic \<and> length sub = 16)"
| "wf_control (Unsubscribe topic sub) = (wf_topic topic \<and> length sub = 16)"
| "wf_control (Credit topic sub n) = (wf_topic topic \<and> length sub = 16 \<and> n < 2 ^ 64)"
| "wf_control (RequestCredit topic sub n) = (wf_topic topic \<and> length sub = 16 \<and> n < 2 ^ 64)"
| "wf_control (Outcome topic sub epoch sequence code) =
     (wf_topic topic \<and> length sub = 16 \<and> length epoch = 16 \<and> code \<le> 2)"
| "wf_control (ControlError code) = True"
| "wf_control Goodbye = True"

definition control_body :: "minicbor \<Rightarrow> control \<Rightarrow> bytes" where
  "control_body mc c = w_calls (control_fields mc c) []"

lemma control_encode_eq:
  "control_encode mc c session = (fst (control_kind c),
     enc_array mc (word_of_nat (snd (control_kind c))) @ enc_u64 mc 1 @ enc_bytes mc session @ control_body mc c)"
  by (cases c) (simp_all add: control_encode_def control_body_def writer_defs split: prod.splits)

lemma control_len_kind: "control_len (fst (control_kind c)) = Some (snd (control_kind c))"
  by (cases c) (simp_all add: control_len_def)

context cbor_codec
begin

lemma parse_hello_encode:
  assumes "wf_hello h"
  shows "parse_hello mc (hello_encode mc h @ t) = (if t = [] then Inr h else Inl (Protocol ''trailing bytes''))"
proof -
  have start: "r_array mc 6 (hello_encode mc h @ t) = Inr ((), hello_body mc h @ t)" for t
    using r_array_enc [of 6] by (simp add: hello_encode_eq)
  have fold: "hello mc (he_cert h) (he_nonce h) (he_max_payload h) (he_max_topics h) (he_window_secs h)
      = hello_encode mc h"
    by (simp add: hello_encode_def)
  show ?thesis
    using assms
    by (cases "t = []")
      (auto simp: wf_hello_def parse_hello_def start start [of "[]", simplified] fold
        hello_body_def codec_simps MAX_CERT_def)
qed

lemma parse_hello_wf: "parse_hello mc b = Inr h \<Longrightarrow> wf_hello h \<and> hello_encode mc h = b"
  by (auto simp: parse_hello_def result_simps wf_hello_def hello_encode_def not_less
      dest!: r_fixed_length r_bytes_bound)

sublocale hello: canonical_codec wf_hello "hello_encode mc" "parse_hello mc"
  using parse_hello_encode [of _ "[]"] parse_hello_encode parse_hello_wf
  by unfold_locales auto

text \<open>Reading the fields a control frame was written with.\<close>

lemma r_topic_sub_enc [codec_simps]:
  "wf_topic topic \<Longrightarrow> length sub = 16 \<Longrightarrow>
     r_topic_sub mc (enc_str mc (as_str topic) @ enc_bytes mc sub @ r) = Inr ((topic, sub), r)"
  by (simp add: r_topic_sub_def codec_simps wf_topic_utf8 wf_topic_length wf_topic_new)

lemma r_topic_sub_wf: "r_topic_sub mc r = Inr ((topic, sub), r') \<Longrightarrow> wf_topic topic \<and> length sub = 16"
  by (auto simp: r_topic_sub_def result_simps dest!: topic_new_wf r_fixed_length)

lemma outcome_codes: "code \<noteq> 0 \<Longrightarrow> (1 :: u64) \<le> code"
  by (simp add: word_le_nat_alt Suc_le_eq unat_gt_0)

lemma r_control_enc [codec_simps]:
  "wf_control c \<Longrightarrow> r_control mc (fst (control_kind c)) (control_body mc c @ r) = Inr (c, r)"
  by (cases c)
    (auto simp: r_control_def control_body_def writer_defs codec_simps outcome_codes)

lemma r_control_wf:
  assumes "r_control mc kind r = Inr (c, r')" and "control_len kind = Some len"
  shows "wf_control c \<and> fst (control_kind c) = kind"
  using assms
  by (auto simp: r_control_def result_simps control_len_def unat_u64_less [simplified]
      dest!: r_topic_sub_wf r_fixed_length split: if_splits)

lemma control_decode_encode:
  assumes "wf_control c" and "length session = 16"
  shows "control_decode mc (fst (control_kind c)) (snd (control_encode mc c session) @ t) session
    = (if t = [] then Inr c else Inl (Protocol ''trailing bytes''))"
proof -
  define body where "body = enc_u64 mc 1 @ enc_bytes mc session @ control_body mc c"
  have start: "r_array mc (snd (control_kind c)) (snd (control_encode mc c session) @ t) = Inr ((), body @ t)" for t
    by (simp add: control_encode_eq body_def codec_simps)
  show ?thesis
    using assms r_control_enc [OF assms(1), of "[]"]
    by (cases "t = []")
      (simp_all add: control_decode_def control_len_kind start start [of "[]", simplified] body_def codec_simps)
qed

lemma control_decode_wf:
  "control_decode mc kind b session = Inr c \<Longrightarrow>
     wf_control c \<and> control_encode mc c session = (kind, b) \<and> length session = 16"
  by (auto simp: control_decode_def result_simps control_encode_eq
      dest!: r_fixed_length dest: r_control_wf)

sublocale control: canonical_codec
  "\<lambda>c. wf_control c \<and> fst (control_kind c) = kind \<and> length session = 16"
  "\<lambda>c. snd (control_encode mc c session)"
  "\<lambda>b. control_decode mc kind b session" for kind session
proof
  show "control_decode mc kind (snd (control_encode mc c session)) session = Inr c"
    if "wf_control c \<and> fst (control_kind c) = kind \<and> length session = 16" for c
    using that control_decode_encode [of c session "[]"] by auto
  show "\<exists>e. control_decode mc kind (snd (control_encode mc c session) @ t) session = Inl e"
    if "wf_control c \<and> fst (control_kind c) = kind \<and> length session = 16" "t \<noteq> []" for c t
    using that control_decode_encode [of c session t] by auto
qed (auto dest!: control_decode_wf simp: control_encode_eq)

lemma parse_data_encode:
  assumes "length session = 16" and "length sub = 16" and "length env \<le> 4096"
  shows "parse_data mc (data_frame mc session sub env @ t) session
    = (if t = [] then Inr (sub, env) else Inl (Protocol ''trailing bytes''))"
proof -
  define body where "body = enc_u64 mc 1 @ enc_bytes mc session @ enc_bytes mc sub @ enc_bytes mc env"
  have start: "r_array mc 4 (data_frame mc session sub env @ t) = Inr ((), body @ t)" for t
    using r_array_enc [of 4] by (simp add: data_frame_def body_def writer_defs)
  show ?thesis
    using assms
    by (cases "t = []")
      (simp_all add: parse_data_def start start [of "[]", simplified] body_def codec_simps)
qed

lemma parse_data_wf:
  "parse_data mc b session = Inr (sub, env) \<Longrightarrow>
     length session = 16 \<and> length sub = 16 \<and> length env \<le> 4096 \<and> data_frame mc session sub env = b"
  by (auto simp: parse_data_def result_simps dest!: r_fixed_length r_bytes_bound)

sublocale data: canonical_codec
  "\<lambda>(sub, env). length session = 16 \<and> length sub = 16 \<and> length env \<le> 4096"
  "\<lambda>(sub, env). data_frame mc session sub env"
  "\<lambda>b. parse_data mc b session" for session
proof
  fix x :: "bytes \<times> bytes" and t :: bytes
  assume "case x of (sub, env) \<Rightarrow> length session = 16 \<and> length sub = 16 \<and> length env \<le> 4096"
  then show "parse_data mc (case x of (sub, env) \<Rightarrow> data_frame mc session sub env) session = Inr x"
    and "t \<noteq> [] \<Longrightarrow> \<exists>e. parse_data mc ((case x of (sub, env) \<Rightarrow> data_frame mc session sub env) @ t) session = Inl e"
    using parse_data_encode [of session _ _ "[]"] parse_data_encode [of session _ _ t] by auto
qed (auto dest!: parse_data_wf)

end

section \<open>Frame sizes\<close>

fun control_text :: "control \<Rightarrow> nat" where
  "control_text (Subscribe topic sub mode) = length (as_str topic)"
| "control_text (Suback topic sub code) = length (as_str topic)"
| "control_text (Unsubscribe topic sub) = length (as_str topic)"
| "control_text (Credit topic sub n) = length (as_str topic)"
| "control_text (RequestCredit topic sub n) = length (as_str topic)"
| "control_text (Outcome topic sub epoch sequence code) = length (as_str topic)"
| "control_text (ControlError code) = 0"
| "control_text Goodbye = 0"

context cbor_codec
begin

lemma control_size:
  assumes "wf_control c" and "length session = 16"
  shows "length (snd (control_encode mc c session)) \<le> 376"
proof -
  have b: "length (enc_bytes mc x) \<le> 25" if "length x = 16" for x
    using enc_bytes_size [of x] that by simp
  have s: "length (enc_str mc (as_str topic)) \<le> 265" if "wf_topic topic" for topic
    using enc_str_size [of "as_str topic"] wf_topic_length [OF that] by simp
  have u: "length (enc_u64 mc n) \<le> 9" for n
    by (rule enc_u64_size)
  have body: "length (control_body mc c) \<le> 333"
    using assms(1)
  proof (cases c)
    case (Outcome topic sub epoch sequence code)
    then show ?thesis
      using assms(1) s [of topic] b [of sub] b [of epoch] u [of sequence] u [of code]
      by (simp add: control_body_def writer_defs)
  next
    case (Credit topic sub n)
    then show ?thesis
      using assms(1) s [of topic] b [of sub] u [of 1] u [of "word_of_nat n"]
      by (simp add: control_body_def writer_defs)
  next
    case (RequestCredit topic sub n)
    then show ?thesis
      using assms(1) s [of topic] b [of sub] u [of 0] u [of "word_of_nat n"]
      by (simp add: control_body_def writer_defs)
  next
    case (Subscribe topic sub mode)
    then show ?thesis
      using assms(1) s [of topic] b [of sub] u [of "mode_number mode"]
      by (simp add: control_body_def writer_defs)
  next
    case (Suback topic sub code)
    then show ?thesis
      using assms(1) s [of topic] b [of sub] u [of code] by (simp add: control_body_def writer_defs)
  next
    case (Unsubscribe topic sub)
    then show ?thesis
      using assms(1) s [of topic] b [of sub] by (simp add: control_body_def writer_defs)
  next
    case (ControlError code)
    then show ?thesis
      using u [of code] by (simp add: control_body_def writer_defs)
  qed (simp add: control_body_def writer_defs)
  have "length (snd (control_encode mc c session)) \<le> 9 + (9 + (25 + 333))"
    unfolding control_encode_eq snd_conv length_append
    by (intro add_mono enc_array_size u b assms(2) body)
  then show ?thesis
    by simp
qed

lemma hello_size:
  assumes "wf_hello h"
  shows "length (hello_encode mc h) \<le> MAX_METADATA"
proof -
  have "length (enc_bytes mc (he_cert h)) \<le> 15369" "length (enc_bytes mc (he_nonce h)) \<le> 25"
    using enc_bytes_size [of "he_cert h"] enc_bytes_size [of "he_nonce h"] assms
    by (simp_all add: wf_hello_def MAX_CERT_def)
  then have "length (hello_encode mc h) \<le> 9 + (9 + (15369 + (25 + (9 + (9 + 9)))))"
    unfolding hello_encode_eq hello_body_def length_append
    by (intro add_mono enc_array_size enc_u64_size)
  then show ?thesis
    by (simp add: MAX_METADATA_def)
qed

lemma data_size:
  assumes "length session = 16" and "length sub = 16" and "length env \<le> 4096"
  shows "length (data_frame mc session sub env) \<le> MAX_METADATA"
  using assms enc_bytes_size [of session] enc_bytes_size [of sub] enc_bytes_size [of env] enc_array_size [of 4]
    enc_u64_size [of 1]
  by (simp add: data_frame_def writer_defs MAX_METADATA_def)

end

section \<open>Properties\<close>

text \<open>Framing round trips: a frame that \<open>write_frame\<close> writes with a kind between 1 and 12, and a
  payload only on DATA and within the reader's limit, is read back by \<open>read_header\<close> from the stream
  with its kind and its two lengths, and leaves exactly the metadata, the payload and what follows
  on the stream.\<close>

theorem frame_roundtrip:
  assumes "write_frame pipe w kind metadata payload = Inr w'" and "1 \<le> kind" and "kind \<le> 12"
    and "length payload \<le> mxp" and "kind \<noteq> DATA \<longrightarrow> payload = []"
  shows "\<exists>f. w' = w @ f \<and> read_header True (f @ rest) mxp =
    Inr (Some \<lparr>h_kind = kind, h_metadata = length metadata, h_payload = length payload\<rparr>, metadata @ payload @ rest)"
  using read_written_frame [OF assms] .

theorem frame_roundtrip_witness:
  "\<exists>f. read_header True (f @ [9]) 4 =
     Inr (Some \<lparr>h_kind = 7, h_metadata = 2, h_payload = 3\<rparr>, [1, 2] @ [3, 4, 5] @ [9])"
proof -
  have "\<exists>w'. write_frame pipe [] 7 [1, 2] [3, 4, 5] = Inr w'"
    by (simp add: write_frame_def pipe_def header_encode_def checked_add_usize_def MAX_METADATA_def)
  then obtain w' where "write_frame pipe [] 7 [1, 2] [3, 4, 5] = Inr w'" ..
  moreover have "length [1, 2 :: byte] = 2" "length [3, 4, 5 :: byte] = 3"
    by simp_all
  ultimately show ?thesis
    using frame_roundtrip [of "[]" 7 "[1, 2]" "[3, 4, 5]" w' 4 "[9]"]
    by (intro exI [of _ w']) (simp add: DATA_def del: list.size)
qed

lemma be_bytes_4:
  "be_bytes 4 v = [word_of_nat (v div 256 div 256 div 256 mod 256), word_of_nat (v div 256 div 256 mod 256),
     word_of_nat (v div 256 mod 256), word_of_nat (v mod 256)]"
proof -
  have "be_bytes (Suc (Suc (Suc (Suc 0)))) v = [word_of_nat (v div 256 div 256 div 256 mod 256),
      word_of_nat (v div 256 div 256 mod 256), word_of_nat (v div 256 mod 256), word_of_nat (v mod 256)]"
    by simp
  moreover have "Suc (Suc (Suc (Suc 0))) = 4"
    by simp
  ultimately show ?thesis
    by metis
qed

text \<open>The frame prefix is canonical: twelve bytes are accepted exactly when they are the prefix
  of a frame within the bounds, so whatever a peer sends, an accepted prefix announces at most 16 KiB of metadata, at most
  the negotiated payload, and a payload only on DATA.\<close>

theorem header_canonical:
  assumes "length b = 12"
  shows "header_decode b mxp = Inr h \<longleftrightarrow> wf_header mxp h \<and> header_encode h = Inr b"
  using header_decode_wf [OF _ assms, of mxp h] header_decode_encode [of mxp h] by auto

theorem header_canonical_witness:
  "header_decode [0, 0, 0, 5, 7, 0, 0, 0, 0, 0, 0, 2] 3 = Inr \<lparr>h_kind = 7, h_metadata = 2, h_payload = 3\<rparr>"
  using header_canonical [of "[0, 0, 0, 5, 7, 0, 0, 0, 0, 0, 0, 2]" 3 "\<lparr>h_kind = 7, h_metadata = 2, h_payload = 3\<rparr>"]
  by (simp add: wf_header_def MAX_METADATA_def DATA_def header_encode_Inr be_bytes_4)

text \<open>C40. Control frames are canonical and bound to their session: for a kind and a session the decoder
  accepts exactly the encodings, for that session, of the well-formed control messages of that
  kind.\<close>

theorem control_canonical:
  assumes "cbor_codec mc"
  shows "control_decode mc kind b session = Inr c \<longleftrightarrow>
    wf_control c \<and> length session = 16 \<and> control_encode mc c session = (kind, b)"
  using cbor_codec.control_decode_wf [OF assms, of kind b session c]
    cbor_codec.control_decode_encode [OF assms, of c session "[]"]
  by (auto simp: control_encode_eq)

theorem control_canonical_witness:
  "control_decode rfc8949 6 (snd (control_encode rfc8949 (Credit (Topic ''jobs'') (replicate 16 2) 4096) (replicate 16 1)))
     (replicate 16 1) = Inr (Credit (Topic ''jobs'') (replicate 16 2) 4096)"
  using control_canonical [OF rfc.cbor_codec_axioms, of 6
      "snd (control_encode rfc8949 (Credit (Topic ''jobs'') (replicate 16 2) 4096) (replicate 16 1))"
      "replicate 16 1" "Credit (Topic ''jobs'') (replicate 16 2) 4096"]
  by (simp add: control_encode_eq wf_topic_def topic_new_def is_ascii_alphanumeric_def)

text \<open>HELLO and DATA metadata are canonical: exactly the encodings of a HELLO within the protocol
  limits, and of a DATA frame of the expected session with an envelope of at most 4096 bytes,
  are accepted.\<close>

theorem hello_data_canonical:
  assumes "cbor_codec mc"
  shows "(parse_hello mc b = Inr h \<longleftrightarrow> wf_hello h \<and> b = hello_encode mc h)
    \<and> (parse_data mc b session = Inr (sub, env) \<longleftrightarrow>
        length session = 16 \<and> length sub = 16 \<and> length env \<le> 4096 \<and> b = data_frame mc session sub env)"
  using cbor_codec.parse_hello_wf [OF assms, of b h] cbor_codec.parse_hello_encode [OF assms, of h "[]"]
    cbor_codec.parse_data_wf [OF assms, of b session sub env]
    cbor_codec.parse_data_encode [OF assms, of session sub env "[]"]
  by auto

theorem hello_data_canonical_witness:
  "parse_data rfc8949 (data_frame rfc8949 (replicate 16 1) (replicate 16 2) [3, 4]) (replicate 16 1)
     = Inr (replicate 16 2, [3, 4])"
  using hello_data_canonical [OF rfc.cbor_codec_axioms, of
      "data_frame rfc8949 (replicate 16 1) (replicate 16 2) [3, 4]" _ "replicate 16 1" "replicate 16 2" "[3, 4]"]
  by simp

text \<open>Everything the protocol sends fits its frame: the metadata of every well-formed control
  message, HELLO and DATA frame is within the 16 KiB that the receiver accepts, so \<open>write_frame\<close>
  on a stream that accepts the bytes never fails on it.\<close>

theorem frames_fit:
  assumes "cbor_codec mc" and "length session = 16"
  shows "(wf_control c \<longrightarrow> (\<exists>w'. write_frame pipe w (fst (control_encode mc c session))
         (snd (control_encode mc c session)) [] = Inr w'))
    \<and> (wf_hello h \<longrightarrow> (\<exists>w'. write_frame pipe w HELLO (hello_encode mc h) [] = Inr w'))
    \<and> (length sub = 16 \<and> length env \<le> 4096 \<and> length payload \<le> 1024 * 1024 \<longrightarrow>
        (\<exists>w'. write_frame pipe w DATA (data_frame mc session sub env) payload = Inr w'))"
  using cbor_codec.control_size [OF assms(1) _ assms(2), of c] cbor_codec.hello_size [OF assms(1), of h]
    cbor_codec.data_size [OF assms(1,2), of sub env]
  by (auto simp: write_frame_pipe header_encode_Inr MAX_METADATA_def)

theorem frames_fit_witness:
  "\<exists>w'. write_frame pipe [] (fst (control_encode rfc8949 Goodbye (replicate 16 1)))
         (snd (control_encode rfc8949 Goodbye (replicate 16 1))) [] = Inr w'"
  using frames_fit [OF rfc.cbor_codec_axioms, of "replicate 16 1" Goodbye "[]"] by simp

end
