(* ===== verification/Join.thy ===== *)
theory Join
  imports JoinCode Wire
begin

text \<open>
  Enrollment, the second part of \<^verbatim>\<open>src/src/join.rs\<close>: the persistent state of a host (its
  authority, the codes it has issued with the certificates redeemed through them, and its
  members), the admission decisions of an endpoint, and the enrollment exchange. The storage a
  host writes to is the parameter \<open>save\<close>, which works on a world of any type. The lemmas show that a failed write leaves the
  admission state as it was, that what is stored is decoded to the state in memory, and what an
  enrolled peer is entitled to.
\<close>

definition MAX_BYTES :: nat where
  "MAX_BYTES = 4 * 1024 * 1024"

record 'e grant =
  g_hash :: bytes
  g_expires :: u64
  g_options :: join_options
  g_redeemed :: "('e, 'e certificate) bmap"
  g_memory :: "permit option"

record 'e member =
  mb_certificate :: "'e certificate"
  mb_memory :: "permit option"

text \<open>\<open>ho_storage\<close> says whether the host has a storage.\<close>

record 'e host =
  ho_authority :: authority
  ho_codes :: "(bytes, 'e grant) bmap"
  ho_members :: "(bytes, 'e member) bmap"
  ho_storage :: bool

datatype 'e admission = Host "'e host" | Client 'e

section \<open>The stored form of a host\<close>

definition host_new :: "authority \<Rightarrow> bool \<Rightarrow> 'e host" where
  "host_new a storage = \<lparr>ho_authority = a, ho_codes = [], ho_members = [], ho_storage = storage\<rparr>"

definition w_redeemed :: "'e lib \<Rightarrow> 'e \<times> 'e certificate \<Rightarrow> writer \<Rightarrow> writer" where
  "w_redeemed L p =
     w_calls [w_array (codec L) 2, w_bytes (codec L) (ep_bytes L (fst p)), w_bytes (codec L) (c_bytes (snd p))]"

definition w_grant :: "'e lib \<Rightarrow> bytes \<times> 'e grant \<Rightarrow> writer \<Rightarrow> writer" where
  "w_grant L p =
     (let mc = codec L; g = snd p; opts = g_options g in
      w_calls
        [w_array mc 9,
         w_bytes mc (fst p),
         w_bytes mc (g_hash g),
         w_u mc (g_expires g),
         w_u mc (as_secs (jo_lifetime opts)),
         w_u mc (as_secs (jo_certificate_lifetime opts)),
         w_u mc (word_of_nat (jo_max_uses opts)),
         w_array mc 2,
         w_u mc (max_payload (jo_limits opts)),
         w_u mc (max_subscriptions (jo_limits opts)),
         w_array mc (length (jo_permissions opts)),
         w_calls (map (w_permission mc) (jo_permissions opts)),
         w_array mc (length (g_redeemed g)),
         w_calls (map (w_redeemed L) (g_redeemed g))])"

definition w_member :: "'e lib \<Rightarrow> 'e member \<Rightarrow> writer \<Rightarrow> writer" where
  "w_member L mb = w_bytes (codec L) (c_bytes (mb_certificate mb))"

definition host_encode :: "'e lib \<Rightarrow> 'e host \<Rightarrow> bytes" where
  "host_encode L h =
     (let mc = codec L in
      written
        [w_array mc 6,
         w_u mc 1,
         w_bytes mc (a_key (ho_authority h)),
         w_bytes mc (a_realm (ho_authority h)),
         w_array mc (length (ho_codes h)),
         w_calls (map (w_grant L) (ho_codes h)),
         w_array mc (length (ho_members h)),
         w_calls (map (w_member L) (bm_vals (ho_members h))),
         w_array mc 0])"

definition r_permission :: "minicbor \<Rightarrow> reader \<Rightarrow> permission read" where
  "r_permission mc r =
     rbind (r_array mc 2 r) (\<lambda>(_, r).
     rbind (r_text mc 256 r) (\<lambda>(s, r).
     rbind (topic_new s) (\<lambda>topic.
     rbind (r_u mc r) (\<lambda>(k, r).
     rbind (if k = 1 then permission_publish (as_str topic)
            else if k = 2 then permission_subscribe (as_str topic)
            else if k = 3 then permission_both (as_str topic)
            else Inl (Protocol ''persistent permission mask'')) (\<lambda>p.
       Inr (p, r))))))"

text \<open>A counted loop that pushes what it reads.\<close>

fun r_many :: "(reader \<Rightarrow> 'a read) \<Rightarrow> nat \<Rightarrow> reader \<Rightarrow> 'a list read" where
  "r_many f 0 r = Inr ([], r)"
| "r_many f (Suc n) r = rbind (f r) (\<lambda>(x, r). rbind (r_many f n r) (\<lambda>(xs, r). Inr (x # xs, r)))"

text \<open>A certificate read back must verify, or have expired.\<close>

definition accept_stored :: "unit result \<Rightarrow> unit result" where
  "accept_stored v = (case v of Inr _ \<Rightarrow> Inr () | Inl e \<Rightarrow> if e = CertificateExpired then Inr () else Inl e)"

fun r_redeemed ::
  "('e::linorder) lib \<Rightarrow> 'e trust \<Rightarrow> u64 \<Rightarrow> nat \<Rightarrow> ('e, 'e certificate) bmap \<Rightarrow> reader
   \<Rightarrow> ('e, 'e certificate) bmap read"
where
  "r_redeemed L trust now 0 redeemed r = Inr (redeemed, r)"
| "r_redeemed L trust now (Suc n) redeemed r =
     rbind (r_array (codec L) 2 r) (\<lambda>(_, r).
     rbind (r_fixed (codec L) 32 r) (\<lambda>(k, r).
     rbind (endpoint L k) (\<lambda>e.
     rbind (r_bytes (codec L) MAX_CERT r) (\<lambda>(b, r).
     rbind (certificate_from_bytes L b) (\<lambda>c.
     rbind (accept_stored (trust_verify L trust c e now)) (\<lambda>_.
     rbind (fail_if (bm_has e redeemed) (Protocol ''duplicate persisted endpoint'')) (\<lambda>_.
       r_redeemed L trust now n (bm_put e c redeemed) r)))))))"

definition r_grant :: "('e::linorder) lib \<Rightarrow> 'e trust \<Rightarrow> u64 \<Rightarrow> reader \<Rightarrow> (bytes \<times> 'e grant) read" where
  "r_grant L trust now r =
     (let mc = codec L in
      rbind (r_array mc 9 r) (\<lambda>(_, r).
      rbind (r_fixed mc 16 r) (\<lambda>(cid, r).
      rbind (r_fixed mc 32 r) (\<lambda>(hash, r).
      rbind (r_u mc r) (\<lambda>(expires, r).
      rbind (r_u mc r) (\<lambda>(lifetime, r).
      rbind (r_u mc r) (\<lambda>(certificate_lifetime, r).
      rbind (r_u mc r) (\<lambda>(max_uses, r).
      rbind (r_array mc 2 r) (\<lambda>(_, r).
      rbind (r_u mc r) (\<lambda>(mp, r).
      rbind (r_u mc r) (\<lambda>(ms, r).
      rbind (r_list mc MAX_PERMISSIONS r) (\<lambda>(n, r).
      rbind (r_many (r_permission mc) n r) (\<lambda>(permissions, r).
      (let opts = \<lparr>jo_permissions = permissions,
                   jo_limits = \<lparr>max_payload = mp, max_subscriptions = ms\<rparr>,
                   jo_lifetime = from_secs (unat lifetime),
                   jo_certificate_lifetime = from_secs (unat certificate_lifetime),
                   jo_max_uses = unat max_uses\<rparr>
       in rbind (join_options_validate opts) (\<lambda>_.
          rbind (r_list mc 256 r) (\<lambda>(k, r).
          rbind (r_redeemed L trust now k [] r) (\<lambda>(redeemed, r).
            Inr ((cid, \<lparr>g_hash = hash, g_expires = expires, g_options = opts, g_redeemed = redeemed,
                        g_memory = None\<rparr>), r))))))))))))))))))"

fun r_grants ::
  "('e::linorder) lib \<Rightarrow> 'e trust \<Rightarrow> u64 \<Rightarrow> nat \<Rightarrow> (bytes, 'e grant) bmap \<Rightarrow> reader \<Rightarrow> (bytes, 'e grant) bmap read"
where
  "r_grants L trust now 0 codes r = Inr (codes, r)"
| "r_grants L trust now (Suc n) codes r =
     rbind (r_grant L trust now r) (\<lambda>((cid, g), r).
     rbind (fail_if (length (g_redeemed g) > jo_max_uses (g_options g) \<or> bm_has cid codes)
              (Protocol ''duplicate or overused persisted code'')) (\<lambda>_.
       r_grants L trust now n (bm_put cid g codes) r))"

fun r_members ::
  "('e::linorder) lib \<Rightarrow> 'e trust \<Rightarrow> u64 \<Rightarrow> nat \<Rightarrow> (bytes, 'e member) bmap \<Rightarrow> reader \<Rightarrow> (bytes, 'e member) bmap read"
where
  "r_members L trust now 0 members r = Inr (members, r)"
| "r_members L trust now (Suc n) members r =
     rbind (r_bytes (codec L) MAX_CERT r) (\<lambda>(b, r).
     rbind (certificate_from_bytes L b) (\<lambda>c.
     rbind (accept_stored (trust_verify L trust c (endpoint_id c) now)) (\<lambda>_.
     rbind (fail_if (bm_has (certificate_id c) members) (Protocol ''duplicate persisted certificate'')) (\<lambda>_.
       r_members L trust now n
         (bm_put (certificate_id c) \<lparr>mb_certificate = c, mb_memory = None\<rparr> members) r))))"

definition host_decode :: "('e::linorder) lib \<Rightarrow> bytes \<Rightarrow> u64 \<Rightarrow> 'e host result" where
  "host_decode L b now =
     (let mc = codec L in
      rbind (fail_if (length b > MAX_BYTES) MessageTooLarge) (\<lambda>_.
      rbind (r_array mc 6 b) (\<lambda>(_, r).
      rbind (r_u mc r) (\<lambda>(v, r).
      rbind (fail_if (v \<noteq> 1) (Protocol ''persistent-state version'')) (\<lambda>_.
      rbind (r_fixed mc 32 r) (\<lambda>(secret, r).
      rbind (r_fixed mc 16 r) (\<lambda>(realm, r).
      (let a = \<lparr>a_key = secret, a_realm = realm\<rparr>; trust = authority_trust L a in
       rbind (r_list mc 256 r) (\<lambda>(n, r).
       rbind (r_grants L trust now n [] r) (\<lambda>(codes, r).
       rbind (r_list mc 256 r) (\<lambda>(k, r).
       rbind (r_members L trust now k [] r) (\<lambda>(members, r).
       rbind (r_list mc 0 r) (\<lambda>(z, r).
       rbind (fail_if (z \<noteq> 0) (Protocol ''persistent-state reserved fields'')) (\<lambda>_.
       rbind (r_end r) (\<lambda>_.
       (let h = \<lparr>ho_authority = a, ho_codes = codes, ho_members = members, ho_storage = True\<rparr> in
        rbind (canonical b (host_encode L h)) (\<lambda>_.
          Inr h)))))))))))))))))"

section \<open>Storage and memory\<close>

definition persist :: "'e lib \<Rightarrow> (bytes \<Rightarrow> 'w \<Rightarrow> unit result \<times> 'w) \<Rightarrow> 'e host \<Rightarrow> 'w \<Rightarrow> unit result \<times> 'w" where
  "persist L save h w =
     (if ho_storage h then
        (let b = host_encode L h in
         if length b > MAX_BYTES then (Inl MessageTooLarge, w) else save b w)
      else (Inr (), w))"

text \<open>\<open>Admission::with_storage\<close>; \<open>load\<close> reads the storage, \<open>a\<close> is the generated authority.\<close>

definition with_storage ::
  "('e::linorder) lib \<Rightarrow> ('w \<Rightarrow> bytes option result \<times> 'w) \<Rightarrow> (bytes \<Rightarrow> 'w \<Rightarrow> unit result \<times> 'w) \<Rightarrow> authority \<Rightarrow> u64
   \<Rightarrow> 'w \<Rightarrow> 'e admission result \<times> 'w"
where
  "with_storage L load save a now w =
     (case load w of
        (Inl e, w) \<Rightarrow> (Inl e, w)
      | (Inr (Some b), w) \<Rightarrow> (rbind (host_decode L b now) (\<lambda>h. Inr (Host h)), w)
      | (Inr None, w) \<Rightarrow>
          (let h = host_new a True in
           case persist L save h w of
             (Inl e, w) \<Rightarrow> (Inl e, w)
           | (Inr _, w) \<Rightarrow> (Inr (Host h), w)))"

text \<open>What a code costs: \<open>1024 + \<Sum> (topic + 128)\<close>.\<close>

definition grant_cost :: "permission list \<Rightarrow> nat" where
  "grant_cost ps = 1024 + sum_list (map (\<lambda>p. length (as_str (p_topic p)) + 128) ps)"

fun meter_codes :: "(bytes, 'e grant) bmap \<Rightarrow> meter \<Rightarrow> ((bytes, 'e grant) bmap \<times> meter) result" where
  "meter_codes [] m = Inr ([], m)"
| "meter_codes ((k, g) # gs) m =
     rbind (if g_memory g = None
            then rbind (admit m (grant_cost (jo_permissions (g_options g)))) (\<lambda>(p, m). Inr (g\<lparr>g_memory := Some p\<rparr>, m))
            else Inr (g, m)) (\<lambda>(g, m).
     rbind (meter_codes gs m) (\<lambda>(gs, m). Inr ((k, g) # gs, m)))"

fun meter_members :: "(bytes, 'e member) bmap \<Rightarrow> meter \<Rightarrow> ((bytes, 'e member) bmap \<times> meter) result" where
  "meter_members [] m = Inr ([], m)"
| "meter_members ((k, mb) # ms) m =
     rbind (if mb_memory mb = None
            then rbind (admit m 1024) (\<lambda>(p, m). Inr (mb\<lparr>mb_memory := Some p\<rparr>, m))
            else Inr (mb, m)) (\<lambda>(mb, m).
     rbind (meter_members ms m) (\<lambda>(ms, m). Inr ((k, mb) # ms, m)))"

definition host_meter :: "'e host \<Rightarrow> meter \<Rightarrow> ('e host \<times> meter) result" where
  "host_meter h m =
     rbind (meter_codes (ho_codes h) m) (\<lambda>(codes, m).
     rbind (meter_members (ho_members h) m) (\<lambda>(members, m).
       Inr (h\<lparr>ho_codes := codes, ho_members := members\<rparr>, m)))"

definition admission_meter :: "'e admission \<Rightarrow> meter \<Rightarrow> ('e admission \<times> meter) result" where
  "admission_meter a m =
     (case a of Client _ \<Rightarrow> Inr (a, m) | Host h \<Rightarrow> rbind (host_meter h m) (\<lambda>(h, m). Inr (Host h, m)))"

text \<open>The permits a host holds, and the meter with them beside the permits of everything else.\<close>

definition option_list :: "'a option \<Rightarrow> 'a list" where
  "option_list x = (case x of None \<Rightarrow> [] | Some v \<Rightarrow> [v])"

definition grant_permits :: "'e grant \<Rightarrow> permit list" where
  "grant_permits g =
     option_list (g_memory g) @ concat (map (\<lambda>c. option_list (c_memory c)) (bm_vals (g_redeemed g)))"

definition member_permits :: "'e member \<Rightarrow> permit list" where
  "member_permits mb = option_list (mb_memory mb) @ option_list (c_memory (mb_certificate mb))"

definition host_permits :: "'e host \<Rightarrow> permit list" where
  "host_permits h =
     concat (map grant_permits (bm_vals (ho_codes h))) @ concat (map member_permits (bm_vals (ho_members h)))"

fun admission_permits :: "'e admission \<Rightarrow> permit list" where
  "admission_permits (Host h) = host_permits h"
| "admission_permits (Client e) = []"

definition with_host :: "'e host \<Rightarrow> meter \<Rightarrow> meter" where
  "with_host h m = m\<lparr>meter_live := host_permits h @ meter_live m\<rparr>"

section \<open>Admission\<close>

definition admission_authority :: "'e admission \<Rightarrow> authority result" where
  "admission_authority a = (case a of Host h \<Rightarrow> Inr (ho_authority h) | Client _ \<Rightarrow> Inl Unauthorized)"

definition can_dial :: "'e admission \<Rightarrow> 'e \<Rightarrow> bool" where
  "can_dial a peer = (case a of Client host \<Rightarrow> host = peer | Host _ \<Rightarrow> False)"

definition admission_check :: "'e admission \<Rightarrow> 'e \<Rightarrow> 'e certificate \<Rightarrow> unit result" where
  "admission_check a peer c =
     (let allowed = (case a of
            Host h \<Rightarrow> (case bm_get (certificate_id c) (ho_members h) of
                None \<Rightarrow> False | Some mb \<Rightarrow> endpoint_id (mb_certificate mb) = peer)
          | Client host \<Rightarrow> host = peer)
      in if allowed then Inr () else Inl Unauthorized)"

text \<open>
  \<open>m\<close> is the meter of the metadata budget with the permits held outside the admission state;
  \<open>secret\<close> and \<open>cid\<close> are the random values of the code and of the trial certificate.
\<close>

definition admission_issue ::
  "'e lib \<Rightarrow> (bytes \<Rightarrow> 'w \<Rightarrow> unit result \<times> 'w) \<Rightarrow> join_options \<Rightarrow> 'e address \<Rightarrow> u64 \<Rightarrow> nat \<Rightarrow> bytes \<Rightarrow> bytes
   \<Rightarrow> 'e admission \<Rightarrow> meter \<Rightarrow> 'w \<Rightarrow> 'e join_code result \<times> 'e admission \<times> meter \<times> 'w"
where
  "admission_issue L save opts address now max_codes secret cid adm m w =
     (case adm of
        Client _ \<Rightarrow> (Inl Unauthorized, adm, m, w)
      | Host h \<Rightarrow>
        (let attempt =
           rbind (join_options_validate opts) (\<lambda>_.
           rbind (fail_if (length (ho_codes h) \<ge> max_codes) QueueFull) (\<lambda>_.
           rbind (authority_issue L (ho_authority h) cid (ad_id address) (jo_permissions opts) now
                    (now + as_secs (jo_certificate_lifetime opts)) (jo_limits opts)) (\<lambda>_.
           rbind (admit (with_host h m) (grant_cost (jo_permissions opts))) (\<lambda>(memory, m').
           (let code = \<lparr>jc_address = compact_address address, jc_secret = secret\<rparr> in
            rbind (join_code_encode L code) (\<lambda>_.
              Inr (memory, meter_next m', code)))))))
         in case attempt of
           Inl e \<Rightarrow> (Inl e, adm, m, w)
         | Inr (memory, next, code) \<Rightarrow>
           (let g = \<lparr>g_hash = digest L secret, g_expires = now + as_secs (jo_lifetime opts),
                     g_options = opts, g_redeemed = [], g_memory = Some memory\<rparr>;
                h' = h\<lparr>ho_codes := bm_put (join_code_id L code) g (ho_codes h)\<rparr>;
                m' = m\<lparr>meter_next := next\<rparr>
            in case persist L save h' w of
              (Inl e, w) \<Rightarrow> (Inl e, Host (h'\<lparr>ho_codes := bm_del (join_code_id L code) (ho_codes h')\<rparr>), m', w)
            | (Inr _, w) \<Rightarrow> (Inr code, Host h', m', w))))"

definition revoke_code ::
  "'e lib \<Rightarrow> (bytes \<Rightarrow> 'w \<Rightarrow> unit result \<times> 'w) \<Rightarrow> bytes \<Rightarrow> 'e admission \<Rightarrow> 'w \<Rightarrow> unit result \<times> 'e admission \<times> 'w"
where
  "revoke_code L save cid adm w =
     (case adm of
        Client _ \<Rightarrow> (Inl Unauthorized, adm, w)
      | Host h \<Rightarrow>
        (let removed = bm_get cid (ho_codes h); h' = h\<lparr>ho_codes := bm_del cid (ho_codes h)\<rparr> in
         case persist L save h' w of
           (Inl e, w) \<Rightarrow>
             (Inl e,
              Host (case removed of
                      Some g \<Rightarrow> h'\<lparr>ho_codes := bm_put cid g (ho_codes h')\<rparr>
                    | None \<Rightarrow> h'), w)
         | (Inr _, w) \<Rightarrow> (Inr (), Host h', w)))"

record 'e enrollment =
  en_trust :: "'e trust"
  en_expires :: u64
  en_certificate :: "'e certificate"

text \<open>The checks of \<open>enroll\<close> before anything is issued: a cached certificate, or the grant.\<close>

definition enroll_lookup ::
  "'e lib \<Rightarrow> 'e \<Rightarrow> bytes \<Rightarrow> bytes \<Rightarrow> u64 \<Rightarrow> 'e trust \<Rightarrow> nat \<Rightarrow> 'e host \<Rightarrow> ('e enrollment + 'e grant) result"
where
  "enroll_lookup L peer cid secret now trust max_members h =
     rbind (ok_or (bm_get cid (ho_codes h)) Unauthorized) (\<lambda>g.
     rbind (fail_if (g_expires g \<le> now \<or> g_hash g \<noteq> digest L secret) Unauthorized) (\<lambda>_.
     rbind (case bm_get peer (g_redeemed g) of
              Some c \<Rightarrow>
                (case check trust c peer now of
                   Inr _ \<Rightarrow>
                     if now < expires_at c
                     then Inr (Some \<lparr>en_trust = authority_trust L (ho_authority h), en_expires = g_expires g,
                                     en_certificate = c\<rparr>)
                     else Inr None
                 | Inl e \<Rightarrow> if e = CertificateExpired then Inr None else Inl e)
            | None \<Rightarrow>
                if length (g_redeemed g) \<ge> jo_max_uses (g_options g) then Inl QueueFull else Inr None) (\<lambda>cached.
     case cached of
       Some en \<Rightarrow> Inr (Inl en)
     | None \<Rightarrow> if length (ho_members h) \<ge> max_members then Inl QueueFull else Inr (Inr g))))"

definition enroll ::
  "('e::linorder) lib \<Rightarrow> (bytes \<Rightarrow> 'w \<Rightarrow> unit result \<times> 'w) \<Rightarrow> 'e \<Rightarrow> bytes \<Rightarrow> bytes \<Rightarrow> u64 \<Rightarrow> u64 \<Rightarrow> 'e trust \<Rightarrow> nat \<Rightarrow> bytes
   \<Rightarrow> 'e admission \<Rightarrow> meter \<Rightarrow> 'w \<Rightarrow> 'e enrollment result \<times> 'e admission \<times> meter \<times> 'w"
where
  "enroll L save peer cid secret now host_expires trust max_members fresh adm m w =
     (case adm of
        Client _ \<Rightarrow> (Inl Unauthorized, adm, m, w)
      | Host h0 \<Rightarrow>
        (let h = h0\<lparr>ho_members := bm_retain (\<lambda>_ mb. expires_at (mb_certificate mb) > now) (ho_members h0)\<rparr> in
         case enroll_lookup L peer cid secret now trust max_members h of
           Inl e \<Rightarrow> (Inl e, Host h, m, w)
         | Inr (Inl en) \<Rightarrow> (Inr en, Host h, m, w)
         | Inr (Inr g) \<Rightarrow>
           (let opts = g_options g;
                attempt =
                  rbind (admit (with_host h m) 1024) (\<lambda>(memory, m').
                  rbind (authority_issue L (ho_authority h) fresh peer (jo_permissions opts) now
                           (min (now + as_secs (jo_certificate_lifetime opts)) host_expires) (jo_limits opts)) (\<lambda>c.
                  rbind (certificate_metered c m') (\<lambda>(c, m').
                    Inr (memory, c, meter_next m'))))
            in case attempt of
              Inl e \<Rightarrow> (Inl e, Host h, m, w)
            | Inr (memory, c, next) \<Rightarrow>
              (let members = bm_put (certificate_id c) \<lparr>mb_certificate = c, mb_memory = Some memory\<rparr> (ho_members h);
                   previous = bm_get peer (g_redeemed g);
                   h' = h\<lparr>ho_members := members,
                          ho_codes := bm_adjust cid (\<lambda>g. g\<lparr>g_redeemed := bm_put peer c (g_redeemed g)\<rparr>) (ho_codes h)\<rparr>;
                   m' = m\<lparr>meter_next := next\<rparr>
               in case persist L save h' w of
                 (Inl e, w) \<Rightarrow>
                   (Inl e,
                    Host (h'\<lparr>ho_members := bm_del (certificate_id c) members,
                             ho_codes := bm_adjust cid (\<lambda>g. g\<lparr>g_redeemed :=
                               (case previous of
                                  Some p \<Rightarrow> bm_put peer p (g_redeemed g)
                                | None \<Rightarrow> bm_del peer (g_redeemed g))\<rparr>) (ho_codes h')\<rparr>),
                    m', w)
               | (Inr _, w) \<Rightarrow>
                   (Inr \<lparr>en_trust = authority_trust L (ho_authority h), en_expires = g_expires g,
                         en_certificate = c\<rparr>,
                    Host h', m', w)))))"

definition prune :: "u64 \<Rightarrow> 'e admission \<Rightarrow> 'e admission" where
  "prune now adm =
     (case adm of
        Client _ \<Rightarrow> adm
      | Host h \<Rightarrow>
        Host (h\<lparr>ho_codes := bm_retain (\<lambda>_ g. g_expires g > now) (ho_codes h),
                ho_members := bm_retain (\<lambda>_ mb. expires_at (mb_certificate mb) > now) (ho_members h)\<rparr>))"

section \<open>The enrollment exchange\<close>

definition enrollment_encode :: "'e lib \<Rightarrow> 'e enrollment \<Rightarrow> bytes" where
  "enrollment_encode L en =
     (let mc = codec L in
      written
        [w_array mc 5, w_u mc 2, w_bytes mc (t_realm (en_trust en)), w_bytes mc (ep_bytes L (t_root (en_trust en))),
         w_u mc (en_expires en), w_bytes mc (c_bytes (en_certificate en))])"

definition join_version :: "u64 \<Rightarrow> unit result" where
  "join_version v = fail_if (v \<noteq> 2) (Protocol ''join protocol version'')"

definition enrollment_decode ::
  "'e lib \<Rightarrow> bytes \<Rightarrow> 'e \<Rightarrow> 'e trust option \<Rightarrow> u64 \<Rightarrow> 'e enrollment result"
where
  "enrollment_decode L b peer expected now =
     (let mc = codec L in
      rbind (r_array mc 5 b) (\<lambda>(_, r).
      rbind (r_u mc r) (\<lambda>(v, r).
      rbind (join_version v) (\<lambda>_.
      rbind (r_fixed mc 16 r) (\<lambda>(realm, r).
      rbind (r_fixed mc 32 r) (\<lambda>(k, r).
      rbind (endpoint L k) (\<lambda>root.
      rbind (r_u mc r) (\<lambda>(expires, r).
      rbind (r_bytes mc MAX_CERT r) (\<lambda>(cb, r).
      rbind (certificate_from_bytes L cb) (\<lambda>c.
      rbind (r_end r) (\<lambda>_.
      (let value = \<lparr>en_trust = trust_new realm root, en_expires = expires, en_certificate = c\<rparr> in
       rbind (canonical b (enrollment_encode L value)) (\<lambda>_.
       rbind (fail_if (case expected of None \<Rightarrow> False | Some t \<Rightarrow> t_root t \<noteq> root \<or> t_realm t \<noteq> realm)
                Unauthorized) (\<lambda>_.
       rbind (fail_if (expires \<le> now) CertificateExpired) (\<lambda>_.
       rbind (trust_verify L (case expected of None \<Rightarrow> en_trust value | Some t \<Rightarrow> t) c peer now) (\<lambda>_.
         Inr value))))))))))))))))"

text \<open>The request frame of \<open>redeem\<close>, and how \<open>serve\<close> reads it.\<close>

definition join_request :: "minicbor \<Rightarrow> bytes \<Rightarrow> bytes \<Rightarrow> bytes" where
  "join_request mc cid secret = written [w_array mc 3, w_u mc 2, w_bytes mc cid, w_bytes mc secret]"

definition parse_join_request :: "minicbor \<Rightarrow> bytes \<Rightarrow> (bytes \<times> bytes) result" where
  "parse_join_request mc b =
     rbind (r_array mc 3 b) (\<lambda>(_, r).
     rbind (r_u mc r) (\<lambda>(v, r).
     rbind (join_version v) (\<lambda>_.
     rbind (r_fixed mc 16 r) (\<lambda>(cid, r).
     rbind (r_fixed mc 32 r) (\<lambda>(secret, r).
     rbind (r_end r) (\<lambda>_.
     rbind (canonical b (join_request mc cid secret)) (\<lambda>_.
       Inr (cid, secret))))))))"

text \<open>The reply of \<open>serve\<close>, and how \<open>redeem\<close> reads it.\<close>

definition join_rejection :: "minicbor \<Rightarrow> u64 \<Rightarrow> bytes" where
  "join_rejection mc reason = written [w_array mc 2, w_u mc 2, w_u mc reason]"

definition join_reply :: "'e lib \<Rightarrow> 'e enrollment result \<Rightarrow> byte \<times> bytes" where
  "join_reply L res =
     (case res of
        Inr en \<Rightarrow> (READY, enrollment_encode L en)
      | Inl e \<Rightarrow> (11, join_rejection (codec L) (if e = QueueFull then 2 else 1)))"

definition parse_join_reply ::
  "'e lib \<Rightarrow> byte \<Rightarrow> bytes \<Rightarrow> 'e \<Rightarrow> 'e trust option \<Rightarrow> u64 \<Rightarrow> 'e enrollment result"
where
  "parse_join_reply L kind b peer expected now =
     (let mc = codec L in
      if kind = 11 then
        rbind (r_array mc 2 b) (\<lambda>(_, r).
        rbind (r_u mc r) (\<lambda>(v, r).
        rbind (join_version v) (\<lambda>_.
        rbind (r_u mc r) (\<lambda>(reason, r).
        rbind (r_end r) (\<lambda>_.
        rbind (canonical b (join_rejection mc reason)) (\<lambda>_.
          Inl (if reason = 1 then Unauthorized
               else if reason = 2 then QueueFull
               else Protocol ''join rejection reason'')))))))
      else if kind \<noteq> READY then Inl (Protocol ''join response'')
      else enrollment_decode L b peer expected now)"

text \<open>\<open>serve\<close> from the bytes of the request stream to the bytes of the reply; \<open>owner\<close> is the
  answer of the endpoint owner to the enrollment command.\<close>

definition serve_request :: "'e lib \<Rightarrow> bytes \<Rightarrow> (bytes \<times> bytes) result" where
  "serve_request L request =
     rbind (read_header True request 0) (\<lambda>(h, s).
     rbind (ok_or h PeerUnavailable) (\<lambda>h.
     rbind (fail_if (h_kind h \<noteq> HELLO \<or> h_metadata h > 128) (Protocol ''join request'')) (\<lambda>_.
     rbind (read_exact (h_metadata h) s) (\<lambda>(b, _).
       parse_join_request (codec L) b))))"

definition serve ::
  "'e lib \<Rightarrow> (bytes \<Rightarrow> bytes \<Rightarrow> 'e enrollment result) \<Rightarrow> bytes \<Rightarrow> bytes result"
where
  "serve L owner request =
     rbind (serve_request L request) (\<lambda>(cid, secret).
     (case join_reply L (owner cid secret) of (kind, b) \<Rightarrow> write_frame pipe [] kind b []))"

text \<open>\<open>redeem\<close> over a connection to \<open>remote\<close> that carries the request to the host and returns
  the bytes of its reply.\<close>

definition redeem ::
  "'e lib \<Rightarrow> 'e join_code \<Rightarrow> 'e \<Rightarrow> 'e \<Rightarrow> (bytes \<Rightarrow> bytes) \<Rightarrow> 'e trust option \<Rightarrow> u64 \<Rightarrow> 'e enrollment result"
where
  "redeem L code remote self exchange expected now =
     rbind (fail_if (remote \<noteq> host_id code) Unauthorized) (\<lambda>_.
     rbind (write_frame pipe [] HELLO (join_request (codec L) (join_code_id L code) (jc_secret code)) []) (\<lambda>request.
     rbind (read_header True (exchange request) 0) (\<lambda>(h, s).
     rbind (ok_or h PeerUnavailable) (\<lambda>h.
     rbind (read_exact (h_metadata h) s) (\<lambda>(b, _).
       parse_join_reply L (h_kind h) b self expected now)))))"

section \<open>What the authority of a host has issued\<close>

definition issued_by :: "'e lib \<Rightarrow> authority \<Rightarrow> 'e \<Rightarrow> 'e certificate \<Rightarrow> bool" where
  "issued_by L a e c \<longleftrightarrow> wf_certificate L c \<and> cl_realm (c_claims c) = a_realm a
     \<and> cl_issuer (c_claims c) = key_public L (a_key a) \<and> endpoint_id c = e
     \<and> (\<exists>payload. verify_cose L (c_bytes c) (key_public L (a_key a)) CERT_CONTEXT MAX_CERT = Inr payload)"

definition wf_grant :: "('e::linorder) lib \<Rightarrow> authority \<Rightarrow> 'e grant \<Rightarrow> bool" where
  "wf_grant L a g \<longleftrightarrow> length (g_hash g) = 32 \<and> join_options_validate (g_options g) = Inr ()
     \<and> (\<forall>p \<in> set (jo_permissions (g_options g)). wf_permission p)
     \<and> bm_ok (g_redeemed g) \<and> length (g_redeemed g) \<le> jo_max_uses (g_options g)
     \<and> (\<forall>(e, c) \<in> set (g_redeemed g). issued_by L a e c)"

definition wf_host :: "('e::linorder) lib \<Rightarrow> 'e host \<Rightarrow> bool" where
  "wf_host L h \<longleftrightarrow> length (a_key (ho_authority h)) = 32 \<and> length (a_realm (ho_authority h)) = 16
     \<and> bm_ok (ho_codes h) \<and> length (ho_codes h) \<le> 256
     \<and> (\<forall>(k, g) \<in> set (ho_codes h). length k = 16 \<and> wf_grant L (ho_authority h) g)
     \<and> bm_ok (ho_members h) \<and> length (ho_members h) \<le> 256
     \<and> (\<forall>(k, mb) \<in> set (ho_members h). k = certificate_id (mb_certificate mb)
          \<and> issued_by L (ho_authority h) (endpoint_id (mb_certificate mb)) (mb_certificate mb))"

text \<open>What is stored of a host: no permits, and lifetimes in whole seconds.\<close>

definition stored_certificate :: "'e certificate \<Rightarrow> 'e certificate" where
  "stored_certificate c = c\<lparr>c_memory := None\<rparr>"

definition whole_secs :: "duration \<Rightarrow> duration" where
  "whole_secs d = from_secs (d div 10 ^ 9)"

definition stored_options :: "join_options \<Rightarrow> join_options" where
  "stored_options opts =
     \<lparr>jo_permissions = jo_permissions opts, jo_limits = jo_limits opts,
      jo_lifetime = whole_secs (jo_lifetime opts),
      jo_certificate_lifetime = whole_secs (jo_certificate_lifetime opts), jo_max_uses = jo_max_uses opts\<rparr>"

definition stored_grant :: "'e grant \<Rightarrow> 'e grant" where
  "stored_grant g =
     \<lparr>g_hash = g_hash g, g_expires = g_expires g, g_options = stored_options (g_options g),
      g_redeemed = bm_map (\<lambda>_. stored_certificate) (g_redeemed g), g_memory = None\<rparr>"

definition stored_member :: "'e member \<Rightarrow> 'e member" where
  "stored_member mb = \<lparr>mb_certificate = stored_certificate (mb_certificate mb), mb_memory = None\<rparr>"

definition stored_host :: "'e host \<Rightarrow> 'e host" where
  "stored_host h =
     h\<lparr>ho_codes := bm_map (\<lambda>_. stored_grant) (ho_codes h),
       ho_members := bm_map (\<lambda>_. stored_member) (ho_members h), ho_storage := True\<rparr>"

lemma stored_certificate_simps [simp]:
  "c_bytes (stored_certificate c) = c_bytes c" "c_claims (stored_certificate c) = c_claims c"
  by (simp_all add: stored_certificate_def)

lemma issued_by_parses: "issued_by L a e c \<Longrightarrow> certificate_from_bytes L (c_bytes c) = Inr (stored_certificate c)"
  by (auto simp: issued_by_def wf_certificate_def certificate_from_bytes_def result_simps
      stored_certificate_def split: sum.splits prod.splits)

lemma issued_by_accepted:
  "issued_by L a e c \<Longrightarrow> c_claims d = c_claims c \<Longrightarrow> c_bytes d = c_bytes c \<Longrightarrow>
     accept_stored (trust_verify L (authority_trust L a) d e now) = Inr ()"
  by (auto simp: issued_by_def trust_verify_def authority_trust_def trust_new_def check_def accept_stored_def
      endpoint_id_def certificate_id_def)

lemma issued_by_size: "issued_by L a e c \<Longrightarrow> length (c_bytes c) \<le> MAX_CERT"
  by (auto simp: issued_by_def verify_cose_def result_simps dest!: parse_cose_Inr)

lemma div_whole_secs [simp]: "whole_secs d div 10 ^ 9 = d div 10 ^ 9"
  by (simp add: whole_secs_def from_secs_def)

lemma as_secs_whole [simp]: "as_secs (whole_secs d) = as_secs d"
  unfolding as_secs_def div_whole_secs ..

lemma whole_secs_le: "d \<le> from_secs n \<Longrightarrow> whole_secs d \<le> from_secs n"
  by (simp add: whole_secs_def from_secs_def)

lemma from_as_secs: "d \<le> MAX_JOIN_LIFETIME \<Longrightarrow> from_secs (unat (as_secs d)) = whole_secs d"
proof -
  assume "d \<le> MAX_JOIN_LIFETIME"
  then have "d div 10 ^ 9 \<le> MAX_JOIN_LIFETIME div 10 ^ 9"
    by (rule div_le_mono)
  also have "\<dots> < 2 ^ 64"
    by (simp add: MAX_JOIN_LIFETIME_def from_secs_def)
  finally show ?thesis
    by (simp add: as_secs_def whole_secs_def)
qed

lemma stored_options_valid:
  "join_options_validate opts = Inr () \<Longrightarrow> join_options_validate (stored_options opts) = Inr ()"
  using whole_secs_le
  by (auto simp: join_options_validate_def result_simps not_less MAX_JOIN_LIFETIME_def stored_options_def)

definition redeemed_bytes :: "'e lib \<Rightarrow> 'e \<times> 'e certificate \<Rightarrow> bytes" where
  "redeemed_bytes L p = enc_array (codec L) 2 @ enc_bytes (codec L) (ep_bytes L (fst p)) @ enc_bytes (codec L) (c_bytes (snd p))"

definition grant_bytes :: "'e lib \<Rightarrow> bytes \<times> 'e grant \<Rightarrow> bytes" where
  "grant_bytes L p =
     (let mc = codec L; g = snd p; opts = g_options g in
      enc_array mc 9 @ enc_bytes mc (fst p) @ enc_bytes mc (g_hash g) @ enc_u64 mc (g_expires g)
      @ enc_u64 mc (as_secs (jo_lifetime opts)) @ enc_u64 mc (as_secs (jo_certificate_lifetime opts))
      @ enc_u64 mc (word_of_nat (jo_max_uses opts)) @ enc_array mc 2 @ enc_u64 mc (max_payload (jo_limits opts))
      @ enc_u64 mc (max_subscriptions (jo_limits opts)) @ enc_array mc (word_of_nat (length (jo_permissions opts)))
      @ concat (map (permission_bytes mc) (jo_permissions opts)) @ enc_array mc (word_of_nat (length (g_redeemed g)))
      @ concat (map (redeemed_bytes L) (g_redeemed g)))"

definition member_bytes :: "'e lib \<Rightarrow> 'e member \<Rightarrow> bytes" where
  "member_bytes L mb = enc_bytes (codec L) (c_bytes (mb_certificate mb))"

lemma w_redeemed_append: "w_redeemed L p w = w @ redeemed_bytes L p"
  by (simp add: w_redeemed_def redeemed_bytes_def writer_defs)

lemma w_grant_append: "w_grant L p w = w @ grant_bytes L p"
  by (simp add: w_grant_def grant_bytes_def Let_def w_calls_def [of "_ # _"] w_calls_map [OF w_permission_append]
      w_calls_map [OF w_redeemed_append] w_array_def w_u_def w_bytes_def)

lemma w_member_append: "w_member L mb w = w @ member_bytes L mb"
  by (simp add: w_member_def member_bytes_def w_bytes_def)

definition host_body :: "'e lib \<Rightarrow> 'e host \<Rightarrow> bytes" where
  "host_body L h =
     (let mc = codec L in
      enc_u64 mc 1 @ enc_bytes mc (a_key (ho_authority h)) @ enc_bytes mc (a_realm (ho_authority h))
      @ enc_array mc (word_of_nat (length (ho_codes h))) @ concat (map (grant_bytes L) (ho_codes h))
      @ enc_array mc (word_of_nat (length (ho_members h))) @ concat (map (member_bytes L) (bm_vals (ho_members h)))
      @ enc_array mc 0)"

lemma host_encode_eq: "host_encode L h = enc_array (codec L) 6 @ host_body L h"
  by (simp add: host_encode_def host_body_def Let_def written_def w_finish_def w_new_def w_calls_def [of "_ # _"]
      w_calls_map [OF w_grant_append] w_calls_map [OF w_member_append] w_array_def w_u_def w_bytes_def)

lemma stored_redeemed_bytes [simp]: "redeemed_bytes L (k, stored_certificate c) = redeemed_bytes L (k, c)"
  by (simp add: redeemed_bytes_def)

lemma stored_grant_bytes [simp]: "grant_bytes L (k, stored_grant g) = grant_bytes L (k, g)"
  by (simp add: grant_bytes_def stored_grant_def stored_options_def bm_map_def comp_def Let_def)

lemma stored_host_encode [simp]: "host_encode L (stored_host h) = host_encode L h"
proof -
  have "map (grant_bytes L) (bm_map (\<lambda>_. stored_grant) (ho_codes h)) = map (grant_bytes L) (ho_codes h)"
    by (simp add: bm_map_def)
  moreover have "map (member_bytes L) (bm_vals (bm_map (\<lambda>_. stored_member) (ho_members h)))
      = map (member_bytes L) (bm_vals (ho_members h))"
    by (simp add: bm_vals_def bm_map_def member_bytes_def stored_member_def)
  ultimately show ?thesis
    by (simp add: host_encode_eq host_body_def stored_host_def Let_def del: bm_vals_map)
qed

section \<open>Reading a stored host\<close>

lemma r_many_enc:
  "(\<And>x t. x \<in> set xs \<Longrightarrow> f (g x @ t) = Inr (x, t)) \<Longrightarrow>
     r_many f (length xs) (concat (map g xs) @ t) = Inr (xs, t)"
  by (induction xs) simp_all

context ordered_external
begin

lemma r_permission_enc:
  assumes "wf_permission p"
  shows "r_permission (codec L) (permission_bytes (codec L) p @ t) = Inr (p, t)"
proof -
  from assms have "wf_topic (p_topic p)" and "p_publish p \<or> p_subscribe p"
    by (auto simp: wf_permission_def)
  then show ?thesis
    using r_array_enc [of 2]
    by (cases "p_publish p"; cases "p_subscribe p")
      (auto simp: r_permission_def permission_bytes_def codec_simps wf_topic_utf8 wf_topic_length wf_topic_new
        permission_mask_def permission_publish_def permission_subscribe_def permission_both_def)
qed

lemma r_redeemed_enc:
  assumes "\<forall>(e, c) \<in> set ps. issued_by L a e c" and "bm_ok (acc @ ps)"
  shows "r_redeemed L (authority_trust L a) now (length ps) acc (concat (map (redeemed_bytes L) ps) @ t)
    = Inr (acc @ bm_map (\<lambda>_. stored_certificate) ps, t)"
  using assms
proof (induction ps arbitrary: acc)
  case (Cons p ps)
  obtain e c where p: "p = (e, c)"
    by (cases p)
  with Cons.prems have c: "issued_by L a e c"
    by simp
  from Cons.prems p have acc: "\<forall>q \<in> set acc. fst q < e"
      and more: "bm_ok ((acc @ [(e, stored_certificate c)]) @ ps)"
    using bm_ok_append_Cons [of acc e c ps "stored_certificate c"] by auto
  have "r_redeemed L (authority_trust L a) now (length (p # ps)) acc (concat (map (redeemed_bytes L) (p # ps)) @ t)
      = r_redeemed L (authority_trust L a) now (length ps) (acc @ [(e, stored_certificate c)])
          (concat (map (redeemed_bytes L) ps) @ t)"
    using r_array_enc [of 2] issued_by_size [OF c]
    by (simp add: p redeemed_bytes_def codec_simps ep_bytes_length endpoint_def ep_from_bytes_bytes MAX_CERT_def
        issued_by_parses [OF c] issued_by_accepted [OF c] bm_has_less [OF acc] bm_put_last [OF acc])
  with Cons.IH [OF _ more] Cons.prems p show ?case
    by (simp add: bm_map_def)
qed (simp add: bm_map_def)

lemma r_grant_enc:
  assumes wf: "wf_grant L a g" and k: "length k = 16"
  shows "r_grant L (authority_trust L a) now (grant_bytes L (k, g) @ t) = Inr ((k, stored_grant g), t)"
proof -
  have opts: "join_options_validate (g_options g) = Inr ()" and hash: "length (g_hash g) = 32"
    and perms: "\<And>p. p \<in> set (jo_permissions (g_options g)) \<Longrightarrow> wf_permission p"
    and red: "\<forall>(e, c) \<in> set (g_redeemed g). issued_by L a e c" "bm_ok ([] @ g_redeemed g)"
    and uses: "length (g_redeemed g) \<le> jo_max_uses (g_options g)"
    using wf by (auto simp: wf_grant_def)
  from opts have lim: "length (jo_permissions (g_options g)) \<le> MAX_PERMISSIONS" "jo_max_uses (g_options g) \<le> 256"
      "jo_lifetime (g_options g) \<le> MAX_JOIN_LIFETIME" "jo_certificate_lifetime (g_options g) \<le> MAX_JOIN_LIFETIME"
    by (auto simp: join_options_validate_def result_simps)
  with uses have n: "length (g_redeemed g) \<le> 256" "jo_max_uses (g_options g) < 2 ^ 64"
    by auto
  define rest where "rest = (\<lambda>t. enc_array (codec L) (word_of_nat (length (g_redeemed g)))
      @ concat (map (redeemed_bytes L) (g_redeemed g)) @ t)"
  have many: "r_many (r_permission (codec L)) (length (jo_permissions (g_options g)))
      (concat (map (permission_bytes (codec L)) (jo_permissions (g_options g))) @ rest t)
      = Inr (jo_permissions (g_options g), rest t)"
    by (rule r_many_enc) (rule r_permission_enc [OF perms])
  have tail: "r_redeemed L (authority_trust L a) now (length (g_redeemed g)) []
      (concat (map (redeemed_bytes L) (g_redeemed g)) @ t) = Inr (bm_map (\<lambda>_. stored_certificate) (g_redeemed g), t)"
    using r_redeemed_enc [OF red, of now t] by simp
  show ?thesis
    using r_array_enc [of 2] r_array_enc [of 9] many tail n lim(1) k hash stored_options_valid [OF opts]
    by (simp add: r_grant_def grant_bytes_def Let_def codec_simps MAX_PERMISSIONS_def from_as_secs lim stored_grant_def
        stored_options_def rest_def)
qed

lemma r_grants_enc:
  assumes "\<forall>(k, g) \<in> set gs. length k = 16 \<and> wf_grant L a g" and "bm_ok (acc @ gs)"
  shows "r_grants L (authority_trust L a) now (length gs) acc (concat (map (grant_bytes L) gs) @ t)
    = Inr (acc @ bm_map (\<lambda>_. stored_grant) gs, t)"
  using assms
proof (induction gs arbitrary: acc)
  case (Cons p gs)
  obtain k g where p: "p = (k, g)"
    by (cases p)
  with Cons.prems have g: "wf_grant L a g" "length k = 16"
    by auto
  then have uses: "length (g_redeemed (stored_grant g)) \<le> jo_max_uses (g_options (stored_grant g))"
    by (simp add: wf_grant_def stored_grant_def stored_options_def)
  from Cons.prems p have acc: "\<forall>q \<in> set acc. fst q < k" and more: "bm_ok ((acc @ [(k, stored_grant g)]) @ gs)"
    using bm_ok_append_Cons [of acc k g gs "stored_grant g"] by auto
  have "r_grants L (authority_trust L a) now (length (p # gs)) acc (concat (map (grant_bytes L) (p # gs)) @ t)
      = r_grants L (authority_trust L a) now (length gs) (acc @ [(k, stored_grant g)]) (concat (map (grant_bytes L) gs) @ t)"
    using uses by (simp add: p r_grant_enc [OF g] bm_has_less [OF acc] bm_put_last [OF acc])
  with Cons.IH [OF _ more] Cons.prems p show ?case
    by (simp add: bm_map_def)
qed (simp add: bm_map_def)

lemma r_members_enc:
  assumes "\<forall>(k, mb) \<in> set ms. k = certificate_id (mb_certificate mb)
      \<and> issued_by L a (endpoint_id (mb_certificate mb)) (mb_certificate mb)" and "bm_ok (acc @ ms)"
  shows "r_members L (authority_trust L a) now (length ms) acc (concat (map (member_bytes L) (bm_vals ms)) @ t)
    = Inr (acc @ bm_map (\<lambda>_. stored_member) ms, t)"
  using assms
proof (induction ms arbitrary: acc)
  case (Cons p ms)
  obtain k mb where p: "p = (k, mb)"
    by (cases p)
  define c where "c = mb_certificate mb"
  from Cons.prems p have c: "issued_by L a (endpoint_id c) c" and k: "k = certificate_id c"
    by (auto simp: c_def)
  have ids: "certificate_id (stored_certificate c) = k" "endpoint_id (stored_certificate c) = endpoint_id c"
    by (simp_all add: k certificate_id_def endpoint_id_def)
  from Cons.prems p have acc: "\<forall>q \<in> set acc. fst q < k" and more: "bm_ok ((acc @ [(k, stored_member mb)]) @ ms)"
    using bm_ok_append_Cons [of acc k mb ms "stored_member mb"] by auto
  have "r_members L (authority_trust L a) now (length (p # ms)) acc (concat (map (member_bytes L) (bm_vals (p # ms))) @ t)
      = r_members L (authority_trust L a) now (length ms) (acc @ [(k, stored_member mb)])
          (concat (map (member_bytes L) (bm_vals ms)) @ t)"
    using issued_by_size [OF c]
    by (simp add: p bm_vals_def member_bytes_def codec_simps MAX_CERT_def c_def [symmetric] ids issued_by_parses [OF c]
        issued_by_accepted [OF c] bm_has_less [OF acc] bm_put_last [OF acc] stored_member_def)
  with Cons.IH [OF _ more] Cons.prems p show ?case
    by (simp add: bm_map_def)
qed (simp add: bm_map_def bm_vals_def)

lemma host_decode_encode:
  assumes wf: "wf_host L h" and size: "length (host_encode L h) \<le> MAX_BYTES"
  shows "host_decode L (host_encode L h) now = Inr (stored_host h)"
proof -
  have start: "r_array (codec L) 6 (host_encode L h) = Inr ((), host_body L h)"
    using r_array_enc [of 6] by (simp add: host_encode_eq)
  have a: "\<lparr>a_key = a_key (ho_authority h), a_realm = a_realm (ho_authority h)\<rparr> = ho_authority h"
    by simp
  have fold: "\<lparr>ho_authority = ho_authority h, ho_codes = bm_map (\<lambda>_. stored_grant) (ho_codes h),
      ho_members = bm_map (\<lambda>_. stored_member) (ho_members h), ho_storage = True\<rparr> = stored_host h"
    by (simp add: stored_host_def)
  have codes: "\<forall>(k, g) \<in> set (ho_codes h). length k = 16 \<and> wf_grant L (ho_authority h) g" "bm_ok ([] @ ho_codes h)"
    and members: "\<forall>(k, mb) \<in> set (ho_members h). k = certificate_id (mb_certificate mb)
      \<and> issued_by L (ho_authority h) (endpoint_id (mb_certificate mb)) (mb_certificate mb)" "bm_ok ([] @ ho_members h)"
    and lens: "length (a_key (ho_authority h)) = 32" "length (a_realm (ho_authority h)) = 16"
      "length (ho_codes h) \<le> 256" "length (ho_members h) \<le> 256"
    using wf by (auto simp: wf_host_def)
  have r0: "r_list (codec L) 0 (enc_array (codec L) 0) = Inr (0, [])"
    using r_list_enc [of 0 0 "[]"] by simp
  show ?thesis
    using size lens
    by (simp add: host_decode_def Let_def start)
      (simp add: host_body_def Let_def codec_simps a r_grants_enc [OF codes, simplified]
        r_members_enc [OF members, simplified] r0 fold)
qed

end

section \<open>Keeping the state of a host well-formed\<close>

definition live_members :: "u64 \<Rightarrow> 'e host \<Rightarrow> 'e host" where
  "live_members now h = h\<lparr>ho_members := bm_retain (\<lambda>_ mb. expires_at (mb_certificate mb) > now) (ho_members h)\<rparr>"

lemma wf_live_members: "wf_host L h \<Longrightarrow> wf_host L (live_members now h)"
  using length_bm_retain_le [of "\<lambda>_ mb. expires_at (mb_certificate mb) > now" "ho_members h"]
  by (auto simp: wf_host_def live_members_def bm_ok_simps set_bm_retain)

lemma wf_prune: "wf_host L h \<Longrightarrow> prune now (Host h) = Host h' \<Longrightarrow> wf_host L h'"
  using length_bm_retain_le [of "\<lambda>_ g. g_expires g > now" "ho_codes h"]
    length_bm_retain_le [of "\<lambda>_ mb. expires_at (mb_certificate mb) > now" "ho_members h"]
  by (auto simp: wf_host_def prune_def bm_ok_simps set_bm_retain)

lemma wf_del_code: "wf_host L h \<Longrightarrow> wf_host L (h\<lparr>ho_codes := bm_del k (ho_codes h)\<rparr>)"
  using length_bm_del_le [of k "ho_codes h"]
  by (auto simp: wf_host_def bm_ok_simps set_bm_del)

lemma wf_put_code:
  assumes "wf_host L h" and "length (ho_codes h) < 256" and "length k = 16" and "wf_grant L (ho_authority h) g"
  shows "wf_host L (h\<lparr>ho_codes := bm_put k g (ho_codes h)\<rparr>)"
  using assms set_bm_put [of k g "ho_codes h"] length_bm_put [of "ho_codes h" k g]
  by (auto simp: wf_host_def bm_ok_simps)

lemma authority_issue_valid:
  "authority_issue L a cid subject perms nb ex lims = Inr c \<Longrightarrow> \<forall>p \<in> set perms. wf_topic (p_topic p) \<Longrightarrow>
     \<forall>p \<in> set perms. wf_permission p"
  by (auto simp: authority_issue_def Let_def result_simps claims_validate_Inr wf_permission_def)

lemma certificate_metered_simps:
  "certificate_metered c m = Inr (c', m') \<Longrightarrow>
     certificate_id c' = certificate_id c \<and> endpoint_id c' = endpoint_id c \<and> expires_at c' = expires_at c"
  using certificate_metered_wf [of c m c' m'] by (auto simp: certificate_id_def endpoint_id_def expires_at_def)

context ordered_external
begin

lemma issue_issued_by:
  assumes "authority_issue L a cid subject perms nb ex lims = Inr c"
    and "length (a_realm a) = 16" "length cid = 16" and "\<forall>p \<in> set perms. wf_topic (p_topic p)"
  shows "issued_by L a subject c \<and> certificate_id c = cid \<and> expires_at c = ex"
  using authority_issue_Inr [OF assms] by (auto simp: issued_by_def endpoint_id_def certificate_id_def expires_at_def)

lemma metered_issued_by:
  "issued_by L a e c \<Longrightarrow> certificate_metered c m = Inr (c', m') \<Longrightarrow> issued_by L a e c'"
  using certificate_metered_wf [of c m c' m' L] certificate_metered_simps [of c m c' m']
  by (auto simp: issued_by_def)

text \<open>Every outcome of \<open>issue\<close>: refused with nothing changed, or the code and its grant recorded.\<close>

lemma admission_issue_cases:
  assumes op: "admission_issue L save opts addr now mx secret cid (Host h) m w = (res, adm', m', w')"
    and wf: "wf_host L h" and mx: "mx \<le> 256" and topics: "\<forall>p \<in> set (jo_permissions opts). wf_topic (p_topic p)"
    and fresh: "\<not> bm_has (join_code_id L \<lparr>jc_address = compact_address addr, jc_secret = secret\<rparr>) (ho_codes h)"
  shows "(\<exists>e. res = Inl e \<and> adm' = Host h)
    \<or> (\<exists>code g h'. res = Inr code \<and> code = \<lparr>jc_address = compact_address addr, jc_secret = secret\<rparr>
        \<and> wf_grant L (ho_authority h) g \<and> g_hash g = digest L secret \<and> g_options g = opts \<and> g_redeemed g = []
        \<and> g_expires g = now + as_secs (jo_lifetime opts)
        \<and> h' = h\<lparr>ho_codes := bm_put (join_code_id L code) g (ho_codes h)\<rparr> \<and> adm' = Host h' \<and> wf_host L h'
        \<and> persist L save h' w = (Inr (), w'))"
proof -
  define code where "code = \<lparr>jc_address = compact_address addr, jc_secret = secret\<rparr>"
  have id_len: "length (join_code_id L code) = 16"
    by (simp add: join_code_id_def digest_def sha256_length)
  have rollback: "bm_del (join_code_id L code) (bm_put (join_code_id L code) g (ho_codes h)) = ho_codes h" for g
    using wf fresh by (simp add: wf_host_def bm_del_put code_def)
  show ?thesis
  proof (cases "\<exists>e. res = Inl e")
    case True
    with op show ?thesis
      by (auto simp: admission_issue_def Let_def rollback code_def [symmetric] result_simps split: sum.splits prod.splits)
  next
    case False
    with op obtain c memory where res: "res = Inr code" and val: "join_options_validate opts = Inr ()"
        and space: "length (ho_codes h) < mx"
        and c: "authority_issue L (ho_authority h) cid (ad_id addr) (jo_permissions opts) now
            (now + as_secs (jo_certificate_lifetime opts)) (jo_limits opts) = Inr c"
        and h': "adm' = Host (h\<lparr>ho_codes := bm_put (join_code_id L code)
            \<lparr>g_hash = digest L secret, g_expires = now + as_secs (jo_lifetime opts), g_options = opts,
             g_redeemed = [], g_memory = Some memory\<rparr> (ho_codes h)\<rparr>)"
        and saved: "persist L save (h\<lparr>ho_codes := bm_put (join_code_id L code)
            \<lparr>g_hash = digest L secret, g_expires = now + as_secs (jo_lifetime opts), g_options = opts,
             g_redeemed = [], g_memory = Some memory\<rparr> (ho_codes h)\<rparr>) w = (Inr (), w')"
      by (auto simp: admission_issue_def Let_def code_def [symmetric] result_simps split: sum.splits prod.splits)
    define g where "g = \<lparr>g_hash = digest L secret, g_expires = now + as_secs (jo_lifetime opts), g_options = opts,
             g_redeemed = [] :: ('e, 'e certificate) bmap, g_memory = Some memory\<rparr>"
    have g: "wf_grant L (ho_authority h) g"
      using val authority_issue_valid [OF c topics] by (auto simp: wf_grant_def g_def digest_def sha256_length)
    have "wf_host L (h\<lparr>ho_codes := bm_put (join_code_id L code) g (ho_codes h)\<rparr>)"
      using wf_put_code [OF wf _ id_len g] space mx by simp
    with res h' saved g show ?thesis
      unfolding g_def [symmetric] code_def [symmetric]
      by (intro disjI2 exI [of _ code] exI [of _ g]) (simp add: g_def)
  qed
qed

end

lemma revoke_code_cases:
  assumes op: "revoke_code L save cid (Host h) w = (res, adm', w')" and wf: "wf_host L h"
  shows "(\<exists>e. res = Inl e \<and> adm' = Host h)
    \<or> (res = Inr () \<and> adm' = Host (h\<lparr>ho_codes := bm_del cid (ho_codes h)\<rparr>)
       \<and> persist L save (h\<lparr>ho_codes := bm_del cid (ho_codes h)\<rparr>) w = (Inr (), w'))"
proof -
  have ok: "bm_ok (ho_codes h)"
    using wf by (simp add: wf_host_def)
  show ?thesis
    using op bm_put_del [OF ok, of cid] bm_del_absent [OF ok, of cid]
    by (cases "bm_get cid (ho_codes h)")
      (auto simp: revoke_code_def Let_def bm_has_def split: sum.splits prod.splits)
qed

text \<open>The grant a peer presented is there, has not expired, and the secret is the right one.\<close>

definition grant_valid :: "'e lib \<Rightarrow> 'e host \<Rightarrow> bytes \<Rightarrow> bytes \<Rightarrow> u64 \<Rightarrow> 'e grant \<Rightarrow> bool" where
  "grant_valid L h cid secret now g \<longleftrightarrow>
     bm_get cid (ho_codes h) = Some g \<and> now < g_expires g \<and> g_hash g = digest L secret"

lemma enroll_lookup_cached:
  "enroll_lookup L peer cid secret now trust mx h = Inr (Inl en) \<Longrightarrow>
     \<exists>g c. grant_valid L h cid secret now g \<and> bm_get peer (g_redeemed g) = Some c
       \<and> check trust c peer now = Inr () \<and> now < expires_at c
       \<and> en = \<lparr>en_trust = authority_trust L (ho_authority h), en_expires = g_expires g, en_certificate = c\<rparr>"
  by (auto simp: enroll_lookup_def grant_valid_def result_simps not_le split: option.splits sum.splits if_splits)

lemma enroll_lookup_grant:
  assumes "enroll_lookup L peer cid secret now trust mx h = Inr (Inr g)"
  shows "grant_valid L h cid secret now g \<and> length (ho_members h) < mx
     \<and> (bm_has peer (g_redeemed g) \<or> length (g_redeemed g) < jo_max_uses (g_options g))"
proof (cases "bm_get peer (g_redeemed (the (bm_get cid (ho_codes h))))")
  case None
  with assms show ?thesis
    by (auto simp: enroll_lookup_def grant_valid_def result_simps split: if_splits)
next
  case (Some c)
  with assms show ?thesis
    by (cases "check trust c peer now")
      (auto simp: enroll_lookup_def grant_valid_def result_simps bm_has_def split: if_splits)
qed

lemma enroll_lookup_live [simp]: "ho_codes (live_members now h) = ho_codes h" "ho_authority (live_members now h) = ho_authority h"
    "ho_storage (live_members now h) = ho_storage h"
  by (simp_all add: live_members_def)

text \<open>Recording a certificate in the grant and among the members.\<close>

definition admit_member :: "bytes \<Rightarrow> ('e::linorder) \<Rightarrow> 'e certificate \<Rightarrow> permit \<Rightarrow> 'e host \<Rightarrow> 'e host" where
  "admit_member cid peer c memory h =
     h\<lparr>ho_members := bm_put (certificate_id c) \<lparr>mb_certificate = c, mb_memory = Some memory\<rparr> (ho_members h),
       ho_codes := bm_adjust cid (\<lambda>g. g\<lparr>g_redeemed := bm_put peer c (g_redeemed g)\<rparr>) (ho_codes h)\<rparr>"

lemma wf_admit_member:
  assumes wf: "wf_host L h" and g: "bm_get cid (ho_codes h) = Some g"
    and space: "length (ho_members h) < 256"
    and uses: "bm_has peer (g_redeemed g) \<or> length (g_redeemed g) < jo_max_uses (g_options g)"
    and c: "issued_by L (ho_authority h) peer c"
  shows "wf_host L (admit_member cid peer c memory h)"
proof -
  have codes: "bm_ok (ho_codes h)" and members: "bm_ok (ho_members h)"
    using wf by (auto simp: wf_host_def)
  have grants: "(k, g') \<in> set (ho_codes h) \<Longrightarrow> length k = 16 \<and> wf_grant L (ho_authority h) g'" for k g'
    using wf by (auto simp: wf_host_def)
  have same: "(cid, g') \<in> set (ho_codes h) \<Longrightarrow> g' = g" for g'
    using g bm_in_set_get [OF codes] by fastforce
  have wfg: "wf_grant L (ho_authority h) g"
    using grants bm_get_in_set [OF g] by auto
  then have "wf_grant L (ho_authority h) (g\<lparr>g_redeemed := bm_put peer c (g_redeemed g)\<rparr>)"
    using uses c set_bm_put [of peer c "g_redeemed g"] length_bm_put [of "g_redeemed g" peer c]
    by (auto simp: wf_grant_def bm_ok_simps)
  then have "(k, g') \<in> set (bm_adjust cid (\<lambda>g. g\<lparr>g_redeemed := bm_put peer c (g_redeemed g)\<rparr>) (ho_codes h)) \<Longrightarrow>
      length k = 16 \<and> wf_grant L (ho_authority h) g'" for k g'
    using grants same by (auto simp: set_bm_adjust split: if_splits)
  moreover have "endpoint_id c = peer"
    using c by (simp add: issued_by_def)
  ultimately show ?thesis
    using wf space c members codes length_bm_put [OF members, of "certificate_id c"]
      set_bm_put [of "certificate_id c" "\<lparr>mb_certificate = c, mb_memory = Some memory\<rparr>" "ho_members h"]
    by (auto simp: wf_host_def admit_member_def bm_ok_simps)
qed

lemma admit_member_undo:
  assumes wf: "wf_host L h" and g: "bm_get cid (ho_codes h) = Some g"
    and fresh: "\<not> bm_has (certificate_id c) (ho_members h)"
  shows "(admit_member cid peer c memory h)
      \<lparr>ho_members := bm_del (certificate_id c) (ho_members (admit_member cid peer c memory h)),
       ho_codes := bm_adjust cid (\<lambda>g'. g'\<lparr>g_redeemed :=
         (case bm_get peer (g_redeemed g) of
            Some p \<Rightarrow> bm_put peer p (g_redeemed g') | None \<Rightarrow> bm_del peer (g_redeemed g'))\<rparr>)
         (ho_codes (admit_member cid peer c memory h))\<rparr> = h"
proof -
  have codes: "bm_ok (ho_codes h)" and members: "bm_ok (ho_members h)"
    and red: "bm_ok (g_redeemed g)"
    using wf bm_get_in_set [OF g] by (auto simp: wf_host_def wf_grant_def)
  have "(case bm_get peer (g_redeemed g) of Some p \<Rightarrow> bm_put peer p (bm_put peer c (g_redeemed g))
      | None \<Rightarrow> bm_del peer (bm_put peer c (g_redeemed g))) = g_redeemed g"
    using bm_put_put [OF red, of peer] bm_del_put [OF red, of peer] by (auto simp: bm_has_def split: option.splits)
  then have "bm_adjust cid (\<lambda>g'. g'\<lparr>g_redeemed := (case bm_get peer (g_redeemed g) of
      Some p \<Rightarrow> bm_put peer p (bm_put peer c (g_redeemed g'))
    | None \<Rightarrow> bm_del peer (bm_put peer c (g_redeemed g')))\<rparr>) (ho_codes h) = ho_codes h"
    using g by (intro bm_adjust_same [OF codes]) auto
  then show ?thesis
    using bm_del_put [OF members fresh] by (simp add: admit_member_def bm_adjust_adjust cong: option.case_cong)
qed

context ordered_external
begin

text \<open>The certificate of a grant that passed the checks, if there is memory for it.\<close>

definition enroll_certificate :: "'e host \<Rightarrow> 'e grant \<Rightarrow> 'e \<Rightarrow> bytes \<Rightarrow> u64 \<Rightarrow> u64 \<Rightarrow> meter \<Rightarrow>
    (permit \<times> 'e certificate \<times> nat) result" where
  "enroll_certificate h g peer fresh now host_expires m =
     rbind (admit (with_host h m) 1024) (\<lambda>(memory, m').
     rbind (authority_issue L (ho_authority h) fresh peer (jo_permissions (g_options g)) now
              (min (now + as_secs (jo_certificate_lifetime (g_options g))) host_expires) (jo_limits (g_options g))) (\<lambda>c.
     rbind (certificate_metered c m') (\<lambda>(c, m').
       Inr (memory, c, meter_next m'))))"

lemma enroll_certificate_issued:
  assumes c: "enroll_certificate h g peer fresh now host_expires m = Inr (memory, c, nxt)"
    and wf: "wf_host L h" and get: "bm_get cid (ho_codes h) = Some g" and len: "length fresh = 16"
  shows "issued_by L (ho_authority h) peer c \<and> certificate_id c = fresh
    \<and> expires_at c = min (now + as_secs (jo_certificate_lifetime (g_options g))) host_expires"
proof -
  have topics: "\<forall>p \<in> set (jo_permissions (g_options g)). wf_topic (p_topic p)"
    using wf bm_get_in_set [OF get] by (fastforce simp: wf_host_def wf_grant_def wf_permission_def)
  have realm: "length (a_realm (ho_authority h)) = 16"
    using wf by (simp add: wf_host_def)
  from c obtain c0 m0 m1 where c0: "authority_issue L (ho_authority h) fresh peer (jo_permissions (g_options g)) now
        (min (now + as_secs (jo_certificate_lifetime (g_options g))) host_expires) (jo_limits (g_options g)) = Inr c0"
      and cm: "certificate_metered c0 m0 = Inr (c, m1)"
    by (auto simp: enroll_certificate_def result_simps)
  show ?thesis
    using issue_issued_by [OF c0 realm len topics] metered_issued_by [OF _ cm] certificate_metered_simps [OF cm]
    by auto
qed

text \<open>\<open>enroll\<close> in terms of the steps above.\<close>

lemma enroll_eq:
  "enroll L save peer cid secret now host_expires trust mx fresh (Host h0) m w =
     (let h = live_members now h0 in
      case enroll_lookup L peer cid secret now trust mx h of
        Inl e \<Rightarrow> (Inl e, Host h, m, w)
      | Inr (Inl en) \<Rightarrow> (Inr en, Host h, m, w)
      | Inr (Inr g) \<Rightarrow>
        (case enroll_certificate h g peer fresh now host_expires m of
           Inl e \<Rightarrow> (Inl e, Host h, m, w)
         | Inr (memory, c, nxt) \<Rightarrow>
           (let h' = admit_member cid peer c memory h in
            case persist L save h' w of
              (Inl e, w) \<Rightarrow>
                (Inl e,
                 Host (h'\<lparr>ho_members := bm_del (certificate_id c) (ho_members h'),
                   ho_codes := bm_adjust cid (\<lambda>g'. g'\<lparr>g_redeemed :=
                     (case bm_get peer (g_redeemed g) of
                        Some p \<Rightarrow> bm_put peer p (g_redeemed g') | None \<Rightarrow> bm_del peer (g_redeemed g'))\<rparr>)
                     (ho_codes h')\<rparr>), m\<lparr>meter_next := nxt\<rparr>, w)
            | (Inr _, w) \<Rightarrow>
                (Inr \<lparr>en_trust = authority_trust L (ho_authority h), en_expires = g_expires g, en_certificate = c\<rparr>,
                 Host h', m\<lparr>meter_next := nxt\<rparr>, w))))"
  unfolding enroll_def enroll_certificate_def live_members_def Let_def admit_member_def
  by (simp cong: sum.case_cong prod.case_cong option.case_cong)

text \<open>Every outcome of \<open>enroll\<close>: refused, the cached certificate, or a new certificate recorded and saved.\<close>

lemma enroll_cases:
  assumes op: "enroll L save peer cid secret now host_expires trust mx fresh (Host h0) m w = (res, adm', m', w')"
    and wf: "wf_host L h0" and mx: "mx \<le> 256" and len: "length fresh = 16"
    and new: "\<not> bm_has fresh (ho_members h0)"
  obtains (refused) e where "res = Inl e" "adm' = Host (live_members now h0)"
    | (cached) g c where "grant_valid L h0 cid secret now g" "bm_get peer (g_redeemed g) = Some c"
        "check trust c peer now = Inr ()" "now < expires_at c"
        "res = Inr \<lparr>en_trust = authority_trust L (ho_authority h0), en_expires = g_expires g, en_certificate = c\<rparr>"
        "adm' = Host (live_members now h0)" "w' = w"
    | (issued) g c memory where "grant_valid L h0 cid secret now g" "issued_by L (ho_authority h0) peer c"
        "certificate_id c = fresh" "expires_at c = min (now + as_secs (jo_certificate_lifetime (g_options g))) host_expires"
        "res = Inr \<lparr>en_trust = authority_trust L (ho_authority h0), en_expires = g_expires g, en_certificate = c\<rparr>"
        "adm' = Host (admit_member cid peer c memory (live_members now h0))"
        "wf_host L (admit_member cid peer c memory (live_members now h0))"
        "persist L save (admit_member cid peer c memory (live_members now h0)) w = (Inr (), w')"
proof (cases "enroll_lookup L peer cid secret now trust mx (live_members now h0)")
  case (Inl e)
  with op show ?thesis
    by (intro refused [of e]) (auto simp: enroll_eq)
next
  case (Inr r)
  define h where "h = live_members now h0"
  have wfh: "wf_host L h"
    using wf_live_members [OF wf] by (simp add: h_def)
  have newh: "\<not> bm_has fresh (ho_members h)"
    using new by (auto simp: h_def live_members_def bm_has_iff set_bm_retain)
  show ?thesis
  proof (cases r)
    case (Inl en)
    with Inr have hit: "enroll_lookup L peer cid secret now trust mx h = Inr (Inl en)"
      by (simp add: h_def)
    with op enroll_lookup_cached [OF hit] cached show ?thesis
      by (auto simp: enroll_eq grant_valid_def h_def)
  next
    case miss: (Inr g)
    with Inr have l: "enroll_lookup L peer cid secret now trust mx h = Inr (Inr g)"
      by (simp add: h_def)
    note g = enroll_lookup_grant [OF l]
    then have get: "bm_get cid (ho_codes h) = Some g"
      by (simp add: grant_valid_def)
    show ?thesis
    proof (cases "enroll_certificate h g peer fresh now host_expires m")
      case (Inl e)
      with op l show ?thesis
        by (intro refused [of e]) (auto simp: enroll_eq h_def)
    next
      case cert: (Inr r')
      obtain memory c nxt where "r' = (memory, c, nxt)"
        by (cases r')
      with cert have r': "enroll_certificate h g peer fresh now host_expires m = Inr (memory, c, nxt)"
        by simp
      note c = enroll_certificate_issued [OF r' wfh get len]
      have "wf_host L (admit_member cid peer c memory h)"
        using g mx c by (intro wf_admit_member [OF wfh get]) auto
      with op l r' c g admit_member_undo [OF wfh get, of c peer memory] newh refused issued [of g c memory]
      show ?thesis
        by (auto simp: enroll_eq Let_def h_def grant_valid_def split: prod.splits sum.splits)
    qed
  qed
qed

end

section \<open>The states a host can reach\<close>

text \<open>
  The operations of the owner on a host, with the random identifiers not in use and the limits
  of a validated configuration. \<open>fst\<close> of the state is the host, \<open>snd\<close> the storage.
\<close>

inductive host_step ::
  "('e::linorder) lib \<Rightarrow> (bytes \<Rightarrow> 'w \<Rightarrow> unit result \<times> 'w) \<Rightarrow> 'e host \<times> 'w \<Rightarrow> 'e host \<times> 'w \<Rightarrow> bool"
  for L save
where
  issue: "admission_issue L save opts addr now mx secret cid (Host h) m w = (res, Host h', m', w') \<Longrightarrow>
    mx \<le> 256 \<Longrightarrow> \<forall>p \<in> set (jo_permissions opts). wf_topic (p_topic p) \<Longrightarrow>
    \<not> bm_has (join_code_id L \<lparr>jc_address = compact_address addr, jc_secret = secret\<rparr>) (ho_codes h) \<Longrightarrow>
    host_step L save (h, w) (h', w')"
| revoke: "revoke_code L save cid (Host h) w = (res, Host h', w') \<Longrightarrow> host_step L save (h, w) (h', w')"
| enroll: "enroll L save peer cid secret now host_expires trust mx fresh (Host h) m w = (res, Host h', m', w') \<Longrightarrow>
    mx \<le> 256 \<Longrightarrow> length fresh = 16 \<Longrightarrow> \<not> bm_has fresh (ho_members h) \<Longrightarrow>
    host_step L save (h, w) (h', w')"
| prune: "prune now (Host h) = Host h' \<Longrightarrow> host_step L save (h, w) (h', w)"

lemma authority_updates [simp]: "ho_authority (admit_member cid peer c memory h) = ho_authority h"
    "ho_storage (admit_member cid peer c memory h) = ho_storage h"
  by (simp_all add: admit_member_def)

context ordered_external
begin

lemma host_step_wf:
  assumes "host_step L save s t" and "wf_host L (fst s)"
  shows "wf_host L (fst t) \<and> ho_authority (fst t) = ho_authority (fst s) \<and> ho_storage (fst t) = ho_storage (fst s)"
  using assms
proof (induction rule: host_step.induct)
  case (issue opts addr now mx secret cid h m w res h' m' w')
  then show ?case
    using admission_issue_cases [OF issue.hyps(1) _ issue.hyps(2,3,4)] by auto
next
  case (revoke cid h w res h' w')
  then show ?case
    using revoke_code_cases [OF revoke.hyps] wf_del_code [of L h cid] by auto
next
  case (enroll peer cid secret now host_expires trust mx fresh h m w res h' m' w')
  from enroll.prems have wf: "wf_host L h"
    by simp
  from enroll.hyps(1) wf enroll.hyps(2,3,4) show ?case
    by (rule enroll_cases) (auto simp: wf_live_members [OF wf])
next
  case (prune now h h' w)
  then show ?case
    using wf_prune by (auto simp: prune_def)
qed

lemma host_new_wf: "length (a_key a) = 32 \<Longrightarrow> length (a_realm a) = 16 \<Longrightarrow> wf_host L (host_new a st)"
  by (simp add: wf_host_def host_new_def)

lemma host_reach_wf:
  assumes "(host_step L save)\<^sup>*\<^sup>* (host_new a st, w) (h, w')" and "length (a_key a) = 32" and "length (a_realm a) = 16"
  shows "wf_host L h \<and> ho_authority h = a \<and> ho_storage h = st"
proof -
  have "wf_host L (fst t) \<and> ho_authority (fst t) = a \<and> ho_storage (fst t) = st"
    if "(host_step L save)\<^sup>*\<^sup>* (host_new a st, w) t" for t
    using that
  proof (induction rule: rtranclp_induct)
    case base
    then show ?case
      using host_new_wf [OF assms(2,3)] by (simp add: host_new_def)
  next
    case (step s t)
    then show ?case
      using host_step_wf [of save s t] by auto
  qed
  from this [OF assms(1)] show ?thesis
    by simp
qed

lemma restart_from:
  assumes "wf_host L h" and "length (host_encode L h) \<le> MAX_BYTES" and "load w = (Inr (Some (host_encode L h)), w)"
  shows "with_storage L load save a now w = (Inr (Host (stored_host h)), w)"
  using assms(3) host_decode_encode [OF assms(1,2)] by (simp add: with_storage_def)

end

text \<open>
  The contract of the trait \<open>HostStorage\<close>: \<open>save\<close> replaces the whole value, durably when it returns
  success. \<open>after w w'\<close> says that \<open>w'\<close> is what is left of the storage \<open>w\<close> when the host starts again, and
  \<open>ready\<close> what the storage needs to work.
\<close>

locale host_storage =
  fixes ready :: "'w \<Rightarrow> bool"
    and save :: "bytes \<Rightarrow> 'w \<Rightarrow> unit result \<times> 'w"
    and load :: "'w \<Rightarrow> bytes option result \<times> 'w"
    and after :: "'w \<Rightarrow> 'w \<Rightarrow> bool"
  assumes saved: "ready w \<Longrightarrow> save b w = (Inr (), w') \<Longrightarrow> after w' w2 \<Longrightarrow> load w2 = (Inr (Some b), w2)"
    and atomic: "ready w \<Longrightarrow> save b w = (r, w') \<Longrightarrow> after w' w2 \<Longrightarrow>
      load w2 = (Inr (Some b), w2) \<or> (\<forall>w1 v. after w w1 \<longrightarrow> load w1 = (Inr v, w1) \<longrightarrow> load w2 = (Inr v, w2))"
    and ready_saved: "ready w \<Longrightarrow> save b w = (Inr (), w') \<Longrightarrow> ready w'"
begin

lemma persisted:
  assumes "ready w" and "persist L save h w = (Inr (), w')" and "ho_storage h" and "after w' w2"
  shows "length (host_encode L h) \<le> MAX_BYTES" and "load w2 = (Inr (Some (host_encode L h)), w2)"
  using assms saved [OF assms(1) _ assms(4)] by (auto simp: persist_def Let_def split: if_splits)

lemma restarted:
  assumes "external L" and "ready w" and "persist L save h w = (Inr (), w')" and "ho_storage h" and "wf_host L h" and "after w' w2"
  shows "with_storage L load save a now w2 = (Inr (Host (stored_host h)), w2)"
  using persisted [OF assms(2,3,4,6)] ordered_external.restart_from [OF ordered_external.intro [OF assms(1)] assms(5)] by simp

text \<open>A write that failed leaves a host to restart from the state before it or after it.\<close>

lemma restarted_after_failure:
  assumes "external L" and "ready w" and "persist L save h w = (r, w')" and "ho_storage h" and "wf_host L h" and "after w' w2"
    and "length (host_encode L h) \<le> MAX_BYTES"
    and old: "after w w1" "load w1 = (Inr (Some (host_encode L h0)), w1)" "wf_host L h0" "length (host_encode L h0) \<le> MAX_BYTES"
  shows "with_storage L load save a now w2 \<in> {(Inr (Host (stored_host h0)), w2), (Inr (Host (stored_host h)), w2)}"
proof -
  from assms(3,4,7) have "save (host_encode L h) w = (r, w')"
    by (simp add: persist_def Let_def)
  from atomic [OF assms(2) this assms(6)] old(1,2) consider
      "load w2 = (Inr (Some (host_encode L h)), w2)" | "load w2 = (Inr (Some (host_encode L h0)), w2)"
    by blast
  then show ?thesis
    using ordered_external.restart_from [OF ordered_external.intro [OF assms(1)], where load = load and w = w2] assms(5,7) old(3,4)
    by cases simp_all
qed

end

section \<open>The exchange on the wire\<close>

text \<open>What a host sends after a successful enrollment.\<close>

definition wf_enrollment :: "'e lib \<Rightarrow> 'e enrollment \<Rightarrow> bool" where
  "wf_enrollment L en \<longleftrightarrow> wf_certificate L (en_certificate en) \<and> length (t_realm (en_trust en)) = 16
     \<and> en_trust en = trust_new (t_realm (en_trust en)) (t_root (en_trust en))"

context external
begin

lemma parse_join_request_enc:
  assumes "length cid = 16" and "length secret = 32"
  shows "parse_join_request (codec L) (join_request (codec L) cid secret) = Inr (cid, secret)"
proof -
  have "r_array (codec L) 3 (join_request (codec L) cid secret)
      = Inr ((), enc_u64 (codec L) 2 @ enc_bytes (codec L) cid @ enc_bytes (codec L) secret)"
    using r_array_enc [of 3] by (simp add: join_request_def writer_defs)
  with assms show ?thesis
    by (simp add: parse_join_request_def codec_simps join_version_def)
qed

lemma join_request_size:
  "length cid = 16 \<Longrightarrow> length secret = 32 \<Longrightarrow> length (join_request (codec L) cid secret) \<le> 84"
  using enc_array_size [of 3] enc_u64_size [of 2] enc_bytes_size [of cid] enc_bytes_size [of secret]
  by (simp add: join_request_def writer_defs)

lemma parse_rejection:
  "reason \<in> {1, 2} \<Longrightarrow> parse_join_reply L 11 (join_rejection (codec L) reason) peer expected now
     = Inl (if reason = 1 then Unauthorized else QueueFull)"
proof -
  assume r: "reason \<in> {1, 2}"
  have "r_array (codec L) 2 (join_rejection (codec L) reason) = Inr ((), enc_u64 (codec L) 2 @ enc_u64 (codec L) reason)"
    using r_array_enc [of 2] by (simp add: join_rejection_def writer_defs)
  with r show ?thesis
    by (auto simp: parse_join_reply_def Let_def codec_simps join_version_def)
qed

lemma join_rejection_size: "length (join_rejection (codec L) reason) \<le> 27"
  using enc_array_size [of 2] enc_u64_size [of 2] enc_u64_size [of reason] by (simp add: join_rejection_def writer_defs)

lemma enrollment_encode_size:
  assumes "wf_enrollment L en"
  shows "length (enrollment_encode L en) \<le> MAX_METADATA"
proof -
  have "length (c_bytes (en_certificate en)) \<le> MAX_CERT"
    using wf_certificate_payload [of "en_certificate en"] assms by (auto simp: wf_enrollment_def)
  then show ?thesis
    using enc_array_size [of 5] enc_u64_size [of 2] enc_u64_size [of "en_expires en"]
      enc_bytes_size [of "t_realm (en_trust en)"] enc_bytes_size [of "ep_bytes L (t_root (en_trust en))"]
      enc_bytes_size [of "c_bytes (en_certificate en)"] ep_bytes_length [of "t_root (en_trust en)"] assms
    by (simp add: enrollment_encode_def Let_def writer_defs wf_enrollment_def MAX_METADATA_def MAX_CERT_def)
qed

lemma enrollment_decode_encode:
  assumes wf: "wf_enrollment L en"
    and exp: "now < en_expires en"
    and trust: "case expected of None \<Rightarrow> True
      | Some t \<Rightarrow> t_root t = t_root (en_trust en) \<and> t_realm t = t_realm (en_trust en)"
    and ver: "trust_verify L (case expected of None \<Rightarrow> en_trust en | Some t \<Rightarrow> t) (en_certificate en) peer now = Inr ()"
  shows "enrollment_decode L (enrollment_encode L en) peer expected now
    = Inr (en\<lparr>en_certificate := stored_certificate (en_certificate en)\<rparr>)"
proof -
  define c where "c = en_certificate en"
  define body where "body = enc_u64 (codec L) 2 @ enc_bytes (codec L) (t_realm (en_trust en))
      @ enc_bytes (codec L) (ep_bytes L (t_root (en_trust en))) @ enc_u64 (codec L) (en_expires en)
      @ enc_bytes (codec L) (c_bytes c)"
  have start: "r_array (codec L) 5 (enrollment_encode L en) = Inr ((), body)"
    using r_array_enc [of 5] by (simp add: enrollment_encode_def Let_def writer_defs body_def c_def)
  have len: "length (c_bytes c) \<le> MAX_CERT"
    using wf_certificate_payload [of c] wf by (auto simp: wf_enrollment_def c_def)
  have parse: "certificate_from_bytes L (c_bytes c) = Inr (stored_certificate c)"
    using wf by (auto simp: wf_enrollment_def wf_certificate_def certificate_from_bytes_def result_simps c_def
        stored_certificate_def split: sum.splits prod.splits)
  have tr: "trust_new (t_realm (en_trust en)) (t_root (en_trust en)) = en_trust en"
    and realm: "length (t_realm (en_trust en)) = 16"
    using wf by (simp_all add: wf_enrollment_def)
  have same: "trust_verify L t (stored_certificate c) peer now = trust_verify L t c peer now" for t
    by (simp add: trust_verify_def check_def certificate_id_def)
  have enc: "enrollment_encode L \<lparr>en_trust = en_trust en, en_expires = en_expires en,
      en_certificate = stored_certificate c\<rparr> = enrollment_encode L en"
    by (simp add: enrollment_encode_def c_def)
  have final: "\<lparr>en_trust = en_trust en, en_expires = en_expires en, en_certificate = stored_certificate c\<rparr>
      = en\<lparr>en_certificate := stored_certificate c\<rparr>"
    by simp
  show ?thesis
    using trust ver exp len realm
    by (cases expected)
      (auto simp: enrollment_decode_def Let_def start body_def codec_simps join_version_def ep_bytes_length endpoint_def
        ep_from_bytes_bytes parse tr same enc MAX_CERT_def c_def [symmetric] final [symmetric] not_le)
qed

end

context external
begin

lemma frame_written:
  assumes "length md \<le> MAX_METADATA" and "kind \<in> {HELLO, READY, 11}"
  obtains f where "write_frame pipe [] kind md [] = Inr f"
    "read_header True f 0 = Inr (Some \<lparr>h_kind = kind, h_metadata = length md, h_payload = 0\<rparr>, md)"
proof -
  obtain f where f: "write_frame pipe [] kind md [] = Inr f"
    using assms(1) by (auto simp: write_frame_pipe header_encode_Inr MAX_METADATA_def)
  moreover have "1 \<le> kind" "kind \<le> 12" "kind \<noteq> DATA"
    using assms(2) by (auto simp: HELLO_def READY_def DATA_def)
  ultimately show ?thesis
    using read_written_frame [OF f, of 0 "[]"] that by auto
qed

lemma serve_answers:
  assumes "length cid = 16" and "length secret = 32"
    and "write_frame pipe [] HELLO (join_request (codec L) cid secret) [] = Inr request"
  shows "serve L owner request = (case join_reply L (owner cid secret) of (kind, b) \<Rightarrow> write_frame pipe [] kind b [])"
proof -
  define md where "md = join_request (codec L) cid secret"
  have size: "length md \<le> 84"
    using join_request_size assms by (simp add: md_def)
  then obtain f where "write_frame pipe [] HELLO md [] = Inr f"
      and r: "read_header True f 0 = Inr (Some \<lparr>h_kind = HELLO, h_metadata = length md, h_payload = 0\<rparr>, md)"
    using frame_written [of md HELLO] by (auto simp: MAX_METADATA_def)
  with assms(3) have "request = f"
    by (simp add: md_def)
  with r size parse_join_request_enc [OF assms(1,2)] show ?thesis
    by (simp add: serve_def serve_request_def read_exact_def md_def)
qed

lemma redeem_exchange:
  assumes len: "length (jc_secret code) = 32"
    and host: "host = (\<lambda>request. case serve L owner request of Inr reply \<Rightarrow> reply | Inl _ \<Rightarrow> [])"
    and reply: "join_reply L (owner (join_code_id L code) (jc_secret code)) = (kind, b)"
    and b: "length b \<le> MAX_METADATA" "kind \<in> {HELLO, READY, 11}"
  shows "redeem L code (host_id code) self host expected now = parse_join_reply L kind b self expected now"
proof -
  have cid: "length (join_code_id L code) = 16"
    by (simp add: join_code_id_def digest_def sha256_length)
  define md where "md = join_request (codec L) (join_code_id L code) (jc_secret code)"
  have "length md \<le> MAX_METADATA"
    using join_request_size [OF cid len] by (simp add: md_def MAX_METADATA_def)
  then obtain f where f: "write_frame pipe [] HELLO md [] = Inr f"
    using frame_written [of md HELLO] by auto
  obtain g where g: "write_frame pipe [] kind b [] = Inr g"
      "read_header True g 0 = Inr (Some \<lparr>h_kind = kind, h_metadata = length b, h_payload = 0\<rparr>, b)"
    using frame_written [OF b] by auto
  have "host f = g"
    using serve_answers [OF cid len f [unfolded md_def], of owner] reply g(1) by (simp add: host)
  with f g(2) show ?thesis
    by (simp add: redeem_def md_def read_exact_def)
qed

end

section \<open>Properties\<close>

text \<open>C36. Through any sequence of issuing, revoking, enrolling and pruning, with a storage that may fail
  at any time, every certificate a host remembers was signed by its authority for the
  endpoint it is recorded under, and no code is redeemed by more distinct endpoints than it allows.\<close>

theorem host_invariant:
  fixes L :: "('e::linorder) lib"
  assumes "external L" and "(host_step L save)\<^sup>*\<^sup>* (host_new a storage, w) (h, w')"
    and "length (a_key a) = 32" and "length (a_realm a) = 16"
  shows "ho_authority h = a
    \<and> (\<forall>k g. bm_get k (ho_codes h) = Some g \<longrightarrow>
         length (g_redeemed g) \<le> jo_max_uses (g_options g) \<and> jo_max_uses (g_options g) \<le> 256
         \<and> (\<forall>e c. bm_get e (g_redeemed g) = Some c \<longrightarrow> issued_by L a e c))
    \<and> (\<forall>k mb. bm_get k (ho_members h) = Some mb \<longrightarrow> k = certificate_id (mb_certificate mb)
         \<and> issued_by L a (endpoint_id (mb_certificate mb)) (mb_certificate mb))"
  using ordered_external.host_reach_wf [OF ordered_external.intro [OF assms(1)] assms(2,3,4)]
  by (fastforce simp: wf_host_def wf_grant_def join_options_validate_def result_simps dest!: bm_get_in_set)

text \<open>The state of a host survives storage: what \<open>encode\<close> writes for a well-formed host, if it is not
  over the size limit, \<open>decode\<close> reads back at any time as the same host, without memory charges and with
  lifetimes in whole seconds.\<close>

theorem host_state_roundtrip:
  fixes L :: "('e::linorder) lib"
  assumes "external L" and "wf_host L h" and "length (host_encode L h) \<le> MAX_BYTES"
  shows "host_decode L (host_encode L h) now = Inr (stored_host h)"
  by (rule ordered_external.host_decode_encode [OF ordered_external.intro [OF assms(1)] assms(2,3)])

definition sample_grant :: "256 word grant" where
  "sample_grant =
     \<lparr>g_hash = digest sample_lib (replicate 32 9), g_expires = 100,
      g_options = \<lparr>jo_permissions = [sample_permission], jo_limits = limits_default, jo_lifetime = from_secs 50,
                   jo_certificate_lifetime = from_secs 40, jo_max_uses = 2\<rparr>,
      g_redeemed = [], g_memory = None\<rparr>"

definition sample_host :: "bool \<Rightarrow> 256 word host" where
  "sample_host storage =
     \<lparr>ho_authority = sample_authority, ho_codes = [(replicate 16 8, sample_grant)], ho_members = [],
      ho_storage = storage\<rparr>"

lemma sample_host_wf: "wf_host sample_lib (sample_host storage)"
  by (simp add: wf_host_def sample_host_def sample_authority_def wf_grant_def sample_grant_def digest_def
      sample.sha256_length join_options_validate_def MAX_PERMISSIONS_def as_secs_def from_secs_def MAX_JOIN_LIFETIME_def
      bm_ok_def)

lemma sample_host_size: "length (host_encode sample_lib (host_new sample_authority storage)) \<le> MAX_BYTES"
  by (simp add: host_encode_eq host_body_def Let_def host_new_def sample_authority_def sample_lib_def rfc8949_def head_def
      MAX_BYTES_def bm_vals_def)

theorem host_state_roundtrip_witness:
  "host_decode sample_lib (host_encode sample_lib (host_new sample_authority False)) 7
     = Inr (host_new sample_authority True)"
  using host_state_roundtrip [OF sample.external_axioms _ sample_host_size, of False 7]
    sample.host_new_wf [of sample_authority False]
  by (simp add: sample_authority_def) (simp add: stored_host_def host_new_def bm_map_def)

text \<open>A refused operation changes nothing: when issuing or revoking a code fails, for whatever reason
  (a failed write included), the host is as it was; when enrolling fails, it is as it was without the
  members whose certificates have expired.\<close>

theorem admission_atomic:
  fixes L :: "('e::linorder) lib"
  assumes "external L" and "wf_host L h"
  shows "(admission_issue L save opts addr now mx secret cid (Host h) m w = (Inl e, adm', m', w')
       \<and> mx \<le> 256 \<and> (\<forall>p \<in> set (jo_permissions opts). wf_topic (p_topic p))
       \<and> \<not> bm_has (join_code_id L \<lparr>jc_address = compact_address addr, jc_secret = secret\<rparr>) (ho_codes h)
       \<longrightarrow> adm' = Host h)
    \<and> (revoke_code L save cid (Host h) w = (Inl e, adm', w') \<longrightarrow> adm' = Host h)
    \<and> (enroll L save peer cid secret now host_expires trust mx fresh (Host h) m w = (Inl e, adm', m', w')
       \<and> mx \<le> 256 \<and> length fresh = 16 \<and> \<not> bm_has fresh (ho_members h) \<longrightarrow> adm' = Host (live_members now h))"
proof (intro conjI impI, goal_cases)
  case 1
  then show ?case
    using ordered_external.admission_issue_cases [OF ordered_external.intro [OF assms(1)], of save opts addr now mx secret cid h m w
        "Inl e" adm' m' w'] assms(2) by auto
next
  case 2
  then show ?case
    using revoke_code_cases [of L save cid h w "Inl e" adm' w'] assms(2) by auto
next
  case 3
  then show ?case
    using ordered_external.enroll_cases [OF ordered_external.intro [OF assms(1)], of save peer cid secret now host_expires trust
        mx fresh h m w "Inl e" adm' m' w' "adm' = Host (live_members now h)"] assms(2) by auto
qed

theorem admission_atomic_witness:
  "revoke_code sample_lib (\<lambda>b w. (Inl (Io ''disk full''), w)) (replicate 16 8) (Host (sample_host True)) ()
     = (Inl (Io ''disk full''), Host (sample_host True), ())"
proof -
  have small: "length (host_encode sample_lib ((sample_host True)\<lparr>ho_codes := []\<rparr>)) \<le> MAX_BYTES"
    using sample_host_size [of True] by (simp add: sample_host_def host_new_def)
  obtain adm where "revoke_code sample_lib (\<lambda>b w. (Inl (Io ''disk full''), w)) (replicate 16 8) (Host (sample_host True)) ()
      = (Inl (Io ''disk full''), adm, ())"
    using small by (auto simp: revoke_code_def Let_def persist_def sample_host_def bm_del_def split: if_splits)
  moreover from this have "adm = Host (sample_host True)"
    by (rule admission_atomic [OF sample.external_axioms sample_host_wf, THEN conjunct2, THEN conjunct1, THEN mp])
  ultimately show ?thesis
    by simp
qed

text \<open>What a host acknowledged survives a restart: after a code has been issued or revoked, or a new
  endpoint has been enrolled, on a host whose storage keeps the contract of \<open>HostStorage\<close>, starting the host again from what is left
  of that storage gives the state the host had in memory.\<close>

theorem admission_durable:
  fixes L :: "('e::linorder) lib"
  assumes "external L" and "wf_host L h" and "ho_storage h"
    and storage: "host_storage ready save load after" and "ready w" and "after w' w2"
  shows "(admission_issue L save opts addr now mx secret cid (Host h) m w = (Inr code, Host h', m', w')
       \<and> mx \<le> 256 \<and> (\<forall>p \<in> set (jo_permissions opts). wf_topic (p_topic p))
       \<and> \<not> bm_has (join_code_id L \<lparr>jc_address = compact_address addr, jc_secret = secret\<rparr>) (ho_codes h)
       \<longrightarrow> bm_has (join_code_id L code) (ho_codes h')
         \<and> with_storage L load save a later w2 = (Inr (Host (stored_host h')), w2))
    \<and> (revoke_code L save cid (Host h) w = (Inr (), Host h', w')
       \<longrightarrow> \<not> bm_has cid (ho_codes h') \<and> ho_members h' = ho_members h
         \<and> with_storage L load save a later w2 = (Inr (Host (stored_host h')), w2))
    \<and> (enroll L save peer cid secret now host_expires trust mx fresh (Host h) m w = (Inr en, Host h', m', w')
       \<and> mx \<le> 256 \<and> length fresh = 16 \<and> \<not> bm_has fresh (ho_members h) \<and> certificate_id (en_certificate en) = fresh
       \<and> (\<forall>g e c. bm_get cid (ho_codes h) = Some g \<and> bm_get e (g_redeemed g) = Some c \<longrightarrow> certificate_id c \<noteq> fresh)
       \<longrightarrow> admission_check (Host h') peer (en_certificate en) = Inr ()
         \<and> with_storage L load save a later w2 = (Inr (Host (stored_host h')), w2))"
proof -
  have restart: "with_storage L load save a later w2 = (Inr (Host (stored_host h')), w2)"
    if "persist L save h' w = (Inr (), w')" "ho_storage h'" "wf_host L h'"
    using host_storage.restarted [OF storage assms(1) assms(5) that assms(6)] .
  show ?thesis
  proof (intro conjI impI, goal_cases)
    case 1
    then show ?case
      using ordered_external.admission_issue_cases [OF ordered_external.intro [OF assms(1)], of save opts addr now mx secret cid h m w
          "Inr code" "Host h'" m' w'] assms(2) by (auto simp: bmap_simps)
  next
    case 2
    then show ?case
      using ordered_external.admission_issue_cases [OF ordered_external.intro [OF assms(1)], of save opts addr now mx secret cid h m w
          "Inr code" "Host h'" m' w'] assms(2,3)
        restart by auto
  next
    case 3
    then show ?case
      using revoke_code_cases [of L save cid h w "Inr ()" "Host h'" w'] assms(2) by (auto simp: bmap_simps)
  next
    case 4
    then show ?case
      using revoke_code_cases [of L save cid h w "Inr ()" "Host h'" w'] assms(2) by auto
  next
    case 5
    then show ?case
      using revoke_code_cases [of L save cid h w "Inr ()" "Host h'" w'] assms(2,3) wf_del_code [OF assms(2), of cid]
        restart by auto
  next
    case 6
    then have op: "enroll L save peer cid secret now host_expires trust mx fresh (Host h) m w = (Inr en, Host h', m', w')"
      and c: "mx \<le> 256" "length fresh = 16" "\<not> bm_has fresh (ho_members h)"
      by auto
    from ordered_external.intro [OF assms(1)] op assms(2) c show ?case
      by (rule ordered_external.enroll_cases)
        (use 6 in \<open>auto simp: admission_check_def admit_member_def bmap_simps issued_by_def grant_valid_def\<close>)
  next
    case 7
    then have op: "enroll L save peer cid secret now host_expires trust mx fresh (Host h) m w = (Inr en, Host h', m', w')"
      and c: "mx \<le> 256" "length fresh = 16" "\<not> bm_has fresh (ho_members h)"
      by auto
    from ordered_external.intro [OF assms(1)] op assms(2) c show ?case
      by (rule ordered_external.enroll_cases) (use 7 restart assms(3) in \<open>auto simp: grant_valid_def\<close>)
  qed
qed

text \<open>A storage in memory, for witnesses.\<close>

interpretation memory_storage: host_storage "\<lambda>_. True" "\<lambda>b w. (Inr (), Some b)" "\<lambda>w. (Inr w, w)" "(=)"
  by unfold_locales auto

theorem admission_durable_witness:
  "\<exists>h' w'. revoke_code sample_lib (\<lambda>b w. (Inr (), Some b)) (replicate 16 8) (Host (sample_host True)) None
      = (Inr (), Host h', w')
    \<and> with_storage sample_lib (\<lambda>w. (Inr w, w)) (\<lambda>b w. (Inr (), Some b)) sample_authority 3 w'
      = (Inr (Host (stored_host h')), w')"
proof -
  have small: "length (host_encode sample_lib ((sample_host True)\<lparr>ho_codes := []\<rparr>)) \<le> MAX_BYTES"
    using sample_host_size [of True] by (simp add: sample_host_def host_new_def)
  obtain h' w' where op: "revoke_code sample_lib (\<lambda>b w. (Inr (), Some b)) (replicate 16 8) (Host (sample_host True)) None
      = (Inr (), Host h', w')"
    using small by (auto simp: revoke_code_def Let_def persist_def sample_host_def bm_del_def split: if_splits)
  have "ho_storage (sample_host True)"
    by (simp add: sample_host_def)
  from admission_durable [OF sample.external_axioms sample_host_wf this memory_storage.host_storage_axioms TrueI refl,
      THEN conjunct2, THEN conjunct1, THEN mp, OF op] op
  show ?thesis
    by blast
qed

text \<open>C37. Only the bearer of a valid code is enrolled, and only in its own name: a successful enrollment means that
  the host has a code with that identifier which has not expired and whose secret hashes to
  the stored hash, and the certificate is signed by the host's authority for the authenticated
  peer; a new one does not outlive the host's own certificate.\<close>

theorem enroll_sound:
  fixes L :: "('e::linorder) lib"
  assumes "external L" and "wf_host L h"
    and "enroll L save peer cid secret now host_expires trust mx fresh (Host h) m w = (Inr en, adm', m', w')"
    and "mx \<le> 256" and "length fresh = 16" and "\<not> bm_has fresh (ho_members h)"
  shows "\<exists>g. bm_get cid (ho_codes h) = Some g \<and> now < g_expires g \<and> g_hash g = digest L secret
    \<and> en_expires en = g_expires g \<and> en_trust en = authority_trust L (ho_authority h)
    \<and> issued_by L (ho_authority h) peer (en_certificate en)
    \<and> (bm_get peer (g_redeemed g) = Some (en_certificate en) \<or> expires_at (en_certificate en) \<le> host_expires)"
  using ordered_external.intro [OF assms(1)] assms(3,2,4,5,6)
proof (rule ordered_external.enroll_cases)
  fix g c
  assume "grant_valid L h cid secret now g" and red: "bm_get peer (g_redeemed g) = Some c"
    and "Inr en = (Inr \<lparr>en_trust = authority_trust L (ho_authority h), en_expires = g_expires g, en_certificate = c\<rparr>
      :: 'e enrollment result)"
  moreover have "issued_by L (ho_authority h) peer c"
    using assms(2) calculation bm_get_in_set [OF red] by (fastforce simp: wf_host_def wf_grant_def grant_valid_def dest!: bm_get_in_set)
  ultimately show ?thesis
    by (auto simp: grant_valid_def)
qed (auto simp: grant_valid_def)

definition sample_meter :: meter where
  "sample_meter = \<lparr>meter_budget = 0, meter_limit = 1000000, meter_live = [], meter_next = 0\<rparr>"

lemma check_claims: "c_claims c' = c_claims c \<Longrightarrow> check t c' peer now = check t c peer now"
  by (simp add: check_def certificate_id_def)

text \<open>Enrolling with the options of the sample grant, at a host that has no members yet; its state is saved if it has a storage.\<close>

lemma sample_enrolls:
  fixes h :: "256 word host" and save :: "bytes \<Rightarrow> 'w \<Rightarrow> unit result \<times> 'w"
  assumes host: "ho_authority h = sample_authority" "ho_members h = []"
    and code: "bm_get k (ho_codes h) = Some g" "g_hash g = digest sample_lib (replicate 32 9)" "g_expires g > 10"
      "g_options g = g_options sample_grant" "g_redeemed g = []"
    and room: "meter_used (with_host h sample_meter) \<le> 2048"
  obtains c memory m' where
    "\<And>w w'. persist sample_lib save (admit_member k 5 c memory h) w = (Inr (), w') \<Longrightarrow>
       enroll sample_lib save 5 k (replicate 32 9) 10 1000 (authority_trust sample_lib sample_authority) 4 (replicate 16 3) (Host h) sample_meter w
       = (Inr \<lparr>en_trust = authority_trust sample_lib sample_authority, en_expires = g_expires g, en_certificate = c\<rparr>,
          Host (admit_member k 5 c memory h), m', w')"
    "expires_at c = 50" "check (authority_trust sample_lib sample_authority) c 5 11 = Inr ()" "certificate_id c = replicate 16 3"
    "length (c_bytes c) \<le> MAX_CERT"
proof -
  have h: "live_members 10 h = h"
    using host(2) by (simp add: live_members_def bm_retain_def)
  have l: "enroll_lookup sample_lib 5 k (replicate 32 9) 10 (authority_trust sample_lib sample_authority) 4 h = Inr (Inr g)"
    using code host(2) by (simp add: enroll_lookup_def bm_get_def sample_grant_def)
  obtain memory m1 where m1: "admit (with_host h sample_meter) 1024 = Inr (memory, m1)" "meter_limit m1 = 1000000" "meter_used m1 \<le> 4096"
    using room by (auto simp: admit_def meter_used_def charged_def meter_permit_def total_def with_host_def sample_meter_def)
  obtain c where c: "authority_issue sample_lib sample_authority (replicate 16 3) 5 [sample_permission] 10 50 limits_default = Inr c"
    using sample.authority_issue_succeeds [of sample_authority "replicate 16 3" "[sample_permission]" 10 50 5 limits_default]
    by (auto simp: sample_authority_def)
  have size: "length (c_bytes c) \<le> MAX_CERT"
    using c by (auto simp: authority_issue_def Let_def result_simps certificate_from_bytes_def dest!: parse_cose_Inr)
  then obtain c' m2 where cm: "certificate_metered c m1 = Inr (c', m2)"
    using m1(2,3) by (auto simp: certificate_metered_def admit_def MAX_CERT_def)
  have "sample.enroll_certificate h g 5 (replicate 16 3) 10 1000 sample_meter = Inr (memory, c', meter_next m2)"
    using m1(1) c cm code(4) host(1) by (simp add: sample.enroll_certificate_def sample_grant_def as_secs_def from_secs_def min_def)
  then have op: "enroll sample_lib save 5 k (replicate 32 9) 10 1000 (authority_trust sample_lib sample_authority) 4 (replicate 16 3) (Host h)
      sample_meter w = (Inr \<lparr>en_trust = authority_trust sample_lib sample_authority, en_expires = g_expires g, en_certificate = c'\<rparr>,
        Host (admit_member k 5 c' memory h), sample_meter\<lparr>meter_next := meter_next m2\<rparr>, w')"
    if "persist sample_lib save (admit_member k 5 c' memory h) w = (Inr (), w')" for w w'
    using that l host by (simp add: sample.enroll_eq h Let_def)
  have claims: "c_claims c' = c_claims c"
    using certificate_metered_wf [OF cm] by simp
  have "expires_at c = 50" "certificate_id c = replicate 16 3"
    using sample.authority_issue_Inr [OF c] sample_permission_wf
    by (simp_all add: sample_authority_def expires_at_def certificate_id_def wf_permission_def)
  moreover have "trust_verify sample_lib (authority_trust sample_lib sample_authority) c 5 11 = Inr ()"
    using sample_permission_wf
    by (intro sample.authority_issue_verifies [OF c]) (auto simp: sample_authority_def wf_permission_def)
  ultimately show ?thesis
    using check_claims [OF claims, of "authority_trust sample_lib sample_authority" 5 11] claims size certificate_metered_wf [OF cm]
    by (intro that [OF op]) (auto simp: expires_at_def certificate_id_def trust_verify_def result_simps)
qed

lemma sample_host_fields: "ho_authority (sample_host b) = sample_authority" "ho_members (sample_host b) = []"
  by (simp_all add: sample_host_def)

lemma sample_host_code:
  "bm_get (replicate 16 8) (ho_codes (sample_host b)) = Some sample_grant" "g_hash sample_grant = digest sample_lib (replicate 32 9)"
  "g_expires sample_grant > 10" "g_options sample_grant = g_options sample_grant" "g_redeemed sample_grant = []"
  "meter_used (with_host (sample_host b) sample_meter) \<le> 2048"
  by (simp_all add: sample_host_def bm_get_def sample_grant_def with_host_def host_permits_def grant_permits_def option_list_def bm_vals_def
      sample_meter_def meter_used_def charged_def)

lemma sample_enroll:
  obtains en h' m' w' where
    "enroll sample_lib (\<lambda>b w. (Inr (), b)) 5 (replicate 16 8) (replicate 32 9) 10 1000 (authority_trust sample_lib sample_authority)
       4 (replicate 16 3) (Host (sample_host False)) sample_meter [] = (Inr en, Host h', m', w')"
    "en_expires en = 100" "expires_at (en_certificate en) = 50"
    "check (authority_trust sample_lib sample_authority) (en_certificate en) 5 11 = Inr ()"
proof -
  obtain c memory m' where enroll: "\<And>w w'. persist sample_lib (\<lambda>b w. (Inr (), b)) (admit_member (replicate 16 8) 5 c memory (sample_host False)) w
        = (Inr (), w') \<Longrightarrow>
      enroll sample_lib (\<lambda>b w. (Inr (), b)) 5 (replicate 16 8) (replicate 32 9) 10 1000
        (authority_trust sample_lib sample_authority) 4 (replicate 16 3) (Host (sample_host False)) sample_meter w
      = (Inr \<lparr>en_trust = authority_trust sample_lib sample_authority, en_expires = g_expires sample_grant, en_certificate = c\<rparr>,
          Host (admit_member (replicate 16 8) 5 c memory (sample_host False)), m', w')"
    and c: "expires_at c = 50" "check (authority_trust sample_lib sample_authority) c 5 11 = Inr ()" "certificate_id c = replicate 16 3"
      "length (c_bytes c) \<le> MAX_CERT"
    using sample_enrolls [OF sample_host_fields [of False] sample_host_code(1) [of False] sample_host_code(2-5) sample_host_code(6) [of False],
      of "\<lambda>b w. (Inr (), b)"] by metis
  have "persist sample_lib (\<lambda>b w. (Inr (), b)) (admit_member (replicate 16 8) 5 c memory (sample_host False)) [] = (Inr (), [])"
    by (simp add: persist_def sample_host_def)
  from that [OF enroll [OF this]] c show ?thesis
    by (simp add: sample_grant_def)
qed

text \<open>Issuing a code at a new host.\<close>

lemma sample_issue:
  obtains m' memory where
    "admission_issue sample_lib save (g_options sample_grant) (jc_address sample_join_code) 10 4 (replicate 32 9) (replicate 16 2)
       (Host (host_new sample_authority False)) sample_meter w
     = (Inr \<lparr>jc_address = compact_address (jc_address sample_join_code), jc_secret = replicate 32 9\<rparr>,
        Host ((host_new sample_authority False)\<lparr>ho_codes :=
          [(join_code_id sample_lib \<lparr>jc_address = compact_address (jc_address sample_join_code), jc_secret = replicate 32 9\<rparr>,
            sample_grant\<lparr>g_expires := 60, g_memory := Some memory\<rparr>)]\<rparr>), m', w)"
    "permit_n memory \<le> 2048"
proof -
  let ?a = "\<lparr>ad_id = 7 :: 256 word, ad_ips = [], ad_relays = [''https://r'']\<rparr>"
  have a: "compact_address (jc_address sample_join_code) = ?a"
    by (simp add: sample_join_code_def compact_address_def address_new_def with_relay_url_def insort_insert_key_def)
  then have "compact_address ?a = ?a"
    by (simp add: compact_address_def address_new_def with_relay_url_def insort_insert_key_def)
  then obtain s where s: "join_code_encode sample_lib \<lparr>jc_address = ?a, jc_secret = replicate 32 9\<rparr> = Inr s"
    by (auto simp: join_code_encode_def Let_def)
  obtain c where c: "authority_issue sample_lib sample_authority (replicate 16 2) 7 [sample_permission] 10 50 limits_default = Inr c"
    using sample.authority_issue_succeeds [of sample_authority "replicate 16 2" "[sample_permission]" 10 50 7 limits_default]
    by (auto simp: sample_authority_def)
  have cost: "grant_cost [sample_permission] \<le> 2048"
    by (simp add: grant_cost_def sample_permission_def)
  then obtain memory m1 where m1: "admit (with_host (host_new sample_authority False :: 256 word host) sample_meter) (grant_cost [sample_permission])
      = Inr (memory, m1)" "permit_n memory = grant_cost [sample_permission]"
    by (auto simp: admit_def meter_used_def charged_def meter_permit_def with_host_def sample_meter_def host_permits_def host_new_def bm_vals_def)
  have "join_options_validate (g_options sample_grant) = Inr ()"
    by (simp add: sample_grant_def join_options_validate_def MAX_PERMISSIONS_def as_secs_def from_secs_def MAX_JOIN_LIFETIME_def)
  moreover have "ad_id (jc_address sample_join_code) = 7"
    by (simp add: sample_join_code_def)
  ultimately show ?thesis
    using s c m1 cost a
    by (intro that [of memory "sample_meter\<lparr>meter_next := meter_next m1\<rparr>"])
      (simp_all add: admission_issue_def Let_def persist_def host_new_def sample_grant_def as_secs_def from_secs_def)
qed

theorem host_invariant_witness:
  "\<exists>k h g mb. (host_step sample_lib (\<lambda>_ w. (Inr (), w)))\<^sup>*\<^sup>* (host_new sample_authority False, ()) (h, ())
     \<and> bm_get k (ho_codes h) = Some g \<and> bm_has (5 :: 256 word) (g_redeemed g) \<and> length (g_redeemed g) \<le> jo_max_uses (g_options g)
     \<and> bm_get (replicate 16 3) (ho_members h) = Some mb
     \<and> issued_by sample_lib sample_authority (endpoint_id (mb_certificate mb)) (mb_certificate mb)"
proof -
  let ?save = "\<lambda>_ w :: unit. (Inr (), w)"
  define k where "k = join_code_id sample_lib \<lparr>jc_address = compact_address (jc_address sample_join_code), jc_secret = replicate 32 9\<rparr>"
  obtain m1 memory where issue: "admission_issue sample_lib ?save (g_options sample_grant) (jc_address sample_join_code) 10 4 (replicate 32 9)
      (replicate 16 2) (Host (host_new sample_authority False)) sample_meter ()
     = (Inr \<lparr>jc_address = compact_address (jc_address sample_join_code), jc_secret = replicate 32 9\<rparr>,
        Host ((host_new sample_authority False)\<lparr>ho_codes := [(k, sample_grant\<lparr>g_expires := 60, g_memory := Some memory\<rparr>)]\<rparr>), m1, ())"
    and memory: "permit_n memory \<le> 2048"
    unfolding k_def by (rule sample_issue)
  define h1 where "h1 = (host_new sample_authority False)\<lparr>ho_codes := [(k, sample_grant\<lparr>g_expires := 60, g_memory := Some memory\<rparr>)]\<rparr>"
  have 1: "host_step sample_lib ?save (host_new sample_authority False, ()) (h1, ())"
    unfolding h1_def using sample_permission_wf
    by (intro host_step.issue [OF issue]) (auto simp: sample_grant_def wf_permission_def host_new_def bm_has_def bm_get_def)
  have h1: "ho_authority h1 = sample_authority" "ho_members h1 = []"
    "bm_get k (ho_codes h1) = Some (sample_grant\<lparr>g_expires := 60, g_memory := Some memory\<rparr>)"
    "g_hash (sample_grant\<lparr>g_expires := 60, g_memory := Some memory\<rparr>) = digest sample_lib (replicate 32 9)"
    "g_expires (sample_grant\<lparr>g_expires := 60, g_memory := Some memory\<rparr>) > 10"
    "g_options (sample_grant\<lparr>g_expires := 60, g_memory := Some memory\<rparr>) = g_options sample_grant"
    "g_redeemed (sample_grant\<lparr>g_expires := 60, g_memory := Some memory\<rparr>) = []"
    by (simp_all add: h1_def host_new_def bm_get_def sample_grant_def)
  have "meter_used (with_host h1 sample_meter) \<le> 2048"
    using memory by (simp add: with_host_def host_permits_def h1_def host_new_def sample_grant_def grant_permits_def option_list_def bm_vals_def
        sample_meter_def meter_used_def charged_def total_def)
  then obtain c memory' m2 where enroll: "\<And>w w'. persist sample_lib ?save (admit_member k 5 c memory' h1) w = (Inr (), w') \<Longrightarrow>
      enroll sample_lib ?save 5 k (replicate 32 9) 10 1000 (authority_trust sample_lib sample_authority) 4 (replicate 16 3) (Host h1) sample_meter w
       = (Inr \<lparr>en_trust = authority_trust sample_lib sample_authority, en_expires = g_expires (sample_grant\<lparr>g_expires := 60, g_memory := Some memory\<rparr>),
            en_certificate = c\<rparr>, Host (admit_member k 5 c memory' h1), m2, w')"
    and c: "certificate_id c = replicate 16 3"
    using sample_enrolls [OF h1, of ?save] by metis
  have "persist sample_lib ?save (admit_member k 5 c memory' h1) () = (Inr (), ())"
    by (simp add: persist_def h1_def host_new_def)
  note enroll = enroll [OF this]
  have 2: "host_step sample_lib ?save (h1, ()) (admit_member k 5 c memory' h1, ())"
    by (intro host_step.enroll [OF enroll]) (simp_all add: h1_def host_new_def bm_has_def bm_get_def)
  have run: "(host_step sample_lib ?save)\<^sup>*\<^sup>* (host_new sample_authority False, ()) (admit_member k 5 c memory' h1, ())"
    using 1 2 by (meson rtranclp.rtrancl_into_rtrancl rtranclp.rtrancl_refl)
  have get: "bm_get k (ho_codes (admit_member k 5 c memory' h1))
      = Some (sample_grant\<lparr>g_expires := 60, g_memory := Some memory, g_redeemed := [(5, c)]\<rparr>)"
    "bm_get (replicate 16 3) (ho_members (admit_member k 5 c memory' h1)) = Some \<lparr>mb_certificate = c, mb_memory = Some memory'\<rparr>"
    using c by (simp_all add: admit_member_def h1_def host_new_def bmap_simps bm_get_def sample_grant_def bm_adjust_def bm_map_def)
  from host_invariant [OF sample.external_axioms run] get show ?thesis
    by (intro exI [of _ k] exI [of _ "admit_member k 5 c memory' h1"] exI conjI run get)
      (auto simp: sample_authority_def bm_has_def bm_get_def sample_grant_def)
qed

theorem enroll_sound_witness:
  "\<exists>en :: 256 word enrollment. issued_by sample_lib sample_authority 5 (en_certificate en) \<and> en_expires en = 100"
proof -
  obtain en h' m' w' where e:
    "enroll sample_lib (\<lambda>b w. (Inr (), b)) 5 (replicate 16 8) (replicate 32 9) 10 1000 (authority_trust sample_lib sample_authority)
       4 (replicate 16 3) (Host (sample_host False)) sample_meter [] = (Inr en, Host h', m', w')"
    by (rule sample_enroll)
  from enroll_sound [OF sample.external_axioms sample_host_wf e] show ?thesis
    by (intro exI [of _ en]) (auto simp: sample_host_def bm_get_def sample_grant_def)
qed

text \<open>Enrolling again is safe: after a successful enrollment the same endpoint presenting the same
  code, while the code and its certificate are valid and trusted, gets the same certificate again and
  nothing is issued, charged or written.\<close>

theorem enroll_retry:
  fixes L :: "('e::linorder) lib"
  assumes "external L" and "wf_host L h"
    and "enroll L save peer cid secret now host_expires trust mx fresh (Host h) m w = (Inr en, Host h', m', w')"
    and "mx \<le> 256" and "length fresh = 16" and "\<not> bm_has fresh (ho_members h)"
    and "later < en_expires en" and "later < expires_at (en_certificate en)"
    and "check trust' (en_certificate en) peer later = Inr ()"
  shows "enroll L save peer cid secret later host_expires' trust' mx fresh' (Host h') m2 w2
    = (Inr en, Host (live_members later h'), m2, w2)"
proof -
  have "\<exists>g. bm_get cid (ho_codes h') = Some g \<and> g_hash g = digest L secret \<and> g_expires g = en_expires en
      \<and> bm_get peer (g_redeemed g) = Some (en_certificate en)
      \<and> en_trust en = authority_trust L (ho_authority h')"
    using ordered_external.intro [OF assms(1)] assms(3,2,4,5,6)
    by (rule ordered_external.enroll_cases)
      (auto simp: grant_valid_def admit_member_def bmap_simps)
  then obtain g where g: "bm_get cid (ho_codes h') = Some g" "g_hash g = digest L secret" "g_expires g = en_expires en"
      "bm_get peer (g_redeemed g) = Some (en_certificate en)" "en_trust en = authority_trust L (ho_authority h')"
    by auto
  have "enroll_lookup L peer cid secret later trust' mx (live_members later h') = Inr (Inl en)"
    using g assms(7,8,9) by (simp add: enroll_lookup_def not_le [symmetric] flip: g(3,5))
  then show ?thesis
    by (simp add: enroll_def live_members_def)
qed

theorem enroll_retry_witness:
  "\<exists>en adm h. enroll sample_lib (\<lambda>b w. (Inr (), b)) (5 :: 256 word) (replicate 16 8) (replicate 32 9) 11 1000
       (authority_trust sample_lib sample_authority) 4 (replicate 16 4) (Host h) sample_meter [7]
     = (Inr en, adm, sample_meter, [7])"
proof -
  obtain en h' m' w' where e:
    "enroll sample_lib (\<lambda>b w. (Inr (), b)) 5 (replicate 16 8) (replicate 32 9) 10 1000 (authority_trust sample_lib sample_authority)
       4 (replicate 16 3) (Host (sample_host False)) sample_meter [] = (Inr en, Host h', m', w')"
    "en_expires en = 100" "expires_at (en_certificate en) = 50"
    "check (authority_trust sample_lib sample_authority) (en_certificate en) 5 11 = Inr ()"
    by (rule sample_enroll)
  from enroll_retry [OF sample.external_axioms sample_host_wf e(1), where later = 11, OF _ _ _ _ _ e(4)] e(2,3)
  have "enroll sample_lib (\<lambda>b w. (Inr (), b)) 5 (replicate 16 8) (replicate 32 9) 11 1000
      (authority_trust sample_lib sample_authority) 4 (replicate 16 4) (Host h') sample_meter [7]
      = (Inr en, Host (live_members 11 h'), sample_meter, [7])"
    by (simp add: sample_host_def)
  then show ?thesis
    by blast
qed

text \<open>The enrollment exchange delivers the owner's answer: redeeming a code over a connection to its host
  gives the client exactly the enrollment the host granted, when it verifies the certificate for itself, and
  otherwise the error that the protocol carries for the host's refusal.\<close>

theorem join_exchange:
  assumes "external L" and "length (jc_secret code) = 32"
    and "host = (\<lambda>request. case serve L owner request of Inr reply \<Rightarrow> reply | Inl _ \<Rightarrow> [])"
  shows "(case owner (join_code_id L code) (jc_secret code) of
      Inl e \<Rightarrow> redeem L code (host_id code) self host expected now = Inl (if e = QueueFull then QueueFull else Unauthorized)
    | Inr en \<Rightarrow>
        wf_enrollment L en \<and> now < en_expires en
        \<and> (case expected of None \<Rightarrow> True
            | Some t \<Rightarrow> t_root t = t_root (en_trust en) \<and> t_realm t = t_realm (en_trust en))
        \<and> trust_verify L (case expected of None \<Rightarrow> en_trust en | Some t \<Rightarrow> t) (en_certificate en) self now = Inr ()
        \<longrightarrow> redeem L code (host_id code) self host expected now
            = Inr (en\<lparr>en_certificate := stored_certificate (en_certificate en)\<rparr>))
    \<and> (remote \<noteq> host_id code \<longrightarrow> redeem L code remote self host expected now = Inl Unauthorized)"
proof (intro conjI)
  show "remote \<noteq> host_id code \<longrightarrow> redeem L code remote self host expected now = Inl Unauthorized"
    by (simp add: redeem_def)
  note redeem = external.redeem_exchange [OF assms(1,2,3)]
  show "case owner (join_code_id L code) (jc_secret code) of
      Inl e \<Rightarrow> redeem L code (host_id code) self host expected now = Inl (if e = QueueFull then QueueFull else Unauthorized)
    | Inr en \<Rightarrow>
        wf_enrollment L en \<and> now < en_expires en
        \<and> (case expected of None \<Rightarrow> True
            | Some t \<Rightarrow> t_root t = t_root (en_trust en) \<and> t_realm t = t_realm (en_trust en))
        \<and> trust_verify L (case expected of None \<Rightarrow> en_trust en | Some t \<Rightarrow> t) (en_certificate en) self now = Inr ()
        \<longrightarrow> redeem L code (host_id code) self host expected now
            = Inr (en\<lparr>en_certificate := stored_certificate (en_certificate en)\<rparr>)"
  proof (cases "owner (join_code_id L code) (jc_secret code)")
    case (Inl e)
    with redeem [of 11 "join_rejection (codec L) (if e = QueueFull then 2 else 1)" self expected now]
      external.join_rejection_size [OF assms(1), of "if e = QueueFull then 2 else 1"]
      external.parse_rejection [OF assms(1), of "if e = QueueFull then 2 else 1" self expected now] show ?thesis
      by (simp add: join_reply_def MAX_METADATA_def)
  next
    case (Inr en)
    with redeem [of READY "enrollment_encode L en" self expected now]
      external.enrollment_encode_size [OF assms(1), of en]
      external.enrollment_decode_encode [OF assms(1), of en now expected self] show ?thesis
      by (simp add: join_reply_def parse_join_reply_def READY_def)
  qed
qed

theorem join_exchange_witness:
  "redeem sample_lib sample_join_code (host_id sample_join_code) 5
     (\<lambda>request. case serve sample_lib (\<lambda>_ _. Inl QueueFull) request of Inr reply \<Rightarrow> reply | Inl _ \<Rightarrow> []) None 3
   = Inl QueueFull"
  using join_exchange [OF sample.external_axioms, of sample_join_code _ "\<lambda>_ _. Inl QueueFull" 5 None 3]
  by (simp add: sample_join_code_def)

end
