(* ===== verification/Settings.thy ===== *)
theory Settings
  imports Join
begin

text \<open>
  The configuration and the option types of the public interface, \<^verbatim>\<open>src/src/endpoint.rs\<close>, with
  the limits that \<open>validate\<close> enforces and the lemmas the other components need of a validated
  configuration.
\<close>

text \<open>The code tells two modes of \<^verbatim>\<open>iroh::RelayMode\<close> from the others, which it hands on.\<close>

datatype relay_mode = Relay_Disabled | Relay_Default | Relay_Other string

record config =
  relay_mode :: relay_mode
  relay_only :: bool
  bind_addr :: "socket_addr option"
  cf_max_payload :: nat
  payload_bytes :: nat
  metadata_bytes :: nat
  max_peers :: nat
  max_topics :: nat
  ingress_slots :: nat
  per_peer_messages :: nat
  per_peer_bytes :: nat
  subscription_messages :: nat
  subscription_bytes :: nat
  delivery_window :: duration
  retry_interval :: duration
  handshake_timeout :: duration

definition config_new :: config where
  "config_new =
     \<lparr>relay_mode = Relay_Default,
      relay_only = False,
      bind_addr = None,
      cf_max_payload = 1024 * 1024,
      payload_bytes = 128 * 1024 * 1024,
      metadata_bytes = 32 * 1024 * 1024,
      max_peers = 256,
      max_topics = 256,
      ingress_slots = 1024,
      per_peer_messages = 1024,
      per_peer_bytes = 16 * 1024 * 1024,
      subscription_messages = 1024,
      subscription_bytes = 16 * 1024 * 1024,
      delivery_window = from_secs 300,
      retry_interval = from_secs 30,
      handshake_timeout = from_secs 10\<rparr>"

definition config_validate :: "config \<Rightarrow> unit result" where
  "config_validate c =
     fail_if ((relay_only c \<and> relay_mode c = Relay_Disabled)
       \<or> cf_max_payload c = 0
       \<or> cf_max_payload c > 1024 * 1024
       \<or> payload_bytes c < cf_max_payload c + PAYLOAD_OVERHEAD
       \<or> metadata_bytes c < 256 * 1024
       \<or> max_peers c = 0
       \<or> max_peers c > 256
       \<or> max_topics c = 0
       \<or> max_topics c > 256
       \<or> ingress_slots c = 0
       \<or> ingress_slots c > 65536
       \<or> per_peer_messages c = 0
       \<or> per_peer_messages c > 65536
       \<or> subscription_messages c = 0
       \<or> subscription_messages c > 65536
       \<or> per_peer_bytes c < cf_max_payload c + 16396
       \<or> subscription_bytes c < cf_max_payload c + 16396
       \<or> as_secs (delivery_window c) = 0
       \<or> delivery_window c > from_secs 300
       \<or> retry_interval c = 0
       \<or> handshake_timeout c = 0)
       (Config ''invalid endpoint limits'')"

record publish_options =
  po_mode :: delivery_mode
  po_lifetime :: duration
  po_format :: string

definition publish_options_default :: publish_options where
  "publish_options_default = \<lparr>po_mode = Acknowledged, po_lifetime = from_secs 300, po_format = ''opaque''\<rparr>"

datatype recipient_outcome =
    Pending
  | Sent
  | Processed
  | Rejected error
  | Failed error
  | PermanentNack
  | Cancelled

definition terminal :: "recipient_outcome \<Rightarrow> bool" where
  "terminal r \<longleftrightarrow> r \<noteq> Pending"

lemma config_new_valid: "config_validate config_new = Inr ()"
  by (simp add: config_validate_def config_new_def PAYLOAD_OVERHEAD_def as_secs_def from_secs_def)

lemma config_validate_Inr:
  "config_validate c = Inr u \<Longrightarrow>
     0 < cf_max_payload c \<and> cf_max_payload c \<le> 1024 * 1024 \<and> 0 < max_peers c \<and> max_peers c \<le> 256
     \<and> 0 < max_topics c \<and> max_topics c \<le> 256 \<and> cf_max_payload c + 16396 \<le> per_peer_bytes c
     \<and> cf_max_payload c + 16396 \<le> subscription_bytes c
     \<and> cf_max_payload c + PAYLOAD_OVERHEAD \<le> payload_bytes c \<and> delivery_window c \<le> from_secs 300"
  by (auto simp: config_validate_def result_simps)

section \<open>A certificate to evaluate witnesses\<close>

definition sample_cert :: "256 word \<Rightarrow> 256 word certificate" where
  "sample_cert e =
     projr (authority_issue sample_lib sample_authority (replicate 16 3) e [sample_permission] 10 20
       \<lparr>max_payload = 0, max_subscriptions = 0\<rparr>)"

abbreviation sample_trust :: "256 word trust" where
  "sample_trust \<equiv> authority_trust sample_lib sample_authority"

lemma sample_cert:
  "c_claims (sample_cert e) = \<lparr>cl_realm = replicate 16 2, cl_issuer = t_root sample_trust, cl_id = replicate 16 3,
      cl_subject = e, cl_not_before = 10, cl_expires = 20, cl_permissions = [sample_permission],
      cl_limits = \<lparr>max_payload = 0, max_subscriptions = 0\<rparr>\<rparr>"
  "c_memory (sample_cert e) = None"
  "wf_certificate sample_lib (sample_cert e)"
  "verify_cose sample_lib (c_bytes (sample_cert e)) (t_root sample_trust) CERT_CONTEXT MAX_CERT
     = Inr (claims_encode sample_lib (c_claims (sample_cert e)))"
proof -
  obtain c where c: "authority_issue sample_lib sample_authority (replicate 16 3) e [sample_permission] 10 20
      \<lparr>max_payload = 0, max_subscriptions = 0\<rparr> = Inr c"
    using sample.authority_issue_succeeds [of sample_authority "replicate 16 3" "[sample_permission]" 10 20]
    by (auto simp: sample_authority_def)
  moreover from this have "sample_cert e = c"
    by (simp add: sample_cert_def)
  ultimately show
    "c_claims (sample_cert e) = \<lparr>cl_realm = replicate 16 2, cl_issuer = t_root sample_trust, cl_id = replicate 16 3,
      cl_subject = e, cl_not_before = 10, cl_expires = 20, cl_permissions = [sample_permission],
      cl_limits = \<lparr>max_payload = 0, max_subscriptions = 0\<rparr>\<rparr>"
    "c_memory (sample_cert e) = None"
    "wf_certificate sample_lib (sample_cert e)"
    "verify_cose sample_lib (c_bytes (sample_cert e)) (t_root sample_trust) CERT_CONTEXT MAX_CERT
     = Inr (claims_encode sample_lib (c_claims (sample_cert e)))"
    using sample.authority_issue_Inr [OF c] sample_permission_wf [unfolded wf_permission_def]
    by (simp_all add: sample_authority_def authority_trust_def trust_new_def)
qed

lemma sample_trust_wf: "wf_trust sample_trust"
  by (simp add: wf_trust_def authority_trust_def trust_new_def)

lemma sample_local: "check sample_trust (sample_cert e) e 15 = Inr ()"
  by (simp add: check_Inr sample_cert authority_trust_def trust_new_def certificate_id_def sample_authority_def)

lemma sample_verify: "trust_verify sample_lib sample_trust (sample_cert e) e 15 = Inr ()"
  by (simp add: trust_verify_def sample_local sample_cert)

end
