(* ===== verification/Queue.thy ===== *)
theory Queue
  imports Buffer
begin

text \<open>
  The single-producer single-consumer queue of \<^verbatim>\<open>src/src/queue.rs\<close>. The ring buffer of the
  \<^verbatim>\<open>rtrb\<close> crate and the notification cell of \<^verbatim>\<open>tokio\<close> are not part of the repository: they are
  the parameters \<open>rtrb\<close> and \<open>notify\<close>, with the locales \<open>ring_buffer\<close> and \<open>notifier\<close> for what
  the code relies on. The first part models the operations of \<open>Sender\<close> and \<open>Receiver\<close> and shows
  that the channel is a bounded first-in first-out queue. The second part runs the two ends
  concurrently, at the granularity of their atomic accesses, and shows that no value is lost,
  duplicated or reordered and that a parked receiver always has a wake-up coming when there is
  something for it to see.
\<close>

section \<open>The ring buffer library\<close>

record ('r, 'a) rtrb =
  rb_new :: "nat \<Rightarrow> 'r"
  rb_push :: "'a \<Rightarrow> 'r \<Rightarrow> 'r option"
  rb_pop :: "'r \<Rightarrow> ('a \<times> 'r) option"

locale ring_buffer =
  fixes R :: "('r, 'a) rtrb"
    and ring_ok :: "'r \<Rightarrow> bool"
    and content :: "'r \<Rightarrow> 'a list"
    and capacity :: "'r \<Rightarrow> nat"
  assumes new: "0 < n \<Longrightarrow> ring_ok (rb_new R n) \<and> content (rb_new R n) = [] \<and> capacity (rb_new R n) = n"
    and push_space: "ring_ok r \<Longrightarrow> length (content r) < capacity r \<Longrightarrow>
      \<exists>r'. rb_push R x r = Some r' \<and> ring_ok r' \<and> content r' = content r @ [x] \<and> capacity r' = capacity r"
    and push_full: "ring_ok r \<Longrightarrow> length (content r) = capacity r \<Longrightarrow> rb_push R x r = None"
    and pop_empty: "ring_ok r \<Longrightarrow> content r = [] \<Longrightarrow> rb_pop R r = None"
    and pop_first: "ring_ok r \<Longrightarrow> content r = x # xs \<Longrightarrow>
      \<exists>r'. rb_pop R r = Some (x, r') \<and> ring_ok r' \<and> content r' = xs \<and> capacity r' = capacity r"
    and content_bound: "ring_ok r \<Longrightarrow> length (content r) \<le> capacity r"

section \<open>The channel\<close>

text \<open>The two handles and the \<open>Shared\<close> block they point to, as one record; \<open>notified\<close> counts the
  calls of \<open>ready.notify_one()\<close>.\<close>

record 'r spsc =
  ring :: 'r
  sender_closed :: bool
  receiver_closed :: bool
  notified :: nat
  channel_memory :: permit

definition channel :: "('r, 'a) rtrb \<Rightarrow> nat \<Rightarrow> permit \<Rightarrow> 'r spsc" where
  "channel R cap memory =
     \<lparr>ring = rb_new R cap, sender_closed = False, receiver_closed = False, notified = 0,
      channel_memory = memory\<rparr>"

definition is_closed :: "'r spsc \<Rightarrow> bool" where
  "is_closed c = receiver_closed c"

text \<open>\<open>Err(value)\<close> gives the value back to the caller.\<close>

definition try_send :: "('r, 'a) rtrb \<Rightarrow> 'a \<Rightarrow> 'r spsc \<Rightarrow> 'a + 'r spsc" where
  "try_send R v c =
     (if is_closed c then Inl v
      else case rb_push R v (ring c) of
        None \<Rightarrow> Inl v
      | Some r \<Rightarrow> Inr (c\<lparr>ring := r, notified := Suc (notified c)\<rparr>))"

definition drop_sender :: "'r spsc \<Rightarrow> 'r spsc" where
  "drop_sender c = c\<lparr>sender_closed := True, notified := Suc (notified c)\<rparr>"

definition drop_receiver :: "'r spsc \<Rightarrow> 'r spsc" where
  "drop_receiver c = c\<lparr>receiver_closed := True\<rparr>"

text \<open>One pass of the loop of \<open>recv\<close>: it returns a value, returns \<open>None\<close>, or parks.\<close>

datatype 'a recv_result = Received "'a option" | Parked

definition recv_pass :: "('r, 'a) rtrb \<Rightarrow> 'r spsc \<Rightarrow> 'a recv_result \<times> 'r spsc" where
  "recv_pass R c =
     (case rb_pop R (ring c) of
        Some (v, r) \<Rightarrow> (Received (Some v), c\<lparr>ring := r\<rparr>)
      | None \<Rightarrow>
        if sender_closed c then
          (case rb_pop R (ring c) of
             Some (v, r) \<Rightarrow> (Received (Some v), c\<lparr>ring := r\<rparr>)
           | None \<Rightarrow> (Received None, c))
        else (Parked, c))"

context ring_buffer
begin

definition channel_ok :: "'r spsc \<Rightarrow> bool" where
  "channel_ok c \<longleftrightarrow> ring_ok (ring c)"

lemma channel_new:
  "0 < n \<Longrightarrow> channel_ok (channel R n p) \<and> content (ring (channel R n p)) = []
     \<and> capacity (ring (channel R n p)) = n"
  by (simp add: channel_ok_def channel_def new)

lemma try_send_accepts:
  assumes "channel_ok c" and "\<not> receiver_closed c" and "length (content (ring c)) < capacity (ring c)"
  shows "\<exists>c'. try_send R v c = Inr c' \<and> channel_ok c' \<and> content (ring c') = content (ring c) @ [v]
    \<and> capacity (ring c') = capacity (ring c)"
proof -
  from assms obtain r where "rb_push R v (ring c) = Some r" "ring_ok r"
      "content r = content (ring c) @ [v]" "capacity r = capacity (ring c)"
    using push_space [of "ring c" v] by (auto simp: channel_ok_def)
  with assms show ?thesis
    by (auto simp: try_send_def is_closed_def channel_ok_def)
qed

lemma try_send_refuses:
  "channel_ok c \<Longrightarrow> receiver_closed c \<or> length (content (ring c)) = capacity (ring c) \<Longrightarrow>
     try_send R v c = Inl v"
  by (auto simp: try_send_def is_closed_def channel_ok_def push_full)

lemma recv_pass_first:
  assumes "channel_ok c" and "content (ring c) = v # vs"
  shows "\<exists>c'. recv_pass R c = (Received (Some v), c') \<and> channel_ok c' \<and> content (ring c') = vs
    \<and> capacity (ring c') = capacity (ring c)"
proof -
  from assms obtain r where "rb_pop R (ring c) = Some (v, r)" "ring_ok r" "content r = vs"
      "capacity r = capacity (ring c)"
    using pop_first [of "ring c" v vs] by (auto simp: channel_ok_def)
  with assms show ?thesis
    by (auto simp: recv_pass_def channel_ok_def)
qed

lemma recv_pass_empty:
  "channel_ok c \<Longrightarrow> content (ring c) = [] \<Longrightarrow>
     recv_pass R c = (if sender_closed c then Received None else Parked, c)"
  by (simp add: recv_pass_def channel_ok_def pop_empty)

lemma bounded_queue:
  assumes "ring_ok (ring c)"
  shows "(case try_send R v c of
      Inl w \<Rightarrow> w = v \<and> (receiver_closed c \<or> length (content (ring c)) = capacity (ring c))
    | Inr c' \<Rightarrow> \<not> receiver_closed c \<and> ring_ok (ring c') \<and> content (ring c') = content (ring c) @ [v]
        \<and> length (content (ring c')) \<le> capacity (ring c))
    \<and> (case (recv_pass R c, content (ring c)) of
      ((r, c'), []) \<Rightarrow> r = (if sender_closed c then Received None else Parked) \<and> c' = c
    | ((r, c'), w # ws) \<Rightarrow> r = Received (Some w) \<and> ring_ok (ring c') \<and> content (ring c') = ws)"
proof -
  have ok: "channel_ok c"
    using assms by (simp add: channel_ok_def)
  have "length (content (ring c)) < capacity (ring c) \<or> length (content (ring c)) = capacity (ring c)"
    using content_bound [OF assms] by auto
  then have "case try_send R v c of
      Inl w \<Rightarrow> w = v \<and> (receiver_closed c \<or> length (content (ring c)) = capacity (ring c))
    | Inr c' \<Rightarrow> \<not> receiver_closed c \<and> ring_ok (ring c') \<and> content (ring c') = content (ring c) @ [v]
        \<and> length (content (ring c')) \<le> capacity (ring c)"
    using try_send_accepts [OF ok, of v] try_send_refuses [OF ok, of v]
    by (cases "receiver_closed c") (auto simp: channel_ok_def)
  moreover have "case (recv_pass R c, content (ring c)) of
      ((r, c'), []) \<Rightarrow> r = (if sender_closed c then Received None else Parked) \<and> c' = c
    | ((r, c'), w # ws) \<Rightarrow> r = Received (Some w) \<and> ring_ok (ring c') \<and> content (ring c') = ws"
    using recv_pass_first [OF ok] recv_pass_empty [OF ok]
    by (cases "content (ring c)") (auto simp: channel_ok_def split: prod.splits)
  ultimately show ?thesis ..
qed

end

section \<open>A ring buffer that meets the laws\<close>

text \<open>A fixed array of slots with a read position and a fill count.\<close>

record 'a slots =
  slots :: "'a option list"
  first :: nat
  count :: nat

definition array_ring :: "('a slots, 'a) rtrb" where
  "array_ring =
     \<lparr>rb_new = (\<lambda>n. \<lparr>slots = replicate n None, first = 0, count = 0\<rparr>),
      rb_push = (\<lambda>x r.
        if count r < length (slots r)
        then Some (r\<lparr>slots := (slots r)[(first r + count r) mod length (slots r) := Some x],
                     count := Suc (count r)\<rparr>)
        else None),
      rb_pop = (\<lambda>r.
        if count r = 0 then None
        else case slots r ! first r of
          None \<Rightarrow> None
        | Some x \<Rightarrow>
          Some (x, r\<lparr>slots := (slots r)[first r := None],
                     first := Suc (first r) mod length (slots r), count := count r - 1\<rparr>))\<rparr>"

definition slot_at :: "'a slots \<Rightarrow> nat \<Rightarrow> 'a option" where
  "slot_at r i = slots r ! ((first r + i) mod length (slots r))"

definition array_ok :: "'a slots \<Rightarrow> bool" where
  "array_ok r \<longleftrightarrow> first r < length (slots r) \<and> count r \<le> length (slots r)
     \<and> (\<forall>i < count r. slot_at r i \<noteq> None)"

definition array_content :: "'a slots \<Rightarrow> 'a list" where
  "array_content r = map (\<lambda>i. the (slot_at r i)) [0..<count r]"

lemma mod_add_inj:
  fixes f i j n :: nat
  assumes "i < n" and "j < n" and "(f + i) mod n = (f + j) mod n"
  shows "i = j"
proof -
  have "i = j" if "i \<le> j" "j < n" "(f + i) mod n = (f + j) mod n" for i j
  proof -
    from that have "n dvd (f + j) - (f + i)"
      by (metis mod_eq_dvd_iff_nat add_le_cancel_left)
    then have "n dvd j - i"
      by simp
    with that(2) show ?thesis
      using that(1) by (metis diff_is_0_eq diff_less_Suc dvd_imp_le le_antisym less_Suc_eq_le
          less_imp_diff_less linorder_not_less neq0_conv order_less_le_trans)
  qed
  with assms show ?thesis
    by (metis nle_le)
qed

lemma slot_at_push:
  assumes "array_ok r" and "count r < length (slots r)" and "i \<le> count r"
  shows "slot_at (r\<lparr>slots := (slots r)[(first r + count r) mod length (slots r) := Some x],
      count := k\<rparr>) i = (if i = count r then Some x else slot_at r i)"
proof (cases "i = count r")
  case True
  from assms(2) have "(first r + count r) mod length (slots r) < length (slots r)"
    by (intro mod_less_divisor) linarith
  with True show ?thesis
    by (simp add: slot_at_def)
next
  case False
  with assms have "(first r + i) mod length (slots r) \<noteq> (first r + count r) mod length (slots r)"
    using mod_add_inj [of i "length (slots r)" "count r" "first r"] by auto
  with False show ?thesis
    by (simp add: slot_at_def)
qed

lemma slot_at_pop:
  assumes "array_ok r" and "Suc i < count r"
  shows "slot_at (r\<lparr>slots := (slots r)[first r := None], first := Suc (first r) mod length (slots r),
      count := k\<rparr>) i = slot_at r (Suc i)"
proof -
  from assms have "Suc i < length (slots r)" and "first r < length (slots r)"
    by (auto simp: array_ok_def)
  then have "(first r + Suc i) mod length (slots r) \<noteq> first r"
    using mod_add_inj [of "Suc i" "length (slots r)" 0 "first r"] by (metis add.right_neutral
        less_nat_zero_code mod_less nat.distinct(1) not_less_eq zero_less_iff_neq_zero)
  then show ?thesis
    by (simp add: slot_at_def mod_simps)
qed

lemma array_content_nth: "array_content r = x # xs \<longleftrightarrow>
    0 < count r \<and> x = the (slot_at r 0) \<and> xs = map (\<lambda>i. the (slot_at r (Suc i))) [0..<count r - 1]"
  by (cases "count r")
    (auto simp: array_content_def upt_conv_Cons map_Suc_upt [symmetric] comp_def simp del: upt_Suc)

interpretation array: ring_buffer array_ring array_ok array_content "\<lambda>r. length (slots r)"
proof
  fix n :: nat assume "0 < n"
  then show "array_ok (rb_new array_ring n) \<and> array_content (rb_new array_ring n) = ([] :: 'a list)
      \<and> length (slots (rb_new array_ring n)) = n"
    by (simp add: array_ring_def array_ok_def array_content_def)
next
  fix r :: "'a slots" and x
  assume ok: "array_ok r" and "length (array_content r) < length (slots r)"
  then have space: "count r < length (slots r)"
    by (simp add: array_content_def)
  define r' where "r' = r\<lparr>slots := (slots r)[(first r + count r) mod length (slots r) := Some x],
      count := Suc (count r)\<rparr>"
  have at: "slot_at r' i = (if i = count r then Some x else slot_at r i)" if "i \<le> count r" for i
    using slot_at_push [OF ok space that] by (simp add: r'_def)
  have "array_ok r'"
    using ok space at by (auto simp: array_ok_def less_Suc_eq_le) (auto simp: r'_def less_Suc_eq_le)
  moreover have "array_content r' = array_content r @ [x]"
    using at by (simp add: array_content_def) (simp add: r'_def at)
  ultimately show "\<exists>r'. rb_push array_ring x r = Some r' \<and> array_ok r'
      \<and> array_content r' = array_content r @ [x] \<and> length (slots r') = length (slots r)"
    using space by (auto simp: array_ring_def r'_def)
next
  fix r :: "'a slots" and x xs
  assume ok: "array_ok r" and c: "array_content r = x # xs"
  then have pos: "0 < count r" and x: "slot_at r 0 = Some x" "first r < length (slots r)"
    and xs: "xs = map (\<lambda>i. the (slot_at r (Suc i))) [0..<count r - 1]"
    by (auto simp: array_content_nth array_ok_def)
  define r' where "r' = r\<lparr>slots := (slots r)[first r := None],
      first := Suc (first r) mod length (slots r), count := count r - 1\<rparr>"
  have at: "slot_at r' i = slot_at r (Suc i)" if "i < count r - 1" for i
    using slot_at_pop [OF ok, of i "count r - 1"] that by (simp add: r'_def)
  from x(2) have "Suc (first r) mod length (slots r) < length (slots r)"
    by (intro mod_less_divisor) linarith
  then have "array_ok r'"
    using ok at by (auto simp: array_ok_def) (auto simp: r'_def)
  moreover have "array_content r' = xs"
    using at by (auto simp: array_content_def xs r'_def)
  ultimately show "\<exists>r'. rb_pop array_ring r = Some (x, r') \<and> array_ok r'
      \<and> array_content r' = xs \<and> length (slots r') = length (slots r)"
    using pos x by (auto simp: array_ring_def r'_def slot_at_def)
qed (auto simp: array_ring_def array_content_def array_ok_def)

section \<open>The two ends running concurrently\<close>

text \<open>
  \<open>nt_register\<close> is \<open>notified()\<close> followed by \<open>enable()\<close>: from then on the future is ready as soon as
  there is a notification. \<open>waiting\<close> holds while such a future exists. A push and a pop of the ring are single steps on
  its content: with one producer and one consumer \<^verbatim>\<open>rtrb\<close> documents them as wait-free, each taking effect when it moves its index.
\<close>

record 'n notify =
  nt_register :: "'n \<Rightarrow> 'n"
  nt_notify_one :: "'n \<Rightarrow> 'n"
  nt_woken :: "'n \<Rightarrow> bool"

datatype 'a sender_pc = Sender_Idle | Sender_Push 'a | Sender_Notify | Sender_Close_Notify | Sender_Gone

datatype receiver_pc = Receiver_Idle | Registered | Saw_Empty | Saw_Closed | Awaiting
  | Returned_None | Receiver_Gone

text \<open>\<open>accepted\<close> and \<open>got\<close> record the values \<open>try_send\<close> accepted and \<open>recv\<close> returned.\<close>

record ('n, 'a) ends =
  buf :: "'a list"
  buf_cap :: nat
  s_closed :: bool
  r_closed :: bool
  ready :: 'n
  spc :: "'a sender_pc"
  rpc :: receiver_pc
  accepted :: "'a list"
  got :: "'a list"

definition ends_init :: "nat \<Rightarrow> 'n \<Rightarrow> ('n, 'a) ends" where
  "ends_init cap n =
     \<lparr>buf = [], buf_cap = cap, s_closed = False, r_closed = False, ready = n,
      spc = Sender_Idle, rpc = Receiver_Idle, accepted = [], got = []\<rparr>"

inductive ends_step :: "'n notify \<Rightarrow> ('n, 'a) ends \<Rightarrow> ('n, 'a) ends \<Rightarrow> bool" for N where
  send_open: "spc s = Sender_Idle \<Longrightarrow> \<not> r_closed s \<Longrightarrow> ends_step N s (s\<lparr>spc := Sender_Push v\<rparr>)"
| send_push: "spc s = Sender_Push v \<Longrightarrow> length (buf s) < buf_cap s \<Longrightarrow>
    ends_step N s (s\<lparr>spc := Sender_Notify, buf := buf s @ [v], accepted := accepted s @ [v]\<rparr>)"
| send_full: "spc s = Sender_Push v \<Longrightarrow> length (buf s) \<ge> buf_cap s \<Longrightarrow>
    ends_step N s (s\<lparr>spc := Sender_Idle\<rparr>)"
| send_notify: "spc s = Sender_Notify \<Longrightarrow>
    ends_step N s (s\<lparr>spc := Sender_Idle, ready := nt_notify_one N (ready s)\<rparr>)"
| sender_drop: "spc s = Sender_Idle \<Longrightarrow>
    ends_step N s (s\<lparr>spc := Sender_Close_Notify, s_closed := True\<rparr>)"
| sender_drop_notify: "spc s = Sender_Close_Notify \<Longrightarrow>
    ends_step N s (s\<lparr>spc := Sender_Gone, ready := nt_notify_one N (ready s)\<rparr>)"
| recv_register: "rpc s = Receiver_Idle \<Longrightarrow>
    ends_step N s (s\<lparr>rpc := Registered, ready := nt_register N (ready s)\<rparr>)"
| recv_pop: "rpc s = Registered \<or> rpc s = Saw_Closed \<Longrightarrow> buf s = v # vs \<Longrightarrow>
    ends_step N s (s\<lparr>rpc := Receiver_Idle, buf := vs, got := got s @ [v]\<rparr>)"
| recv_empty: "rpc s = Registered \<Longrightarrow> buf s = [] \<Longrightarrow> ends_step N s (s\<lparr>rpc := Saw_Empty\<rparr>)"
| recv_closed: "rpc s = Saw_Empty \<Longrightarrow> s_closed s \<Longrightarrow> ends_step N s (s\<lparr>rpc := Saw_Closed\<rparr>)"
| recv_none: "rpc s = Saw_Closed \<Longrightarrow> buf s = [] \<Longrightarrow> ends_step N s (s\<lparr>rpc := Returned_None\<rparr>)"
| recv_park: "rpc s = Saw_Empty \<Longrightarrow> \<not> s_closed s \<Longrightarrow> ends_step N s (s\<lparr>rpc := Awaiting\<rparr>)"
| recv_wake: "rpc s = Awaiting \<Longrightarrow> nt_woken N (ready s) \<Longrightarrow> ends_step N s (s\<lparr>rpc := Receiver_Idle\<rparr>)"
| recv_cancel: "rpc s \<in> {Registered, Saw_Empty, Saw_Closed, Awaiting, Returned_None} \<Longrightarrow>
    ends_step N s (s\<lparr>rpc := Receiver_Idle\<rparr>)"
| receiver_drop: "rpc s = Receiver_Idle \<Longrightarrow>
    ends_step N s (s\<lparr>rpc := Receiver_Gone, r_closed := True\<rparr>)"

inductive ends_reach :: "'n notify \<Rightarrow> nat \<Rightarrow> 'n \<Rightarrow> ('n, 'a) ends \<Rightarrow> bool" for N cap n where
  init: "ends_reach N cap n (ends_init cap n)"
| step: "ends_reach N cap n s \<Longrightarrow> ends_step N s t \<Longrightarrow> ends_reach N cap n t"

text \<open>Nothing lost, duplicated or reordered: this part needs no law of the notification cell.\<close>

definition fifo_inv :: "nat \<Rightarrow> ('n, 'a) ends \<Rightarrow> bool" where
  "fifo_inv cap s \<longleftrightarrow> accepted s = got s @ buf s \<and> length (buf s) \<le> cap \<and> buf_cap s = cap
     \<and> (s_closed s \<longleftrightarrow> spc s = Sender_Close_Notify \<or> spc s = Sender_Gone)
     \<and> (rpc s \<in> {Saw_Closed, Returned_None} \<longrightarrow> s_closed s)
     \<and> (rpc s = Returned_None \<longrightarrow> buf s = [])"

lemma fifo_step: "ends_step N s t \<Longrightarrow> fifo_inv cap s \<Longrightarrow> fifo_inv cap t"
  by (induction rule: ends_step.induct) (auto simp: fifo_inv_def)

lemma fifo_reach: "ends_reach N cap n s \<Longrightarrow> fifo_inv cap s"
proof (induction rule: ends_reach.induct)
  case init
  show ?case by (simp add: fifo_inv_def ends_init_def)
next
  case (step s t)
  then show ?case by (blast intro: fifo_step)
qed

locale notifier =
  fixes N :: "'n notify" and waiting :: "'n \<Rightarrow> bool"
  assumes register: "waiting (nt_register N c)"
    and notify_waiting: "waiting c \<Longrightarrow> waiting (nt_notify_one N c)"
    and notify_wakes: "waiting c \<Longrightarrow> nt_woken N (nt_notify_one N c)"
begin

definition wake_inv :: "('n, 'a) ends \<Rightarrow> bool" where
  "wake_inv s \<longleftrightarrow>
     (rpc s \<in> {Registered, Saw_Empty, Awaiting} \<longrightarrow> waiting (ready s))
     \<and> (rpc s \<in> {Saw_Empty, Awaiting} \<and> \<not> nt_woken N (ready s) \<and> buf s \<noteq> [] \<longrightarrow> spc s = Sender_Notify)
     \<and> (rpc s = Awaiting \<and> \<not> nt_woken N (ready s) \<and> s_closed s \<longrightarrow> spc s = Sender_Close_Notify)"

lemma wake_step: "ends_step N s t \<Longrightarrow> wake_inv s \<Longrightarrow> wake_inv t"
  by (induction rule: ends_step.induct)
    (auto simp: wake_inv_def register notify_waiting notify_wakes)

lemma wake_reach: "ends_reach N cap n s \<Longrightarrow> wake_inv s"
proof (induction rule: ends_reach.induct)
  case init
  show ?case by (simp add: wake_inv_def ends_init_def)
next
  case (step s t)
  then show ?case by (blast intro: wake_step)
qed

text \<open>A parked receiver that could see something is woken, or the sender is about to wake it.\<close>

lemma no_lost_wakeup:
  assumes "ends_reach N cap n s" and "rpc s = Awaiting" and "buf s \<noteq> [] \<or> s_closed s"
  shows "nt_woken N (ready s) \<or> (\<exists>t. ends_step N s t \<and> rpc t = Awaiting \<and> nt_woken N (ready t))"
proof (cases "nt_woken N (ready s)")
  case False
  from wake_reach [OF assms(1)] have inv: "wake_inv s" .
  with assms(2) have w: "waiting (ready s)"
    by (simp add: wake_inv_def)
  from inv False assms consider "spc s = Sender_Notify" | "spc s = Sender_Close_Notify"
    by (auto simp: wake_inv_def)
  then show ?thesis
  proof cases
    case 1
    then show ?thesis
      using assms(2) notify_wakes [OF w]
      by (intro disjI2 exI [of _ "s\<lparr>spc := Sender_Idle, ready := nt_notify_one N (ready s)\<rparr>"])
        (auto intro: ends_step.send_notify)
  next
    case 2
    then show ?thesis
      using assms(2) notify_wakes [OF w]
      by (intro disjI2 exI [of _ "s\<lparr>spc := Sender_Gone, ready := nt_notify_one N (ready s)\<rparr>"])
        (auto intro: ends_step.sender_drop_notify)
  qed
qed simp

end

text \<open>A notification cell that meets the laws: one stored permit, at most one registered future.\<close>

record cell =
  stored :: bool
  registered :: bool
  woken :: bool

definition permit_cell :: "cell notify" where
  "permit_cell =
     \<lparr>nt_register = (\<lambda>c. c\<lparr>registered := True, woken := stored c, stored := False\<rparr>),
      nt_notify_one = (\<lambda>c. if registered c \<and> \<not> woken c then c\<lparr>woken := True\<rparr> else c\<lparr>stored := True\<rparr>),
      nt_woken = (\<lambda>c. registered c \<and> woken c)\<rparr>"

interpretation cell: notifier permit_cell registered
  by unfold_locales (auto simp: permit_cell_def)

section \<open>Properties\<close>

text \<open>C32. With the two ends of a queue running concurrently in any interleaving, including
  cancelled receives, the values received so far followed by the values in the ring are exactly
  the accepted values in their order; the ring never holds more than its capacity, and a
  receiver that is told the queue has ended has received everything that was accepted.\<close>

theorem queue_no_loss:
  assumes "ends_reach N cap n s"
  shows "accepted s = got s @ buf s \<and> length (buf s) \<le> cap
    \<and> (rpc s = Returned_None \<longrightarrow> s_closed s \<and> got s = accepted s)"
  using fifo_reach [OF assms] by (auto simp: fifo_inv_def)

text \<open>C33. No wake-up is lost: whenever the receiver is parked although there is a value in the ring
  or the sender is gone, it has been notified, or the next action of the sender notifies it.\<close>

theorem queue_no_lost_wakeup:
  assumes "notifier N waiting" and "ends_reach N cap n s" and "rpc s = Awaiting"
    and "buf s \<noteq> [] \<or> s_closed s"
  shows "nt_woken N (ready s) \<or> (\<exists>t. ends_step N s t \<and> rpc t = Awaiting \<and> nt_woken N (ready t))"
  using notifier.no_lost_wakeup [OF assms] .

lemma parked_run:
  "ends_reach permit_cell 1 \<lparr>stored = False, registered = False, woken = False\<rparr>
     \<lparr>buf = [7 :: nat], buf_cap = 1, s_closed = False, r_closed = False,
      ready = \<lparr>stored = False, registered = True, woken = False\<rparr>, spc = Sender_Notify, rpc = Awaiting,
      accepted = [7], got = []\<rparr>"
proof -
  let ?c = "\<lparr>stored = False, registered = False, woken = False\<rparr>"
  let ?d = "\<lparr>stored = False, registered = True, woken = False\<rparr>"
  let ?s = "\<lambda>r p q. \<lparr>buf = [] :: nat list, buf_cap = 1, s_closed = False, r_closed = False, ready = r,
      spc = p, rpc = q, accepted = [], got = []\<rparr>"
  have 0: "ends_reach permit_cell 1 ?c (?s ?c Sender_Idle Receiver_Idle)"
    using ends_reach.init [of permit_cell 1 ?c] by (simp add: ends_init_def)
  have 1: "ends_step permit_cell (?s ?c Sender_Idle Receiver_Idle) (?s ?d Sender_Idle Registered)"
    using ends_step.recv_register [of "?s ?c Sender_Idle Receiver_Idle" permit_cell] by (simp add: permit_cell_def)
  have 2: "ends_step permit_cell (?s ?d Sender_Idle Registered) (?s ?d Sender_Idle Saw_Empty)"
    using ends_step.recv_empty [of "?s ?d Sender_Idle Registered" permit_cell] by simp
  have 3: "ends_step permit_cell (?s ?d Sender_Idle Saw_Empty) (?s ?d Sender_Idle Awaiting)"
    using ends_step.recv_park [of "?s ?d Sender_Idle Saw_Empty" permit_cell] by simp
  have 4: "ends_step permit_cell (?s ?d Sender_Idle Awaiting) (?s ?d (Sender_Push 7) Awaiting)"
    using ends_step.send_open [of "?s ?d Sender_Idle Awaiting" permit_cell 7] by simp
  have 5: "ends_step permit_cell (?s ?d (Sender_Push 7) Awaiting)
      ((?s ?d Sender_Notify Awaiting)\<lparr>buf := [7], accepted := [7]\<rparr>)"
    using ends_step.send_push [of "?s ?d (Sender_Push 7) Awaiting" 7 permit_cell] by simp
  show ?thesis
    using ends_reach.step [OF ends_reach.step [OF ends_reach.step [OF ends_reach.step [OF ends_reach.step
      [OF 0 1] 2] 3] 4] 5] by simp
qed

text \<open>The run goes on: the sender notifies, the receiver wakes up and takes the value, the sender is dropped, and the next
  receive is told that the queue has ended.\<close>

lemma ended_run:
  "ends_reach permit_cell 1 \<lparr>stored = False, registered = False, woken = False\<rparr>
     \<lparr>buf = [] :: nat list, buf_cap = 1, s_closed = True, r_closed = False,
      ready = \<lparr>stored = False, registered = True, woken = False\<rparr>, spc = Sender_Gone, rpc = Returned_None,
      accepted = [7], got = [7]\<rparr>"
proof -
  let ?s = "\<lambda>w b p q g c. \<lparr>buf = b :: nat list, buf_cap = 1, s_closed = c, r_closed = False,
      ready = \<lparr>stored = False, registered = True, woken = w\<rparr>, spc = p, rpc = q, accepted = [7], got = g\<rparr>"
  have steps: "ends_step permit_cell (?s False [7] Sender_Notify Awaiting [] False) (?s True [7] Sender_Idle Awaiting [] False)"
    "ends_step permit_cell (?s True [7] Sender_Idle Awaiting [] False) (?s True [7] Sender_Idle Receiver_Idle [] False)"
    "ends_step permit_cell (?s True [7] Sender_Idle Receiver_Idle [] False) (?s False [7] Sender_Idle Registered [] False)"
    "ends_step permit_cell (?s False [7] Sender_Idle Registered [] False) (?s False [] Sender_Idle Receiver_Idle [7] False)"
    "ends_step permit_cell (?s False [] Sender_Idle Receiver_Idle [7] False) (?s False [] Sender_Close_Notify Receiver_Idle [7] True)"
    "ends_step permit_cell (?s False [] Sender_Close_Notify Receiver_Idle [7] True) (?s True [] Sender_Gone Receiver_Idle [7] True)"
    "ends_step permit_cell (?s True [] Sender_Gone Receiver_Idle [7] True) (?s False [] Sender_Gone Registered [7] True)"
    "ends_step permit_cell (?s False [] Sender_Gone Registered [7] True) (?s False [] Sender_Gone Saw_Empty [7] True)"
    "ends_step permit_cell (?s False [] Sender_Gone Saw_Empty [7] True) (?s False [] Sender_Gone Saw_Closed [7] True)"
    "ends_step permit_cell (?s False [] Sender_Gone Saw_Closed [7] True) (?s False [] Sender_Gone Returned_None [7] True)"
    using ends_step.send_notify [of "?s False [7] Sender_Notify Awaiting [] False" permit_cell]
      ends_step.recv_wake [of "?s True [7] Sender_Idle Awaiting [] False" permit_cell]
      ends_step.recv_register [of "?s True [7] Sender_Idle Receiver_Idle [] False" permit_cell]
      ends_step.recv_pop [of "?s False [7] Sender_Idle Registered [] False" 7 "[]" permit_cell]
      ends_step.sender_drop [of "?s False [] Sender_Idle Receiver_Idle [7] False" permit_cell]
      ends_step.sender_drop_notify [of "?s False [] Sender_Close_Notify Receiver_Idle [7] True" permit_cell]
      ends_step.recv_register [of "?s True [] Sender_Gone Receiver_Idle [7] True" permit_cell]
      ends_step.recv_empty [of "?s False [] Sender_Gone Registered [7] True" permit_cell]
      ends_step.recv_closed [of "?s False [] Sender_Gone Saw_Empty [7] True" permit_cell]
      ends_step.recv_none [of "?s False [] Sender_Gone Saw_Closed [7] True" permit_cell]
    by (simp_all add: permit_cell_def)
  show ?thesis
    by (rule ends_reach.step [OF ends_reach.step [OF ends_reach.step [OF ends_reach.step [OF ends_reach.step [OF ends_reach.step
      [OF ends_reach.step [OF ends_reach.step [OF ends_reach.step [OF ends_reach.step [OF parked_run
      steps(1)] steps(2)] steps(3)] steps(4)] steps(5)] steps(6)] steps(7)] steps(8)] steps(9)] steps(10)])
qed

theorem queue_no_loss_witness:
  "\<exists>s :: (cell, nat) ends. ends_reach permit_cell 1 \<lparr>stored = False, registered = False, woken = False\<rparr> s
     \<and> rpc s = Returned_None \<and> accepted s = [7] \<and> s_closed s \<and> got s = [7]"
  using queue_no_loss [OF ended_run] ended_run by (intro exI conjI) auto

theorem queue_no_lost_wakeup_witness:
  "\<exists>t. ends_step permit_cell
     \<lparr>buf = [7 :: nat], buf_cap = 1, s_closed = False, r_closed = False,
      ready = \<lparr>stored = False, registered = True, woken = False\<rparr>, spc = Sender_Notify, rpc = Awaiting,
      accepted = [7], got = []\<rparr> t \<and> nt_woken permit_cell (ready t)"
  using queue_no_lost_wakeup [OF cell.notifier_axioms parked_run] by (auto simp: permit_cell_def)

text \<open>Used from one thread the channel is a bounded queue: a send is accepted exactly when the
  receiver is there and a slot is free, and then appends its value, otherwise the value comes back;
  a receive takes the oldest value and reports the end only when the sender is gone and nothing is left.\<close>

theorem queue_bounded:
  assumes "ring_buffer R ok content cap" and "ok (ring c)"
  shows "(case try_send R v c of
      Inl w \<Rightarrow> w = v \<and> (receiver_closed c \<or> length (content (ring c)) = cap (ring c))
    | Inr c' \<Rightarrow> \<not> receiver_closed c \<and> ok (ring c') \<and> content (ring c') = content (ring c) @ [v]
        \<and> length (content (ring c')) \<le> cap (ring c))
    \<and> (case (recv_pass R c, content (ring c)) of
      ((r, c'), []) \<Rightarrow> r = (if sender_closed c then Received None else Parked) \<and> c' = c
    | ((r, c'), w # ws) \<Rightarrow> r = Received (Some w) \<and> ok (ring c') \<and> content (ring c') = ws)"
  using ring_buffer.bounded_queue [OF assms] .

theorem queue_bounded_witness:
  "\<exists>c. try_send array_ring 5 (channel array_ring 2 (meter_permit \<lparr>meter_budget = 0, meter_limit = 9,
      meter_live = [], meter_next = 0\<rparr> 1)) = Inr c \<and> array_content (ring c) = [5 :: nat]"
proof -
  define c0 :: "nat slots spsc" where "c0 = channel array_ring 2 (meter_permit \<lparr>meter_budget = 0,
      meter_limit = 9, meter_live = [], meter_next = 0\<rparr> 1)"
  have ok: "array_ok (ring c0)" "array_content (ring c0) = []" "length (slots (ring c0)) = 2"
      "\<not> receiver_closed c0"
    using array.channel_new [where ?'a = nat, of 2 "meter_permit \<lparr>meter_budget = 0, meter_limit = 9,
      meter_live = [], meter_next = 0\<rparr> 1"]
    by (simp_all add: c0_def array.channel_ok_def del: One_nat_def) (simp add: channel_def)
  show ?thesis
    using queue_bounded [OF array.ring_buffer_axioms ok(1), of 5] ok
    unfolding c0_def [symmetric] by (cases "try_send array_ring 5 c0") auto
qed

end
