(* ===== verification/Owner_State.thy ===== *)
theory Owner_State
  imports Settings Queue
begin

text \<open>
  The state of the endpoint owner, \<^verbatim>\<open>src/src/endpoint/owner.rs\<close>: peers with their outbound
  bindings, local subscriptions, pending deliveries, replay records and terminal receipts. The
  channels to the transport tasks are of two kinds: the control channel of a session belongs to
  \<^verbatim>\<open>tokio\<close> and is part of the world \<open>'w\<close>, written through the parameter \<open>ev_ctl\<close> (\<open>None\<close> when
  the channel is full or closed); the data and delivery queues are the queue of
  \<^verbatim>\<open>src/src/queue.rs\<close>, at the level of \<open>chan\<close>, which it refines. Memory is accounted as the
  permits that are reachable from the state, from values handed out (\<open>o_outside\<close>) and from the
  running handler (\<open>o_held\<close>). \<open>o_log\<close> records what the application observes.
\<close>

section \<open>Queues as lists\<close>

record 'a chan =
  ch_items :: "'a list"
  ch_capacity :: nat
  ch_closed :: bool
  ch_memory :: permit

definition chan_new :: "nat \<Rightarrow> permit \<Rightarrow> 'a chan" where
  "chan_new n memory = \<lparr>ch_items = [], ch_capacity = n, ch_closed = False, ch_memory = memory\<rparr>"

definition chan_send :: "'a \<Rightarrow> 'a chan \<Rightarrow> 'a chan option" where
  "chan_send x c =
     (if ch_closed c \<or> length (ch_items c) \<ge> ch_capacity c then None
      else Some (c\<lparr>ch_items := ch_items c @ [x]\<rparr>))"

context ring_buffer
begin

definition chan_abs :: "'r spsc \<Rightarrow> 'a chan" where
  "chan_abs c =
     \<lparr>ch_items = content (ring c), ch_capacity = capacity (ring c), ch_closed = receiver_closed c,
      ch_memory = channel_memory c\<rparr>"

text \<open>The queue of \<^verbatim>\<open>queue.rs\<close> over any ring buffer refines the list queue.\<close>

lemma chan_new_refines: "0 < n \<Longrightarrow> chan_abs (channel R n p) = chan_new n p"
  using channel_new [of n p] by (simp add: chan_abs_def chan_new_def) (simp add: channel_def)

lemma chan_send_refines:
  assumes "ring_ok (ring c)"
  shows "case try_send R v c of
      Inl w \<Rightarrow> w = v \<and> chan_send v (chan_abs c) = None
    | Inr c' \<Rightarrow> ring_ok (ring c') \<and> chan_send v (chan_abs c) = Some (chan_abs c')"
proof -
  have ok: "channel_ok c"
    using assms by (simp add: channel_ok_def)
  have bound: "length (content (ring c)) \<le> capacity (ring c)"
    by (rule content_bound [OF assms])
  show ?thesis
  proof (cases "receiver_closed c \<or> length (content (ring c)) = capacity (ring c)")
    case True
    with try_send_refuses [OF ok True] show ?thesis
      by (auto simp: chan_send_def chan_abs_def)
  next
    case False
    with bound obtain r where r: "rb_push R v (ring c) = Some r" "ring_ok r" "content r = content (ring c) @ [v]"
        "capacity r = capacity (ring c)"
      using push_space [OF assms, of v] by force
    with False bound show ?thesis
      by (auto simp: try_send_def is_closed_def chan_send_def chan_abs_def)
  qed
qed

end

section \<open>Records of the owner\<close>

type_synonym 'e key = "'e \<times> bytes \<times> 'e message_id"
type_synonym 'e dedup_key = "bytes \<times> 'e message_id"

text \<open>A reference to a budget: its identity and its limit.\<close>

record budget_ref =
  br_id :: nat
  br_limit :: nat

record 'e registration =
  reg_cert :: "'e certificate"
  reg_session :: bytes
  reg_dialer :: 'e
  reg_nonce :: bytes
  reg_cancelled :: bool
  reg_closed :: bool
  reg_max_payload :: nat
  reg_max_topics :: nat
  reg_window_secs :: u64

record 'e data_out =
  do_key :: "'e key"
  do_signed :: bytes
  do_payload :: lease
  do_memory :: permit

record 'e binding =
  b_sub :: bytes
  b_mode :: delivery_mode
  b_credit :: "nat option"
  b_requested :: bool
  b_writer :: "'e data_out chan"

record 'e peer =
  p_reg :: "'e registration"
  p_outbound :: "(topic, 'e binding) bmap"
  p_inbound :: "(topic, bytes \<times> u64) bmap"
  p_slots :: budget_ref
  p_bytes :: budget_ref
  p_memory :: permit

record credit_grant =
  cg_bytes :: nat
  cg_permits :: "permit list"
  cg_metadata :: permit

record 'e delivery =
  d_id :: "'e message_id"
  d_format :: string
  d_payload :: lease

record 'e local_sub =
  s_id :: bytes
  s_mode :: delivery_mode
  s_tx :: "'e delivery chan"
  s_ready :: "('e, unit result) bmap"
  s_slots :: budget_ref
  s_bytes :: budget_ref
  s_confirmed :: "'e set"
  s_grants :: "('e, credit_grant) bmap"
  s_demand :: "('e, nat) bmap"

record 'e pending =
  pd_cert :: "'e certificate"
  pd_signed :: bytes
  pd_envelope :: "'e envelope"
  pd_payload :: lease
  pd_memory :: permit
  pd_slot :: permit
  pd_bytes :: permit
  pd_deadline :: nat
  pd_next :: nat
  pd_attempts :: nat
  pd_writing :: bool

text \<open>\<open>Processing\<close> carries the value of its disposition cell: 0 until the application decides.\<close>

datatype dedup_state = DedupProcessing nat | DedupRetryable | DedupProcessed | DedupPermanent

record dedup =
  dd_fingerprint :: bytes
  dd_expires :: u64
  dd_state :: dedup_state
  dd_memory :: permit

record terminal_receipt =
  te_expires :: u64
  te_memory :: permit

record 'e receive_ticket =
  rt_envelope :: "'e envelope"
  rt_fingerprint :: bytes
  rt_permits :: "permit list"
  rt_metadata :: permit

record metrics =
  me_peers :: nat
  me_pending_deliveries :: nat
  me_deduplication_records :: nat
  me_terminal_receipts :: nat
  me_resident_payload_bytes :: nat
  me_metadata_bytes :: nat
  me_outstanding_credits :: nat
  me_unfinished_on_shutdown :: nat
  me_admitted :: u64
  me_rejected :: u64
  me_processed :: u64
  me_retried :: u64
  me_expired :: u64
  me_authorization_failures :: u64

definition metrics_default :: metrics where
  "metrics_default =
     \<lparr>me_peers = 0, me_pending_deliveries = 0, me_deduplication_records = 0, me_terminal_receipts = 0,
      me_resident_payload_bytes = 0, me_metadata_bytes = 0, me_outstanding_credits = 0,
      me_unfinished_on_shutdown = 0, me_admitted = 0, me_rejected = 0, me_processed = 0, me_retried = 0,
      me_expired = 0, me_authorization_failures = 0\<rparr>"

text \<open>What the application and the tasks see: an outcome of a receipt, a message put in the queue
  of a subscription (its identifier, the envelope and the payload), the completion of an acknowledgement.\<close>

datatype 'e event =
    Outcome_Set "'e key" recipient_outcome
  | Delivered bytes "'e envelope" bytes
  | Completed "'e dedup_key" "unit result"

record ('e, 'w) owner =
  o_config :: config
  o_trust :: "'e trust"
  o_identity :: bytes
  o_self :: 'e
  o_cert :: "'e certificate"
  o_revocation_memory :: "permit list"
  o_pool :: budget_ref
  o_metadata :: budget_ref
  o_peers :: "('e, 'e peer) bmap"
  o_peer_budgets :: "('e, budget_ref \<times> budget_ref) bmap"
  o_subs :: "(topic, 'e local_sub) bmap"
  o_pending :: "('e key, 'e pending) bmap"
  o_dedup :: "('e dedup_key, dedup) bmap"
  o_terminal :: "('e key, terminal_receipt) bmap"
  o_auth_attempts :: nat
  o_auth_window :: nat
  o_sequences :: "(topic, u64) bmap"
  o_epoch :: bytes
  o_quota :: nat
  o_stats :: metrics
  o_drain :: "nat option"
  o_cursor :: nat
  o_clock_start :: "u64 \<times> nat"
  o_clock_failed :: bool
  o_admission :: "'e admission"
  o_outside :: "permit list"
  o_held :: "permit list"
  o_next :: nat
  o_world :: 'w
  o_log :: "'e event list"

text \<open>The code outside the owner that it calls: the libraries, the control channels, the storage of
  the host, and the size of a \<open>Delivery\<close> in memory.\<close>

record ('e, 'w) env =
  ev_lib :: "'e lib"
  ev_ctl :: "'e \<Rightarrow> bytes \<Rightarrow> control \<Rightarrow> 'w \<Rightarrow> 'w option"
  ev_save :: "bytes \<Rightarrow> 'w \<Rightarrow> unit result \<times> 'w"
  ev_delivery_size :: nat

text \<open>The readings a handler makes: the wall clock (which may fail), the monotonic clock in
  nanoseconds, random identifiers and the retry jitter in nanoseconds.\<close>

record 'e tick =
  tk_now :: "u64 result"
  tk_instant :: nat
  tk_rand :: bytes
  tk_rand2 :: bytes
  tk_jitter :: "'e key \<Rightarrow> nat"

section \<open>Memory\<close>

definition certificate_permits :: "'e certificate \<Rightarrow> permit list" where
  "certificate_permits c = option_list (c_memory c)"

definition data_permits :: "'e data_out \<Rightarrow> permit list" where
  "data_permits d = do_memory d # lease_permits (do_payload d)"

definition binding_permits :: "'e binding \<Rightarrow> permit list" where
  "binding_permits b = ch_memory (b_writer b) # concat (map data_permits (ch_items (b_writer b)))"

definition peer_permits :: "'e peer \<Rightarrow> permit list" where
  "peer_permits p =
     p_memory p # certificate_permits (reg_cert (p_reg p)) @ concat (map binding_permits (bm_vals (p_outbound p)))"

definition credit_permits :: "credit_grant \<Rightarrow> permit list" where
  "credit_permits g = cg_metadata g # cg_permits g"

definition sub_permits :: "'e local_sub \<Rightarrow> permit list" where
  "sub_permits s =
     ch_memory (s_tx s) # concat (map (\<lambda>d. lease_permits (d_payload d)) (ch_items (s_tx s)))
       @ concat (map credit_permits (bm_vals (s_grants s)))"

definition pending_permits :: "'e pending \<Rightarrow> permit list" where
  "pending_permits p =
     pd_memory p # pd_slot p # pd_bytes p # certificate_permits (pd_cert p) @ lease_permits (pd_payload p)"

definition owner_permits :: "('e, 'w) owner \<Rightarrow> permit list" where
  "owner_permits ow =
     certificate_permits (o_cert ow) @ o_revocation_memory ow
     @ concat (map peer_permits (bm_vals (o_peers ow)))
     @ concat (map sub_permits (bm_vals (o_subs ow)))
     @ concat (map pending_permits (bm_vals (o_pending ow)))
     @ map dd_memory (bm_vals (o_dedup ow))
     @ map te_memory (bm_vals (o_terminal ow))
     @ admission_permits (o_admission ow)"

definition live_permits :: "('e, 'w) owner \<Rightarrow> permit list" where
  "live_permits ow = owner_permits ow @ o_outside ow @ o_held ow"

definition owner_meter :: "budget_ref \<Rightarrow> ('e, 'w) owner \<Rightarrow> meter" where
  "owner_meter b ow =
     \<lparr>meter_budget = br_id b, meter_limit = br_limit b, meter_live = live_permits ow, meter_next = o_next ow\<rparr>"

text \<open>\<open>Budget::reserve\<close>: the new permit is held by the running handler.\<close>

definition o_reserve :: "budget_ref \<Rightarrow> nat \<Rightarrow> ('e, 'w) owner \<Rightarrow> (permit \<times> ('e, 'w) owner) result" where
  "o_reserve b n ow =
     rbind (admit (owner_meter b ow) n) (\<lambda>(p, m).
       Inr (p, ow\<lparr>o_held := p # o_held ow, o_next := meter_next m\<rparr>))"

text \<open>The end of a handler: what it still holds is dropped, what it returned is outside.\<close>

definition hand_out :: "permit list \<Rightarrow> ('e, 'w) owner \<Rightarrow> ('e, 'w) owner" where
  "hand_out ps ow = ow\<lparr>o_outside := ps @ o_outside ow\<rparr>"

definition release_held :: "('e, 'w) owner \<Rightarrow> ('e, 'w) owner" where
  "release_held ow = ow\<lparr>o_held := []\<rparr>"

section \<open>Validity\<close>

definition local_valid :: "'e tick \<Rightarrow> ('e, 'w) owner \<Rightarrow> u64 result" where
  "local_valid tk ow =
     rbind (fail_if (o_clock_failed ow) Clock) (\<lambda>_.
     rbind (tk_now tk) (\<lambda>now.
     rbind (check (o_trust ow) (o_cert ow) (o_self ow) now) (\<lambda>_.
       Inr now)))"

definition peer_valid :: "'e tick \<Rightarrow> 'e \<Rightarrow> bytes \<Rightarrow> ('e, 'w) owner \<Rightarrow> 'e peer result" where
  "peer_valid tk peer session ow =
     rbind (local_valid tk ow) (\<lambda>now.
     rbind (ok_or (bm_get peer (o_peers ow)) PeerUnavailable) (\<lambda>p.
     rbind (fail_if (reg_session (p_reg p) \<noteq> session) PeerUnavailable) (\<lambda>_.
     rbind (check (o_trust ow) (reg_cert (p_reg p)) peer now) (\<lambda>_.
       Inr p))))"

section \<open>Sending control frames\<close>

text \<open>\<open>Owner::send\<close>: a channel that refuses the frame cancels the session.\<close>

definition peer_send :: "('e, 'w) env \<Rightarrow> 'e \<Rightarrow> control \<Rightarrow> 'e peer \<Rightarrow> 'w \<Rightarrow> 'e peer \<times> 'w" where
  "peer_send E e c p w =
     (case ev_ctl E e (reg_session (p_reg p)) c w of
        Some w' \<Rightarrow> (p, w')
      | None \<Rightarrow> (p\<lparr>p_reg := (p_reg p)\<lparr>reg_cancelled := True\<rparr>\<rparr>, w))"

definition o_send :: "('e, 'w) env \<Rightarrow> 'e \<Rightarrow> control \<Rightarrow> ('e, 'w) owner \<Rightarrow> ('e, 'w) owner" where
  "o_send E e c ow =
     (case bm_get e (o_peers ow) of
        None \<Rightarrow> ow
      | Some p \<Rightarrow>
        (case peer_send E e c p (o_world ow) of (p', w') \<Rightarrow>
           ow\<lparr>o_peers := bm_adjust e (\<lambda>_. p') (o_peers ow), o_world := w'\<rparr>))"

definition send_outcome :: "('e, 'w) env \<Rightarrow> 'e \<Rightarrow> bytes \<Rightarrow> 'e message_id \<Rightarrow> u64 \<Rightarrow> ('e, 'w) owner \<Rightarrow> ('e, 'w) owner" where
  "send_outcome E peer sub i code ow =
     o_send E peer (Outcome (mid_topic i) sub (publisher_epoch i) (mid_sequence i) code) ow"

text \<open>A control frame to every peer, in the order of the map.\<close>

definition send_all :: "('e, 'w) env \<Rightarrow> control \<Rightarrow> ('e, 'w) owner \<Rightarrow> ('e, 'w) owner" where
  "send_all E c ow = fold (\<lambda>e. o_send E e c) (bm_keys (o_peers ow)) ow"

section \<open>Finishing a delivery and removing a peer\<close>

definition log_event :: "'e event \<Rightarrow> ('e, 'w) owner \<Rightarrow> ('e, 'w) owner" where
  "log_event v ow = ow\<lparr>o_log := o_log ow @ [v]\<rparr>"

definition finish :: "('e::linorder) key \<Rightarrow> recipient_outcome \<Rightarrow> ('e, 'w) owner \<Rightarrow> ('e, 'w) owner" where
  "finish key outcome ow =
     (case bm_get key (o_pending ow) of
        None \<Rightarrow> ow
      | Some p \<Rightarrow>
        (let ow = ow\<lparr>o_pending := bm_del key (o_pending ow)\<rparr>;
             ow = (if pd_attempts p > 0
                   then ow\<lparr>o_terminal := bm_put key
                          \<lparr>te_expires = saturating_add (env_expires (pd_envelope p))
                             (max (as_secs (handshake_timeout (o_config ow))) 1),
                           te_memory = pd_memory p\<rparr> (o_terminal ow)\<rparr>
                   else ow)
         in log_event (Outcome_Set key outcome) ow))"

definition forget_peer :: "'e \<Rightarrow> 'e local_sub \<Rightarrow> 'e local_sub" where
  "forget_peer peer s =
     s\<lparr>s_confirmed := s_confirmed s - {peer}, s_grants := bm_del peer (s_grants s),
       s_demand := bm_del peer (s_demand s), s_ready := bm_del peer (s_ready s)\<rparr>"

text \<open>The receiving ends of the queues of a peer belong to its writer tasks, and that of a
  subscription to the application: what is queued outlives the sending end.\<close>

definition abandon_queues :: "'e peer \<Rightarrow> ('e, 'w) owner \<Rightarrow> ('e, 'w) owner" where
  "abandon_queues p ow = hand_out (concat (map binding_permits (bm_vals (p_outbound p)))) ow"

definition abandon_sub :: "'e local_sub \<Rightarrow> ('e, 'w) owner \<Rightarrow> ('e, 'w) owner" where
  "abandon_sub s ow =
     hand_out (ch_memory (s_tx s) # concat (map (\<lambda>d. lease_permits (d_payload d)) (ch_items (s_tx s)))) ow"

definition drop_peer :: "'e \<Rightarrow> ('e, 'w) owner \<Rightarrow> ('e, 'w) owner" where
  "drop_peer peer ow =
     (case bm_get peer (o_peers ow) of
        None \<Rightarrow> ow
      | Some p \<Rightarrow> abandon_queues p (ow\<lparr>o_peers := bm_del peer (o_peers ow)\<rparr>))"

definition remove_peer :: "('e::linorder) tick \<Rightarrow> 'e \<Rightarrow> ('e, 'w) owner \<Rightarrow> ('e, 'w) owner" where
  "remove_peer tk peer ow =
     (let ow = drop_peer peer ow;
          ow = ow\<lparr>o_subs := bm_map (\<lambda>_. forget_peer peer) (o_subs ow)\<rparr>;
          fail = filter (\<lambda>(key, p). fst key = peer \<and> env_mode (pd_envelope p) = BestEffort) (o_pending ow);
          ow = ow\<lparr>o_pending := bm_map (\<lambda>key p.
                    if fst key = peer then p\<lparr>pd_writing := False, pd_next := tk_instant tk\<rparr> else p) (o_pending ow)\<rparr>
      in fold (\<lambda>(key, _). finish key (Failed PeerUnavailable)) fail ow)"

lemma o_reserve_Inr:
  "o_reserve b n ow = Inr (p, ow') \<Longrightarrow>
     ow' = ow\<lparr>o_held := p # o_held ow, o_next := Suc (o_next ow)\<rparr> \<and> permit_n p = n \<and> permit_budget p = br_id b
     \<and> permit_id p = o_next ow"
  by (auto simp: o_reserve_def result_simps admit_def owner_meter_def meter_permit_def split: if_splits)

section \<open>What an operation leaves alone\<close>

text \<open>Every operation changes a few tables of the owner; the equations below say which it does not.\<close>


lemma o_send_frame [simp]:
  "o_config (o_send E e c ow) = o_config ow" "o_trust (o_send E e c ow) = o_trust ow"
  "o_identity (o_send E e c ow) = o_identity ow" "o_self (o_send E e c ow) = o_self ow"
  "o_cert (o_send E e c ow) = o_cert ow" "o_subs (o_send E e c ow) = o_subs ow"
  "o_pending (o_send E e c ow) = o_pending ow" "o_dedup (o_send E e c ow) = o_dedup ow"
  "o_terminal (o_send E e c ow) = o_terminal ow" "o_sequences (o_send E e c ow) = o_sequences ow"
  "o_epoch (o_send E e c ow) = o_epoch ow" "o_drain (o_send E e c ow) = o_drain ow"
  "o_clock_failed (o_send E e c ow) = o_clock_failed ow" "o_log (o_send E e c ow) = o_log ow"
  by (simp_all add: o_send_def split: option.splits prod.splits)

lemma send_outcome_frame [simp]:
  "o_config (send_outcome E e sub i code ow) = o_config ow" "o_trust (send_outcome E e sub i code ow) = o_trust ow"
  "o_identity (send_outcome E e sub i code ow) = o_identity ow" "o_self (send_outcome E e sub i code ow) = o_self ow"
  "o_cert (send_outcome E e sub i code ow) = o_cert ow" "o_subs (send_outcome E e sub i code ow) = o_subs ow"
  "o_pending (send_outcome E e sub i code ow) = o_pending ow" "o_dedup (send_outcome E e sub i code ow) = o_dedup ow"
  "o_terminal (send_outcome E e sub i code ow) = o_terminal ow" "o_sequences (send_outcome E e sub i code ow) = o_sequences ow"
  "o_epoch (send_outcome E e sub i code ow) = o_epoch ow" "o_drain (send_outcome E e sub i code ow) = o_drain ow"
  "o_clock_failed (send_outcome E e sub i code ow) = o_clock_failed ow" "o_log (send_outcome E e sub i code ow) = o_log ow"
  by (simp_all add: send_outcome_def)

lemma send_all_frame [simp]:
  "o_config (send_all E c ow) = o_config ow" "o_trust (send_all E c ow) = o_trust ow"
  "o_identity (send_all E c ow) = o_identity ow" "o_self (send_all E c ow) = o_self ow"
  "o_cert (send_all E c ow) = o_cert ow" "o_subs (send_all E c ow) = o_subs ow"
  "o_pending (send_all E c ow) = o_pending ow" "o_dedup (send_all E c ow) = o_dedup ow"
  "o_terminal (send_all E c ow) = o_terminal ow" "o_sequences (send_all E c ow) = o_sequences ow"
  "o_epoch (send_all E c ow) = o_epoch ow" "o_drain (send_all E c ow) = o_drain ow"
  "o_clock_failed (send_all E c ow) = o_clock_failed ow" "o_log (send_all E c ow) = o_log ow"
  unfolding send_all_def by (intro fold_same; simp)+

lemma hand_out_frame [simp]:
  "o_config (hand_out ps ow) = o_config ow" "o_trust (hand_out ps ow) = o_trust ow"
  "o_identity (hand_out ps ow) = o_identity ow" "o_self (hand_out ps ow) = o_self ow"
  "o_cert (hand_out ps ow) = o_cert ow" "o_peers (hand_out ps ow) = o_peers ow"
  "o_subs (hand_out ps ow) = o_subs ow" "o_pending (hand_out ps ow) = o_pending ow"
  "o_dedup (hand_out ps ow) = o_dedup ow" "o_terminal (hand_out ps ow) = o_terminal ow"
  "o_sequences (hand_out ps ow) = o_sequences ow" "o_epoch (hand_out ps ow) = o_epoch ow"
  "o_drain (hand_out ps ow) = o_drain ow" "o_clock_failed (hand_out ps ow) = o_clock_failed ow"
  "o_log (hand_out ps ow) = o_log ow"
  by (simp_all add: hand_out_def)

lemma release_held_frame [simp]:
  "o_config (release_held ow) = o_config ow" "o_trust (release_held ow) = o_trust ow"
  "o_identity (release_held ow) = o_identity ow" "o_self (release_held ow) = o_self ow"
  "o_cert (release_held ow) = o_cert ow" "o_peers (release_held ow) = o_peers ow"
  "o_subs (release_held ow) = o_subs ow" "o_pending (release_held ow) = o_pending ow"
  "o_dedup (release_held ow) = o_dedup ow" "o_terminal (release_held ow) = o_terminal ow"
  "o_sequences (release_held ow) = o_sequences ow" "o_epoch (release_held ow) = o_epoch ow"
  "o_drain (release_held ow) = o_drain ow" "o_clock_failed (release_held ow) = o_clock_failed ow"
  "o_log (release_held ow) = o_log ow"
  by (simp_all add: release_held_def)

lemma abandon_queues_frame [simp]:
  "o_config (abandon_queues p ow) = o_config ow" "o_trust (abandon_queues p ow) = o_trust ow"
  "o_identity (abandon_queues p ow) = o_identity ow" "o_self (abandon_queues p ow) = o_self ow"
  "o_cert (abandon_queues p ow) = o_cert ow" "o_peers (abandon_queues p ow) = o_peers ow"
  "o_subs (abandon_queues p ow) = o_subs ow" "o_pending (abandon_queues p ow) = o_pending ow"
  "o_dedup (abandon_queues p ow) = o_dedup ow" "o_terminal (abandon_queues p ow) = o_terminal ow"
  "o_sequences (abandon_queues p ow) = o_sequences ow" "o_epoch (abandon_queues p ow) = o_epoch ow"
  "o_drain (abandon_queues p ow) = o_drain ow" "o_clock_failed (abandon_queues p ow) = o_clock_failed ow"
  "o_log (abandon_queues p ow) = o_log ow"
  by (simp_all add: abandon_queues_def)

lemma abandon_sub_frame [simp]:
  "o_config (abandon_sub s ow) = o_config ow" "o_trust (abandon_sub s ow) = o_trust ow"
  "o_identity (abandon_sub s ow) = o_identity ow" "o_self (abandon_sub s ow) = o_self ow"
  "o_cert (abandon_sub s ow) = o_cert ow" "o_peers (abandon_sub s ow) = o_peers ow"
  "o_subs (abandon_sub s ow) = o_subs ow" "o_pending (abandon_sub s ow) = o_pending ow"
  "o_dedup (abandon_sub s ow) = o_dedup ow" "o_terminal (abandon_sub s ow) = o_terminal ow"
  "o_sequences (abandon_sub s ow) = o_sequences ow" "o_epoch (abandon_sub s ow) = o_epoch ow"
  "o_drain (abandon_sub s ow) = o_drain ow" "o_clock_failed (abandon_sub s ow) = o_clock_failed ow"
  "o_log (abandon_sub s ow) = o_log ow"
  by (simp_all add: abandon_sub_def)

lemma log_event_frame [simp]:
  "o_config (log_event v ow) = o_config ow" "o_trust (log_event v ow) = o_trust ow"
  "o_identity (log_event v ow) = o_identity ow" "o_self (log_event v ow) = o_self ow"
  "o_cert (log_event v ow) = o_cert ow" "o_peers (log_event v ow) = o_peers ow"
  "o_subs (log_event v ow) = o_subs ow" "o_pending (log_event v ow) = o_pending ow"
  "o_dedup (log_event v ow) = o_dedup ow" "o_terminal (log_event v ow) = o_terminal ow"
  "o_sequences (log_event v ow) = o_sequences ow" "o_epoch (log_event v ow) = o_epoch ow"
  "o_drain (log_event v ow) = o_drain ow" "o_clock_failed (log_event v ow) = o_clock_failed ow"
  by (simp_all add: log_event_def)

lemma finish_frame [simp]:
  "o_config (finish k r ow) = o_config ow" "o_trust (finish k r ow) = o_trust ow"
  "o_identity (finish k r ow) = o_identity ow" "o_self (finish k r ow) = o_self ow"
  "o_cert (finish k r ow) = o_cert ow" "o_peers (finish k r ow) = o_peers ow"
  "o_subs (finish k r ow) = o_subs ow" "o_dedup (finish k r ow) = o_dedup ow"
  "o_sequences (finish k r ow) = o_sequences ow" "o_epoch (finish k r ow) = o_epoch ow"
  "o_drain (finish k r ow) = o_drain ow" "o_clock_failed (finish k r ow) = o_clock_failed ow"
  by (simp_all add: finish_def Let_def split: option.splits)

lemma drop_peer_frame [simp]:
  "o_config (drop_peer e ow) = o_config ow" "o_trust (drop_peer e ow) = o_trust ow"
  "o_identity (drop_peer e ow) = o_identity ow" "o_self (drop_peer e ow) = o_self ow"
  "o_cert (drop_peer e ow) = o_cert ow" "o_subs (drop_peer e ow) = o_subs ow"
  "o_pending (drop_peer e ow) = o_pending ow" "o_dedup (drop_peer e ow) = o_dedup ow"
  "o_terminal (drop_peer e ow) = o_terminal ow" "o_sequences (drop_peer e ow) = o_sequences ow"
  "o_epoch (drop_peer e ow) = o_epoch ow" "o_drain (drop_peer e ow) = o_drain ow"
  "o_clock_failed (drop_peer e ow) = o_clock_failed ow" "o_log (drop_peer e ow) = o_log ow"
  by (simp_all add: drop_peer_def split: option.splits)

lemma remove_peer_frame [simp]:
  "o_config (remove_peer tk e ow) = o_config ow" "o_trust (remove_peer tk e ow) = o_trust ow"
  "o_identity (remove_peer tk e ow) = o_identity ow" "o_self (remove_peer tk e ow) = o_self ow"
  "o_cert (remove_peer tk e ow) = o_cert ow" "o_dedup (remove_peer tk e ow) = o_dedup ow"
  "o_sequences (remove_peer tk e ow) = o_sequences ow" "o_epoch (remove_peer tk e ow) = o_epoch ow"
  "o_drain (remove_peer tk e ow) = o_drain ow" "o_clock_failed (remove_peer tk e ow) = o_clock_failed ow"
  unfolding remove_peer_def Let_def case_prod_beta by (subst fold_same, simp, simp)+

end
