(* ===== verification/Owner_Peers.thy ===== *)
theory Owner_Peers
  imports Owner_State
begin

text \<open>
  The handlers of the endpoint owner that deal with sessions and subscriptions: \<open>register\<close> with
  its tie-break between two sessions to the same peer, \<open>subscribe\<close>, and \<open>control\<close> with one
  definition for every kind of control frame.
\<close>

section \<open>Registration\<close>

definition new_budget :: "nat \<Rightarrow> ('e, 'w) owner \<Rightarrow> budget_ref \<times> ('e, 'w) owner" where
  "new_budget lim ow = (\<lparr>br_id = o_next ow, br_limit = lim\<rparr>, ow\<lparr>o_next := Suc (o_next ow)\<rparr>)"

text \<open>\<open>peer_budgets.entry(peer).or_insert_with(..)\<close>.\<close>

definition peer_budget_entry ::
  "('e::linorder) \<Rightarrow> ('e, 'w) owner \<Rightarrow> (budget_ref \<times> budget_ref) \<times> ('e, 'w) owner"
where
  "peer_budget_entry peer ow =
     (case bm_get peer (o_peer_budgets ow) of
        Some bs \<Rightarrow> (bs, ow)
      | None \<Rightarrow>
        (case new_budget (per_peer_messages (o_config ow)) ow of (slt, ow) \<Rightarrow>
         case new_budget (per_peer_bytes (o_config ow)) ow of (bts, ow) \<Rightarrow>
           ((slt, bts), ow\<lparr>o_peer_budgets := bm_put peer (slt, bts) (o_peer_budgets ow)\<rparr>)))"

definition announce :: "('e, 'w) env \<Rightarrow> 'e \<Rightarrow> (topic, 'e local_sub) bmap \<Rightarrow> 'e peer \<Rightarrow> 'w \<Rightarrow> 'e peer \<times> 'w" where
  "announce E peer subs p w =
     fold (\<lambda>(topic, s) (p, w). peer_send E peer (Subscribe topic (s_id s) (s_mode s)) p w) subs (p, w)"

text \<open>The tie-break against a session with the same peer, and the limit on peers: the early return,
  if there is one.\<close>

definition register_early ::
  "('e::linorder) \<Rightarrow> 'e registration \<Rightarrow> ('e, 'w) owner \<Rightarrow> bool result option"
where
  "register_early peer reg ow =
     (case bm_get peer (o_peers ow) of
        Some existing \<Rightarrow>
          if (reg_dialer (p_reg existing), reg_nonce (p_reg existing)) \<le> (reg_dialer reg, reg_nonce reg)
          then Some (Inr False) else None
      | None \<Rightarrow> if length (o_peers ow) \<ge> max_peers (o_config ow) then Some (Inl QueueFull) else None)"

definition install_session ::
  "('e::linorder, 'w) env \<Rightarrow> 'e tick \<Rightarrow> 'e \<Rightarrow> 'e registration \<Rightarrow> permit \<Rightarrow> ('e, 'w) owner \<Rightarrow> ('e, 'w) owner"
where
  "install_session E tk peer reg memory ow =
     (let ow = remove_peer tk peer ow;
          ow = ow\<lparr>o_pending := bm_map (\<lambda>key pd.
                 if fst key = peer then pd\<lparr>pd_cert := reg_cert reg\<rparr> else pd) (o_pending ow)\<rparr>
      in case peer_budget_entry peer ow of ((slt, bts), ow) \<Rightarrow>
         case announce E peer (o_subs ow)
                \<lparr>p_reg = reg, p_outbound = [], p_inbound = [], p_slots = slt, p_bytes = bts, p_memory = memory\<rparr>
                (o_world ow) of (p, w) \<Rightarrow>
           ow\<lparr>o_peers := bm_put peer p (o_peers ow), o_world := w\<rparr>)"

definition register ::
  "('e::linorder, 'w) env \<Rightarrow> 'e tick \<Rightarrow> 'e \<Rightarrow> 'e registration \<Rightarrow> ('e, 'w) owner \<Rightarrow> bool result \<times> ('e, 'w) owner"
where
  "register E tk peer reg ow =
     sbind (local_valid tk ow, ow) (\<lambda>now ow.
     sbind (fail_if (o_drain ow \<noteq> None) ShuttingDown, ow) (\<lambda>_ ow.
     sbind (trust_verify (ev_lib E) (o_trust ow) (reg_cert reg) peer now, ow) (\<lambda>_ ow.
     sbind (admission_check (o_admission ow) peer (reg_cert reg), ow) (\<lambda>_ ow.
     case register_early peer reg ow of
       Some r \<Rightarrow> (r, ow)
     | None \<Rightarrow>
       sbind (tryop (rbind (o_reserve (o_metadata ow) (length (c_bytes (reg_cert reg)) * 4 + 16 * 1024) ow)
                (\<lambda>(m, ow). Inr ((reg_cert reg)\<lparr>c_memory := Some m\<rparr>, ow))) ow) (\<lambda>cert ow.
       sbind (tryop (o_reserve (o_metadata ow) (length (c_bytes cert) + 4096) ow) ow) (\<lambda>memory ow.
         (Inr True, install_session E tk peer (reg\<lparr>reg_cert := cert\<rparr>) memory ow)))))))"

section \<open>Local subscriptions\<close>

definition subscribe ::
  "('e::linorder, 'w) env \<Rightarrow> 'e tick \<Rightarrow> topic \<Rightarrow> delivery_mode \<Rightarrow> ('e, 'w) owner \<Rightarrow> unit result \<times> ('e, 'w) owner"
where
  "subscribe E tk topic mode ow =
     sbind (local_valid tk ow, ow) (\<lambda>_ ow.
     sbind (fail_if (o_drain ow \<noteq> None) ShuttingDown, ow) (\<lambda>_ ow.
     sbind (fail_if (\<not> allows (o_cert ow) topic False) Unauthorized, ow) (\<lambda>_ ow.
     sbind (fail_if (bm_has topic (o_subs ow)) AlreadySubscribed, ow) (\<lambda>_ ow.
     (let ceiling = max_subscriptions (certificate_limits (o_cert ow)) in
      sbind (fail_if (length (o_subs ow) \<ge> max_topics (o_config ow)
               \<or> (ceiling \<noteq> 0 \<and> word_of_nat (length (o_subs ow)) \<ge> ceiling)) QueueFull, ow) (\<lambda>_ ow.
      sbind (tryop (o_reserve (o_metadata ow)
               (2048 + max_peers (o_config ow) * 128 + subscription_messages (o_config ow) * ev_delivery_size E) ow) ow)
        (\<lambda>memory ow.
      (let sub = tk_rand tk; ow = send_all E (Subscribe topic sub mode) ow in
       case new_budget (subscription_messages (o_config ow)) ow of (slt, ow) \<Rightarrow>
       case new_budget (subscription_bytes (o_config ow)) ow of (bts, ow) \<Rightarrow>
         (Inr (),
          hand_out [memory] (ow\<lparr>o_subs := bm_put topic
            \<lparr>s_id = sub, s_mode = mode, s_tx = chan_new (subscription_messages (o_config ow)) memory, s_ready = [],
             s_slots = slt, s_bytes = bts, s_confirmed = {}, s_grants = [], s_demand = []\<rparr> (o_subs ow)\<rparr>))))))))))"

section \<open>Control frames\<close>

definition update_peer :: "'e \<Rightarrow> ('e peer \<Rightarrow> 'e peer) \<Rightarrow> ('e, 'w) owner \<Rightarrow> ('e, 'w) owner" where
  "update_peer e f ow = ow\<lparr>o_peers := bm_adjust e f (o_peers ow)\<rparr>"

definition update_sub :: "topic \<Rightarrow> ('e local_sub \<Rightarrow> 'e local_sub) \<Rightarrow> ('e, 'w) owner \<Rightarrow> ('e, 'w) owner" where
  "update_sub t f ow = ow\<lparr>o_subs := bm_adjust t f (o_subs ow)\<rparr>"

definition control_subscribe ::
  "('e::linorder, 'w) env \<Rightarrow> 'e \<Rightarrow> topic \<Rightarrow> bytes \<Rightarrow> delivery_mode \<Rightarrow> ('e, 'w) owner \<Rightarrow> unit result \<times> ('e, 'w) owner"
where
  "control_subscribe E peer topic sub mode ow =
     (case bm_get peer (o_peers ow) of
        None \<Rightarrow> (Inl PeerUnavailable, ow)
      | Some p \<Rightarrow>
        (let permitted = allows (reg_cert (p_reg p)) topic False \<and> allows (o_cert ow) topic True \<and> o_drain ow = None;
             ceiling = max_subscriptions (certificate_limits (reg_cert (p_reg p)));
             n = length (p_outbound p)
         in
         if \<not> permitted then (Inr (), o_send E peer (Suback topic sub 1) ow)
         else if (case bm_get topic (p_outbound p) of
                    None \<Rightarrow> False | Some b \<Rightarrow> b_sub b = sub \<and> b_mode b = mode)
         then (Inr (), o_send E peer (Suback topic sub 0) ow)
         else if \<not> bm_has topic (p_outbound p)
                 \<and> (n \<ge> max_topics (o_config ow) \<or> n \<ge> reg_max_topics (p_reg p)
                    \<or> (ceiling \<noteq> 0 \<and> word_of_nat n \<ge> ceiling))
         then (Inr (), o_send E peer (Suback topic sub 2) ow)
         else
           sbind (tryop (o_reserve (o_metadata ow) 2048 ow) ow) (\<lambda>memory ow.
           (let ow = (case bm_get topic (p_outbound p) of
                        None \<Rightarrow> ow | Some b \<Rightarrow> hand_out (binding_permits b) ow);
                ow = update_peer peer (\<lambda>p. p\<lparr>p_outbound := bm_put topic
                       \<lparr>b_sub = sub, b_mode = mode, b_credit = None, b_requested = False,
                        b_writer = chan_new 1 memory\<rparr> (p_outbound p)\<rparr>) (hand_out [memory] ow)
            in (Inr (), o_send E peer (Suback topic sub 0) ow)))))"

definition control_suback ::
  "('e::linorder) \<Rightarrow> topic \<Rightarrow> bytes \<Rightarrow> u64 \<Rightarrow> ('e, 'w) owner \<Rightarrow> unit result \<times> ('e, 'w) owner"
where
  "control_suback peer topic sub code ow =
     (case bm_get topic (o_subs ow) of
        None \<Rightarrow> (Inr (), ow)
      | Some s \<Rightarrow>
        if s_id s \<noteq> sub then (Inr (), ow)
        else
          sbind (if code = 0 then Inr (Inr ()) else if code = 1 then Inr (Inl Unauthorized)
                 else if code = 2 then Inr (Inl QueueFull) else Inl (Protocol ''SUBACK code''), ow) (\<lambda>res ow.
            (Inr (), update_sub topic (\<lambda>s. s\<lparr>
               s_confirmed := (if res = Inr () then insert peer (s_confirmed s) else s_confirmed s),
               s_ready := bm_put peer res (s_ready s)\<rparr>) ow)))"

definition control_unsubscribe ::
  "('e::linorder) \<Rightarrow> topic \<Rightarrow> bytes \<Rightarrow> ('e, 'w) owner \<Rightarrow> unit result \<times> ('e, 'w) owner"
where
  "control_unsubscribe peer topic sub ow =
     (let ow = (case bm_get peer (o_peers ow) of
                  None \<Rightarrow> ow
                | Some p \<Rightarrow>
                  (case bm_get topic (p_outbound p) of
                     None \<Rightarrow> ow
                   | Some b \<Rightarrow>
                     if b_sub b = sub
                     then update_peer peer (\<lambda>p. p\<lparr>p_outbound := bm_del topic (p_outbound p)\<rparr>) (hand_out (binding_permits b) ow)
                     else ow));
          keys = filter (\<lambda>k. fst k = peer \<and> fst (snd k) = sub \<and> mid_topic (snd (snd k)) = topic) (bm_keys (o_pending ow))
      in (Inr (), fold (\<lambda>k. finish k (Failed SubscriptionClosed)) keys ow))"

definition control_request_credit ::
  "('e::linorder) \<Rightarrow> topic \<Rightarrow> bytes \<Rightarrow> nat \<Rightarrow> ('e, 'w) owner \<Rightarrow> unit result \<times> ('e, 'w) owner"
where
  "control_request_credit peer topic sub n ow =
     sbind (fail_if (n > cf_max_payload (o_config ow) + MAX_METADATA + 12) (Protocol ''credit request ceiling''), ow) (\<lambda>_ ow.
     (case bm_get topic (o_subs ow) of
        None \<Rightarrow> (Inr (), ow)
      | Some s \<Rightarrow>
        if s_id s = sub \<and> peer \<in> s_confirmed s
        then (Inr (), update_sub topic (\<lambda>s.
                if n = 0 then s\<lparr>s_grants := bm_del peer (s_grants s), s_demand := bm_del peer (s_demand s)\<rparr>
                else s\<lparr>s_demand := bm_put peer n (s_demand s)\<rparr>) ow)
        else (Inr (), ow)))"

definition control_credit ::
  "('e::linorder, 'w) env \<Rightarrow> 'e \<Rightarrow> topic \<Rightarrow> bytes \<Rightarrow> nat \<Rightarrow> ('e, 'w) owner \<Rightarrow> unit result \<times> ('e, 'w) owner"
where
  "control_credit E peer topic sub n ow =
     (case bm_get peer (o_peers ow) of
        None \<Rightarrow> (Inl PeerUnavailable, ow)
      | Some p \<Rightarrow>
        if n > reg_max_payload (p_reg p) + MAX_METADATA + 12 \<or> n = 0
        then (Inl (Protocol ''credit byte ceiling''), ow)
        else
          (let pending = list_ex (\<lambda>k. fst k = peer \<and> fst (snd k) = sub \<and> mid_topic (snd (snd k)) = topic)
                 (bm_keys (o_pending ow))
           in case bm_get topic (p_outbound p) of
                None \<Rightarrow> (Inr (), ow)
              | Some b \<Rightarrow>
                if b_sub b \<noteq> sub then (Inr (), ow)
                else if \<not> b_requested b
                then (Inl (Protocol ''unsolicited or duplicate credit grant''), ow)
                else
                  (let set = (\<lambda>f. update_peer peer (\<lambda>p. p\<lparr>p_outbound := bm_adjust topic f (p_outbound p)\<rparr>)) in
                   if b_credit b \<noteq> None
                   then (Inl (Protocol ''unsolicited or duplicate credit grant''), set (\<lambda>b. b\<lparr>b_credit := Some n\<rparr>) ow)
                   else if pending then (Inr (), set (\<lambda>b. b\<lparr>b_credit := Some n, b_requested := False\<rparr>) ow)
                   else (Inr (), o_send E peer (RequestCredit topic sub 0)
                           (set (\<lambda>b. b\<lparr>b_credit := None, b_requested := False\<rparr>) ow)))))"

definition control_outcome ::
  "('e::linorder) tick \<Rightarrow> 'e \<Rightarrow> topic \<Rightarrow> bytes \<Rightarrow> bytes \<Rightarrow> u64 \<Rightarrow> u64 \<Rightarrow> ('e, 'w) owner \<Rightarrow> unit result \<times> ('e, 'w) owner"
where
  "control_outcome tk peer topic sub epoch sequence code ow =
     (let key = (peer, sub, MessageId (t_realm (o_trust ow)) (o_self ow) epoch topic sequence) in
      if \<not> bm_has key (o_pending ow) \<and> \<not> bm_has key (o_terminal ow)
      then (Inl (Protocol ''acknowledgement for an unaddressed delivery''), ow)
      else case bm_get key (o_pending ow) of
        None \<Rightarrow> (Inr (), ow)
      | Some p \<Rightarrow>
        if pd_attempts p = 0 then (Inl (Protocol ''ACK before DATA''), ow)
        else if code = 0
        then (Inr (), finish key Processed
               (ow\<lparr>o_stats := (o_stats ow)\<lparr>me_processed := me_processed (o_stats ow) + 1\<rparr>\<rparr>))
        else if code = 1
        then (Inr (), ow\<lparr>o_pending := bm_adjust key (\<lambda>p. p\<lparr>pd_next := tk_instant tk + retry_interval (o_config ow)\<rparr>)
               (o_pending ow)\<rparr>)
        else if code = 2 then (Inr (), finish key PermanentNack ow)
        else (Inl (Protocol ''outcome''), ow))"

definition control_goodbye :: "'e \<Rightarrow> ('e, 'w) owner \<Rightarrow> unit result \<times> ('e, 'w) owner" where
  "control_goodbye peer ow =
     (Inr (), update_peer peer (\<lambda>p. p\<lparr>p_reg := (p_reg p)\<lparr>reg_window_secs := 0\<rparr>\<rparr>) ow)"

definition owner_control ::
  "('e::linorder, 'w) env \<Rightarrow> 'e tick \<Rightarrow> 'e \<Rightarrow> control \<Rightarrow> ('e, 'w) owner \<Rightarrow> unit result \<times> ('e, 'w) owner"
where
  "owner_control E tk peer c ow =
     (case c of
        Subscribe topic sub mode \<Rightarrow> control_subscribe E peer topic sub mode ow
      | Suback topic sub code \<Rightarrow> control_suback peer topic sub code ow
      | Unsubscribe topic sub \<Rightarrow> control_unsubscribe peer topic sub ow
      | RequestCredit topic sub n \<Rightarrow> control_request_credit peer topic sub n ow
      | Credit topic sub n \<Rightarrow> control_credit E peer topic sub n ow
      | Outcome topic sub epoch sequence code \<Rightarrow> control_outcome tk peer topic sub epoch sequence code ow
      | ControlError _ \<Rightarrow> (Inl (Protocol ''remote error''), ow)
      | Goodbye \<Rightarrow> control_goodbye peer ow)"

section \<open>What an operation leaves alone\<close>

lemma update_peer_frame [simp]:
  "o_config (update_peer e f ow) = o_config ow" "o_trust (update_peer e f ow) = o_trust ow"
  "o_identity (update_peer e f ow) = o_identity ow" "o_self (update_peer e f ow) = o_self ow"
  "o_cert (update_peer e f ow) = o_cert ow" "o_subs (update_peer e f ow) = o_subs ow"
  "o_pending (update_peer e f ow) = o_pending ow" "o_dedup (update_peer e f ow) = o_dedup ow"
  "o_terminal (update_peer e f ow) = o_terminal ow" "o_sequences (update_peer e f ow) = o_sequences ow"
  "o_epoch (update_peer e f ow) = o_epoch ow" "o_drain (update_peer e f ow) = o_drain ow"
  "o_clock_failed (update_peer e f ow) = o_clock_failed ow" "o_log (update_peer e f ow) = o_log ow"
  by (simp_all add: update_peer_def)

lemma update_sub_frame [simp]:
  "o_config (update_sub t f ow) = o_config ow" "o_trust (update_sub t f ow) = o_trust ow"
  "o_identity (update_sub t f ow) = o_identity ow" "o_self (update_sub t f ow) = o_self ow"
  "o_cert (update_sub t f ow) = o_cert ow" "o_peers (update_sub t f ow) = o_peers ow"
  "o_pending (update_sub t f ow) = o_pending ow" "o_dedup (update_sub t f ow) = o_dedup ow"
  "o_terminal (update_sub t f ow) = o_terminal ow" "o_sequences (update_sub t f ow) = o_sequences ow"
  "o_epoch (update_sub t f ow) = o_epoch ow" "o_drain (update_sub t f ow) = o_drain ow"
  "o_clock_failed (update_sub t f ow) = o_clock_failed ow" "o_log (update_sub t f ow) = o_log ow"
  by (simp_all add: update_sub_def)

end
