(* ===== verification/Owner_Delivery.thy ===== *)
theory Owner_Delivery
  imports Owner_Peers
begin

text \<open>
  The handlers of the endpoint owner that move messages: \<open>publish\<close> with its fan-out, \<open>schedule\<close>
  with credit requests, sends and retry backoff, \<open>begin\<close> and \<open>incoming\<close> on the receiving side with
  the replay records, \<open>grant_credits\<close>, and the periodic \<open>maintenance\<close>.
\<close>

section \<open>Scheduling\<close>

definition data_charge :: "('e, 'w) env \<Rightarrow> bytes \<Rightarrow> bytes \<Rightarrow> bytes \<Rightarrow> lease \<Rightarrow> nat" where
  "data_charge E session sub sb payload =
     length (data_frame (codec (ev_lib E)) session sub sb) + 12 + lease_len payload"

text \<open>\<open>1 << attempts.saturating_sub(1).min(5)\<close>, and the delay before the next attempt; \<open>Duration\<close>
  multiplication saturates far above any interval the model reaches.\<close>

definition backoff :: "duration \<Rightarrow> nat \<Rightarrow> duration" where
  "backoff interval attempts = interval * 2 ^ min (attempts - 1) 5"

definition saturating_incr :: "nat \<Rightarrow> nat" where
  "saturating_incr n = min (Suc n) (2 ^ 32 - 1)"

definition set_binding ::
  "'e \<Rightarrow> topic \<Rightarrow> ('e binding \<Rightarrow> 'e binding) \<Rightarrow> ('e, 'w) owner \<Rightarrow> ('e, 'w) owner"
where
  "set_binding peer topic f = update_peer peer (\<lambda>p. p\<lparr>p_outbound := bm_adjust topic f (p_outbound p)\<rparr>)"

text \<open>One turn of the loop of \<open>schedule\<close>, for one pending delivery.\<close>

definition schedule_one :: "('e::linorder, 'w) env \<Rightarrow> 'e tick \<Rightarrow> 'e key \<Rightarrow> ('e, 'w) owner \<Rightarrow> ('e, 'w) owner" where
  "schedule_one E tk key ow =
     (case bm_get key (o_pending ow) of
        None \<Rightarrow> ow
      | Some pd \<Rightarrow>
        (let peer = fst key; sub = fst (snd key); topic = mid_topic (snd (snd key)); now = tk_instant tk in
         if pd_writing pd \<or> pd_next pd > now \<or> pd_deadline pd \<le> now
            \<or> (case tk_now tk of Inr t \<Rightarrow> t \<ge> env_expires (pd_envelope pd) | Inl _ \<Rightarrow> False)
         then ow
         else case bm_get peer (o_peers ow) of
           None \<Rightarrow> ow
         | Some p \<Rightarrow>
           (case bm_get topic (p_outbound p) of
              None \<Rightarrow> ow
            | Some b \<Rightarrow>
              if b_sub b \<noteq> sub \<or> b_mode b \<noteq> env_mode (pd_envelope pd) then ow
              else
                (let session = reg_session (p_reg p);
                     need = data_charge E session sub (pd_signed pd) (pd_payload pd)
                 in case b_credit b of
                   None \<Rightarrow>
                     if b_requested b then ow
                     else (case ev_ctl E peer session (RequestCredit topic sub need) (o_world ow) of
                             Some w \<Rightarrow> set_binding peer topic (\<lambda>b. b\<lparr>b_requested := True\<rparr>) (ow\<lparr>o_world := w\<rparr>)
                           | None \<Rightarrow> update_peer peer (\<lambda>p. p\<lparr>p_reg := (p_reg p)\<lparr>reg_cancelled := True\<rparr>\<rparr>) ow)
                 | Some credit \<Rightarrow>
                     if need > credit then ow
                     else (case chan_send \<lparr>do_key = key, do_signed = pd_signed pd, do_payload = pd_payload pd,
                                           do_memory = pd_memory pd\<rparr> (b_writer b) of
                             None \<Rightarrow> ow
                           | Some ch \<Rightarrow>
                             (let attempts = saturating_incr (pd_attempts pd);
                                  ow = set_binding peer topic (\<lambda>b. b\<lparr>b_credit := None, b_writer := ch\<rparr>) ow;
                                  ow = (if pd_attempts pd > 0
                                        then ow\<lparr>o_stats := (o_stats ow)\<lparr>me_retried := me_retried (o_stats ow) + 1\<rparr>\<rparr>
                                        else ow)
                              in ow\<lparr>o_pending := bm_adjust key (\<lambda>pd. pd\<lparr>pd_writing := True, pd_attempts := attempts,
                                     pd_next := now + backoff (retry_interval (o_config ow)) attempts + tk_jitter tk key\<rparr>)
                                     (o_pending ow)\<rparr>))))))"

definition schedule :: "('e::linorder, 'w) env \<Rightarrow> 'e tick \<Rightarrow> ('e, 'w) owner \<Rightarrow> ('e, 'w) owner" where
  "schedule E tk ow = fold (schedule_one E tk) (bm_keys (o_pending ow)) ow"

section \<open>Publishing\<close>

definition recipients :: "'e trust \<Rightarrow> u64 \<Rightarrow> topic \<Rightarrow> delivery_mode \<Rightarrow> ('e, 'e peer) bmap \<Rightarrow> ('e \<times> bytes) list" where
  "recipients trust now topic mode peers =
     List.map_filter (\<lambda>(e, p).
       case bm_get topic (p_outbound p) of
         None \<Rightarrow> None
       | Some b \<Rightarrow>
         if b_mode b = mode \<and> reg_window_secs (p_reg p) > 0 \<and> check trust (reg_cert (p_reg p)) e now = Inr ()
         then Some (e, b_sub b) else None) peers"

fun reserve_many :: "budget_ref \<Rightarrow> nat \<Rightarrow> nat \<Rightarrow> ('e, 'w) owner \<Rightarrow> (permit list \<times> ('e, 'w) owner) result" where
  "reserve_many b n 0 ow = Inr ([], ow)"
| "reserve_many b n (Suc k) ow =
     rbind (o_reserve b n ow) (\<lambda>(p, ow). rbind (reserve_many b n k ow) (\<lambda>(ps, ow). Inr (p # ps, ow)))"

text \<open>\<open>payload.len() as u64 > limit\<close> for a certificate limit, where zero means none.\<close>

definition over_limit :: "nat \<Rightarrow> u64 \<Rightarrow> bool" where
  "over_limit n lim \<longleftrightarrow> lim \<noteq> 0 \<and> (word_of_nat n :: u64) > lim"

definition recipient_reserve ::
  "'e peer \<Rightarrow> nat \<Rightarrow> u64 \<Rightarrow> nat \<Rightarrow> ('e, 'w) owner \<Rightarrow> ((permit \<times> permit) \<times> ('e, 'w) owner) result"
where
  "recipient_reserve p len lifetime need ow =
     rbind (fail_if (len > reg_max_payload (p_reg p)
              \<or> over_limit len (max_payload (certificate_limits (reg_cert (p_reg p))))) MessageTooLarge) (\<lambda>_.
     rbind (fail_if (lifetime > reg_window_secs (p_reg p)) (Config ''delivery window exceeds peer limit'')) (\<lambda>_.
     rbind (o_reserve (p_slots p) 1 ow) (\<lambda>(slot, ow).
     rbind (o_reserve (p_bytes p) need ow) (\<lambda>(bts, ow).
       Inr ((slot, bts), ow)))))"

text \<open>One turn of the fan-out loop.\<close>

definition publish_one ::
  "('e::linorder) tick \<Rightarrow> publish_options \<Rightarrow> lease \<Rightarrow> 'e envelope \<Rightarrow> bytes \<Rightarrow> ('e \<times> bytes) \<times> permit
   \<Rightarrow> ('e, 'w) owner \<Rightarrow> ('e, 'w) owner"
where
  "publish_one tk opts payload e sb entry ow =
     (case entry of ((peer, sub), memory) \<Rightarrow>
      case bm_get peer (o_peers ow) of
        None \<Rightarrow> ow
      | Some p \<Rightarrow>
        (let key = (peer, sub, env_id e); n = lease_len payload in
         case recipient_reserve p n (as_secs (po_lifetime opts)) (n + length sb + 256) ow of
           Inr ((slot, bts), ow) \<Rightarrow>
             log_event (Outcome_Set key Pending)
               (ow\<lparr>o_pending := bm_put key
                  \<lparr>pd_cert = reg_cert (p_reg p), pd_signed = sb, pd_envelope = e, pd_payload = payload,
                   pd_memory = memory, pd_slot = slot, pd_bytes = bts, pd_deadline = tk_instant tk + po_lifetime opts,
                   pd_next = tk_instant tk, pd_attempts = 0, pd_writing = False\<rparr> (o_pending ow),
                  o_stats := (o_stats ow)\<lparr>me_admitted := me_admitted (o_stats ow) + 1\<rparr>\<rparr>)
         | Inl error \<Rightarrow>
             log_event (Outcome_Set key (Rejected error))
               (ow\<lparr>o_stats := (o_stats ow)\<lparr>me_rejected := me_rejected (o_stats ow) + 1\<rparr>\<rparr>)))"

definition next_sequence :: "topic \<Rightarrow> ('e, 'w) owner \<Rightarrow> u64 result \<times> ('e, 'w) owner" where
  "next_sequence topic ow =
     (let current = (case bm_get topic (o_sequences ow) of None \<Rightarrow> 0 | Some n \<Rightarrow> n) in
      case checked_add current 1 of
        None \<Rightarrow> (Inl (Config ''sequence exhausted''), ow\<lparr>o_sequences := bm_put topic current (o_sequences ow)\<rparr>)
      | Some n \<Rightarrow> (Inr n, ow\<lparr>o_sequences := bm_put topic n (o_sequences ow)\<rparr>))"

definition publish ::
  "('e::linorder, 'w) env \<Rightarrow> 'e tick \<Rightarrow> topic \<Rightarrow> lease \<Rightarrow> publish_options \<Rightarrow> ('e, 'w) owner
   \<Rightarrow> ('e message_id \<times> 'e list) result \<times> ('e, 'w) owner"
where
  "publish E tk topic payload opts ow =
     sbind (local_valid tk ow, ow) (\<lambda>now ow.
     sbind (fail_if (o_drain ow \<noteq> None) ShuttingDown, ow) (\<lambda>_ ow.
     sbind (fail_if (\<not> allows (o_cert ow) topic True) Unauthorized, ow) (\<lambda>_ ow.
     sbind (fail_if (lease_len payload > cf_max_payload (o_config ow)
              \<or> over_limit (lease_len payload) (max_payload (certificate_limits (o_cert ow)))) MessageTooLarge, ow) (\<lambda>_ ow.
     sbind (fail_if (as_secs (po_lifetime opts) = 0 \<or> po_lifetime opts > delivery_window (o_config ow)
              \<or> length (po_format opts) > 256) (Config ''publication lifetime or format''), ow) (\<lambda>_ ow.
     (let rs = recipients (o_trust ow) now topic (po_mode opts) (o_peers ow) in
      sbind (fail_if (rs = []) NoSubscribers, ow) (\<lambda>_ ow.
      sbind (fail_if (\<not> bm_has topic (o_sequences ow) \<and> length (o_sequences ow) \<ge> max_topics (o_config ow)) QueueFull, ow) (\<lambda>_ ow.
      sbind (next_sequence topic ow) (\<lambda>sequence ow.
      sbind (ok_or (checked_add now (as_secs (po_lifetime opts))) Clock, ow) (\<lambda>expires ow.
      (let i = MessageId (t_realm (o_trust ow)) (o_self ow) (o_epoch ow) topic sequence;
           e = \<lparr>env_id = i, env_created = now, env_expires = expires, env_format = po_format opts,
                env_len = lease_len payload, env_digest = digest (ev_lib E) (lease_bytes payload), env_mode = po_mode opts\<rparr>;
           sb = envelope_sign (ev_lib E) e (o_identity ow)
       in sbind (tryop (reserve_many (o_metadata ow) (length sb + 2048) (length rs) ow) ow) (\<lambda>ms ow.
          (let ow = fold (publish_one tk opts payload e sb) (zip rs ms) ow
           in (Inr (i, map fst rs), hand_out ms (schedule E tk ow)))))))))))))))"

section \<open>Receiving\<close>

definition begin_checks ::
  "('e::linorder, 'w) env \<Rightarrow> 'e tick \<Rightarrow> 'e \<Rightarrow> bytes \<Rightarrow> bytes \<Rightarrow> nat \<Rightarrow> ('e, 'w) owner \<Rightarrow> 'e envelope result"
where
  "begin_checks E tk peer session sb len ow =
     rbind (peer_valid tk peer session ow) (\<lambda>p.
     rbind (envelope_verify (ev_lib E) sb peer) (\<lambda>e.
     rbind (tk_now tk) (\<lambda>now.
     (let topic = mid_topic (env_id e) in
      rbind (fail_if (realm_id (env_id e) \<noteq> t_realm (o_trust ow) \<or> \<not> allows (reg_cert (p_reg p)) topic True
               \<or> \<not> allows (o_cert ow) topic False) Unauthorized) (\<lambda>_.
      rbind (fail_if (env_len e \<noteq> len \<or> len > cf_max_payload (o_config ow)
               \<or> over_limit len (max_payload (certificate_limits (o_cert ow)))
               \<or> over_limit len (max_payload (certificate_limits (reg_cert (p_reg p))))) MessageTooLarge) (\<lambda>_.
      rbind (fail_if (env_created e > saturating_add now (clock_skew_secs (o_trust ow))
               \<or> env_expires e - env_created e > as_secs (delivery_window (o_config ow))) DeliveryExpired) (\<lambda>_.
        Inr e)))))))"

text \<open>The stream of a topic binding: one per subscription of the peer.\<close>

definition begin_stream ::
  "('e::linorder) \<Rightarrow> bytes \<Rightarrow> u64 \<Rightarrow> topic \<Rightarrow> ('e, 'w) owner \<Rightarrow> unit result \<times> ('e, 'w) owner"
where
  "begin_stream peer sub stream topic ow =
     sbind (ok_or (bm_get peer (o_peers ow)) PeerUnavailable, ow) (\<lambda>p ow.
     sbind (fail_if (case bm_get topic (p_inbound p) of
               None \<Rightarrow> False | Some (existing_sub, existing_stream) \<Rightarrow> existing_sub = sub \<and> existing_stream \<noteq> stream)
              (Protocol ''multiple streams for a topic binding''), ow) (\<lambda>_ ow.
     sbind (fail_if (\<not> bm_has topic (p_inbound p) \<and> length (p_inbound p) \<ge> max_topics (o_config ow)) QueueFull, ow) (\<lambda>_ ow.
       (Inr (), update_peer peer (\<lambda>p. p\<lparr>p_inbound := bm_put topic (sub, stream) (p_inbound p)\<rparr>) ow))))"

text \<open>The credit of the peer for the subscription, which is consumed.\<close>

definition begin_grant ::
  "('e::linorder) \<Rightarrow> bytes \<Rightarrow> 'e envelope \<Rightarrow> ('e, 'w) owner \<Rightarrow> credit_grant result \<times> ('e, 'w) owner"
where
  "begin_grant peer sub e ow =
     (let topic = mid_topic (env_id e) in
      sbind (ok_or (bm_get topic (o_subs ow)) SubscriptionClosed, ow) (\<lambda>s ow.
      sbind (fail_if (s_id s \<noteq> sub \<or> s_mode s \<noteq> env_mode e \<or> peer \<notin> s_confirmed s) Unauthorized, ow) (\<lambda>_ ow.
      sbind (ok_or (bm_get peer (s_grants s)) (Protocol ''DATA without credit''), ow) (\<lambda>g ow.
        (Inr g, update_sub topic (\<lambda>s. s\<lparr>s_grants := bm_del peer (s_grants s)\<rparr>) ow)))))"

text \<open>\<open>Inr None\<close> is the panic of \<open>shrink_to\<close>.\<close>

definition begin_data ::
  "('e::linorder, 'w) env \<Rightarrow> 'e tick \<Rightarrow> 'e \<Rightarrow> bytes \<Rightarrow> bytes \<Rightarrow> u64 \<Rightarrow> bytes \<Rightarrow> nat \<Rightarrow> ('e, 'w) owner
   \<Rightarrow> 'e receive_ticket option result \<times> ('e, 'w) owner"
where
  "begin_data E tk peer session sub stream sb len ow =
     sbind (begin_checks E tk peer session sb len ow, ow) (\<lambda>e ow.
     sbind (begin_stream peer sub stream (mid_topic (env_id e)) ow) (\<lambda>_ ow.
     sbind (begin_grant peer sub e ow) (\<lambda>g ow.
     sbind (fail_if (len + length (data_frame (codec (ev_lib E)) session sub sb) + 12 > cg_bytes g)
              (Protocol ''DATA exceeds credit''), ow) (\<lambda>_ ow.
     (let fingerprint = digest (ev_lib E) sb in
      sbind (fail_if (case bm_get (sub, env_id e) (o_dedup ow) of
                None \<Rightarrow> False | Some d \<Rightarrow> dd_fingerprint d \<noteq> fingerprint)
               (Protocol ''conflicting message identity''), ow) (\<lambda>_ ow.
      if length sb + 2048 > permit_n (cg_metadata g) then (Inr None, ow)
      else
        (let metadata = (cg_metadata g)\<lparr>permit_n := length sb + 2048\<rparr> in
         (Inr (Some \<lparr>rt_envelope = e, rt_fingerprint = fingerprint, rt_permits = cg_permits g, rt_metadata = metadata\<rparr>),
          hand_out (metadata # cg_permits g) ow))))))))"

text \<open>Handing a message to its subscription, with the replay record of what came of it.\<close>

definition deliver ::
  "('e::linorder, 'w) env \<Rightarrow> 'e \<Rightarrow> bytes \<Rightarrow> 'e receive_ticket \<Rightarrow> lease \<Rightarrow> 'e local_sub \<Rightarrow> ('e, 'w) owner \<Rightarrow> ('e, 'w) owner"
where
  "deliver E peer sub ticket payload s ow =
     (let e = rt_envelope ticket;
          sent = chan_send \<lparr>d_id = env_id e, d_format = env_format e, d_payload = payload\<rparr> (s_tx s);
          ow = (case sent of
                  Some ch \<Rightarrow>
                    log_event (Delivered sub e (lease_bytes payload))
                      (hand_out (lease_permits payload) (update_sub (mid_topic (env_id e)) (\<lambda>s. s\<lparr>s_tx := ch\<rparr>) ow))
                | None \<Rightarrow> send_outcome E peer sub (env_id e) 1 ow)
      in ow\<lparr>o_dedup := bm_put (sub, env_id e)
            \<lparr>dd_fingerprint = rt_fingerprint ticket, dd_expires = env_expires e,
             dd_state = (if sent \<noteq> None then DedupProcessing 0 else DedupRetryable),
             dd_memory = rt_metadata ticket\<rparr> (o_dedup ow)\<rparr>)"

definition incoming ::
  "('e::linorder, 'w) env \<Rightarrow> 'e tick \<Rightarrow> 'e \<Rightarrow> bytes \<Rightarrow> bytes \<Rightarrow> 'e receive_ticket \<Rightarrow> lease \<Rightarrow> ('e, 'w) owner
   \<Rightarrow> unit result \<times> ('e, 'w) owner"
where
  "incoming E tk peer session sub ticket payload ow =
     sbind (peer_valid tk peer session ow, ow) (\<lambda>_ ow.
     (let e = rt_envelope ticket in
      sbind (fail_if (\<not> payload_matches (ev_lib E) e (lease_bytes payload)) (Protocol ''payload digest''), ow) (\<lambda>_ ow.
      sbind (tk_now tk, ow) (\<lambda>now ow.
      case (if now \<ge> env_expires e then None
            else case bm_get (mid_topic (env_id e)) (o_subs ow) of
              None \<Rightarrow> None | Some s \<Rightarrow> if s_id s = sub then Some s else None) of
        None \<Rightarrow> (Inr (), send_outcome E peer sub (env_id e) 2 ow)
      | Some s \<Rightarrow>
        (case bm_get (sub, env_id e) (o_dedup ow) of
           None \<Rightarrow> (Inr (), deliver E peer sub ticket payload s ow)
         | Some d \<Rightarrow>
           if dd_fingerprint d \<noteq> rt_fingerprint ticket then (Inl (Protocol ''conflicting message identity''), ow)
           else (case dd_state d of
                   DedupProcessed \<Rightarrow> (Inr (), send_outcome E peer sub (env_id e) 0 ow)
                 | DedupPermanent \<Rightarrow> (Inr (), send_outcome E peer sub (env_id e) 2 ow)
                 | DedupProcessing _ \<Rightarrow> (Inr (), ow)
                 | DedupRetryable \<Rightarrow> (Inr (), deliver E peer sub ticket payload s ow)))))))"

section \<open>What an operation leaves alone\<close>

lemma set_binding_frame [simp]:
  "o_config (set_binding e t f ow) = o_config ow" "o_trust (set_binding e t f ow) = o_trust ow"
  "o_identity (set_binding e t f ow) = o_identity ow" "o_self (set_binding e t f ow) = o_self ow"
  "o_cert (set_binding e t f ow) = o_cert ow" "o_subs (set_binding e t f ow) = o_subs ow"
  "o_pending (set_binding e t f ow) = o_pending ow" "o_dedup (set_binding e t f ow) = o_dedup ow"
  "o_terminal (set_binding e t f ow) = o_terminal ow" "o_sequences (set_binding e t f ow) = o_sequences ow"
  "o_epoch (set_binding e t f ow) = o_epoch ow" "o_drain (set_binding e t f ow) = o_drain ow"
  "o_clock_failed (set_binding e t f ow) = o_clock_failed ow" "o_log (set_binding e t f ow) = o_log ow"
  by (simp_all add: set_binding_def)

lemma schedule_one_frame [simp]:
  "o_config (schedule_one E tk k ow) = o_config ow" "o_trust (schedule_one E tk k ow) = o_trust ow"
  "o_identity (schedule_one E tk k ow) = o_identity ow" "o_self (schedule_one E tk k ow) = o_self ow"
  "o_cert (schedule_one E tk k ow) = o_cert ow" "o_subs (schedule_one E tk k ow) = o_subs ow"
  "o_dedup (schedule_one E tk k ow) = o_dedup ow" "o_terminal (schedule_one E tk k ow) = o_terminal ow"
  "o_sequences (schedule_one E tk k ow) = o_sequences ow" "o_epoch (schedule_one E tk k ow) = o_epoch ow"
  "o_drain (schedule_one E tk k ow) = o_drain ow" "o_clock_failed (schedule_one E tk k ow) = o_clock_failed ow"
  "o_log (schedule_one E tk k ow) = o_log ow"
  by (simp_all add: schedule_one_def Let_def split: option.splits)

lemma schedule_frame [simp]:
  "o_config (schedule E tk ow) = o_config ow" "o_trust (schedule E tk ow) = o_trust ow"
  "o_identity (schedule E tk ow) = o_identity ow" "o_self (schedule E tk ow) = o_self ow"
  "o_cert (schedule E tk ow) = o_cert ow" "o_subs (schedule E tk ow) = o_subs ow"
  "o_dedup (schedule E tk ow) = o_dedup ow" "o_terminal (schedule E tk ow) = o_terminal ow"
  "o_sequences (schedule E tk ow) = o_sequences ow" "o_epoch (schedule E tk ow) = o_epoch ow"
  "o_drain (schedule E tk ow) = o_drain ow" "o_clock_failed (schedule E tk ow) = o_clock_failed ow"
  "o_log (schedule E tk ow) = o_log ow"
  unfolding schedule_def by (intro fold_same; simp)+

end
