(* ===== verification/Owner_Maintenance.thy ===== *)
theory Owner_Maintenance
  imports Owner_Delivery
begin

text \<open>
  The periodic work of the endpoint owner: \<open>grant_credits\<close> and \<open>maintenance\<close>, with one definition
  for every loop of the latter, and \<open>metrics\<close>.
\<close>

section \<open>Granting credit\<close>

definition credit_candidates :: "(topic, 'e local_sub) bmap \<Rightarrow> (topic \<times> 'e) list" where
  "credit_candidates subs =
     concat (map (\<lambda>(topic, s).
       map (Pair topic) (filter (\<lambda>e. e \<in> s_confirmed s \<and> \<not> bm_has e (s_grants s)) (bm_keys (s_demand s)))) subs)"

definition credit_reserve ::
  "'e local_sub \<Rightarrow> nat \<Rightarrow> nat \<Rightarrow> ('e, 'w) owner \<Rightarrow> (credit_grant \<times> ('e, 'w) owner) result"
where
  "credit_reserve s payload_max n ow =
     rbind (o_reserve (o_metadata ow) 6144 ow) (\<lambda>(metadata, ow).
     rbind (o_reserve (s_slots s) 1 ow) (\<lambda>(a, ow).
     rbind (o_reserve (s_bytes s) n ow) (\<lambda>(b, ow).
     rbind (o_reserve (o_metadata ow) 256 ow) (\<lambda>(c, ow).
     rbind (o_reserve (o_pool ow) (payload_max + PAYLOAD_OVERHEAD) ow) (\<lambda>(d, ow).
       Inr (\<lparr>cg_bytes = n, cg_permits = [a, b, c, d], cg_metadata = metadata\<rparr>, ow))))))"

text \<open>One turn of the loop of \<open>grant_credits\<close>.\<close>

definition grant_one ::
  "('e::linorder, 'w) env \<Rightarrow> topic \<times> 'e \<Rightarrow> ('e, 'w) owner \<Rightarrow> ('e, 'w) owner"
where
  "grant_one E = (\<lambda>(topic, peer) ow.
     case bm_get peer (o_peers ow) of
       None \<Rightarrow> ow
     | Some p \<Rightarrow>
       (case bm_get topic (o_subs ow) of
          None \<Rightarrow> ow
        | Some s \<Rightarrow>
          (let payload_max = min (cf_max_payload (o_config ow)) (reg_max_payload (p_reg p));
               n = payload_max + MAX_METADATA + 12
           in case credit_reserve s payload_max n ow of
                Inl _ \<Rightarrow> ow
              | Inr (g, ow) \<Rightarrow>
                  o_send E peer (Credit topic (s_id s) n)
                    (update_sub topic (\<lambda>s. s\<lparr>s_demand := bm_del peer (s_demand s),
                                            s_grants := bm_put peer g (s_grants s)\<rparr>) ow))))"

definition grant_credits :: "('e::linorder, 'w) env \<Rightarrow> 'e tick \<Rightarrow> ('e, 'w) owner \<Rightarrow> ('e, 'w) owner" where
  "grant_credits E tk ow =
     (case local_valid tk ow of
        Inl _ \<Rightarrow> ow
      | Inr _ \<Rightarrow>
        (let cs = credit_candidates (o_subs ow) in
         if cs = [] then ow
         else fold (grant_one E) (rotate (o_cursor ow mod length cs) cs)
                (ow\<lparr>o_cursor := (o_cursor ow + 1) mod 2 ^ 64\<rparr>)))"

section \<open>Maintenance\<close>

definition abs_diff :: "u64 \<Rightarrow> u64 \<Rightarrow> u64" where
  "abs_diff a b = (if a < b then b - a else a - b)"

definition err :: "'a result \<Rightarrow> error option" where
  "err r = (case r of Inl e \<Rightarrow> Some e | Inr _ \<Rightarrow> None)"

text \<open>The reading of \<open>now\<close> in \<open>maintenance\<close>, and the comparison with the monotonic clock.\<close>

definition wall :: "'e tick \<Rightarrow> u64" where
  "wall tk = (case tk_now tk of Inr n \<Rightarrow> n | Inl _ \<Rightarrow> 0)"

definition clock_check :: "'e tick \<Rightarrow> ('e, 'w) owner \<Rightarrow> ('e, 'w) owner" where
  "clock_check tk ow =
     (let ow = (case tk_now tk of Inr n \<Rightarrow> ow\<lparr>o_admission := prune n (o_admission ow)\<rparr> | Inl _ \<Rightarrow> ow);
          ow = (case tk_now tk of Inr _ \<Rightarrow> ow | Inl _ \<Rightarrow> ow\<lparr>o_clock_failed := True\<rparr>);
          expected = saturating_add (fst (o_clock_start ow)) (as_secs (tk_instant tk - snd (o_clock_start ow)))
      in if abs_diff (wall tk) expected > 30 then ow\<lparr>o_clock_failed := True\<rparr> else ow)"

definition stale_peers :: "'e tick \<Rightarrow> ('e, 'w) owner \<Rightarrow> 'e list" where
  "stale_peers tk ow =
     map fst (filter (\<lambda>(e, p).
       err (local_valid tk ow) \<noteq> None \<or> check (o_trust ow) (reg_cert (p_reg p)) e (wall tk) \<noteq> Inr ()
       \<or> reg_cancelled (p_reg p) \<or> reg_closed (p_reg p)) (o_peers ow))"

definition remove_stale :: "('e::linorder) tick \<Rightarrow> ('e, 'w) owner \<Rightarrow> ('e, 'w) owner" where
  "remove_stale tk ow = fold (remove_peer tk) (stale_peers tk ow) ow"

definition close_sub :: "('e, 'w) env \<Rightarrow> topic \<Rightarrow> ('e, 'w) owner \<Rightarrow> ('e, 'w) owner" where
  "close_sub E topic ow =
     (case bm_get topic (o_subs ow) of
        None \<Rightarrow> ow
      | Some s \<Rightarrow>
        fold (\<lambda>e ow. o_send E e (Unsubscribe topic (s_id s))
                (update_peer e (\<lambda>p. p\<lparr>p_inbound := bm_del topic (p_inbound p)\<rparr>) ow))
          (bm_keys (o_peers ow))
          (abandon_sub s (ow\<lparr>o_subs := bm_del topic (o_subs ow)\<rparr>)))"

definition close_subs :: "('e, 'w) env \<Rightarrow> ('e, 'w) owner \<Rightarrow> ('e, 'w) owner" where
  "close_subs E ow = fold (close_sub E) (map fst (filter (\<lambda>(_, s). ch_closed (s_tx s)) (o_subs ow))) ow"

text \<open>One replay record: its new state, the completion it reports and the outcome it sends.\<close>

definition disposed_state :: "nat \<Rightarrow> dedup_state" where
  "disposed_state code = (if code = 1 then DedupProcessed else if code = 2 then DedupRetryable else DedupPermanent)"

definition disposed_code :: "nat \<Rightarrow> u64" where
  "disposed_code code = (if code = 1 then 0 else if code = 2 then 1 else 2)"

definition dispose ::
  "error option \<Rightarrow> u64 \<Rightarrow> dedup \<Rightarrow> (dedup_state \<times> unit result option \<times> u64 option)"
where
  "dispose local_error now d =
     (case dd_state d of
        DedupProcessing code \<Rightarrow>
          if local_error \<noteq> None \<or> now \<ge> dd_expires d
          then (DedupPermanent, Some (Inl (case local_error of Some e \<Rightarrow> e | None \<Rightarrow> DeliveryExpired)), None)
          else if code \<noteq> 0
          then (disposed_state code, Some (Inr ()), Some (disposed_code code))
          else (DedupProcessing code, None, None)
      | st \<Rightarrow> (st, None, None))"

definition settle_dedup ::
  "('e::linorder, 'w) env \<Rightarrow> error option \<Rightarrow> u64 \<Rightarrow> ('e, 'w) owner \<Rightarrow> ('e, 'w) owner"
where
  "settle_dedup E local_error now ow =
     (let events = List.map_filter (\<lambda>(k, d). map_option (Completed k) (fst (snd (dispose local_error now d)))) (o_dedup ow);
          outcomes = List.map_filter (\<lambda>(k, d). map_option (Pair k) (snd (snd (dispose local_error now d)))) (o_dedup ow);
          ow = ow\<lparr>o_dedup := bm_map (\<lambda>_ d. d\<lparr>dd_state := fst (dispose local_error now d)\<rparr>) (o_dedup ow),
                  o_log := o_log ow @ events\<rparr>;
          ow = fold (\<lambda>((sub, i), code). send_outcome E (publisher_endpoint_id i) sub i code) outcomes ow
      in ow\<lparr>o_dedup := bm_retain (\<lambda>_ d. now < dd_expires d) (o_dedup ow),
            o_terminal := bm_retain (\<lambda>_ r. now < te_expires r) (o_terminal ow)\<rparr>)"

text \<open>Why a pending delivery ends, in the order of the code's tests.\<close>

definition pending_error ::
  "'e tick \<Rightarrow> error option \<Rightarrow> u64 \<Rightarrow> ('e, 'w) owner \<Rightarrow> 'e key \<Rightarrow> 'e pending \<Rightarrow> error option"
where
  "pending_error tk local_error now ow key p =
     (let topic = mid_topic (snd (snd key)) in
      if local_error \<noteq> None then local_error
      else if \<not> allows (o_cert ow) topic True then Some Unauthorized
      else if pd_deadline p \<le> tk_instant tk \<or> now \<ge> env_expires (pd_envelope p) then Some DeliveryExpired
      else case check (o_trust ow) (pd_cert p) (fst key) now of
        Inl e \<Rightarrow> Some e
      | Inr _ \<Rightarrow>
        if \<not> allows (pd_cert p) topic False then Some Unauthorized
        else case bm_get (fst key) (o_peers ow) of
          None \<Rightarrow> None
        | Some peer \<Rightarrow>
          if \<not> allows (reg_cert (p_reg peer)) topic False then Some Unauthorized
          else case bm_get topic (p_outbound peer) of
            None \<Rightarrow> None
          | Some b \<Rightarrow>
            if b_sub b \<noteq> fst (snd key) \<or> b_mode b \<noteq> env_mode (pd_envelope p) then Some SubscriptionClosed else None)"

definition expire_one :: "('e::linorder) key \<times> error \<Rightarrow> ('e, 'w) owner \<Rightarrow> ('e, 'w) owner" where
  "expire_one = (\<lambda>(key, e) ow.
     finish key (Failed e)
       (if e = DeliveryExpired then ow\<lparr>o_stats := (o_stats ow)\<lparr>me_expired := me_expired (o_stats ow) + 1\<rparr>\<rparr> else ow))"

definition finish_pending :: "('e::linorder) tick \<Rightarrow> error option \<Rightarrow> u64 \<Rightarrow> ('e, 'w) owner \<Rightarrow> ('e, 'w) owner" where
  "finish_pending tk local_error now ow =
     fold expire_one
       (List.map_filter (\<lambda>(k, p). map_option (Pair k) (pending_error tk local_error now ow k p)) (o_pending ow)) ow"

text \<open>A credit that no pending delivery can use goes back to the peer that granted it.\<close>

definition unused_credits :: "'e key list \<Rightarrow> 'e \<Rightarrow> 'e peer \<Rightarrow> (topic \<times> bytes) list" where
  "unused_credits keys e p =
     List.map_filter (\<lambda>(topic, b).
       if b_credit b \<noteq> None \<and> \<not> list_ex (\<lambda>k. fst k = e \<and> fst (snd k) = b_sub b \<and> mid_topic (snd (snd k)) = topic) keys
       then Some (topic, b_sub b) else None) (p_outbound p)"

definition return_peer :: "('e::linorder, 'w) env \<Rightarrow> 'e \<Rightarrow> ('e, 'w) owner \<Rightarrow> ('e, 'w) owner" where
  "return_peer E e ow =
     (case bm_get e (o_peers ow) of
        None \<Rightarrow> ow
      | Some p \<Rightarrow>
        (let rs = unused_credits (bm_keys (o_pending ow)) e p;
             ow = update_peer e (\<lambda>p. p\<lparr>p_outbound := bm_map (\<lambda>t b.
                    if t \<in> fst ` set rs then b\<lparr>b_credit := None\<rparr> else b) (p_outbound p)\<rparr>) ow
         in fold (\<lambda>(topic, sub). o_send E e (RequestCredit topic sub 0)) rs ow))"

definition return_credits :: "('e::linorder, 'w) env \<Rightarrow> ('e, 'w) owner \<Rightarrow> ('e, 'w) owner" where
  "return_credits E ow = fold (return_peer E) (bm_keys (o_peers ow)) ow"

definition retain_budgets :: "('e::linorder, 'w) owner \<Rightarrow> ('e, 'w) owner" where
  "retain_budgets ow =
     ow\<lparr>o_peer_budgets := bm_retain (\<lambda>e _. bm_has e (o_peers ow) \<or> list_ex (\<lambda>k. fst k = e) (bm_keys (o_pending ow)))
          (o_peer_budgets ow)\<rparr>"

definition maintenance :: "('e::linorder, 'w) env \<Rightarrow> 'e tick \<Rightarrow> ('e, 'w) owner \<Rightarrow> ('e, 'w) owner" where
  "maintenance E tk ow =
     (let ow = clock_check tk ow;
          local_error = err (local_valid tk ow);
          ow = remove_stale tk ow;
          ow = close_subs E ow;
          ow = settle_dedup E local_error (wall tk) ow;
          ow = finish_pending tk local_error (wall tk) ow;
          ow = return_credits E ow;
          ow = retain_budgets ow;
          ow = grant_credits E tk ow
      in schedule E tk ow)"

definition owner_metrics :: "('e, 'w) owner \<Rightarrow> metrics" where
  "owner_metrics ow =
     (o_stats ow)\<lparr>me_peers := length (o_peers ow),
        me_pending_deliveries := length (o_pending ow),
        me_deduplication_records := length (o_dedup ow),
        me_terminal_receipts := length (o_terminal ow),
        me_resident_payload_bytes := meter_used (owner_meter (o_pool ow) ow),
        me_metadata_bytes := meter_used (owner_meter (o_metadata ow) ow),
        me_outstanding_credits := sum_list (map (\<lambda>s. length (s_grants s)) (bm_vals (o_subs ow)))\<rparr>"

section \<open>What an operation leaves alone\<close>

lemma grant_one_frame [simp]:
  "o_config (grant_one E c ow) = o_config ow" "o_trust (grant_one E c ow) = o_trust ow"
  "o_identity (grant_one E c ow) = o_identity ow" "o_self (grant_one E c ow) = o_self ow"
  "o_cert (grant_one E c ow) = o_cert ow" "o_pending (grant_one E c ow) = o_pending ow"
  "o_dedup (grant_one E c ow) = o_dedup ow" "o_terminal (grant_one E c ow) = o_terminal ow"
  "o_sequences (grant_one E c ow) = o_sequences ow" "o_epoch (grant_one E c ow) = o_epoch ow"
  "o_drain (grant_one E c ow) = o_drain ow" "o_clock_failed (grant_one E c ow) = o_clock_failed ow"
  "o_log (grant_one E c ow) = o_log ow"
  by (cases c; auto simp: grant_one_def credit_reserve_def Let_def result_simps dest!: o_reserve_Inr split: option.splits sum.splits)+

lemma grant_credits_frame [simp]:
  "o_config (grant_credits E tk ow) = o_config ow" "o_trust (grant_credits E tk ow) = o_trust ow"
  "o_identity (grant_credits E tk ow) = o_identity ow" "o_self (grant_credits E tk ow) = o_self ow"
  "o_cert (grant_credits E tk ow) = o_cert ow" "o_pending (grant_credits E tk ow) = o_pending ow"
  "o_dedup (grant_credits E tk ow) = o_dedup ow" "o_terminal (grant_credits E tk ow) = o_terminal ow"
  "o_sequences (grant_credits E tk ow) = o_sequences ow" "o_epoch (grant_credits E tk ow) = o_epoch ow"
  "o_drain (grant_credits E tk ow) = o_drain ow" "o_clock_failed (grant_credits E tk ow) = o_clock_failed ow"
  "o_log (grant_credits E tk ow) = o_log ow"
  by (simp_all add: grant_credits_def Let_def fold_same split: sum.splits)

lemma clock_check_frame [simp]:
  "o_config (clock_check tk ow) = o_config ow" "o_trust (clock_check tk ow) = o_trust ow"
  "o_identity (clock_check tk ow) = o_identity ow" "o_self (clock_check tk ow) = o_self ow"
  "o_cert (clock_check tk ow) = o_cert ow" "o_peers (clock_check tk ow) = o_peers ow"
  "o_subs (clock_check tk ow) = o_subs ow" "o_pending (clock_check tk ow) = o_pending ow"
  "o_dedup (clock_check tk ow) = o_dedup ow" "o_terminal (clock_check tk ow) = o_terminal ow"
  "o_sequences (clock_check tk ow) = o_sequences ow" "o_epoch (clock_check tk ow) = o_epoch ow"
  "o_drain (clock_check tk ow) = o_drain ow" "o_log (clock_check tk ow) = o_log ow"
  by (simp_all add: clock_check_def Let_def split: sum.splits)

lemma remove_stale_frame [simp]:
  "o_config (remove_stale tk ow) = o_config ow" "o_trust (remove_stale tk ow) = o_trust ow"
  "o_identity (remove_stale tk ow) = o_identity ow" "o_self (remove_stale tk ow) = o_self ow"
  "o_cert (remove_stale tk ow) = o_cert ow" "o_dedup (remove_stale tk ow) = o_dedup ow"
  "o_sequences (remove_stale tk ow) = o_sequences ow" "o_epoch (remove_stale tk ow) = o_epoch ow"
  "o_drain (remove_stale tk ow) = o_drain ow" "o_clock_failed (remove_stale tk ow) = o_clock_failed ow"
  unfolding remove_stale_def by (intro fold_same; simp)+

lemma close_sub_frame [simp]:
  "o_config (close_sub E t ow) = o_config ow" "o_trust (close_sub E t ow) = o_trust ow"
  "o_identity (close_sub E t ow) = o_identity ow" "o_self (close_sub E t ow) = o_self ow"
  "o_cert (close_sub E t ow) = o_cert ow" "o_pending (close_sub E t ow) = o_pending ow"
  "o_dedup (close_sub E t ow) = o_dedup ow" "o_terminal (close_sub E t ow) = o_terminal ow"
  "o_sequences (close_sub E t ow) = o_sequences ow" "o_epoch (close_sub E t ow) = o_epoch ow"
  "o_drain (close_sub E t ow) = o_drain ow" "o_clock_failed (close_sub E t ow) = o_clock_failed ow"
  "o_log (close_sub E t ow) = o_log ow"
  by (simp_all add: close_sub_def fold_same split: option.splits)

lemma close_subs_frame [simp]:
  "o_config (close_subs E ow) = o_config ow" "o_trust (close_subs E ow) = o_trust ow"
  "o_identity (close_subs E ow) = o_identity ow" "o_self (close_subs E ow) = o_self ow"
  "o_cert (close_subs E ow) = o_cert ow" "o_pending (close_subs E ow) = o_pending ow"
  "o_dedup (close_subs E ow) = o_dedup ow" "o_terminal (close_subs E ow) = o_terminal ow"
  "o_sequences (close_subs E ow) = o_sequences ow" "o_epoch (close_subs E ow) = o_epoch ow"
  "o_drain (close_subs E ow) = o_drain ow" "o_clock_failed (close_subs E ow) = o_clock_failed ow"
  "o_log (close_subs E ow) = o_log ow"
  unfolding close_subs_def by (intro fold_same; simp)+

lemma settle_dedup_frame [simp]:
  "o_config (settle_dedup E x now ow) = o_config ow" "o_trust (settle_dedup E x now ow) = o_trust ow"
  "o_identity (settle_dedup E x now ow) = o_identity ow" "o_self (settle_dedup E x now ow) = o_self ow"
  "o_cert (settle_dedup E x now ow) = o_cert ow" "o_subs (settle_dedup E x now ow) = o_subs ow"
  "o_pending (settle_dedup E x now ow) = o_pending ow" "o_sequences (settle_dedup E x now ow) = o_sequences ow"
  "o_epoch (settle_dedup E x now ow) = o_epoch ow" "o_drain (settle_dedup E x now ow) = o_drain ow"
  "o_clock_failed (settle_dedup E x now ow) = o_clock_failed ow"
  by (simp_all add: settle_dedup_def Let_def case_prod_beta fold_same)

lemma expire_one_frame [simp]:
  "o_config (expire_one ke ow) = o_config ow" "o_trust (expire_one ke ow) = o_trust ow"
  "o_identity (expire_one ke ow) = o_identity ow" "o_self (expire_one ke ow) = o_self ow"
  "o_cert (expire_one ke ow) = o_cert ow" "o_peers (expire_one ke ow) = o_peers ow"
  "o_subs (expire_one ke ow) = o_subs ow" "o_dedup (expire_one ke ow) = o_dedup ow"
  "o_sequences (expire_one ke ow) = o_sequences ow" "o_epoch (expire_one ke ow) = o_epoch ow"
  "o_drain (expire_one ke ow) = o_drain ow" "o_clock_failed (expire_one ke ow) = o_clock_failed ow"
  by (simp_all add: expire_one_def case_prod_beta)

lemma finish_pending_frame [simp]:
  "o_config (finish_pending tk x now ow) = o_config ow" "o_trust (finish_pending tk x now ow) = o_trust ow"
  "o_identity (finish_pending tk x now ow) = o_identity ow" "o_self (finish_pending tk x now ow) = o_self ow"
  "o_cert (finish_pending tk x now ow) = o_cert ow" "o_peers (finish_pending tk x now ow) = o_peers ow"
  "o_subs (finish_pending tk x now ow) = o_subs ow" "o_dedup (finish_pending tk x now ow) = o_dedup ow"
  "o_sequences (finish_pending tk x now ow) = o_sequences ow" "o_epoch (finish_pending tk x now ow) = o_epoch ow"
  "o_drain (finish_pending tk x now ow) = o_drain ow" "o_clock_failed (finish_pending tk x now ow) = o_clock_failed ow"
  unfolding finish_pending_def by (intro fold_same; simp)+

lemma return_peer_frame [simp]:
  "o_config (return_peer E e ow) = o_config ow" "o_trust (return_peer E e ow) = o_trust ow"
  "o_identity (return_peer E e ow) = o_identity ow" "o_self (return_peer E e ow) = o_self ow"
  "o_cert (return_peer E e ow) = o_cert ow" "o_subs (return_peer E e ow) = o_subs ow"
  "o_pending (return_peer E e ow) = o_pending ow" "o_dedup (return_peer E e ow) = o_dedup ow"
  "o_terminal (return_peer E e ow) = o_terminal ow" "o_sequences (return_peer E e ow) = o_sequences ow"
  "o_epoch (return_peer E e ow) = o_epoch ow" "o_drain (return_peer E e ow) = o_drain ow"
  "o_clock_failed (return_peer E e ow) = o_clock_failed ow" "o_log (return_peer E e ow) = o_log ow"
  by (simp_all add: return_peer_def Let_def case_prod_beta fold_same split: option.splits)

lemma return_credits_frame [simp]:
  "o_config (return_credits E ow) = o_config ow" "o_trust (return_credits E ow) = o_trust ow"
  "o_identity (return_credits E ow) = o_identity ow" "o_self (return_credits E ow) = o_self ow"
  "o_cert (return_credits E ow) = o_cert ow" "o_subs (return_credits E ow) = o_subs ow"
  "o_pending (return_credits E ow) = o_pending ow" "o_dedup (return_credits E ow) = o_dedup ow"
  "o_terminal (return_credits E ow) = o_terminal ow" "o_sequences (return_credits E ow) = o_sequences ow"
  "o_epoch (return_credits E ow) = o_epoch ow" "o_drain (return_credits E ow) = o_drain ow"
  "o_clock_failed (return_credits E ow) = o_clock_failed ow" "o_log (return_credits E ow) = o_log ow"
  unfolding return_credits_def by (intro fold_same; simp)+

lemma retain_budgets_frame [simp]:
  "o_config (retain_budgets ow) = o_config ow" "o_trust (retain_budgets ow) = o_trust ow"
  "o_identity (retain_budgets ow) = o_identity ow" "o_self (retain_budgets ow) = o_self ow"
  "o_cert (retain_budgets ow) = o_cert ow" "o_peers (retain_budgets ow) = o_peers ow"
  "o_subs (retain_budgets ow) = o_subs ow" "o_pending (retain_budgets ow) = o_pending ow"
  "o_dedup (retain_budgets ow) = o_dedup ow" "o_terminal (retain_budgets ow) = o_terminal ow"
  "o_sequences (retain_budgets ow) = o_sequences ow" "o_epoch (retain_budgets ow) = o_epoch ow"
  "o_drain (retain_budgets ow) = o_drain ow" "o_clock_failed (retain_budgets ow) = o_clock_failed ow"
  "o_log (retain_budgets ow) = o_log ow"
  by (simp_all add: retain_budgets_def)

end
