(* ===== verification/Owner.thy ===== *)
theory Owner
  imports Owner_Maintenance
begin

text \<open>
  The endpoint owner as a whole, \<^verbatim>\<open>src/src/endpoint/owner.rs\<close>: its initial state, one definition
  for every arm of \<open>command\<close>, the arm that accepts a connection, the turn of the main loop and
  what happens after it. The replies that the code sends over \<open>oneshot\<close> channels are the values
  of \<open>reply\<close>; \<open>tasks.spawn\<close> gives the task its permits and says so in the reply.
\<close>

section \<open>Creation\<close>

definition owner_new ::
  "config \<Rightarrow> 'e trust \<Rightarrow> bytes \<Rightarrow> 'e \<Rightarrow> 'e certificate \<Rightarrow> permit \<Rightarrow> budget_ref \<Rightarrow> budget_ref \<Rightarrow> 'e admission
   \<Rightarrow> permit list \<Rightarrow> nat \<Rightarrow> 'e tick \<Rightarrow> 'w \<Rightarrow> ('e, 'w) owner"
where
  "owner_new cfg trust identity self cert revocation_memory pl metadata adm outside n tk w =
     \<lparr>o_config = cfg, o_trust = trust, o_identity = identity, o_self = self, o_cert = cert,
      o_revocation_memory = [revocation_memory], o_pool = pl, o_metadata = metadata, o_peers = [],
      o_peer_budgets = [], o_subs = [], o_pending = [], o_dedup = [], o_terminal = [], o_auth_attempts = 0,
      o_auth_window = tk_instant tk, o_sequences = [], o_epoch = tk_rand tk, o_quota = max_peers cfg * 2,
      o_stats = metrics_default, o_drain = None, o_cursor = 0,
      o_clock_start = (wall tk, tk_instant tk), o_clock_failed = False,
      o_admission = adm, o_outside = outside, o_held = [], o_next = n, o_world = w, o_log = []\<rparr>"

section \<open>Commands\<close>

datatype 'e owner_command =
    IssueCode join_options "'e address"
  | RevokeCode bytes
  | Enroll 'e bytes bytes
  | Connect 'e
  | Disconnect 'e
  | SubscribeTopic topic delivery_mode
  | Publish topic lease publish_options
  | Register 'e "'e registration"
  | Remote 'e bytes control
  | Begin 'e bytes bytes u64 bytes nat
  | Incoming 'e bytes bytes "'e receive_ticket" lease
  | SentData "'e key" bytes "unit result"
  | End 'e bytes
  | Renew "'e certificate"
  | Deny bytes
  | Revoke bytes
  | Cancel "'e message_id"
  | Metrics
  | TopicsReady 'e topic topic
  | Shutdown nat

datatype 'e reply =
    Reply_Code "'e join_code result"
  | Reply_Unit "unit result"
  | Reply_Enrollment "'e enrollment result"
  | Reply_Spawned 'e
  | Reply_Receipt "('e message_id \<times> 'e list) result"
  | Reply_Registered "bool result"
  | Reply_Ticket "'e receive_ticket result"
  | Reply_Metrics metrics
  | Reply_Ready "bool result"
  | Reply_None
  | Reply_Panic

text \<open>The meter of the metadata budget without the permits of the host, which the operations of
  the host add themselves.\<close>

definition outer_meter :: "('e, 'w) owner \<Rightarrow> meter" where
  "outer_meter ow =
     owner_meter (o_metadata ow) (case o_admission ow of Client _ \<Rightarrow> ow | Host h \<Rightarrow>
       ow\<lparr>o_admission := Host (h\<lparr>ho_codes := [], ho_members := []\<rparr>)\<rparr>)"

definition not_draining :: "'e tick \<Rightarrow> ('e, 'w) owner \<Rightarrow> u64 result" where
  "not_draining tk ow =
     rbind (local_valid tk ow) (\<lambda>now. rbind (fail_if (o_drain ow \<noteq> None) ShuttingDown) (\<lambda>_. Inr now))"

definition cmd_issue_code ::
  "('e, 'w) env \<Rightarrow> 'e tick \<Rightarrow> join_options \<Rightarrow> 'e address \<Rightarrow> ('e, 'w) owner \<Rightarrow> 'e join_code result \<times> ('e, 'w) owner"
where
  "cmd_issue_code E tk opts address ow =
     sbind (not_draining tk ow, ow) (\<lambda>now ow.
     case admission_issue (ev_lib E) (ev_save E) opts address now (max_topics (o_config ow)) (tk_rand tk) (tk_rand2 tk)
            (o_admission ow) (outer_meter ow) (o_world ow) of
       (r, adm, m, w) \<Rightarrow> (r, ow\<lparr>o_admission := adm, o_next := meter_next m, o_world := w\<rparr>))"

definition cmd_revoke_code ::
  "('e, 'w) env \<Rightarrow> bytes \<Rightarrow> ('e, 'w) owner \<Rightarrow> unit result \<times> ('e, 'w) owner"
where
  "cmd_revoke_code E cid ow =
     (case revoke_code (ev_lib E) (ev_save E) cid (o_admission ow) (o_world ow) of
        (r, adm, w) \<Rightarrow> (r, ow\<lparr>o_admission := adm, o_world := w\<rparr>))"

definition cmd_enroll ::
  "('e::linorder, 'w) env \<Rightarrow> 'e tick \<Rightarrow> 'e \<Rightarrow> bytes \<Rightarrow> bytes \<Rightarrow> ('e, 'w) owner \<Rightarrow> 'e enrollment result \<times> ('e, 'w) owner"
where
  "cmd_enroll E tk peer cid secret ow =
     sbind (not_draining tk ow, ow) (\<lambda>now ow.
     case enroll (ev_lib E) (ev_save E) peer cid secret now (expires_at (o_cert ow)) (o_trust ow)
            (max_peers (o_config ow)) (tk_rand tk) (o_admission ow) (outer_meter ow) (o_world ow) of
       (r, adm, m, w) \<Rightarrow>
         (let ow = ow\<lparr>o_admission := adm, o_next := meter_next m, o_world := w\<rparr> in
          case r of
            Inl e \<Rightarrow> (Inl e, ow)
          | Inr en \<Rightarrow> (Inr en, hand_out (certificate_permits (en_certificate en)) ow)))"

text \<open>A task takes a permit of the quota, 128 KiB of metadata and a clone of the certificate.\<close>

definition spawn_task :: "('e, 'w) owner \<Rightarrow> ('e, 'w) owner option" where
  "spawn_task ow =
     (if o_quota ow = 0 then None
      else case o_reserve (o_metadata ow) (128 * 1024) ow of
        Inl _ \<Rightarrow> None
      | Inr (memory, ow) \<Rightarrow>
          Some (hand_out (memory # certificate_permits (o_cert ow)) (ow\<lparr>o_quota := o_quota ow - 1\<rparr>)))"

definition cmd_connect :: "'e tick \<Rightarrow> 'e \<Rightarrow> ('e, 'w) owner \<Rightarrow> 'e reply \<times> ('e, 'w) owner" where
  "cmd_connect tk peer ow =
     (case rbind (not_draining tk ow) (\<lambda>_. fail_if (\<not> can_dial (o_admission ow) peer) Unauthorized) of
        Inl e \<Rightarrow> (Reply_Unit (Inl e), ow)
      | Inr _ \<Rightarrow>
        if bm_has peer (o_peers ow) then (Reply_Unit (Inr ()), ow)
        else case spawn_task ow of
          Some ow \<Rightarrow> (Reply_Spawned peer, ow)
        | None \<Rightarrow> (Reply_Unit (Inl QueueFull), ow))"

definition has_session :: "'e \<Rightarrow> bytes \<Rightarrow> ('e, 'w) owner \<Rightarrow> bool" where
  "has_session peer session ow \<longleftrightarrow>
     (case bm_get peer (o_peers ow) of None \<Rightarrow> False | Some p \<Rightarrow> reg_session (p_reg p) = session)"

definition cmd_remote ::
  "('e::linorder, 'w) env \<Rightarrow> 'e tick \<Rightarrow> 'e \<Rightarrow> bytes \<Rightarrow> control \<Rightarrow> ('e, 'w) owner \<Rightarrow> ('e, 'w) owner"
where
  "cmd_remote E tk peer session c ow =
     (if has_session peer session ow
      then (case sbind (peer_valid tk peer session ow, ow) (\<lambda>_. owner_control E tk peer c) of
              (Inl _, ow) \<Rightarrow>
                remove_peer tk peer
                  (ow\<lparr>o_stats := (o_stats ow)\<lparr>me_authorization_failures := me_authorization_failures (o_stats ow) + 1\<rparr>\<rparr>)
            | (Inr _, ow) \<Rightarrow> ow)
      else ow)"

definition cmd_incoming ::
  "('e::linorder, 'w) env \<Rightarrow> 'e tick \<Rightarrow> 'e \<Rightarrow> bytes \<Rightarrow> bytes \<Rightarrow> 'e receive_ticket \<Rightarrow> lease \<Rightarrow> ('e, 'w) owner \<Rightarrow> ('e, 'w) owner"
where
  "cmd_incoming E tk peer session sub ticket payload ow =
     (case incoming E tk peer session sub ticket payload ow of
        (Inl _, ow) \<Rightarrow> remove_peer tk peer ow
      | (Inr _, ow) \<Rightarrow> ow)"

definition cmd_sent ::
  "('e::linorder) tick \<Rightarrow> 'e key \<Rightarrow> bytes \<Rightarrow> unit result \<Rightarrow> ('e, 'w) owner \<Rightarrow> ('e, 'w) owner"
where
  "cmd_sent tk key session res ow =
     (if \<not> has_session (fst key) session ow then ow
      else case bm_get key (o_pending ow) of
        None \<Rightarrow> ow
      | Some p \<Rightarrow>
        (let ow = ow\<lparr>o_pending := bm_adjust key (\<lambda>p. p\<lparr>pd_writing := False\<rparr>) (o_pending ow)\<rparr> in
         if env_mode (pd_envelope p) = BestEffort
         then finish key (case res of Inr _ \<Rightarrow> Sent | Inl e \<Rightarrow> Failed e) ow
         else if res = Inl SubscriptionClosed then finish key (Failed SubscriptionClosed) ow
         else if res \<noteq> Inr () then remove_peer tk (fst key) ow
         else ow))"

definition cmd_end :: "('e::linorder) tick \<Rightarrow> 'e \<Rightarrow> bytes \<Rightarrow> ('e, 'w) owner \<Rightarrow> ('e, 'w) owner" where
  "cmd_end tk peer session ow = (if has_session peer session ow then remove_peer tk peer ow else ow)"

text \<open>\<open>subscriptions.retain(..)\<close>: the queue of a dropped subscription belongs to its receiver.\<close>

definition retain_subs :: "('e, 'w) owner \<Rightarrow> ('e, 'w) owner" where
  "retain_subs ow =
     (let gone = bm_vals (bm_retain (\<lambda>t _. \<not> allows (o_cert ow) t False) (o_subs ow)) in
      fold abandon_sub gone (ow\<lparr>o_subs := bm_retain (\<lambda>t _. allows (o_cert ow) t False) (o_subs ow)\<rparr>))"

definition cmd_renew ::
  "('e::linorder, 'w) env \<Rightarrow> 'e tick \<Rightarrow> 'e certificate \<Rightarrow> ('e, 'w) owner \<Rightarrow> unit result \<times> ('e, 'w) owner"
where
  "cmd_renew E tk cert ow =
     sbind (fail_if (o_drain ow \<noteq> None) ShuttingDown, ow) (\<lambda>_ ow.
     sbind (tk_now tk, ow) (\<lambda>now ow.
     sbind (trust_verify (ev_lib E) (o_trust ow) cert (o_self ow) now, ow) (\<lambda>_ ow.
     sbind (tryop (rbind (o_reserve (o_metadata ow) (length (c_bytes cert) * 4 + 16 * 1024) ow)
              (\<lambda>(m, ow). Inr (cert\<lparr>c_memory := Some m\<rparr>, ow))) ow) (\<lambda>cert ow.
     (let ow = ow\<lparr>o_cert := cert\<rparr>;
          ow = fold (remove_peer tk) (bm_keys (o_peers ow)) ow;
          ow = retain_subs ow
      in (Inr (), maintenance E tk ow))))))"

definition deny :: "bytes \<Rightarrow> ('e, 'w) owner \<Rightarrow> unit result \<times> ('e, 'w) owner" where
  "deny cid ow =
     sbind (tryop (o_reserve (o_metadata ow) 96 ow) ow) (\<lambda>memory ow.
     sbind (deny_certificate (o_trust ow) cid, ow) (\<lambda>trust ow.
     (let old = revoked_count (o_trust ow); ow = ow\<lparr>o_trust := trust\<rparr> in
      (Inr (), if revoked_count trust > old
               then ow\<lparr>o_revocation_memory := o_revocation_memory ow @ [memory]\<rparr> else ow))))"

definition cmd_deny :: "('e::linorder, 'w) env \<Rightarrow> 'e tick \<Rightarrow> bytes \<Rightarrow> ('e, 'w) owner \<Rightarrow> unit result \<times> ('e, 'w) owner" where
  "cmd_deny E tk cid ow = (case deny cid ow of (r, ow) \<Rightarrow> (r, maintenance E tk (release_held ow)))"

text \<open>\<open>Inr False\<close> is the panic of \<open>shrink_to\<close>.\<close>

definition revoke ::
  "('e, 'w) env \<Rightarrow> 'e tick \<Rightarrow> bytes \<Rightarrow> ('e, 'w) owner \<Rightarrow> bool result \<times> ('e, 'w) owner"
where
  "revoke E tk snapshot ow =
     sbind (tryop (o_reserve (o_metadata ow) (4096 * 96) ow) ow) (\<lambda>memory ow.
     sbind (tk_now tk, ow) (\<lambda>now ow.
     sbind (apply_revocations (ev_lib E) (o_trust ow) snapshot now, ow) (\<lambda>trust ow.
     (let added = revoked_count trust - revoked_count (o_trust ow); ow = ow\<lparr>o_trust := trust\<rparr> in
      if added * 96 > permit_n memory then (Inr False, ow)
      else
        (Inr True,
         if added > 0
         then ow\<lparr>o_revocation_memory := o_revocation_memory ow @ [memory\<lparr>permit_n := added * 96\<rparr>]\<rparr>
         else ow)))))"

definition cmd_revoke ::
  "('e::linorder, 'w) env \<Rightarrow> 'e tick \<Rightarrow> bytes \<Rightarrow> ('e, 'w) owner \<Rightarrow> 'e reply \<times> ('e, 'w) owner"
where
  "cmd_revoke E tk snapshot ow =
     (case revoke E tk snapshot ow of
        (Inr False, ow) \<Rightarrow> (Reply_Panic, ow)
      | (Inr True, ow) \<Rightarrow> (Reply_Unit (Inr ()), maintenance E tk (release_held ow))
      | (Inl e, ow) \<Rightarrow> (Reply_Unit (Inl e), maintenance E tk (release_held ow)))"

definition cmd_cancel :: "('e::linorder) message_id \<Rightarrow> ('e, 'w) owner \<Rightarrow> ('e, 'w) owner" where
  "cmd_cancel i ow =
     fold (\<lambda>k. finish k Cancelled) (filter (\<lambda>k. snd (snd k) = i) (bm_keys (o_pending ow))) ow"

definition cmd_topics_ready :: "'e tick \<Rightarrow> 'e \<Rightarrow> topic \<Rightarrow> topic \<Rightarrow> ('e, 'w) owner \<Rightarrow> bool result" where
  "cmd_topics_ready tk peer outgoing inc ow =
     rbind (local_valid tk ow) (\<lambda>_.
       Inr (o_drain ow = None
         \<and> (case bm_get peer (o_peers ow) of
              None \<Rightarrow> False
            | Some p \<Rightarrow>
              \<not> reg_cancelled (p_reg p) \<and> \<not> reg_closed (p_reg p)
              \<and> (case peer_valid tk peer (reg_session (p_reg p)) ow of Inl _ \<Rightarrow> False | Inr _ \<Rightarrow> True)
              \<and> bm_has outgoing (p_outbound p)
              \<and> (case bm_get inc (o_subs ow) of None \<Rightarrow> False | Some s \<Rightarrow> peer \<in> s_confirmed s))))"

definition cmd_shutdown :: "('e, 'w) env \<Rightarrow> nat \<Rightarrow> ('e, 'w) owner \<Rightarrow> 'e reply \<times> ('e, 'w) owner" where
  "cmd_shutdown E deadline ow =
     (if o_drain ow \<noteq> None then (Reply_Unit (Inl ShuttingDown), ow)
      else (Reply_None, send_all E Goodbye (ow\<lparr>o_drain := Some deadline\<rparr>)))"

definition command ::
  "('e::linorder, 'w) env \<Rightarrow> 'e tick \<Rightarrow> 'e owner_command \<Rightarrow> ('e, 'w) owner \<Rightarrow> 'e reply \<times> ('e, 'w) owner"
where
  "command E tk c ow =
     (case c of
        IssueCode opts address \<Rightarrow> apfst Reply_Code (cmd_issue_code E tk opts address ow)
      | RevokeCode cid \<Rightarrow> apfst Reply_Unit (cmd_revoke_code E cid ow)
      | Enroll peer cid secret \<Rightarrow> apfst Reply_Enrollment (cmd_enroll E tk peer cid secret ow)
      | Connect peer \<Rightarrow> cmd_connect tk peer ow
      | Disconnect peer \<Rightarrow> (Reply_Unit (Inr ()), remove_peer tk peer ow)
      | SubscribeTopic topic mode \<Rightarrow> apfst Reply_Unit (subscribe E tk topic mode ow)
      | Publish topic payload opts \<Rightarrow> apfst Reply_Receipt (publish E tk topic payload opts ow)
      | Register peer reg \<Rightarrow> apfst Reply_Registered (register E tk peer reg ow)
      | Remote peer session ctl \<Rightarrow> (Reply_None, cmd_remote E tk peer session ctl ow)
      | Begin peer session sub stream sb len \<Rightarrow>
          (case begin_data E tk peer session sub stream sb len ow of
             (Inl e, ow) \<Rightarrow> (Reply_Ticket (Inl e), ow)
           | (Inr None, ow) \<Rightarrow> (Reply_Panic, ow)
           | (Inr (Some t), ow) \<Rightarrow> (Reply_Ticket (Inr t), ow))
      | Incoming peer session sub ticket payload \<Rightarrow> (Reply_None, cmd_incoming E tk peer session sub ticket payload ow)
      | SentData key session res \<Rightarrow> (Reply_None, cmd_sent tk key session res ow)
      | End peer session \<Rightarrow> (Reply_None, cmd_end tk peer session ow)
      | Renew cert \<Rightarrow> apfst Reply_Unit (cmd_renew E tk cert ow)
      | Deny cid \<Rightarrow> apfst Reply_Unit (cmd_deny E tk cid ow)
      | Revoke snapshot \<Rightarrow> cmd_revoke E tk snapshot ow
      | Cancel i \<Rightarrow> (Reply_Unit (Inr ()), cmd_cancel i ow)
      | Metrics \<Rightarrow> (Reply_Metrics (owner_metrics ow), ow)
      | TopicsReady peer outgoing inc \<Rightarrow> (Reply_Ready (cmd_topics_ready tk peer outgoing inc ow), ow)
      | Shutdown deadline \<Rightarrow> cmd_shutdown E deadline ow)"

section \<open>The main loop\<close>

text \<open>Accepting a connection. The flag says that the turn goes straight back to the top of the
  loop (\<open>continue\<close>).\<close>

definition accept :: "'e tick \<Rightarrow> ('e, 'w) owner \<Rightarrow> bool \<times> ('e, 'w) owner" where
  "accept tk ow =
     (let ow = (if tk_instant tk - o_auth_window ow \<ge> from_secs 1
                then ow\<lparr>o_auth_window := tk_instant tk, o_auth_attempts := 0\<rparr> else ow);
          ow = ow\<lparr>o_auth_attempts := Suc (o_auth_attempts ow)\<rparr>
      in if o_auth_attempts ow > max_peers (o_config ow) * 4 then (True, ow)
         else case spawn_task ow of None \<Rightarrow> (False, ow) | Some ow \<Rightarrow> (False, ow))"

datatype 'e input = Command "'e owner_command" | Accept | Maintain | Joined

text \<open>One turn of the loop: the reply, whether the loop goes on, and the state.\<close>

definition drained :: "'e tick \<Rightarrow> ('e, 'w) owner \<Rightarrow> bool" where
  "drained tk ow \<longleftrightarrow>
     (case o_drain ow of None \<Rightarrow> False | Some deadline \<Rightarrow> o_pending ow = [] \<or> tk_instant tk \<ge> deadline)"

definition handle_input ::
  "('e::linorder, 'w) env \<Rightarrow> 'e tick \<Rightarrow> 'e input \<Rightarrow> ('e, 'w) owner \<Rightarrow> 'e reply \<times> bool \<times> ('e, 'w) owner"
where
  "handle_input E tk i ow =
     (case i of
        Command c \<Rightarrow> (case command E tk c ow of (r, ow) \<Rightarrow> (r, False, ow))
      | Accept \<Rightarrow> if o_drain ow = None then (Reply_None, accept tk ow) else (Reply_None, True, ow)
      | Maintain \<Rightarrow> (Reply_None, False, maintenance E tk ow)
      | Joined \<Rightarrow> (Reply_None, False, ow))"

definition turn ::
  "('e::linorder, 'w) env \<Rightarrow> 'e tick \<Rightarrow> 'e input \<Rightarrow> ('e, 'w) owner \<Rightarrow> 'e reply \<times> bool \<times> ('e, 'w) owner"
where
  "turn E tk i ow =
     (case handle_input E tk i ow of
        (r, True, ow) \<Rightarrow> (r, True, release_held ow)
      | (r, False, ow) \<Rightarrow>
        (let ow = schedule E tk (release_held ow) in (r, \<not> drained tk ow, ow)))"

text \<open>After the loop; \<open>keep\<close> tells the permits of the application from those of the tasks, which have
  ended when the final metrics are taken.\<close>

definition stop_owner :: "(permit \<Rightarrow> bool) \<Rightarrow> ('e, 'w) owner \<Rightarrow> metrics option \<times> ('e, 'w) owner" where
  "stop_owner keep ow =
     (let ow = ow\<lparr>o_stats := (o_stats ow)\<lparr>me_unfinished_on_shutdown := length (o_pending ow)\<rparr>\<rparr>;
          failed = map (\<lambda>k. Outcome_Set k (Failed ShuttingDown)) (bm_keys (o_pending ow));
          completed = map (\<lambda>k. Completed k (Inl ShuttingDown))
            (bm_keys (bm_retain (\<lambda>_ d. case dd_state d of DedupProcessing _ \<Rightarrow> True | _ \<Rightarrow> False) (o_dedup ow)));
          ow = ow\<lparr>o_pending := [], o_dedup := [], o_log := o_log ow @ failed @ completed\<rparr>;
          ow = fold (\<lambda>e. drop_peer e) (bm_keys (o_peers ow)) ow;
          ow = fold abandon_sub (bm_vals (o_subs ow)) (ow\<lparr>o_subs := []\<rparr>);
          ow = ow\<lparr>o_outside := filter keep (o_outside ow)\<rparr>
      in (map_option (\<lambda>_. owner_metrics ow) (o_drain ow), ow\<lparr>o_drain := None\<rparr>))"

end
