(* ===== verification/Owner_Run.thy ===== *)
theory Owner_Run
  imports Owner
begin

text \<open>
  The endpoint owner among the tasks and the application that share its queues and permits: a
  step is a turn of the main loop on an input that they can produce, or a change they make
  themselves. The tickets that \<open>begin\<close> hands to the readers are part of the state, because an
  \<open>Incoming\<close> command carries one of them.
\<close>

record ('e, 'w) system =
  sy_owner :: "('e, 'w) owner"
  sy_tickets :: "('e \<times> bytes \<times> bytes \<times> 'e receive_ticket) list"

text \<open>The inputs that exist: a certificate is what \<open>from_bytes\<close> decoded, a ticket came from
  \<open>begin\<close>, a lease holds permits of its owner, and a connection starts neither cancelled nor closed.\<close>

definition admissible :: "'e lib \<Rightarrow> ('e, 'w) system \<Rightarrow> 'e input \<Rightarrow> bool" where
  "admissible L s i \<longleftrightarrow>
     (case i of
        Command c \<Rightarrow>
          (case c of
             Publish topic payload opts \<Rightarrow> set (lease_permits payload) \<subseteq> set (o_outside (sy_owner s))
           | Register peer reg \<Rightarrow> wf_certificate L (reg_cert reg)
           | Renew cert \<Rightarrow> wf_certificate L cert
           | Incoming peer session sub ticket payload \<Rightarrow>
               (peer, session, sub, ticket) \<in> set (sy_tickets s) \<and> lease_permits payload = rt_permits ticket
           | _ \<Rightarrow> True)
      | _ \<Rightarrow> True)"

definition tickets_after ::
  "'e input \<Rightarrow> 'e reply \<Rightarrow> ('e \<times> bytes \<times> bytes \<times> 'e receive_ticket) list \<Rightarrow> ('e \<times> bytes \<times> bytes \<times> 'e receive_ticket) list"
where
  "tickets_after i r ts =
     (case i of
        Command c \<Rightarrow>
          (case c of
             Begin peer session sub stream sb len \<Rightarrow>
               (case r of Reply_Ticket (Inr t) \<Rightarrow> (peer, session, sub, t) # ts | _ \<Rightarrow> ts)
           | Incoming peer session sub t payload \<Rightarrow> remove1 (peer, session, sub, t) ts
           | _ \<Rightarrow> ts)
      | _ \<Rightarrow> ts)"

text \<open>What the tasks and the application do by themselves: settle a delivery (\<open>ack\<close>, \<open>nack\<close> or drop),
  take from a queue, close a subscription, end a session, drop and reserve memory, free a task
  slot, drain the control channels.\<close>

inductive env_step :: "('e::linorder, 'w) owner \<Rightarrow> ('e, 'w) owner \<Rightarrow> bool" where
  settle: "\<lbrakk>bm_get k (o_dedup ow) = Some d; dd_state d = DedupProcessing 0; code \<in> {1, 2, 3}\<rbrakk>
    \<Longrightarrow> env_step ow (ow\<lparr>o_dedup := bm_adjust k (\<lambda>d. d\<lparr>dd_state := DedupProcessing code\<rparr>) (o_dedup ow)\<rparr>)"
| take_delivery: "\<lbrakk>bm_get topic (o_subs ow) = Some s; ch_items (s_tx s) = d # ds\<rbrakk>
    \<Longrightarrow> env_step ow (update_sub topic (\<lambda>s. s\<lparr>s_tx := (s_tx s)\<lparr>ch_items := ds\<rparr>\<rparr>) ow)"
| close_delivery: "env_step ow (update_sub topic (\<lambda>s. s\<lparr>s_tx := (s_tx s)\<lparr>ch_closed := True\<rparr>\<rparr>) ow)"
| take_data: "\<lbrakk>bm_get e (o_peers ow) = Some p; bm_get topic (p_outbound p) = Some b; ch_items (b_writer b) = d # ds\<rbrakk>
    \<Longrightarrow> env_step ow (set_binding e topic (\<lambda>b. b\<lparr>b_writer := (b_writer b)\<lparr>ch_items := ds\<rparr>\<rparr>) (hand_out (data_permits d) ow))"
| close_data: "env_step ow (set_binding e topic (\<lambda>b. b\<lparr>b_writer := (b_writer b)\<lparr>ch_closed := True\<rparr>\<rparr>) ow)"
| cancel_session: "env_step ow (update_peer e (\<lambda>p. p\<lparr>p_reg := (p_reg p)\<lparr>reg_cancelled := True\<rparr>\<rparr>) ow)"
| close_session: "env_step ow (update_peer e (\<lambda>p. p\<lparr>p_reg := (p_reg p)\<lparr>reg_closed := True\<rparr>\<rparr>) ow)"
| drop_outside: "env_step ow (ow\<lparr>o_outside := filter keep (o_outside ow)\<rparr>)"
| reserve_outside: "\<lbrakk>b = o_pool ow \<or> b = o_metadata ow; o_reserve b n ow = Inr (p, ow')\<rbrakk>
    \<Longrightarrow> env_step ow (release_held (hand_out [p] ow'))"
| end_task: "o_quota ow < max_peers (o_config ow) * 2 \<Longrightarrow> env_step ow (ow\<lparr>o_quota := Suc (o_quota ow)\<rparr>)"
| use_channels: "env_step ow (ow\<lparr>o_world := w\<rparr>)"

inductive sys_step :: "('e::linorder, 'w) env \<Rightarrow> ('e, 'w) system \<Rightarrow> ('e, 'w) system \<Rightarrow> bool" for E where
  owner_turn: "\<lbrakk>admissible (ev_lib E) s i; turn E tk i (sy_owner s) = (r, go, ow)\<rbrakk>
    \<Longrightarrow> sys_step E s \<lparr>sy_owner = ow, sy_tickets = tickets_after i r (sy_tickets s)\<rparr>"
| others: "env_step (sy_owner s) ow \<Longrightarrow> sys_step E s (s\<lparr>sy_owner := ow\<rparr>)"
| drop_ticket: "sys_step E s (s\<lparr>sy_tickets := filter keep (sy_tickets s)\<rparr>)"

text \<open>The states an owner reaches after its creation.\<close>

definition fresh_owner :: "'e lib \<Rightarrow> ('e, 'w) owner \<Rightarrow> bool" where
  "fresh_owner L ow \<longleftrightarrow>
     (\<exists>cfg trust identity self cert memory pl metadata adm outside n tk w.
        config_validate cfg = Inr () \<and> wf_trust trust \<and> wf_certificate L cert
        \<and> ow = owner_new cfg trust identity self cert memory pl metadata adm outside n tk w)"

inductive reach :: "('e::linorder, 'w) env \<Rightarrow> ('e, 'w) system \<Rightarrow> bool" for E where
  start: "fresh_owner (ev_lib E) ow \<Longrightarrow> reach E \<lparr>sy_owner = ow, sy_tickets = []\<rparr>"
| step: "reach E s \<Longrightarrow> sys_step E s s' \<Longrightarrow> reach E s'"

end
