(* ===== verification/Owner_Invariant.thy ===== *)
theory Owner_Invariant
  imports Owner_Run
begin

text \<open>
  The invariant of the tables of the endpoint owner: they are maps, within the limits of the
  configuration, every session belongs to a peer whose certificate the root of the realm signed,
  and every confirmation, demand and credit of a subscription belongs to a session. Each
  operation of the owner keeps it; the locale \<open>system_invariant\<close> carries such an invariant to
  every state the owner reaches.
\<close>

section \<open>The invariant\<close>

definition peer_wf :: "'e lib \<Rightarrow> config \<Rightarrow> bytes \<Rightarrow> 'e \<Rightarrow> 'e \<Rightarrow> 'e peer \<Rightarrow> bool" where
  "peer_wf L cfg realm root e p \<longleftrightarrow>
     bm_ok (p_outbound p) \<and> length (p_outbound p) \<le> max_topics cfg
     \<and> bm_ok (p_inbound p) \<and> length (p_inbound p) \<le> max_topics cfg
     \<and> bm_all (\<lambda>_ b. length (ch_items (b_writer b)) \<le> 1 \<and> ch_capacity (b_writer b) = 1) (p_outbound p)
     \<and> wf_certificate L (reg_cert (p_reg p))
     \<and> verify_cose L (c_bytes (reg_cert (p_reg p))) root CERT_CONTEXT MAX_CERT \<in> range Inr
     \<and> cl_subject (c_claims (reg_cert (p_reg p))) = e
     \<and> cl_issuer (c_claims (reg_cert (p_reg p))) = root
     \<and> cl_realm (c_claims (reg_cert (p_reg p))) = realm"

definition sub_wf :: "config \<Rightarrow> 'e set \<Rightarrow> ('e::linorder) local_sub \<Rightarrow> bool" where
  "sub_wf cfg es s \<longleftrightarrow>
     bm_ok (s_grants s) \<and> bm_ok (s_demand s) \<and> bm_ok (s_ready s)
     \<and> s_confirmed s \<subseteq> es
     \<and> set (bm_keys (s_grants s)) \<subseteq> s_confirmed s
     \<and> set (bm_keys (s_demand s)) \<subseteq> s_confirmed s
     \<and> bm_all (\<lambda>_ g. permit_n (cg_metadata g) = 6144 \<and> cg_bytes g \<le> cf_max_payload cfg + MAX_METADATA + 12) (s_grants s)
     \<and> length (ch_items (s_tx s)) \<le> ch_capacity (s_tx s) \<and> ch_capacity (s_tx s) = subscription_messages cfg"

definition owner_wf :: "'e lib \<Rightarrow> ('e::linorder, 'w) owner \<Rightarrow> bool" where
  "owner_wf L ow \<longleftrightarrow>
     config_validate (o_config ow) = Inr () \<and> wf_trust (o_trust ow)
     \<and> bm_ok (o_peers ow) \<and> length (o_peers ow) \<le> max_peers (o_config ow)
     \<and> bm_all (peer_wf L (o_config ow) (t_realm (o_trust ow)) (t_root (o_trust ow))) (o_peers ow)
     \<and> bm_ok (o_subs ow) \<and> length (o_subs ow) \<le> max_topics (o_config ow)
     \<and> bm_all (\<lambda>_. sub_wf (o_config ow) (set (bm_keys (o_peers ow)))) (o_subs ow)
     \<and> bm_ok (o_pending ow) \<and> bm_ok (o_dedup ow) \<and> bm_ok (o_terminal ow)
     \<and> bm_ok (o_sequences ow) \<and> length (o_sequences ow) \<le> max_topics (o_config ow)"

lemma owner_wfD:
  assumes "owner_wf L ow"
  shows "bm_ok (o_peers ow)" "bm_ok (o_subs ow)" "bm_ok (o_pending ow)" "bm_ok (o_dedup ow)" "bm_ok (o_terminal ow)"
    "bm_ok (o_sequences ow)" "wf_trust (o_trust ow)"
  using assms by (simp_all add: owner_wf_def)

section \<open>Primitive updates\<close>

lemma wf_update_peer:
  assumes "owner_wf L ow"
    and "\<And>p. bm_get e (o_peers ow) = Some p \<Longrightarrow> peer_wf L (o_config ow) (t_realm (o_trust ow)) (t_root (o_trust ow)) e p
      \<Longrightarrow> peer_wf L (o_config ow) (t_realm (o_trust ow)) (t_root (o_trust ow)) e (f p)"
  shows "owner_wf L (update_peer e f ow)"
  using assms by (auto simp: owner_wf_def update_peer_def bm_ok_adjust intro!: bm_all_adjust)

lemma wf_update_sub:
  assumes "owner_wf L ow"
    and "\<And>s. bm_get t (o_subs ow) = Some s \<Longrightarrow> sub_wf (o_config ow) (set (bm_keys (o_peers ow))) s
      \<Longrightarrow> sub_wf (o_config ow) (set (bm_keys (o_peers ow))) (f s)"
  shows "owner_wf L (update_sub t f ow)"
  using assms by (auto simp: owner_wf_def update_sub_def bm_ok_adjust intro!: bm_all_adjust)

lemma peer_wf_reg [simp]:
  "peer_wf L cfg realm root e (p\<lparr>p_reg := (p_reg p)\<lparr>reg_cancelled := x\<rparr>\<rparr>) = peer_wf L cfg realm root e p"
  "peer_wf L cfg realm root e (p\<lparr>p_reg := (p_reg p)\<lparr>reg_closed := x\<rparr>\<rparr>) = peer_wf L cfg realm root e p"
  "peer_wf L cfg realm root e (p\<lparr>p_reg := (p_reg p)\<lparr>reg_window_secs := w\<rparr>\<rparr>) = peer_wf L cfg realm root e p"
  by (simp_all add: peer_wf_def)

lemma wf_frame [simp]:
  "owner_wf L (ow\<lparr>o_world := w\<rparr>) = owner_wf L ow"
  "owner_wf L (hand_out ps ow) = owner_wf L ow"
  "owner_wf L (release_held ow) = owner_wf L ow"
  "owner_wf L (log_event v ow) = owner_wf L ow"
  "owner_wf L (abandon_queues p ow) = owner_wf L ow"
  "owner_wf L (abandon_sub s ow) = owner_wf L ow"
  "owner_wf L (ow\<lparr>o_stats := st\<rparr>) = owner_wf L ow"
  "owner_wf L (ow\<lparr>o_cursor := n\<rparr>) = owner_wf L ow"
  "owner_wf L (ow\<lparr>o_outside := ps\<rparr>) = owner_wf L ow"
  "owner_wf L (ow\<lparr>o_held := ps\<rparr>) = owner_wf L ow"
  "owner_wf L (ow\<lparr>o_next := n\<rparr>) = owner_wf L ow"
  "owner_wf L (ow\<lparr>o_quota := n\<rparr>) = owner_wf L ow"
  "owner_wf L (ow\<lparr>o_admission := adm\<rparr>) = owner_wf L ow"
  "owner_wf L (ow\<lparr>o_clock_failed := x\<rparr>) = owner_wf L ow"
  "owner_wf L (ow\<lparr>o_auth_window := n\<rparr>) = owner_wf L ow"
  "owner_wf L (ow\<lparr>o_auth_attempts := n\<rparr>) = owner_wf L ow"
  "owner_wf L (ow\<lparr>o_peer_budgets := pb\<rparr>) = owner_wf L ow"
  "owner_wf L (ow\<lparr>o_drain := dr\<rparr>) = owner_wf L ow"
  "owner_wf L (ow\<lparr>o_cert := crt\<rparr>) = owner_wf L ow"
  "owner_wf L (ow\<lparr>o_log := lg\<rparr>) = owner_wf L ow"
  "owner_wf L (ow\<lparr>o_revocation_memory := ps\<rparr>) = owner_wf L ow"
  by (simp_all add: hand_out_def release_held_def log_event_def abandon_queues_def abandon_sub_def owner_wf_def)

lemma o_send_eq:
  "o_send E e c ow =
     (case bm_get e (o_peers ow) of None \<Rightarrow> ow | Some p \<Rightarrow>
        (case ev_ctl E e (reg_session (p_reg p)) c (o_world ow) of
           Some w \<Rightarrow> (update_peer e (\<lambda>_. p) ow)\<lparr>o_world := w\<rparr>
         | None \<Rightarrow> update_peer e (\<lambda>_. p\<lparr>p_reg := (p_reg p)\<lparr>reg_cancelled := True\<rparr>\<rparr>) ow))"
  by (auto simp: o_send_def peer_send_def update_peer_def split: option.splits)

lemma wf_o_send: "owner_wf L ow \<Longrightarrow> owner_wf L (o_send E e c ow)"
  by (auto simp: o_send_eq intro!: wf_update_peer split: option.splits)

lemma wf_send_all: "owner_wf L ow \<Longrightarrow> owner_wf L (send_all E c ow)"
  unfolding send_all_def by (rule fold_inv) (rule wf_o_send)

lemma wf_send_outcome: "owner_wf L ow \<Longrightarrow> owner_wf L (send_outcome E e sub i code ow)"
  unfolding send_outcome_def by (rule wf_o_send)

lemma wf_reserve: "o_reserve b n ow = Inr (p, ow') \<Longrightarrow> owner_wf L ow' = owner_wf L ow"
  by (auto dest!: o_reserve_Inr simp: owner_wf_def)

lemma wf_finish: "owner_wf L ow \<Longrightarrow> owner_wf L (finish k r ow)"
  by (auto simp: finish_def Let_def owner_wf_def log_event_def bm_ok_del bm_ok_put split: option.splits)

lemma sub_wf_forget: "sub_wf cfg es s \<Longrightarrow> sub_wf cfg (es - {e}) (forget_peer e s)"
  by (auto simp: sub_wf_def forget_peer_def bm_ok_del bm_all_del)



lemma drop_peer_peers: "bm_ok (o_peers ow) \<Longrightarrow> o_peers (drop_peer e ow) = bm_del e (o_peers ow)"
  by (auto simp: drop_peer_def bm_del_absent bm_has_def split: option.splits)

lemma wf_forget:
  assumes "owner_wf L ow"
  shows "owner_wf L ((drop_peer e ow)\<lparr>o_subs := bm_map (\<lambda>_. forget_peer e) (o_subs ow)\<rparr>)"
proof -
  have "length (bm_del e (o_peers ow)) \<le> max_peers (o_config ow)"
    using assms length_bm_del_le [of e "o_peers ow"] by (auto simp: owner_wf_def)
  moreover have "bm_all (\<lambda>_ s. sub_wf (o_config ow) (set (bm_keys (o_peers ow)) - {e}) (forget_peer e s)) (o_subs ow)"
    using assms by (auto simp: owner_wf_def intro!: sub_wf_forget elim!: bm_all_mono)
  ultimately show ?thesis
    using assms by (simp add: owner_wf_def drop_peer_peers bm_ok_map bm_ok_del bm_all_del bm_all_map)
qed

lemma wf_pending: "owner_wf L ow \<Longrightarrow> bm_ok m \<Longrightarrow> owner_wf L (ow\<lparr>o_pending := m\<rparr>)"
  by (simp add: owner_wf_def)

lemma wf_remove_peer: "owner_wf L ow \<Longrightarrow> owner_wf L (remove_peer tk e ow)"
  unfolding remove_peer_def Let_def case_prod_beta
  by (rule fold_inv [where P = "owner_wf L"], erule wf_finish, rule wf_pending)
    (simp_all add: wf_forget, simp add: owner_wf_def bm_ok_map)

lemma wf_new_budget: "new_budget n ow = (b, ow') \<Longrightarrow> owner_wf L ow' = owner_wf L ow"
  by (auto simp: new_budget_def owner_wf_def)

lemma wf_peer_budget_entry: "peer_budget_entry e ow = (bs, ow') \<Longrightarrow> owner_wf L ow' = owner_wf L ow \<and> o_peers ow' = o_peers ow
    \<and> o_config ow' = o_config ow \<and> o_trust ow' = o_trust ow \<and> o_subs ow' = o_subs ow"
  by (auto simp: peer_budget_entry_def new_budget_def owner_wf_def split: option.splits)


lemma peer_send_eq: "\<exists>c w'. peer_send E e x p w = (p\<lparr>p_reg := (p_reg p)\<lparr>reg_cancelled := c\<rparr>\<rparr>, w')"
  by (cases "ev_ctl E e (reg_session (p_reg p)) x w")
    (auto simp: peer_send_def intro: exI [of _ "reg_cancelled (p_reg p)"])

lemma announce_eq: "\<exists>c w'. announce E e subs p w = (p\<lparr>p_reg := (p_reg p)\<lparr>reg_cancelled := c\<rparr>\<rparr>, w')"
  unfolding announce_def
proof (induction subs arbitrary: p w)
  case Nil
  then show ?case
    by (auto intro: exI [of _ "reg_cancelled (p_reg p)"])
next
  case (Cons x subs)
  obtain c w' where "peer_send E e (Subscribe (fst x) (s_id (snd x)) (s_mode (snd x))) p w =
      (p\<lparr>p_reg := (p_reg p)\<lparr>reg_cancelled := c\<rparr>\<rparr>, w')"
    using peer_send_eq [of E e "Subscribe (fst x) (s_id (snd x)) (s_mode (snd x))" p w] by auto
  with Cons.IH [of "p\<lparr>p_reg := (p_reg p)\<lparr>reg_cancelled := c\<rparr>\<rparr>" w'] show ?case
    by (simp add: case_prod_beta)
qed

lemma wf_add_peer:
  assumes "owner_wf L ow" and "peer_wf L (o_config ow) (t_realm (o_trust ow)) (t_root (o_trust ow)) e p"
    and "bm_has e (o_peers ow) \<or> length (o_peers ow) < max_peers (o_config ow)"
  shows "owner_wf L (ow\<lparr>o_peers := bm_put e p (o_peers ow)\<rparr>)"
  using assms by (auto simp: owner_wf_def bm_ok_put bm_all_put length_bm_put sub_wf_def elim!: bm_all_mono)

lemma remove_peer_peers: "bm_ok (o_peers ow) \<Longrightarrow> o_peers (remove_peer tk e ow) = bm_del e (o_peers ow)"
  unfolding remove_peer_def Let_def case_prod_beta by (subst fold_same) (simp_all add: drop_peer_peers)

lemma wf_certificate_memory [simp]: "wf_certificate L (c\<lparr>c_memory := m\<rparr>) = wf_certificate L c"
  by (simp add: wf_certificate_def split: sum.splits)

lemma length_bm_del_has: "bm_ok m \<Longrightarrow> bm_has k m \<Longrightarrow> length (bm_del k m) < length m"
  by (auto simp: bm_del_def bm_has_iff intro!: length_filter_less)



lemma wf_install:
  assumes "owner_wf L ow" "wf_certificate L (reg_cert reg)"
    and "verify_cose L (c_bytes (reg_cert reg)) (t_root (o_trust ow)) CERT_CONTEXT MAX_CERT \<in> range Inr"
    and "check (o_trust ow) (reg_cert reg) e now = Inr ()"
    and "bm_has e (o_peers ow) \<or> length (o_peers ow) < max_peers (o_config ow)"
  shows "owner_wf L (install_session E tk e reg memory ow)"
proof -
  define ow1 where "ow1 = (remove_peer tk e ow)\<lparr>o_pending := bm_map (\<lambda>key pd.
      if fst key = e then pd\<lparr>pd_cert := reg_cert reg\<rparr> else pd) (o_pending (remove_peer tk e ow))\<rparr>"
  have 1: "owner_wf L ow1"
    using wf_remove_peer [OF assms(1), of tk e] by (simp add: ow1_def owner_wf_def bm_ok_map)
  obtain slt bts ow2 where 2: "peer_budget_entry e ow1 = ((slt, bts), ow2)"
    by (metis surj_pair)
  define p where "p = \<lparr>p_reg = reg, p_outbound = [] :: (topic, 'a binding) bmap, p_inbound = [], p_slots = slt, p_bytes = bts,
      p_memory = memory\<rparr>"
  obtain c w where 3: "announce E e (o_subs ow2) p (o_world ow2) = (p\<lparr>p_reg := (p_reg p)\<lparr>reg_cancelled := c\<rparr>\<rparr>, w)"
    using announce_eq by fast
  have "bm_ok (o_peers ow)"
    using assms(1) by (simp add: owner_wf_def)
  then have ps: "o_peers ow2 = bm_del e (o_peers ow)" "o_config ow2 = o_config ow" "o_trust ow2 = o_trust ow"
    using wf_peer_budget_entry [OF 2] by (auto simp: ow1_def remove_peer_peers)
  have room: "bm_has e (o_peers ow2) \<or> length (o_peers ow2) < max_peers (o_config ow2)"
    using assms(1,5) length_bm_del_le [of e "o_peers ow"] length_bm_del_has [of "o_peers ow" e]
    by (auto simp: owner_wf_def ps)
  have peer: "peer_wf L (o_config ow2) (t_realm (o_trust ow2)) (t_root (o_trust ow2)) e (p\<lparr>p_reg := (p_reg p)\<lparr>reg_cancelled := c\<rparr>\<rparr>)"
    using assms(2,3) check_Inr [THEN iffD1, OF assms(4)] by (simp add: ps peer_wf_def p_def)
  have "install_session E tk e reg memory ow =
      ow2\<lparr>o_peers := bm_put e (p\<lparr>p_reg := (p_reg p)\<lparr>reg_cancelled := c\<rparr>\<rparr>) (o_peers ow2), o_world := w\<rparr>"
    using 2 3 by (simp add: install_session_def Let_def ow1_def p_def)
  with wf_add_peer [OF _ peer room] 1 wf_peer_budget_entry [OF 2] show ?thesis
    by simp
qed


lemma check_memory [simp]: "check t (c\<lparr>c_memory := m\<rparr>) e now = check t c e now"
  by (simp add: check_def certificate_id_def)

lemma trust_verify_Inr: "trust_verify L t c e now = Inr u \<longleftrightarrow>
    verify_cose L (c_bytes c) (t_root t) CERT_CONTEXT MAX_CERT \<in> range Inr \<and> check t c e now = Inr ()"
  by (auto simp: trust_verify_def result_simps)

lemma register_early_None:
  "register_early e reg ow = None \<Longrightarrow> bm_has e (o_peers ow) \<or> length (o_peers ow) < max_peers (o_config ow)"
  by (auto simp: register_early_def bm_has_def split: option.splits if_splits)


lemma register_cases:
  assumes "register E tk e reg ow = (r, ow')"
  obtains (refused) h n where "ow' = ow\<lparr>o_held := h, o_next := n\<rparr>" "r \<noteq> Inr True"
  | (installed) now m memory h n where "local_valid tk ow = Inr now" "o_drain ow = None"
      "trust_verify (ev_lib E) (o_trust ow) (reg_cert reg) e now = Inr ()" "admission_check (o_admission ow) e (reg_cert reg) = Inr ()"
      "register_early e reg ow = None" "r = Inr True"
      "ow' = install_session E tk e (reg\<lparr>reg_cert := (reg_cert reg)\<lparr>c_memory := Some m\<rparr>\<rparr>) memory (ow\<lparr>o_held := h, o_next := n\<rparr>)"
proof -
  note split = sum.splits prod.splits
  have same: "ow = ow\<lparr>o_held := o_held ow, o_next := o_next ow\<rparr>"
    by simp
  consider (early) "ow' = ow" "r \<noteq> Inr True"
    | (go) now where "local_valid tk ow = Inr now" "o_drain ow = None"
      "trust_verify (ev_lib E) (o_trust ow) (reg_cert reg) e now = Inr ()" "admission_check (o_admission ow) e (reg_cert reg) = Inr ()"
      "register_early e reg ow = None"
    using assms by (auto simp: register_def sbind_def fail_if_def register_early_def split: split if_splits option.splits)
  then show thesis
  proof cases
    case early
    with same show thesis
      using refused by metis
  next
    case (go now)
    show thesis
    proof (cases "o_reserve (o_metadata ow) (length (c_bytes (reg_cert reg)) * 4 + 16 * 1024) ow")
      case (Inl x)
      with go assms have "ow' = ow" "r = Inl x"
        by (simp_all add: register_def)
      with refused [of "o_next ow" "o_held ow"] show thesis
        by simp
    next
      case (Inr q)
      then obtain m ow1 where 1: "o_reserve (o_metadata ow) (length (c_bytes (reg_cert reg)) * 4 + 16 * 1024) ow = Inr (m, ow1)"
        by (cases q) auto
      note o_reserve_Inr [OF 1]
      then have ow1: "ow1 = ow\<lparr>o_held := m # o_held ow, o_next := Suc (o_next ow)\<rparr>"
        by simp
      show thesis
      proof (cases "o_reserve (o_metadata ow1) (length (c_bytes (reg_cert reg)) + 4096) ow1")
        case (Inl x)
        with go assms 1 have "ow' = ow1" "r = Inl x"
          by (simp_all add: register_def)
        then show thesis
          by (intro refused [of "Suc (o_next ow)" "m # o_held ow"]) (simp_all add: ow1)
      next
        case (Inr q)
        then obtain memory ow2 where 2: "o_reserve (o_metadata ow1) (length (c_bytes (reg_cert reg)) + 4096) ow1 = Inr (memory, ow2)"
          by (cases q) auto
        with go assms 1 have "r = Inr True" "ow' = install_session E tk e (reg\<lparr>reg_cert := (reg_cert reg)\<lparr>c_memory := Some m\<rparr>\<rparr>) memory ow2"
          by (simp_all add: register_def)
        with go show thesis
          by (intro installed [of now m memory "Suc (o_next ow1)" "memory # o_held ow1"])
            (simp_all add: conjunct1 [OF o_reserve_Inr [OF 2]] ow1)
      qed
    qed
  qed
qed

lemma wf_register:
  assumes "owner_wf (ev_lib E) ow" "wf_certificate (ev_lib E) (reg_cert reg)" "register E tk e reg ow = (r, ow')"
  shows "owner_wf (ev_lib E) ow'"
  using assms(3)
proof (cases rule: register_cases)
  case (refused h n)
  then show ?thesis
    using assms(1) by (simp add: owner_wf_def)
next
  case (installed now m memory h n)
  have "owner_wf (ev_lib E) (ow\<lparr>o_held := h, o_next := n\<rparr>)"
    using assms(1) by (simp add: owner_wf_def)
  with installed assms(2) register_early_None [OF installed(5)] show ?thesis
    by (auto simp: trust_verify_Inr intro!: wf_install)
qed

lemma wf_add_sub:
  assumes "owner_wf L ow" "length (o_subs ow) < max_topics (o_config ow)" "sub_wf (o_config ow) (set (bm_keys (o_peers ow))) s"
  shows "owner_wf L (ow\<lparr>o_subs := bm_put topic s (o_subs ow)\<rparr>)"
  using assms by (auto simp: owner_wf_def bm_ok_put bm_all_put length_bm_put)



lemma wf_subscribe: "owner_wf L ow \<Longrightarrow> owner_wf L (snd (subscribe E tk topic mode ow))"
  unfolding subscribe_def Let_def case_prod_beta
  apply (rule sbind_pure_inv, assumption)+
  apply (rule sbind_try_inv, assumption)
  apply (simp add: case_prod_beta)
  apply (rule wf_add_sub)
  apply (auto simp: new_budget_def wf_send_all sub_wf_def chan_new_def result_simps dest!: o_reserve_Inr)
  done

lemma wf_new_binding:
  assumes "owner_wf L ow" "bm_get e (o_peers ow) = Some p" "bm_has topic (p_outbound p) \<or> length (p_outbound p) < max_topics (o_config ow)"
  shows "owner_wf L (update_peer e (\<lambda>p. p\<lparr>p_outbound := bm_put topic
           \<lparr>b_sub = sub, b_mode = mode, b_credit = None, b_requested = False, b_writer = chan_new 1 memory\<rparr> (p_outbound p)\<rparr>) ow)"
  using assms by (intro wf_update_peer) (auto simp: peer_wf_def chan_new_def bm_ok_put bm_all_put length_bm_put)

lemma wf_control_subscribe: "owner_wf L ow \<Longrightarrow> owner_wf L (snd (control_subscribe E e topic sub mode ow))"
  by (cases "bm_get e (o_peers ow)")
    (auto simp: control_subscribe_def Let_def wf_o_send bm_has_def
      dest!: o_reserve_Inr intro!: sbind_try_inv [where P = "owner_wf L"] wf_o_send wf_new_binding [unfolded One_nat_def]
      split: option.split)

lemma wf_control_suback:
  "owner_wf L ow \<Longrightarrow> bm_has e (o_peers ow) \<Longrightarrow> owner_wf L (snd (control_suback e topic sub code ow))"
  unfolding control_suback_def
  by (auto split: option.split intro!: sbind_pure_inv [where P = "owner_wf L"] wf_update_sub simp: sub_wf_def bm_ok_put bm_keys_iff)

lemma peer_wf_del_out: "peer_wf L cfg realm root e p \<Longrightarrow> peer_wf L cfg realm root e (p\<lparr>p_outbound := bm_del t (p_outbound p)\<rparr>)"
  using length_bm_del_le [of t "p_outbound p"] by (auto simp: peer_wf_def bm_ok_del bm_all_del)

lemma wf_control_unsubscribe: "owner_wf L ow \<Longrightarrow> owner_wf L (snd (control_unsubscribe e topic sub ow))"
  unfolding control_unsubscribe_def Let_def
  by (auto split: option.split intro!: fold_inv [where P = "owner_wf L"] wf_finish wf_update_peer peer_wf_del_out)

lemma sub_wf_return:
  "sub_wf cfg es s \<Longrightarrow> sub_wf cfg es (s\<lparr>s_grants := bm_del e (s_grants s), s_demand := bm_del e (s_demand s)\<rparr>)"
  by (simp add: sub_wf_def bm_ok_del bm_all_del) blast

lemma sub_wf_demand:
  "sub_wf cfg es s \<Longrightarrow> e \<in> s_confirmed s \<Longrightarrow> sub_wf cfg es (s\<lparr>s_demand := bm_put e n (s_demand s)\<rparr>)"
  by (simp add: sub_wf_def bm_ok_put)

lemma wf_control_request_credit: "owner_wf L ow \<Longrightarrow> owner_wf L (snd (control_request_credit e topic sub n ow))"
  unfolding control_request_credit_def
  by (auto split: option.split intro!: sbind_pure_inv [where P = "owner_wf L"] wf_update_sub sub_wf_return sub_wf_demand)

lemma wf_credit_binding:
  assumes "owner_wf L ow" "\<And>b. b_writer (f b) = b_writer b"
  shows "owner_wf L (update_peer e (\<lambda>p. p\<lparr>p_outbound := bm_adjust topic f (p_outbound p)\<rparr>) ow)"
  using assms by (intro wf_update_peer) (auto simp: peer_wf_def bm_ok_adjust intro!: bm_all_adjust)

lemma wf_control_credit: "owner_wf L ow \<Longrightarrow> owner_wf L (snd (control_credit E e topic sub n ow))"
  unfolding control_credit_def Let_def
  by (auto split: option.split intro!: wf_o_send wf_credit_binding)

lemma wf_control_outcome: "owner_wf L ow \<Longrightarrow> owner_wf L (snd (control_outcome tk e topic sub epoch sequence code ow))"
  unfolding control_outcome_def Let_def
  by (auto split: option.split intro!: wf_finish wf_pending simp: bm_ok_adjust owner_wfD)

lemma wf_control_goodbye: "owner_wf L ow \<Longrightarrow> owner_wf L (snd (control_goodbye e ow))"
  by (auto simp: control_goodbye_def intro!: wf_update_peer)


lemma wf_control:
  "owner_wf L ow \<Longrightarrow> bm_has e (o_peers ow) \<Longrightarrow> owner_wf L (snd (owner_control E tk e c ow))"
  by (cases c)
    (simp_all add: owner_control_def wf_control_subscribe wf_control_suback wf_control_unsubscribe wf_control_request_credit
      wf_control_credit wf_control_outcome wf_control_goodbye)

section \<open>Messages\<close>

lemma wf_set_binding:
  assumes "owner_wf L ow" "\<And>p b. bm_get e (o_peers ow) = Some p \<Longrightarrow> bm_get topic (p_outbound p) = Some b \<Longrightarrow>
      length (ch_items (b_writer b)) \<le> 1 \<and> ch_capacity (b_writer b) = 1 \<Longrightarrow>
      length (ch_items (b_writer (f b))) \<le> 1 \<and> ch_capacity (b_writer (f b)) = 1"
  shows "owner_wf L (set_binding e topic f ow)"
  unfolding set_binding_def using assms
  by (intro wf_update_peer) (auto simp: peer_wf_def bm_ok_adjust intro!: bm_all_adjust)

lemma chan_send_Some:
  "chan_send x c = Some c' \<longleftrightarrow> \<not> ch_closed c \<and> length (ch_items c) < ch_capacity c \<and> c' = c\<lparr>ch_items := ch_items c @ [x]\<rparr>"
  by (auto simp: chan_send_def)

lemma wf_schedule_one: "owner_wf L ow \<Longrightarrow> owner_wf L (schedule_one E tk k ow)"
  unfolding schedule_one_def Let_def
  by (auto split: option.split intro!: wf_set_binding wf_update_peer wf_pending simp: chan_send_Some bm_ok_adjust owner_wfD)

lemma wf_schedule: "owner_wf L ow \<Longrightarrow> owner_wf L (schedule E tk ow)"
  unfolding schedule_def by (rule fold_inv) (rule wf_schedule_one)


lemma reserve_many_Inr:
  "reserve_many b n k ow = Inr (ps, ow') \<Longrightarrow> \<exists>h m. ow' = ow\<lparr>o_held := h, o_next := m\<rparr> \<and> length ps = k"
proof (induction k arbitrary: ow ps ow')
  case 0
  then show ?case
    by (auto intro!: exI [of _ "o_held ow"] exI [of _ "o_next ow"])
next
  case (Suc k)
  then show ?case
    by (fastforce simp: result_simps dest!: o_reserve_Inr)
qed

lemma recipient_reserve_Inr:
  "recipient_reserve p len life n ow = Inr (q, ow') \<Longrightarrow> \<exists>h m. ow' = ow\<lparr>o_held := h, o_next := m\<rparr>"
  by (auto simp: recipient_reserve_def result_simps dest!: o_reserve_Inr) (intro exI, rule refl)

lemma wf_publish_one: "owner_wf L ow \<Longrightarrow> owner_wf L (publish_one tk opts payload e sb x ow)"
  unfolding publish_one_def Let_def case_prod_beta
  by (auto split: option.split sum.split dest!: recipient_reserve_Inr intro!: wf_pending simp: bm_ok_put owner_wfD)

lemma wf_next_sequence:
  assumes "owner_wf L ow" "bm_has topic (o_sequences ow) \<or> length (o_sequences ow) < max_topics (o_config ow)"
  shows "owner_wf L (snd (next_sequence topic ow))"
  using assms by (auto simp: next_sequence_def Let_def owner_wf_def bm_ok_put length_bm_put split: option.split)

lemma wf_publish: "owner_wf L ow \<Longrightarrow> owner_wf L (snd (publish E tk topic payload opts ow))"
  unfolding publish_def Let_def
  apply (rule sbind_pure_inv, assumption)+
  apply (rule sbind_inv, rule wf_next_sequence, assumption)
  apply (auto simp: result_simps not_le)[1]
  apply (rule sbind_pure_inv, assumption)+
  apply (rule sbind_try_inv, assumption)
  apply (auto dest!: reserve_many_Inr intro!: wf_schedule fold_inv [where P = "owner_wf L"] wf_publish_one)
  done

lemma wf_dedup_put: "owner_wf L ow \<Longrightarrow> owner_wf L (ow\<lparr>o_dedup := bm_put k d (o_dedup ow)\<rparr>)"
  by (simp add: owner_wf_def bm_ok_put)


lemma wf_begin_stream: "owner_wf L ow \<Longrightarrow> owner_wf L (snd (begin_stream e sub stream topic ow))"
  unfolding begin_stream_def
  apply (rule sbind_pure_inv, assumption)+
  apply (auto intro!: wf_update_peer simp: peer_wf_def bm_ok_put length_bm_put result_simps)
  done

lemma wf_begin_grant: "owner_wf L ow \<Longrightarrow> owner_wf L (snd (begin_grant e sub env ow))"
  unfolding begin_grant_def Let_def
  apply (rule sbind_pure_inv, assumption)+
  apply (auto intro!: wf_update_sub simp: sub_wf_def bm_ok_del bm_all_del)
  done

lemma wf_begin: "owner_wf L ow \<Longrightarrow> owner_wf L (snd (begin_data E tk e session sub stream sb len ow))"
  unfolding begin_data_def Let_def
  apply (rule sbind_pure_inv, assumption)
  apply (rule sbind_inv, erule wf_begin_stream)
  apply (rule sbind_inv, erule wf_begin_grant)
  apply (rule sbind_pure_inv, assumption)+
  apply simp
  done

lemma wf_deliver:
  "owner_wf L ow \<Longrightarrow> bm_get (mid_topic (env_id (rt_envelope ticket))) (o_subs ow) = Some s \<Longrightarrow> owner_wf L (deliver E e sub ticket payload s ow)"
  unfolding deliver_def Let_def
  by (rule wf_dedup_put) (auto intro!: wf_send_outcome wf_update_sub simp: sub_wf_def chan_send_Some split: option.split)

lemma wf_incoming: "owner_wf L ow \<Longrightarrow> owner_wf L (snd (incoming E tk e session sub ticket payload ow))"
  unfolding incoming_def Let_def
  apply (rule sbind_pure_inv, assumption)+
  apply (auto intro!: wf_send_outcome wf_deliver split: option.splits if_splits dedup_state.split)
  done


section \<open>Maintenance\<close>

lemma credit_reserve_Inr:
  "credit_reserve s payload n ow = Inr (g, ow') \<Longrightarrow>
     (\<exists>h m. ow' = ow\<lparr>o_held := h, o_next := m\<rparr>) \<and> permit_n (cg_metadata g) = 6144 \<and> cg_bytes g = n"
  by (auto simp: credit_reserve_def result_simps dest!: o_reserve_Inr) (intro exI, rule refl)

lemma sub_wf_grant:
  "sub_wf cfg es s \<Longrightarrow> e \<in> s_confirmed s \<Longrightarrow> permit_n (cg_metadata g) = 6144 \<Longrightarrow> cg_bytes g \<le> cf_max_payload cfg + MAX_METADATA + 12 \<Longrightarrow>
     sub_wf cfg es (s\<lparr>s_demand := bm_del e (s_demand s), s_grants := bm_put e g (s_grants s)\<rparr>)"
  by (simp add: sub_wf_def bm_ok_put bm_ok_del bm_all_put) blast


lemma credit_candidates_iff:
  "(t, e) \<in> set (credit_candidates subs) \<longleftrightarrow>
     (\<exists>s. (t, s) \<in> set subs \<and> e \<in> s_confirmed s \<and> bm_has e (s_demand s) \<and> \<not> bm_has e (s_grants s))"
  by (auto simp: credit_candidates_def bm_keys_iff)

lemma o_send_subs_get: "bm_get t (o_subs (o_send E e c ow)) = bm_get t (o_subs ow)"
  by simp

lemma grant_one_confirmed:
  "map_option s_confirmed (bm_get t (o_subs (grant_one E c ow))) = map_option s_confirmed (bm_get t (o_subs ow))"
  by (cases c)
    (auto simp: grant_one_def Let_def update_sub_def bmap_simps option.map_comp comp_def
      dest!: credit_reserve_Inr split: option.split sum.split)

lemma wf_grant_one:
  assumes "owner_wf L ow" "case bm_get t (o_subs ow) of None \<Rightarrow> True | Some s \<Rightarrow> e \<in> s_confirmed s"
  shows "owner_wf L (grant_one E (t, e) ow)"
  using assms
  by (auto simp: grant_one_def Let_def dest!: credit_reserve_Inr intro!: wf_o_send wf_update_sub sub_wf_grant split: option.splits sum.split)

lemma wf_grant_credits:
  fixes ow :: "('e::linorder, 'w) owner"
  assumes "owner_wf L ow"
  shows "owner_wf L (grant_credits E tk ow)"
proof -
  define cs where "cs = rotate (o_cursor ow mod length (credit_candidates (o_subs ow))) (credit_candidates (o_subs ow))"
  define ow1 where "ow1 = ow\<lparr>o_cursor := (o_cursor ow + 1) mod 2 ^ 64\<rparr>"
  define Q where "Q = (\<lambda>x :: ('e, 'w) owner. owner_wf L x \<and> (\<forall>t. map_option s_confirmed (bm_get t (o_subs x)) = map_option s_confirmed (bm_get t (o_subs ow))))"
  have "Q (grant_one E c x)" if "c \<in> set cs" "Q x" for c x
  proof -
    obtain t e where c: "c = (t, e)"
      by (cases c)
    with that(1) obtain s where "bm_get t (o_subs ow) = Some s" "e \<in> s_confirmed s"
      using owner_wfD(2) [OF assms] by (auto simp: cs_def credit_candidates_iff bm_in_set_iff)
    with that(2) have "case bm_get t (o_subs x) of None \<Rightarrow> True | Some s \<Rightarrow> e \<in> s_confirmed s"
      by (auto simp: Q_def split: option.split dest!: spec [of _ t])
    with that(2) c show ?thesis
      by (auto simp: Q_def grant_one_confirmed intro!: wf_grant_one)
  qed
  moreover have "Q ow1"
    using assms by (simp add: Q_def ow1_def)
  ultimately have "Q (fold (grant_one E) cs ow1)"
    by (rule fold_inv)
  then show ?thesis
    using assms by (auto simp: grant_credits_def Let_def Q_def cs_def ow1_def split: sum.split)
qed

lemma wf_remove_stale: "owner_wf L ow \<Longrightarrow> owner_wf L (remove_stale tk ow)"
  unfolding remove_stale_def by (rule fold_inv) (rule wf_remove_peer)

lemma wf_clock_check: "owner_wf L ow \<Longrightarrow> owner_wf L (clock_check tk ow)"
  by (simp add: clock_check_def Let_def split: sum.split)

lemma wf_close_sub: "owner_wf L ow \<Longrightarrow> owner_wf L (close_sub E t ow)"
proof -
  have del: "owner_wf L ow \<Longrightarrow> owner_wf L (ow\<lparr>o_subs := bm_del t (o_subs ow)\<rparr>)"
    using length_bm_del_le [of t "o_subs ow"] by (auto simp: owner_wf_def bm_ok_del bm_all_del)
  have inb: "peer_wf L cfg realm root e (p\<lparr>p_inbound := bm_del t (p_inbound p)\<rparr>)" if "peer_wf L cfg realm root e p" for cfg realm root e p
    using that length_bm_del_le [of t "p_inbound p"] by (auto simp: peer_wf_def bm_ok_del)
  show "owner_wf L ow \<Longrightarrow> ?thesis"
    unfolding close_sub_def
    by (auto split: option.split intro!: fold_inv [where P = "owner_wf L"] wf_o_send wf_update_peer inb del)
qed

lemma wf_close_subs: "owner_wf L ow \<Longrightarrow> owner_wf L (close_subs E ow)"
  unfolding close_subs_def by (rule fold_inv) (rule wf_close_sub)

lemma wf_settle_dedup: "owner_wf L ow \<Longrightarrow> owner_wf L (settle_dedup E x now ow)"
proof -
  have maps: "owner_wf L ow \<Longrightarrow> owner_wf L (ow\<lparr>o_dedup := bm_map f (o_dedup ow), o_log := l\<rparr>)"
    and retain: "owner_wf L ow' \<Longrightarrow> owner_wf L (ow'\<lparr>o_dedup := bm_retain P (o_dedup ow'), o_terminal := bm_retain Q (o_terminal ow')\<rparr>)"
    for f l P Q ow'
    by (simp_all add: owner_wf_def bm_ok_map bm_ok_simps)
  show "owner_wf L ow \<Longrightarrow> ?thesis"
    unfolding settle_dedup_def Let_def case_prod_beta
    by (rule retain) (auto intro!: fold_inv [where P = "owner_wf L"] wf_send_outcome maps)
qed

lemma wf_finish_pending: "owner_wf L ow \<Longrightarrow> owner_wf L (finish_pending tk x now ow)"
  unfolding finish_pending_def expire_one_def case_prod_beta
  by (rule fold_inv) (auto intro!: wf_finish)

lemma wf_return_credits: "owner_wf L ow \<Longrightarrow> owner_wf L (return_credits E ow)"
proof -
  have b: "peer_wf L cfg realm root e (p\<lparr>p_outbound := bm_map (\<lambda>t b. if t \<in> T then b\<lparr>b_credit := None\<rparr> else b) (p_outbound p)\<rparr>)"
    if "peer_wf L cfg realm root e p" for cfg realm root e p T
    using that by (auto simp: peer_wf_def bm_ok_map bm_all_map elim!: bm_all_mono)
  have "owner_wf L (return_peer E e ow')" if "owner_wf L ow'" for e ow'
    using that unfolding return_peer_def Let_def case_prod_beta
    by (auto split: option.split intro!: fold_inv [where P = "owner_wf L"] wf_o_send wf_update_peer b)
  then show "owner_wf L ow \<Longrightarrow> ?thesis"
    unfolding return_credits_def by (rule fold_inv)
qed

lemma wf_maintenance: "owner_wf L ow \<Longrightarrow> owner_wf L (maintenance E tk ow)"
  unfolding maintenance_def Let_def
  by (intro wf_schedule wf_grant_credits)
    (simp add: retain_budgets_def wf_return_credits wf_finish_pending wf_settle_dedup wf_close_subs wf_remove_stale wf_clock_check)


section \<open>Commands\<close>

lemma wf_cmd_issue_code: "owner_wf L ow \<Longrightarrow> owner_wf L (snd (cmd_issue_code E tk opts address ow))"
  unfolding cmd_issue_code_def by (rule sbind_pure_inv [where P = "owner_wf L"]) (auto split: prod.split)

lemma wf_cmd_enroll: "owner_wf L ow \<Longrightarrow> owner_wf L (snd (cmd_enroll E tk e cid secret ow))"
  unfolding cmd_enroll_def Let_def
  by (rule sbind_pure_inv [where P = "owner_wf L"]) (auto split: prod.split sum.split)

lemma spawn_task_Some:
  "spawn_task ow = Some ow' \<Longrightarrow> \<exists>ps h n q. ow' = hand_out ps (ow\<lparr>o_held := h, o_next := n, o_quota := q\<rparr>)"
  by (auto simp: spawn_task_def dest!: o_reserve_Inr split: if_splits sum.splits)

lemma wf_spawn_task: "spawn_task ow = Some ow' \<Longrightarrow> owner_wf L ow \<Longrightarrow> owner_wf L ow'"
  by (auto dest!: spawn_task_Some)

lemma wf_cmd_connect: "owner_wf L ow \<Longrightarrow> owner_wf L (snd (cmd_connect tk e ow))"
  by (auto simp: cmd_connect_def dest: wf_spawn_task split: sum.split option.split)

lemma wf_cmd_remote: "owner_wf L ow \<Longrightarrow> owner_wf L (cmd_remote E tk e session c ow)"
proof -
  assume wf: "owner_wf L ow"
  have "owner_wf L (snd (sbind (peer_valid tk e session ow, ow) (\<lambda>_. owner_control E tk e c)))"
    by (rule sbind_pure_inv [where P = "owner_wf L"])
      (auto intro!: wf_control simp: wf peer_valid_def result_simps bm_has_def)
  then show ?thesis
    using wf by (auto simp: cmd_remote_def intro!: wf_remove_peer split: prod.split sum.split)
qed

lemma wf_cmd_incoming: "owner_wf L ow \<Longrightarrow> owner_wf L (cmd_incoming E tk e session sub t payload ow)"
  using wf_incoming [of L ow E tk e session sub t payload]
  by (auto simp: cmd_incoming_def intro!: wf_remove_peer split: prod.split sum.split)

lemma wf_cmd_sent: "owner_wf L ow \<Longrightarrow> owner_wf L (cmd_sent tk k session res ow)"
  unfolding cmd_sent_def Let_def
  by (auto split: option.split intro!: wf_finish wf_remove_peer wf_pending simp: bm_ok_adjust owner_wfD)

lemma wf_retain_subs: "owner_wf L ow \<Longrightarrow> owner_wf L (retain_subs ow)"
proof -
  have "owner_wf L ow \<Longrightarrow> owner_wf L (ow\<lparr>o_subs := bm_retain P (o_subs ow)\<rparr>)" for P
    using length_bm_retain_le [of P "o_subs ow"] by (auto simp: owner_wf_def bm_ok_retain bm_all_retain)
  then show "owner_wf L ow \<Longrightarrow> ?thesis"
    unfolding retain_subs_def Let_def by (auto intro!: fold_inv [where P = "owner_wf L"])
qed

lemma wf_cmd_renew: "owner_wf L ow \<Longrightarrow> owner_wf L (snd (cmd_renew E tk cert ow))"
  unfolding cmd_renew_def Let_def
  apply (rule sbind_pure_inv [where P = "owner_wf L"], assumption)+
  apply (rule sbind_try_inv [where P = "owner_wf L"], assumption)
  apply (auto simp: result_simps dest!: o_reserve_Inr intro!: wf_maintenance wf_retain_subs fold_inv [where P = "owner_wf L"] wf_remove_peer)
  done

lemma wf_new_trust: "owner_wf L ow \<Longrightarrow> trust_step L (o_trust ow) t \<Longrightarrow> owner_wf L (ow\<lparr>o_trust := t\<rparr>)"
  using trust_step_mono [of L "o_trust ow" t] by (auto simp: owner_wf_def)

lemma wf_deny: "owner_wf L ow \<Longrightarrow> owner_wf L (snd (deny cid ow))"
  unfolding deny_def Let_def
  apply (rule sbind_try_inv [where P = "owner_wf L"], assumption)
  apply (rule sbind_pure_inv [where P = "owner_wf L"])
  apply (auto dest!: o_reserve_Inr intro!: wf_new_trust trust_step.deny)
  done

lemma wf_revoke: "owner_wf (ev_lib E) ow \<Longrightarrow> owner_wf (ev_lib E) (snd (revoke E tk snapshot ow))"
  unfolding revoke_def Let_def
  apply (rule sbind_try_inv [where P = "owner_wf (ev_lib E)"], assumption)
  apply (rule sbind_pure_inv [where P = "owner_wf (ev_lib E)"], force dest!: o_reserve_Inr)+
  apply (auto dest!: o_reserve_Inr intro!: wf_new_trust trust_step.apply_snapshot)
  done

lemma wf_cmd_deny: "owner_wf L ow \<Longrightarrow> owner_wf L (snd (cmd_deny E tk cid ow))"
  using wf_deny [of L ow cid] by (auto simp: cmd_deny_def intro!: wf_maintenance split: prod.split)

lemma wf_cmd_revoke: "owner_wf (ev_lib E) ow \<Longrightarrow> owner_wf (ev_lib E) (snd (cmd_revoke E tk snapshot ow))"
  using wf_revoke [of E ow tk snapshot] by (auto simp: cmd_revoke_def intro!: wf_maintenance split: prod.split sum.split bool.split)

lemma wf_cmd_cancel: "owner_wf L ow \<Longrightarrow> owner_wf L (cmd_cancel i ow)"
  unfolding cmd_cancel_def by (rule fold_inv) (rule wf_finish)

lemma wf_command:
  assumes "owner_wf (ev_lib E) ow" "admissible (ev_lib E) s (Command c)"
  shows "owner_wf (ev_lib E) (snd (command E tk c ow))"
proof (cases c)
  case (Register e reg)
  with assms show ?thesis
    using wf_register [of E ow reg tk e] by (cases "register E tk e reg ow") (auto simp: command_def admissible_def)
next
  case (Begin e session sub stream sb len)
  with assms show ?thesis
    using wf_begin [of "ev_lib E" ow E tk e session sub stream sb len]
    by (auto simp: command_def split: prod.split sum.split option.split)
qed (use assms in \<open>auto simp: command_def cmd_revoke_code_def cmd_end_def cmd_shutdown_def
      intro!: wf_cmd_issue_code wf_cmd_enroll wf_cmd_connect wf_remove_peer wf_subscribe wf_publish wf_cmd_remote
        wf_cmd_incoming wf_cmd_sent wf_cmd_renew wf_cmd_deny wf_cmd_revoke wf_cmd_cancel wf_send_all
      split: prod.split\<close>)


lemma wf_accept: "owner_wf L ow \<Longrightarrow> owner_wf L (snd (accept tk ow))"
  by (auto simp: accept_def Let_def split: option.split dest!: wf_spawn_task)

lemma wf_handle:
  assumes "owner_wf (ev_lib E) ow" "admissible (ev_lib E) s i"
  shows "owner_wf (ev_lib E) (snd (snd (handle_input E tk i ow)))"
proof (cases i)
  case (Command c)
  with assms wf_command [of E ow s c tk] show ?thesis
    by (auto simp: handle_input_def split: prod.split)
qed (use assms in \<open>auto simp: handle_input_def wf_maintenance intro!: wf_accept\<close>)

lemma wf_turn:
  assumes "owner_wf (ev_lib E) ow" "admissible (ev_lib E) s i" "turn E tk i ow = (r, go, ow')"
  shows "owner_wf (ev_lib E) ow'"
  using assms(3) wf_handle [OF assms(1,2), of tk]
  by (auto simp: turn_def Let_def wf_schedule split: prod.splits bool.splits)

lemma wf_env_step: "env_step ow ow' \<Longrightarrow> owner_wf L ow \<Longrightarrow> owner_wf L ow'"
proof (induction rule: env_step.induct)
  case (settle k ow d code)
  then show ?case
    by (simp add: owner_wf_def bm_ok_adjust)
next
  case (take_delivery topic ow s d ds)
  then show ?case
    by (intro wf_update_sub) (auto simp: sub_wf_def)
next
  case (close_delivery ow topic)
  then show ?case
    by (intro wf_update_sub) (auto simp: sub_wf_def)
next
  case (take_data e ow p topic b d ds)
  then show ?case
    by (intro wf_set_binding) auto
next
  case (reserve_outside b ow n p ow')
  then show ?case
    by (auto dest!: o_reserve_Inr)
qed (auto intro!: wf_set_binding wf_update_peer)

locale system_invariant =
  fixes E :: "('e::linorder, 'w) env" and I :: "('e, 'w) system \<Rightarrow> bool"
  assumes start: "fresh_owner (ev_lib E) ow \<Longrightarrow> I \<lparr>sy_owner = ow, sy_tickets = []\<rparr>"
    and owner_turn: "\<lbrakk>reach E s; I s; admissible (ev_lib E) s i; turn E tk i (sy_owner s) = (r, go, ow)\<rbrakk>
      \<Longrightarrow> I \<lparr>sy_owner = ow, sy_tickets = tickets_after i r (sy_tickets s)\<rparr>"
    and others: "\<lbrakk>reach E s; I s; env_step (sy_owner s) ow\<rbrakk> \<Longrightarrow> I (s\<lparr>sy_owner := ow\<rparr>)"
    and drop_ticket: "\<lbrakk>reach E s; I s\<rbrakk> \<Longrightarrow> I (s\<lparr>sy_tickets := filter keep (sy_tickets s)\<rparr>)"
begin

lemma holds: "reach E s \<Longrightarrow> I s"
proof (induction rule: reach.induct)
  case (start ow)
  then show ?case
    by (rule system_invariant.start [OF system_invariant_axioms])
next
  case (step s s')
  from step(2) show ?case
    by cases (use step(1,3) owner_turn others drop_ticket in auto)
qed

end

lemma fresh_owner_wf: "fresh_owner L ow \<Longrightarrow> owner_wf L ow"
  by (auto simp: fresh_owner_def owner_new_def owner_wf_def)

interpretation wf: system_invariant E "\<lambda>s. owner_wf (ev_lib E) (sy_owner s)" for E
  by unfold_locales (auto intro: fresh_owner_wf wf_turn wf_env_step)

end
