(* ===== verification/Owner_Core.thy ===== *)
theory Owner_Core
  imports Owner_Invariant
begin

text \<open>
  What the endpoint owner remembers of messages: the keys of the pending deliveries, the replay
  records, the log and the sequence numbers. Few operations change it: \<open>finish\<close>, \<open>publish\<close>,
  \<open>deliver\<close> and \<open>settle_dedup\<close>. The locale \<open>core_preserved\<close> states what a predicate on it has to
  satisfy for these four, and shows that every turn of the owner then preserves it;
  \<open>core_invariant\<close> gives an invariant of all reachable states.
\<close>

section \<open>The core of the state\<close>

definition core where
  "core ow = ((\<lambda>k. bm_has k (o_pending ow)), o_dedup ow, o_log ow, o_sequences ow, o_epoch ow, o_self ow,
     t_realm (o_trust ow), t_root (o_trust ow))"

lemma core_record [simp]:
  "core (ow\<lparr>o_stats := v1\<rparr>) = core ow" "core (ow\<lparr>o_held := v2\<rparr>) = core ow" "core (ow\<lparr>o_next := v3\<rparr>) = core ow"
  "core (ow\<lparr>o_peers := v4\<rparr>) = core ow" "core (ow\<lparr>o_subs := v5\<rparr>) = core ow" "core (ow\<lparr>o_world := v6\<rparr>) = core ow"
  "core (ow\<lparr>o_cursor := v7\<rparr>) = core ow" "core (ow\<lparr>o_outside := v8\<rparr>) = core ow" "core (ow\<lparr>o_quota := v9\<rparr>) = core ow"
  "core (ow\<lparr>o_admission := v10\<rparr>) = core ow" "core (ow\<lparr>o_clock_failed := v11\<rparr>) = core ow" "core (ow\<lparr>o_cert := v12\<rparr>) = core ow"
  "core (ow\<lparr>o_auth_window := v13\<rparr>) = core ow" "core (ow\<lparr>o_auth_attempts := v14\<rparr>) = core ow" "core (ow\<lparr>o_drain := v15\<rparr>) = core ow"
  "core (ow\<lparr>o_peer_budgets := v16\<rparr>) = core ow" "core (ow\<lparr>o_revocation_memory := v17\<rparr>) = core ow"
  by (simp_all add: core_def bmap_simps)

lemma core_pending: "(\<And>k. bm_has k m = bm_has k (o_pending ow)) \<Longrightarrow> core (ow\<lparr>o_pending := m\<rparr>) = core ow"
  by (simp add: core_def)

lemma core_frame [simp]:
  "core (hand_out ps ow) = core ow" "core (release_held ow) = core ow" "core (o_send E e c ow) = core ow"
  "core (send_all E c ow) = core ow" "core (send_outcome E e sub i code ow) = core ow"
  "core (abandon_queues p ow) = core ow" "core (abandon_sub s ow) = core ow" "core (drop_peer e ow) = core ow"
  "core (update_peer e f ow) = core ow" "core (update_sub t g ow) = core ow" "core (set_binding e t h ow) = core ow"
  "core (grant_credits E tk ow) = core ow" "core (clock_check tk ow) = core ow" "core (close_subs E ow) = core ow"
  "core (return_credits E ow) = core ow" "core (retain_budgets ow) = core ow"
  by (simp_all add: core_def)

lemma core_schedule_one [simp]: "core (schedule_one E tk k ow) = core ow"
  by (auto simp: schedule_one_def Let_def core_pending bmap_simps split: option.split)

lemma core_schedule [simp]: "core (schedule E tk ow) = core ow"
  unfolding schedule_def by (rule fold_same) simp

lemma core_peer_budget_entry: "peer_budget_entry e ow = (bs, ow') \<Longrightarrow> core ow' = core ow"
  by (auto simp: peer_budget_entry_def new_budget_def split: option.splits)

lemma core_begin: "core (snd (begin_data E tk e session sub stream sb len ow)) = core ow"
proof -
  have s: "core (snd (begin_stream e sub stream topic ow)) = core ow" for topic
    unfolding begin_stream_def by (intro sbind_pure_inv [where P = "\<lambda>x. core x = core ow"]) simp_all
  have g: "core (snd (begin_grant e sub env ow1)) = core ow1" for env ow1
    unfolding begin_grant_def Let_def by (intro sbind_pure_inv [where P = "\<lambda>x. core x = core ow1"]) simp_all
  show ?thesis
    unfolding begin_data_def Let_def
    apply (rule sbind_pure_inv [where P = "\<lambda>x. core x = core ow"], simp)
    apply (rule sbind_inv [where P = "\<lambda>x. core x = core ow"], simp add: s)
    apply (rule sbind_inv [where P = "\<lambda>x. core x = core ow"], simp add: g)
    apply (rule sbind_pure_inv [where P = "\<lambda>x. core x = core ow"], simp)+
    apply simp
    done
qed

section \<open>Predicates on the core\<close>

locale core_preserved =
  fixes E :: "('e::linorder, 'w) env" and tk :: "'e tick" and I :: "('e, 'w) owner \<Rightarrow> bool"
    and D :: "'e \<Rightarrow> bytes \<Rightarrow> 'e receive_ticket \<Rightarrow> bool"
  assumes frame: "I ow \<Longrightarrow> core ow' = core ow \<Longrightarrow> I ow'"
    and finish: "I ow \<Longrightarrow> r \<noteq> Pending \<Longrightarrow> I (finish k r ow)"
    and publish: "owner_wf (ev_lib E) ow \<Longrightarrow> I ow \<Longrightarrow> I (snd (publish E tk topic payload opts ow))"
    and deliver: "\<lbrakk>owner_wf (ev_lib E) ow; I ow; bm_get (mid_topic (env_id (rt_envelope t))) (o_subs ow) = Some s;
        case bm_get (sub, env_id (rt_envelope t)) (o_dedup ow) of None \<Rightarrow> True | Some d \<Rightarrow> dd_state d = DedupRetryable;
        D e sub t; payload_matches (ev_lib E) (rt_envelope t) (lease_bytes payload);
        tk_now tk = Inr now; now < env_expires (rt_envelope t)\<rbrakk>
      \<Longrightarrow> I (deliver E e sub t payload s ow)"
    and settle: "owner_wf (ev_lib E) ow \<Longrightarrow> I ow \<Longrightarrow> I (settle_dedup E x (wall tk) ow)"
begin

lemma frame_iff: "core ow' = core ow \<Longrightarrow> I ow' = I ow"
  using frame by metis

lemma frames [simp]:
  "I (ow\<lparr>o_stats := v0\<rparr>) = I ow"
  "I (ow\<lparr>o_held := v1\<rparr>) = I ow"
  "I (ow\<lparr>o_next := v2\<rparr>) = I ow"
  "I (ow\<lparr>o_peers := v3\<rparr>) = I ow"
  "I (ow\<lparr>o_subs := v4\<rparr>) = I ow"
  "I (ow\<lparr>o_world := v5\<rparr>) = I ow"
  "I (ow\<lparr>o_cursor := v6\<rparr>) = I ow"
  "I (ow\<lparr>o_outside := v7\<rparr>) = I ow"
  "I (ow\<lparr>o_quota := v8\<rparr>) = I ow"
  "I (ow\<lparr>o_admission := v9\<rparr>) = I ow"
  "I (ow\<lparr>o_clock_failed := v10\<rparr>) = I ow"
  "I (ow\<lparr>o_cert := v11\<rparr>) = I ow"
  "I (ow\<lparr>o_auth_window := v12\<rparr>) = I ow"
  "I (ow\<lparr>o_auth_attempts := v13\<rparr>) = I ow"
  "I (ow\<lparr>o_drain := v14\<rparr>) = I ow"
  "I (ow\<lparr>o_peer_budgets := v15\<rparr>) = I ow"
  "I (ow\<lparr>o_revocation_memory := v16\<rparr>) = I ow"
  "I (hand_out ps ow) = I ow"
  "I (release_held ow) = I ow"
  "I (o_send E' e c ow) = I ow"
  "I (send_all E' c ow) = I ow"
  "I (send_outcome E' e sub i code ow) = I ow"
  "I (abandon_queues p ow) = I ow"
  "I (abandon_sub s ow) = I ow"
  "I (drop_peer e ow) = I ow"
  "I (update_peer e f ow) = I ow"
  "I (update_sub t g ow) = I ow"
  "I (set_binding e t h ow) = I ow"
  "I (grant_credits E' tk ow) = I ow"
  "I (clock_check tk ow) = I ow"
  "I (close_subs E' ow) = I ow"
  "I (return_credits E' ow) = I ow"
  "I (retain_budgets ow) = I ow"
  "I (schedule E' tk ow) = I ow"
  by (rule frame_iff, simp)+

lemma frame_pending [simp]: "(\<And>k. bm_has k m = bm_has k (o_pending ow)) \<Longrightarrow> I (ow\<lparr>o_pending := m\<rparr>) = I ow"
  by (rule frame_iff) (rule core_pending)

lemma frame_begin: "I (snd (begin_data E' tk e session sub stream sb len ow)) = I ow"
  by (rule frame_iff) (rule core_begin)

lemma remove_peer: "I ow \<Longrightarrow> I (remove_peer tk e ow)"
  unfolding remove_peer_def Let_def case_prod_beta
  by (rule fold_inv [where P = I]) (auto intro: finish simp: bmap_simps)

lemma remove_peers: "I ow \<Longrightarrow> I (fold (remove_peer tk) es ow)"
  by (rule fold_inv) (rule remove_peer)

lemma install: "I ow \<Longrightarrow> I (install_session E' tk e reg memory ow)"
  unfolding install_session_def Let_def
  by (auto split: prod.split dest!: core_peer_budget_entry frame_iff simp: bmap_simps remove_peer)

lemma register: "I ow \<Longrightarrow> register E' tk e reg ow = (r, ow') \<Longrightarrow> I ow'"
  by (erule register_cases) (auto intro!: install)

lemma subscribe: "I ow \<Longrightarrow> I (snd (subscribe E' tk topic mode ow))"
  unfolding subscribe_def Let_def case_prod_beta
  apply (rule sbind_pure_inv [where P = I], assumption)+
  apply (rule sbind_try_inv [where P = I], assumption)
  apply (auto simp: new_budget_def dest!: o_reserve_Inr)
  done

lemma control: "I ow \<Longrightarrow> I (snd (owner_control E' tk e c ow))"
proof (cases c)
  case (Subscribe topic sub mode)
  then show "I ow \<Longrightarrow> ?thesis"
    by (cases "bm_get e (o_peers ow)")
      (auto simp: owner_control_def control_subscribe_def Let_def dest!: o_reserve_Inr
        intro!: sbind_try_inv [where P = I] split: option.split)
next
  case (Suback topic sub code)
  then show "I ow \<Longrightarrow> ?thesis"
    by (auto simp: owner_control_def control_suback_def intro!: sbind_pure_inv [where P = I] split: option.split)
next
  case (Unsubscribe topic sub)
  then show "I ow \<Longrightarrow> ?thesis"
    by (auto simp: owner_control_def control_unsubscribe_def Let_def intro!: fold_inv [where P = I] finish split: option.split)
next
  case (RequestCredit topic sub n)
  then show "I ow \<Longrightarrow> ?thesis"
    by (auto simp: owner_control_def control_request_credit_def intro!: sbind_pure_inv [where P = I] split: option.split)
next
  case (Credit topic sub n)
  then show "I ow \<Longrightarrow> ?thesis"
    by (auto simp: owner_control_def control_credit_def Let_def split: option.split)
next
  case (Outcome topic sub epoch sequence code)
  then show "I ow \<Longrightarrow> ?thesis"
    by (auto simp: owner_control_def control_outcome_def Let_def bmap_simps intro!: finish split: option.split)
qed (auto simp: owner_control_def control_goodbye_def)

lemma incoming:
  "owner_wf (ev_lib E) ow \<Longrightarrow> I ow \<Longrightarrow> D e sub t \<Longrightarrow> I (snd (incoming E tk e session sub t payload ow))"
  unfolding incoming_def Let_def
  apply (rule sbind_pure_inv [where P = I], assumption)+
  apply (auto intro!: deliver simp: result_simps split: option.splits if_splits dedup_state.split)
  done

lemma finish_pending: "I ow \<Longrightarrow> I (finish_pending tk x now ow)"
  unfolding finish_pending_def expire_one_def case_prod_beta
  by (rule fold_inv) (auto intro!: finish)

lemma remove_stale: "I ow \<Longrightarrow> I (remove_stale tk ow)"
  unfolding remove_stale_def by (rule remove_peers)

lemma maintenance: "owner_wf (ev_lib E) ow \<Longrightarrow> I ow \<Longrightarrow> I (maintenance E tk ow)"
  unfolding maintenance_def Let_def
  by simp (intro finish_pending settle wf_close_subs wf_remove_stale wf_clock_check; simp add: remove_stale)

lemma renew:
  assumes "owner_wf (ev_lib E) ow" "I ow"
  shows "I (snd (cmd_renew E tk cert ow))"
proof -
  have subs: "I x \<Longrightarrow> I (retain_subs x)" for x
    unfolding retain_subs_def Let_def by (rule fold_inv [where P = I]) auto
  show ?thesis
    unfolding cmd_renew_def Let_def
    apply (rule sbind_pure_inv [where P = I], rule assms)+
    apply (rule sbind_try_inv [where P = I], rule assms)
    using assms
    apply (auto simp: result_simps dest!: o_reserve_Inr
        intro!: maintenance wf_retain_subs fold_inv [where P = "owner_wf (ev_lib E)"] wf_remove_peer subs remove_peers)
    done
qed

lemma new_trust: "t_realm t = t_realm (o_trust ow) \<Longrightarrow> t_root t = t_root (o_trust ow) \<Longrightarrow> I (ow\<lparr>o_trust := t\<rparr>) = I ow"
  by (rule frame_iff) (simp add: core_def)

lemma deny: "owner_wf (ev_lib E) ow \<Longrightarrow> I ow \<Longrightarrow> I (snd (deny cid ow))"
  unfolding deny_def Let_def
  apply (rule sbind_try_inv [where P = I], assumption)
  apply (rule sbind_pure_inv [where P = I])
  apply (auto dest!: o_reserve_Inr deny_certificate_Inr simp: owner_wfD new_trust)
  done

lemma revoke: "owner_wf (ev_lib E) ow \<Longrightarrow> I ow \<Longrightarrow> I (snd (revoke E tk snapshot ow))"
  unfolding revoke_def Let_def
  apply (rule sbind_try_inv [where P = I], assumption)
  apply (rule sbind_pure_inv [where P = I], force dest!: o_reserve_Inr)+
  apply (auto dest!: o_reserve_Inr apply_revocations_Inr simp: new_trust)
  done

lemma cmd_deny: "owner_wf (ev_lib E) ow \<Longrightarrow> I ow \<Longrightarrow> I (snd (cmd_deny E tk cid ow))"
  using wf_deny [of "ev_lib E" ow cid] deny [of ow cid]
  by (auto simp: cmd_deny_def intro!: maintenance split: prod.split)

lemma cmd_revoke: "owner_wf (ev_lib E) ow \<Longrightarrow> I ow \<Longrightarrow> I (snd (cmd_revoke E tk snapshot ow))"
  using wf_revoke [of E ow tk snapshot] revoke [of ow snapshot]
  by (auto simp: cmd_revoke_def intro!: maintenance split: prod.split sum.split bool.split)

lemma cmd_remote: "I ow \<Longrightarrow> I (cmd_remote E' tk e session c ow)"
proof -
  assume I: "I ow"
  have "I (snd (sbind (peer_valid tk e session ow, ow) (\<lambda>_. owner_control E' tk e c)))"
    by (rule sbind_pure_inv [where P = I]) (auto intro!: control simp: I)
  then show ?thesis
    using I by (auto simp: cmd_remote_def intro!: remove_peer split: prod.split sum.split)
qed

lemma cmd_incoming:
  "owner_wf (ev_lib E) ow \<Longrightarrow> I ow \<Longrightarrow> D e sub t \<Longrightarrow> I (cmd_incoming E tk e session sub t payload ow)"
  using incoming [of ow e sub t session payload]
  by (auto simp: cmd_incoming_def intro!: remove_peer split: prod.split sum.split)

lemma cmd_sent: "I ow \<Longrightarrow> I (cmd_sent tk k session res ow)"
  unfolding cmd_sent_def Let_def
  by (auto split: option.split sum.split intro!: finish remove_peer simp: bmap_simps)

lemma cmd_issue_code: "I ow \<Longrightarrow> I (snd (cmd_issue_code E' tk opts address ow))"
  unfolding cmd_issue_code_def by (rule sbind_pure_inv [where P = I]) (auto split: prod.split)

lemma cmd_enroll: "I ow \<Longrightarrow> I (snd (cmd_enroll E' tk e cid secret ow))"
  unfolding cmd_enroll_def Let_def
  by (rule sbind_pure_inv [where P = I]) (auto split: prod.split sum.split)

lemma cmd_connect: "I ow \<Longrightarrow> I (snd (cmd_connect tk e ow))"
  by (auto simp: cmd_connect_def dest!: spawn_task_Some split: sum.split option.split)

lemma accept: "I ow \<Longrightarrow> I (snd (accept tk ow))"
  by (auto simp: accept_def Let_def split: option.split dest!: spawn_task_Some)

lemma cmd_cancel: "I ow \<Longrightarrow> I (cmd_cancel i ow)"
  unfolding cmd_cancel_def by (rule fold_inv) (auto intro: finish)

lemma command:
  assumes "owner_wf (ev_lib E) ow" "I ow"
    and D: "\<And>e session sub t payload. c = Incoming e session sub t payload \<Longrightarrow> D e sub t"
  shows "I (snd (command E tk c ow))"
proof (cases c)
  case (Register e reg)
  with assms show ?thesis
    using register [of ow E e reg] by (cases "Owner_Peers.register E tk e reg ow") (auto simp: command_def)
next
  case (Begin e session sub stream sb len)
  with assms show ?thesis
    using frame_begin [of E e session sub stream sb len ow]
    by (auto simp: command_def split: prod.split sum.split option.split)
next
  case (Incoming e session sub t payload)
  with assms show ?thesis
    by (simp add: command_def cmd_incoming)
qed (use assms in \<open>auto simp: command_def cmd_revoke_code_def cmd_end_def cmd_shutdown_def
      intro!: cmd_issue_code cmd_enroll cmd_connect remove_peer subscribe publish cmd_remote
        cmd_sent renew cmd_deny cmd_revoke cmd_cancel
      split: prod.split\<close>)

lemma turn:
  assumes "owner_wf (ev_lib E) ow" "I ow" "turn E tk i ow = (r, go, ow')"
    and "\<And>e session sub t payload. i = Command (Incoming e session sub t payload) \<Longrightarrow> D e sub t"
  shows "I ow'"
proof -
  have "I (snd (snd (handle_input E tk i ow)))"
  proof (cases i)
    case (Command c)
    with assms command [of ow c] show ?thesis
      by (auto simp: handle_input_def split: prod.split)
  qed (use assms(1,2) in \<open>auto simp: handle_input_def intro!: maintenance accept split: prod.split\<close>)
  with assms(3) show ?thesis
    by (auto simp: turn_def Let_def split: prod.splits bool.splits)
qed

lemma env:
  assumes "env_step ow ow'" "I ow"
    and "\<And>k d code. \<lbrakk>bm_get k (o_dedup ow) = Some d; dd_state d = DedupProcessing 0;
      ow' = ow\<lparr>o_dedup := bm_adjust k (\<lambda>d. d\<lparr>dd_state := DedupProcessing code\<rparr>) (o_dedup ow)\<rparr>\<rbrakk> \<Longrightarrow> I ow'"
  shows "I ow'"
  using assms by (induction rule: env_step.induct) (auto dest!: o_reserve_Inr)

end

locale core_invariant =
  fixes E :: "('e::linorder, 'w) env" and I :: "('e, 'w) owner \<Rightarrow> bool"
  assumes initially: "fresh_owner (ev_lib E) ow \<Longrightarrow> I ow"
    and preserved: "core_preserved E tk I (\<lambda>_ _ _. True)"
    and dispose: "\<lbrakk>owner_wf (ev_lib E) ow; I ow; bm_get k (o_dedup ow) = Some d; dd_state d = DedupProcessing 0\<rbrakk>
      \<Longrightarrow> I (ow\<lparr>o_dedup := bm_adjust k (\<lambda>d. d\<lparr>dd_state := DedupProcessing code\<rparr>) (o_dedup ow)\<rparr>)"

sublocale core_invariant \<subseteq> system_invariant E "\<lambda>s. I (sy_owner s)"
proof
  show "I (sy_owner \<lparr>sy_owner = ow, sy_tickets = []\<rparr>)" if "fresh_owner (ev_lib E) ow" for ow
    using initially [OF that] by simp
  show "I (sy_owner \<lparr>sy_owner = ow, sy_tickets = tickets_after i r (sy_tickets s)\<rparr>)"
    if "reach E s" "I (sy_owner s)" "turn E tk i (sy_owner s) = (r, go, ow)" for s i tk r go ow
    using core_preserved.turn [OF preserved wf.holds [OF that(1)] that(2,3)] by simp
  show "I (sy_owner (s\<lparr>sy_owner := ow\<rparr>))" if "reach E s" "I (sy_owner s)" "env_step (sy_owner s) ow" for s ow
    using core_preserved.env [OF preserved that(3,2)] dispose [OF wf.holds [OF that(1)] that(2)] by simp
qed simp

end
