(* ===== verification/Owner_Sample.thy ===== *)
theory Owner_Sample
  imports Owner_Core
begin

text \<open>
  A run of one endpoint, turn by turn, on the concrete functions of \<open>sample_lib\<close>: the owner
  subscribes, a peer registers, confirms the subscription and asks for credit, maintenance
  grants it, the peer sends a message, the message is delivered, the subscriber acknowledges it
  and maintenance reports it. The states of the run are where the properties of the owner are
  evaluated.
\<close>

section \<open>The endpoint and its clock\<close>

definition sample_env :: "(256 word, unit) env" where
  "sample_env = \<lparr>ev_lib = sample_lib, ev_ctl = (\<lambda>_ _ _ w. Some w), ev_save = (\<lambda>_ w. (Inr (), w)), ev_delivery_size = 100\<rparr>"

definition sample_tick :: "256 word tick" where
  "sample_tick = \<lparr>tk_now = Inr 15, tk_instant = 0, tk_rand = replicate 16 6, tk_rand2 = replicate 16 7, tk_jitter = (\<lambda>_. 0)\<rparr>"

definition sample_start :: "(256 word, unit) owner" where
  "sample_start =
     owner_new config_new sample_trust (be_bytes 32 5) 5 (sample_cert 5)
       \<lparr>permit_id = 0, permit_budget = 1, permit_n = 96\<rparr> \<lparr>br_id = 0, br_limit = 128 * 1024 * 1024\<rparr>
       \<lparr>br_id = 1, br_limit = 32 * 1024 * 1024\<rparr> (Client 7) [] 10 sample_tick ()"

lemma sample_fresh: "fresh_owner sample_lib sample_start"
  unfolding fresh_owner_def sample_start_def
  using config_new_valid sample_cert(3) [of 5] by (blast intro: sample_trust_wf)

lemma sample_allows: "allows (sample_cert e) (Topic ''jobs'') b"
  by (simp add: allows_def sample_cert sample_permission_def)

lemma sample_trust_fields: "t_realm sample_trust = replicate 16 2" "clock_skew_secs sample_trust = 0"
  by (simp_all add: authority_trust_def trust_new_def sample_authority_def)

lemma allows_memory [simp]: "allows (c\<lparr>c_memory := m\<rparr>) t b = allows c t b"
  by (simp add: allows_def)

lemma sample_size: "length (c_bytes (sample_cert e)) \<le> 16384"
  using sample_cert(4) [of e] by (auto simp: verify_cose_def parse_cose_def MAX_CERT_def result_simps Let_def)

definition sample_reg :: "256 word registration" where
  "sample_reg = \<lparr>reg_cert = sample_cert 7, reg_session = replicate 16 8, reg_dialer = 7, reg_nonce = replicate 16 9, reg_cancelled = False,
     reg_closed = False, reg_max_payload = 1024, reg_max_topics = 4, reg_window_secs = 300\<rparr>"

section \<open>Turns and reservations\<close>

definition sys_turn :: "('e::linorder, 'w) env \<Rightarrow> 'e tick \<Rightarrow> 'e input \<Rightarrow> ('e, 'w) system \<Rightarrow> ('e, 'w) system" where
  "sys_turn E tk i s =
     (case turn E tk i (sy_owner s) of (r, _, ow) \<Rightarrow> \<lparr>sy_owner = ow, sy_tickets = tickets_after i r (sy_tickets s)\<rparr>)"

lemma reach_turn: "reach E s \<Longrightarrow> admissible (ev_lib E) s i \<Longrightarrow> reach E (sys_turn E tk i s)"
  by (cases "turn E tk i (sy_owner s)") (auto simp: sys_turn_def intro: reach.step sys_step.owner_turn)

lemma charged_le: "charged i ps \<le> total (filter (\<lambda>p. permit_budget p = i) ps)"
proof (induction ps)
  case (Cons p ps)
  then show ?case
    by (auto simp: charged_def)
qed (simp add: charged_def)

lemma o_reserve_ok:
  assumes "total (filter (\<lambda>p. permit_budget p = br_id b) (live_permits ow)) + n \<le> br_limit b" "br_limit b < 2 ^ 64"
  shows "o_reserve b n ow = Inr (\<lparr>permit_id = o_next ow, permit_budget = br_id b, permit_n = n\<rparr>,
     ow\<lparr>o_held := \<lparr>permit_id = o_next ow, permit_budget = br_id b, permit_n = n\<rparr> # o_held ow, o_next := Suc (o_next ow)\<rparr>)"
  using assms charged_le [of "br_id b" "live_permits ow"]
  by (simp add: o_reserve_def admit_def meter_used_def owner_meter_def meter_permit_def)

lemmas sample_defs = sys_turn_def turn_def handle_input_def command_def Let_def local_valid_def sample_tick_def sample_env_def
  sample_local [simplified] sample_verify sample_allows certificate_limits_def sample_cert config_new_def
  o_reserve_ok live_permits_def owner_permits_def certificate_permits_def option_list_def bm_vals_def
  total_def peer_permits_def sub_permits_def pending_permits_def credit_permits_def binding_permits_def
  bm_keys_def hand_out_def release_held_def schedule_def drained_def chan_new_def new_budget_def log_event_def update_sub_def update_peer_def
  bm_adjust_def bm_map_def bm_get_def bm_has_def bm_del_def tickets_after_def o_send_def peer_send_def

section \<open>The states of the run\<close>

abbreviation jobs :: topic where
  "jobs \<equiv> Topic ''jobs''"

definition sample_peer :: "(topic, 256 word binding) bmap \<Rightarrow> (topic, bytes \<times> u64) bmap \<Rightarrow> 256 word peer" where
  "sample_peer out inb =
     \<lparr>p_reg = sample_reg\<lparr>reg_cert := (sample_cert 7)\<lparr>c_memory :=
        Some \<lparr>permit_id = 13, permit_budget = 1, permit_n = length (c_bytes (sample_cert 7)) * 4 + 16384\<rparr>\<rparr>\<rparr>,
      p_outbound = out, p_inbound = inb, p_slots = \<lparr>br_id = 15, br_limit = 1024\<rparr>, p_bytes = \<lparr>br_id = 16, br_limit = 16777216\<rparr>,
      p_memory = \<lparr>permit_id = 14, permit_budget = 1, permit_n = length (c_bytes (sample_cert 7)) + 4096\<rparr>\<rparr>"

definition sample_sub :: "256 word delivery list \<Rightarrow> 256 word set \<Rightarrow> (256 word, unit result) bmap \<Rightarrow> (256 word, credit_grant) bmap
    \<Rightarrow> (256 word, nat) bmap \<Rightarrow> 256 word local_sub" where
  "sample_sub items confirmed rdy grants demand =
     \<lparr>s_id = replicate 16 6, s_mode = Acknowledged,
      s_tx = \<lparr>ch_items = items, ch_capacity = 1024, ch_closed = False, ch_memory = \<lparr>permit_id = 10, permit_budget = 1, permit_n = 137216\<rparr>\<rparr>,
      s_ready = rdy, s_slots = \<lparr>br_id = 11, br_limit = 1024\<rparr>, s_bytes = \<lparr>br_id = 12, br_limit = 16777216\<rparr>,
      s_confirmed = confirmed, s_grants = grants, s_demand = demand\<rparr>"

definition sample_1 :: "(256 word, unit) owner" where
  "sample_1 = sample_start\<lparr>o_subs := [(jobs, sample_sub [] {} [] [] [])],
     o_outside := [\<lparr>permit_id = 10, permit_budget = 1, permit_n = 137216\<rparr>], o_next := 13\<rparr>"

definition sample_2 :: "(256 word, unit) owner" where
  "sample_2 = sample_1\<lparr>o_peers := [(7, sample_peer [] [])],
     o_peer_budgets := [(7, \<lparr>br_id = 15, br_limit = 1024\<rparr>, \<lparr>br_id = 16, br_limit = 16777216\<rparr>)], o_next := 17\<rparr>"

definition sample_3 :: "(256 word, unit) owner" where
  "sample_3 = sample_2\<lparr>o_subs := [(jobs, sample_sub [] {7} [(7, Inr ())] [] [])]\<rparr>"

definition sample_4 :: "(256 word, unit) owner" where
  "sample_4 = sample_3\<lparr>o_subs := [(jobs, sample_sub [] {7} [(7, Inr ())] [] [(7, 2000)])]\<rparr>"

definition sample_credit :: credit_grant where
  "sample_credit =
     \<lparr>cg_bytes = 17420,
      cg_permits = [\<lparr>permit_id = 18, permit_budget = 11, permit_n = 1\<rparr>, \<lparr>permit_id = 19, permit_budget = 12, permit_n = 17420\<rparr>,
        \<lparr>permit_id = 20, permit_budget = 1, permit_n = 256\<rparr>, \<lparr>permit_id = 21, permit_budget = 0, permit_n = 1024 + PAYLOAD_OVERHEAD\<rparr>],
      cg_metadata = \<lparr>permit_id = 17, permit_budget = 1, permit_n = 6144\<rparr>\<rparr>"

definition sample_5 :: "(256 word, unit) owner" where
  "sample_5 = sample_4\<lparr>o_subs := [(jobs, sample_sub [] {7} [(7, Inr ())] [(7, sample_credit)] [])], o_cursor := 1, o_next := 22\<rparr>"

section \<open>Subscribing, registering, granting credit\<close>

lemma step_1: "turn sample_env sample_tick (Command (SubscribeTopic jobs Acknowledged)) sample_start = (Reply_Unit (Inr ()), True, sample_1)"
  by (simp add: sample_1_def sample_start_def owner_new_def subscribe_def send_all_def sample_sub_def sample_defs)

lemma step_2: "turn sample_env sample_tick (Command (Register 7 sample_reg)) sample_1 = (Reply_Registered (Inr True), True, sample_2)"
  using sample_size [of 7]
  by (simp add: sample_2_def sample_1_def sample_start_def owner_new_def sample_sub_def sample_peer_def sample_reg_def
      register_def admission_check_def register_early_def install_session_def remove_peer_def drop_peer_def forget_peer_def
      peer_budget_entry_def announce_def sample_defs)

lemmas sample_states = sample_4_def sample_3_def sample_2_def sample_1_def sample_start_def owner_new_def sample_peer_def sample_reg_def
  sample_sub_def

lemma step_3: "turn sample_env sample_tick (Command (Remote 7 (replicate 16 8) (Suback jobs (replicate 16 6) 0))) sample_2
    = (Reply_None, True, sample_3)"
  by (simp add: sample_states cmd_remote_def has_session_def peer_valid_def owner_control_def control_suback_def sample_defs)

lemma step_4: "turn sample_env sample_tick (Command (Remote 7 (replicate 16 8) (RequestCredit jobs (replicate 16 6) 2000))) sample_3
    = (Reply_None, True, sample_4)"
  by (simp add: sample_states cmd_remote_def has_session_def peer_valid_def owner_control_def control_request_credit_def MAX_METADATA_def sample_defs)

lemma sample_fields:
  assumes "ow = sample_4\<lparr>o_peers := [(7, sample_peer [] inb)], o_subs := [(jobs, sample_sub items {7} [(7, Inr ())] grants dem)],
     o_dedup := dd, o_cursor := cu, o_outside := os, o_next := n, o_log := lg\<rparr>"
  shows "clock_check sample_tick ow = ow" "local_valid sample_tick ow = Inr 15" "remove_stale sample_tick ow = ow"
    "close_subs E ow = ow" "finish_pending sample_tick x y ow = ow" "retain_budgets ow = ow" "return_credits E ow = ow"
    "schedule E sample_tick ow = ow"
  by (simp_all add: assms sample_states clock_check_def wall_def abs_diff_def prune_def local_valid_def sample_local sample_tick_def
      remove_stale_def stale_peers_def err_def close_subs_def finish_pending_def List.map_filter_simps retain_budgets_def bm_retain_def
      return_credits_def return_peer_def unused_credits_def bm_keys_def bm_get_def update_peer_def bm_adjust_def bm_map_def bm_has_def
      Let_def schedule_def as_secs_def)

lemma sample_4_eq:
  "sample_4 = sample_4\<lparr>o_peers := [(7, sample_peer [] [])], o_subs := [(jobs, sample_sub [] {7} [(7, Inr ())] [] [(7, 2000)])],
     o_dedup := [], o_cursor := 0, o_outside := o_outside sample_1, o_next := 17, o_log := []\<rparr>"
  by (simp add: sample_4_def sample_3_def sample_2_def sample_1_def sample_start_def owner_new_def)

lemma sample_wall [simp]: "wall sample_tick = 15"
  by (simp add: wall_def sample_tick_def)

lemma sample_settle_none: "o_dedup ow = [] \<Longrightarrow> o_terminal ow = [] \<Longrightarrow> settle_dedup E x now ow = ow"
  by (simp add: settle_dedup_def List.map_filter_simps bm_map_def bm_retain_def)

lemma sample_grant: "release_held (grant_credits sample_env sample_tick sample_4) = sample_5"
  using sample_size [of 7]
  by (simp add: grant_credits_def sample_fields(2) [OF sample_4_eq] sample_5_def sample_credit_def sample_states credit_candidates_def grant_one_def
      credit_reserve_def MAX_METADATA_def PAYLOAD_OVERHEAD_def sample_defs)

lemma step_5: "turn sample_env sample_tick Maintain sample_4 = (Reply_None, True, sample_5)"
proof -
  have "settle_dedup sample_env None 15 sample_4 = sample_4"
    by (rule sample_settle_none) (simp_all add: sample_states)
  moreover have "schedule sample_env sample_tick sample_5 = sample_5" "drained sample_tick sample_5 = False"
    "release_held (schedule sample_env sample_tick (grant_credits sample_env sample_tick sample_4)) = release_held (grant_credits sample_env sample_tick sample_4)"
    by (simp_all add: sample_5_def sample_states schedule_def bm_keys_def drained_def)
  ultimately show ?thesis
    using sample_grant by (simp add: turn_def handle_input_def maintenance_def Let_def sample_fields [OF sample_4_eq] err_def)
qed

section \<open>Receiving a message\<close>

definition sample_message :: "256 word envelope" where
  "sample_message =
     \<lparr>env_id = MessageId (replicate 16 2) 7 (replicate 16 4) jobs 1, env_created = 12, env_expires = 18, env_format = ''opaque'',
      env_len = 3, env_digest = digest sample_lib [1, 2, 3], env_mode = Acknowledged\<rparr>"

definition sample_signed :: bytes where
  "sample_signed = envelope_sign sample_lib sample_message (be_bytes 32 7)"

lemma sample_key: "key_public sample_lib (be_bytes 32 7) = 7"
  by (simp add: sample_lib_def be_val_be_bytes)

lemma sample_message_wf: "wf_envelope 7 sample_message"
  by (simp add: wf_envelope_def sample_message_def wf_topic_def topic_new_def is_ascii_alphanumeric_def
      digest_def sample.sha256_length utf8_def utf8_codes.simps)

lemma sample_signed: "envelope_verify sample_lib sample_signed 7 = Inr sample_message" "length sample_signed \<le> 864"
  using sample.envelope_verify_sign [of "be_bytes 32 7" sample_message] sample_message_wf
    envelope_sign_size [OF sample.external_axioms sample_message_wf, of "be_bytes 32 7"]
  by (simp_all add: sample_key sample_signed_def)

lemma sample_data: "length (data_frame rfc8949 (replicate 16 8) (replicate 16 6) sample_signed) \<le> MAX_METADATA"
  using rfc.data_size [of "replicate 16 8" "replicate 16 6" sample_signed] sample_signed(2) by simp

definition sample_ticket :: "256 word receive_ticket" where
  "sample_ticket =
     \<lparr>rt_envelope = sample_message, rt_fingerprint = digest sample_lib sample_signed, rt_permits = cg_permits sample_credit,
      rt_metadata = \<lparr>permit_id = 17, permit_budget = 1, permit_n = length sample_signed + 2048\<rparr>\<rparr>"

definition sample_6 :: "(256 word, unit) owner" where
  "sample_6 = sample_5\<lparr>o_peers := [(7, sample_peer [] [(jobs, replicate 16 6, 1)])],
     o_subs := [(jobs, sample_sub [] {7} [(7, Inr ())] [] [])],
     o_outside := rt_metadata sample_ticket # cg_permits sample_credit @ o_outside sample_5\<rparr>"

lemma step_6: "turn sample_env sample_tick (Command (Begin 7 (replicate 16 8) (replicate 16 6) 1 sample_signed 3)) sample_5
    = (Reply_Ticket (Inr sample_ticket), True, sample_6)"
proof -
  have c: "codec sample_lib = rfc8949"
    by (simp add: sample_lib_def)
  have v: "begin_checks sample_env sample_tick 7 (replicate 16 8) sample_signed 3 sample_5 = Inr sample_message"
    using sample_signed(1)
    by (simp add: begin_checks_def peer_valid_def sample_5_def sample_states sample_message_def sample_defs over_limit_def
       sample_trust_fields as_secs_def from_secs_def saturating_add_def)
  show ?thesis
    using sample_signed(2) sample_data
    unfolding turn_def handle_input_def command_def begin_data_def input.case owner_command.case v sbind_simps
    by (simp add: begin_stream_def begin_grant_def sample_6_def sample_ticket_def sample_5_def
        sample_credit_def sample_states sample_message_def sample_defs MAX_METADATA_def c)
qed

definition sample_payload :: lease where
  "sample_payload = lease_received [1, 2, 3] (rt_permits sample_ticket)"

definition sample_record :: "dedup_state \<Rightarrow> dedup" where
  "sample_record st =
     \<lparr>dd_fingerprint = digest sample_lib sample_signed, dd_expires = 18, dd_state = st, dd_memory = rt_metadata sample_ticket\<rparr>"

definition sample_7 :: "(256 word, unit) owner" where
  "sample_7 = sample_6\<lparr>
     o_subs := [(jobs, sample_sub [\<lparr>d_id = env_id sample_message, d_format = ''opaque'', d_payload = sample_payload\<rparr>] {7} [(7, Inr ())] [] [])],
     o_dedup := [((replicate 16 6, env_id sample_message), sample_record (DedupProcessing 0))],
     o_outside := cg_permits sample_credit @ o_outside sample_6,
     o_log := [Delivered (replicate 16 6) sample_message [1, 2, 3]]\<rparr>"

lemma step_7: "turn sample_env sample_tick (Command (Incoming 7 (replicate 16 8) (replicate 16 6) sample_ticket sample_payload)) sample_6
    = (Reply_None, True, sample_7)"
proof -
  have "payload_matches sample_lib sample_message [1, 2, 3]"
    by (simp add: payload_matches_def sample_message_def)
  then show ?thesis
    by (simp add: cmd_incoming_def incoming_def deliver_def peer_valid_def sample_7_def sample_6_def sample_5_def sample_states sample_ticket_def
        sample_payload_def lease_received_def sample_record_def sample_defs chan_send_def)
      (simp add: sample_message_def sample_credit_def sample_defs sample_states)
qed

definition sample_8 :: "(256 word, unit) owner" where
  "sample_8 = sample_7\<lparr>o_dedup := [((replicate 16 6, env_id sample_message), sample_record (DedupProcessing 1))]\<rparr>"

lemma step_8: "env_step sample_7 sample_8"
proof -
  have "env_step sample_7 (sample_7\<lparr>o_dedup := bm_adjust (replicate 16 6, env_id sample_message)
      (\<lambda>d. d\<lparr>dd_state := DedupProcessing 1\<rparr>) (o_dedup sample_7)\<rparr>)"
    by (rule env_step.settle [where d = "sample_record (DedupProcessing 0)"]) (simp_all add: sample_7_def bm_get_def sample_record_def)
  then show ?thesis
    by (simp add: sample_8_def sample_7_def bm_adjust_def bm_map_def sample_record_def)
qed

definition sample_9 :: "(256 word, unit) owner" where
  "sample_9 = sample_8\<lparr>o_dedup := [((replicate 16 6, env_id sample_message), sample_record DedupProcessed)],
     o_log := [Delivered (replicate 16 6) sample_message [1, 2, 3], Completed (replicate 16 6, env_id sample_message) (Inr ())]\<rparr>"

lemma sample_8_eq:
  "sample_8 = sample_4\<lparr>o_peers := [(7, sample_peer [] [(jobs, replicate 16 6, 1)])],
     o_subs := [(jobs, sample_sub [\<lparr>d_id = env_id sample_message, d_format = ''opaque'', d_payload = sample_payload\<rparr>] {7} [(7, Inr ())] [] [])],
     o_dedup := o_dedup sample_8, o_cursor := 1, o_outside := o_outside sample_7, o_next := 22, o_log := o_log sample_7\<rparr>"
  by (simp add: sample_8_def sample_7_def sample_6_def sample_5_def sample_4_def)

lemma sample_9_eq:
  "sample_9 = sample_4\<lparr>o_peers := [(7, sample_peer [] [(jobs, replicate 16 6, 1)])],
     o_subs := [(jobs, sample_sub [\<lparr>d_id = env_id sample_message, d_format = ''opaque'', d_payload = sample_payload\<rparr>] {7} [(7, Inr ())] [] [])],
     o_dedup := o_dedup sample_9, o_cursor := 1, o_outside := o_outside sample_7, o_next := 22, o_log := o_log sample_9\<rparr>"
  by (simp add: sample_9_def sample_8_def sample_7_def sample_6_def sample_5_def sample_4_def)

lemma sample_settle: "settle_dedup sample_env None 15 sample_8 = sample_9"
  by (simp add: settle_dedup_def sample_9_def sample_8_def sample_7_def sample_6_def sample_5_def sample_states sample_record_def
      List.map_filter_simps dispose_def disposed_state_def disposed_code_def bm_map_def bm_retain_def send_outcome_def o_send_def
      peer_send_def sample_env_def bm_get_def bm_adjust_def sample_message_def)

lemma step_9: "turn sample_env sample_tick Maintain sample_8 = (Reply_None, True, sample_9)"
proof -
  have g: "grant_credits sample_env sample_tick sample_9 = sample_9"
    by (simp add: grant_credits_def sample_fields(2) [OF sample_9_eq]) (simp add: sample_9_def sample_8_def sample_7_def credit_candidates_def sample_sub_def bm_keys_def)
  have "drained sample_tick sample_9 = False" "release_held sample_9 = sample_9"
    by (simp_all add: sample_9_def sample_8_def sample_7_def sample_6_def sample_5_def sample_states drained_def release_held_def)
  then show ?thesis
    by (simp add: turn_def handle_input_def maintenance_def Let_def sample_fields [OF sample_8_eq] sample_fields [OF sample_9_eq] err_def
       sample_settle g)
qed

section \<open>Publishing a message\<close>

definition sample_binding :: "bool \<Rightarrow> 256 word binding" where
  "sample_binding requested =
     \<lparr>b_sub = replicate 16 9, b_mode = Acknowledged, b_credit = None, b_requested = requested,
      b_writer = \<lparr>ch_items = [], ch_capacity = 1, ch_closed = False, ch_memory = \<lparr>permit_id = 17, permit_budget = 1, permit_n = 2048\<rparr>\<rparr>\<rparr>"

definition sample_bound :: "(256 word, unit) owner" where
  "sample_bound = sample_2\<lparr>o_peers := [(7, sample_peer [(jobs, sample_binding False)] [])],
     o_outside := \<lparr>permit_id = 17, permit_budget = 1, permit_n = 2048\<rparr> # o_outside sample_2, o_next := 18\<rparr>"

definition sample_options :: publish_options where
  "sample_options = \<lparr>po_mode = Acknowledged, po_lifetime = from_secs 60, po_format = ''opaque''\<rparr>"

definition sample_body :: lease where
  "sample_body = \<lparr>lease_bytes = [1, 2, 3], lease_permits = []\<rparr>"

definition sample_out :: "256 word envelope" where
  "sample_out =
     \<lparr>env_id = MessageId (replicate 16 2) 5 (replicate 16 6) jobs 1, env_created = 15, env_expires = 75, env_format = ''opaque'',
      env_len = 3, env_digest = digest sample_lib [1, 2, 3], env_mode = Acknowledged\<rparr>"

definition sample_out_signed :: bytes where
  "sample_out_signed = envelope_sign sample_lib sample_out (be_bytes 32 5)"

lemma sample_out_wf: "wf_envelope 5 sample_out"
  by (simp add: wf_envelope_def sample_out_def wf_topic_def topic_new_def is_ascii_alphanumeric_def
      digest_def sample.sha256_length utf8_def utf8_codes.simps)

lemma sample_out_size: "length sample_out_signed \<le> 864"
  using envelope_sign_size [OF sample.external_axioms sample_out_wf, of "be_bytes 32 5"]
  by (simp add: sample_out_signed_def)

definition sample_key_out :: "256 word key" where
  "sample_key_out = (7, replicate 16 9, env_id sample_out)"

definition sample_published :: "(256 word, unit) owner" where
  "sample_published = sample_bound\<lparr>o_peers := [(7, sample_peer [(jobs, sample_binding True)] [])],
     o_pending := [(sample_key_out,
       \<lparr>pd_cert = reg_cert (p_reg (sample_peer [] [])), pd_signed = sample_out_signed, pd_envelope = sample_out, pd_payload = sample_body,
        pd_memory = \<lparr>permit_id = 18, permit_budget = 1, permit_n = length sample_out_signed + 2048\<rparr>,
        pd_slot = \<lparr>permit_id = 19, permit_budget = 15, permit_n = 1\<rparr>,
        pd_bytes = \<lparr>permit_id = 20, permit_budget = 16, permit_n = 3 + length sample_out_signed + 256\<rparr>,
        pd_deadline = from_secs 60, pd_next = 0, pd_attempts = 0, pd_writing = False\<rparr>)],
     o_sequences := [(jobs, 1)],
     o_stats := (o_stats sample_bound)\<lparr>me_admitted := 1\<rparr>,
     o_outside := \<lparr>permit_id = 18, permit_budget = 1, permit_n = length sample_out_signed + 2048\<rparr> # o_outside sample_bound,
     o_next := 21, o_log := [Outcome_Set sample_key_out Pending]\<rparr>"

lemma step_bound:
  "turn sample_env sample_tick (Command (Remote 7 (replicate 16 8) (Subscribe jobs (replicate 16 9) Acknowledged))) sample_2
     = (Reply_None, True, sample_bound)"
  using sample_size [of 7]
  by (simp add: sample_bound_def sample_binding_def sample_states cmd_remote_def has_session_def peer_valid_def owner_control_def control_subscribe_def sample_defs)

abbreviation sample_numbered :: "(256 word, unit) owner" where
  "sample_numbered \<equiv> sample_bound\<lparr>o_sequences := [(jobs, 1)]\<rparr>"

abbreviation sample_permit :: "nat \<Rightarrow> nat \<Rightarrow> nat \<Rightarrow> permit" where
  "sample_permit i b n \<equiv> \<lparr>permit_id = i, permit_budget = b, permit_n = n\<rparr>"

lemma sample_charge:
  "total (filter (\<lambda>p. permit_budget p = 1) (live_permits sample_numbered)) \<le> 1000000"
  "filter (\<lambda>p. permit_budget p = 15) (owner_permits sample_numbered @ o_outside sample_bound) = []"
  "filter (\<lambda>p. permit_budget p = 16) (owner_permits sample_numbered @ o_outside sample_bound) = []"
  using sample_size [of 7]
  by (simp_all add: sample_bound_def sample_binding_def sample_states live_permits_def owner_permits_def certificate_permits_def option_list_def bm_vals_def
  total_def peer_permits_def sub_permits_def binding_permits_def sample_cert)

lemma sample_fields_bound:
  "o_metadata sample_bound = \<lparr>br_id = 1, br_limit = 32 * 1024 * 1024\<rparr>" "o_held sample_bound = []" "o_next sample_bound = 18"
  "o_cert sample_bound = sample_cert 5" "o_self sample_bound = 5" "o_trust sample_bound = sample_trust" "o_drain sample_bound = None"
  "o_clock_failed sample_bound = False" "o_config sample_bound = config_new" "o_identity sample_bound = be_bytes 32 5"
  "o_epoch sample_bound = replicate 16 6" "o_sequences sample_bound = []" "o_pending sample_bound = []"
  "o_peers sample_bound = [(7, sample_peer [(jobs, sample_binding False)] [])]" "o_log sample_bound = []" "o_world sample_bound = ()"
  by (simp_all add: sample_bound_def sample_states sample_tick_def)

lemma live_held:
  "filter q (live_permits (ow\<lparr>o_held := ps, o_next := n\<rparr>)) = filter q (owner_permits ow @ o_outside ow) @ filter q ps"
  by (simp add: live_permits_def owner_permits_def)

lemma sample_reserved:
  "reserve_many \<lparr>br_id = 1, br_limit = 32 * 1024 * 1024\<rparr> (length sample_out_signed + 2048) 1 sample_numbered
     = Inr ([sample_permit 18 1 (length sample_out_signed + 2048)],
         sample_numbered\<lparr>o_held := [sample_permit 18 1 (length sample_out_signed + 2048)], o_next := 19\<rparr>)"
  using sample_charge(1) sample_out_size by (simp add: o_reserve_ok sample_fields_bound)

lemma sample_recipient:
  "recipient_reserve (sample_peer [(jobs, sample_binding False)] []) 3 60 (3 + length sample_out_signed + 256)
     (sample_numbered\<lparr>o_held := [sample_permit 18 1 n], o_next := 19\<rparr>)
   = Inr ((sample_permit 19 15 1, sample_permit 20 16 (3 + length sample_out_signed + 256)),
       sample_numbered\<lparr>o_held := [sample_permit 20 16 (3 + length sample_out_signed + 256), sample_permit 19 15 1, sample_permit 18 1 n],
         o_next := 21\<rparr>)"
  using sample_charge(2,3) sample_out_size
  by (simp add: recipient_reserve_def o_reserve_ok sample_peer_def sample_reg_def over_limit_def live_held certificate_limits_def sample_cert total_def)

lemma sample_schedule:
  assumes "ow = sample_published\<lparr>o_peers := [(7, sample_peer [(jobs, sample_binding False)] [])], o_outside := os, o_held := h\<rparr>"
  shows "schedule sample_env sample_tick ow = ow\<lparr>o_peers := [(7, sample_peer [(jobs, sample_binding True)] [])]\<rparr>"
  by (simp add: assms schedule_def bm_keys_def schedule_one_def sample_published_def sample_key_out_def sample_out_def bm_get_def Let_def
    sample_tick_def from_secs_def sample_peer_def sample_binding_def sample_env_def set_binding_def update_peer_def bm_adjust_def bm_map_def
    sample_reg_def sample_fields_bound)

lemma sample_rescheduled: "schedule sample_env sample_tick sample_published = sample_published"
  by (simp add: schedule_def bm_keys_def schedule_one_def sample_published_def sample_key_out_def sample_out_def bm_get_def Let_def
    sample_tick_def from_secs_def sample_peer_def sample_binding_def sample_reg_def)

lemma sample_publish:
  "publish sample_env sample_tick jobs sample_body sample_options sample_bound =
     (Inr (env_id sample_out, [7]), sample_published\<lparr>o_held := [sample_permit 20 16 (3 + length sample_out_signed + 256),
        sample_permit 19 15 1, sample_permit 18 1 (length sample_out_signed + 2048)]\<rparr>)"
proof -
  let ?held = "[sample_permit 20 16 (3 + length sample_out_signed + 256), sample_permit 19 15 1, sample_permit 18 1 (length sample_out_signed + 2048)]"
  let ?ow = "sample_published\<lparr>o_peers := [(7, sample_peer [(jobs, sample_binding False)] [])], o_outside := o_outside sample_bound, o_held := ?held\<rparr>"
  have s: "envelope_sign sample_lib \<lparr>env_id = MessageId (replicate 16 2) 5 (replicate 16 6) jobs 1, env_created = 15, env_expires = 75, env_format = ''opaque'',
      env_len = 3, env_digest = digest sample_lib [1, 2, 3], env_mode = Acknowledged\<rparr> (be_bytes 32 5) = sample_out_signed"
    "\<lparr>env_id = MessageId (replicate 16 2) 5 (replicate 16 6) jobs 1, env_created = 15, env_expires = 75, env_format = ''opaque'',
      env_len = 3, env_digest = digest sample_lib [1, 2, 3], env_mode = Acknowledged\<rparr> = sample_out"
    "MessageId (replicate 16 2) 5 (replicate 16 6) jobs 1 = env_id sample_out"
    by (simp_all add: sample_out_signed_def sample_out_def)
  have l: "lease_len sample_body = 3" "lease_bytes sample_body = [1, 2, 3]" "lease_permits sample_body = []"
    by (simp_all add: sample_body_def lease_len_def)
  have o: "po_mode sample_options = Acknowledged" "po_lifetime sample_options = from_secs 60" "po_format sample_options = ''opaque''"
    by (simp_all add: sample_options_def)
  have r: "recipients sample_trust 15 jobs Acknowledged [(7, sample_peer [(jobs, sample_binding False)] [])] = [(7, replicate 16 9)]"
    by (simp add: recipients_def List.map_filter_simps sample_peer_def sample_binding_def bm_get_def sample_reg_def sample_local)
  have v: "local_valid sample_tick sample_bound = Inr 15"
    by (simp add: local_valid_def sample_tick_def sample_fields_bound sample_local)
  have d: "as_secs (from_secs 60) = 60" "\<not> from_secs 300 < from_secs 60" "ev_lib sample_env = sample_lib"
    by (simp_all add: as_secs_def from_secs_def sample_env_def)
  have n: "next_sequence jobs sample_bound = (Inr 1, sample_numbered)"
    by (simp add: next_sequence_def sample_fields_bound bm_get_def checked_add_def)
  have one: "publish_one sample_tick sample_options sample_body sample_out sample_out_signed ((7, replicate 16 9), sample_permit 18 1 (length sample_out_signed + 2048))
       (sample_numbered\<lparr>o_held := [sample_permit 18 1 (length sample_out_signed + 2048)], o_next := 19\<rparr>) = ?ow"
    using sample_recipient [of "length sample_out_signed + 2048"]
    by (simp add: publish_one_def sample_fields_bound bm_get_def Let_def l o d sample_published_def sample_key_out_def log_event_def sample_tick_def
       sample_bound_def sample_states metrics_default_def)
  show ?thesis
    unfolding publish_def Let_def
    using s sample_reserved sample_schedule [of ?ow, OF refl] one
    by (simp add: v l o r n sample_fields_bound sample_allows certificate_limits_def sample_cert over_limit_def d config_new_def bm_has_def
      bm_get_def checked_add_def ok_or_def sample_trust_fields) (simp add: hand_out_def sample_published_def)
qed

lemma step_publish:
  "turn sample_env sample_tick (Command (Publish jobs sample_body sample_options)) sample_bound
     = (Reply_Receipt (Inr (env_id sample_out, [7])), True, sample_published)"
proof -
  have "release_held (sample_published\<lparr>o_held := h\<rparr>) = sample_published" "drained sample_tick sample_published = False" for h
    by (simp_all add: release_held_def drained_def sample_published_def sample_bound_def sample_states)
  then show ?thesis
    by (simp add: turn_def handle_input_def command_def sample_publish Let_def sample_rescheduled)
qed

section \<open>The run\<close>

definition sample_sys :: "(256 word, unit) owner \<Rightarrow> (256 word, unit) system" where
  "sample_sys ow = \<lparr>sy_owner = ow, sy_tickets = []\<rparr>"

definition sample_waiting :: "(256 word, unit) system" where
  "sample_waiting = \<lparr>sy_owner = sample_6, sy_tickets = [(7, replicate 16 8, replicate 16 6, sample_ticket)]\<rparr>"

lemma sample_go:
  assumes "reach sample_env s" "admissible sample_lib s i" "turn sample_env sample_tick i (sy_owner s) = (r, go, ow')"
  shows "reach sample_env \<lparr>sy_owner = ow', sy_tickets = tickets_after i r (sy_tickets s)\<rparr>"
  using reach_turn [OF assms(1), of i sample_tick] assms(2,3) by (simp add: sys_turn_def sample_env_def)

lemma sample_reach:
  "reach sample_env (sample_sys sample_2)" "reach sample_env (sample_sys sample_5)" "reach sample_env sample_waiting"
  "reach sample_env (sample_sys sample_7)" "reach sample_env (sample_sys sample_9)" "reach sample_env (sample_sys sample_1)"
  "reach sample_env (sample_sys sample_4)"
proof -
  note defs = sample_sys_def admissible_def tickets_after_def sample_waiting_def
  have "reach sample_env (sample_sys sample_start)"
    using reach.start [of sample_env sample_start] sample_fresh by (simp add: sample_sys_def sample_env_def)
  then show 1: "reach sample_env (sample_sys sample_1)"
    using step_1 sample_go [of "sample_sys sample_start" "Command (SubscribeTopic jobs Acknowledged)"] by (simp add: defs)
  from 1 show 2: "reach sample_env (sample_sys sample_2)"
    using sample_go [of "sample_sys sample_1" "Command (Register 7 sample_reg)"] step_2
    by (simp add: defs sample_reg_def sample_cert)
  then have "reach sample_env (sample_sys sample_3)"
    using sample_go [of "sample_sys sample_2" "Command (Remote 7 (replicate 16 8) (Suback jobs (replicate 16 6) 0))"] step_3 by (simp add: defs)
  then show 4: "reach sample_env (sample_sys sample_4)"
    using sample_go [of "sample_sys sample_3" "Command (Remote 7 (replicate 16 8) (RequestCredit jobs (replicate 16 6) 2000))"] step_4
    by (simp add: defs)
  from 4 show 5: "reach sample_env (sample_sys sample_5)"
    using sample_go [of "sample_sys sample_4" Maintain] step_5 by (simp add: defs)
  then show 6: "reach sample_env sample_waiting"
    using sample_go [of "sample_sys sample_5" "Command (Begin 7 (replicate 16 8) (replicate 16 6) 1 sample_signed 3)"] step_6 by (simp add: defs)
  then show 7: "reach sample_env (sample_sys sample_7)"
    using sample_go [of sample_waiting "Command (Incoming 7 (replicate 16 8) (replicate 16 6) sample_ticket sample_payload)"] step_7
    by (simp add: defs sample_payload_def lease_received_def)
  have "reach sample_env (sample_sys sample_8)"
    using reach.step [OF 7 sys_step.others, of sample_8] step_8 by (simp add: sample_sys_def)
  then show "reach sample_env (sample_sys sample_9)"
    using sample_go [of "sample_sys sample_8" Maintain] step_9 by (simp add: defs)
qed

lemma sample_publish_reach:
  "reach sample_env (sample_sys sample_bound)" "reach sample_env (sample_sys sample_published)"
proof -
  note defs = sample_sys_def admissible_def tickets_after_def
  show bound: "reach sample_env (sample_sys sample_bound)"
    using sample_go [of "sample_sys sample_2" "Command (Remote 7 (replicate 16 8) (Subscribe jobs (replicate 16 9) Acknowledged))"]
      sample_reach(1) step_bound by (simp add: defs)
  show "reach sample_env (sample_sys sample_published)"
    using sample_go [of "sample_sys sample_bound" "Command (Publish jobs sample_body sample_options)"] bound step_publish
    by (simp add: defs sample_body_def)
qed

end
