(* ===== verification/Owner_Sessions.thy ===== *)
theory Owner_Sessions
  imports Owner_Sample
begin

text \<open>
  Who may stay connected. Of two sessions with one peer the same one is kept at both ends;
  maintenance expels every peer, and gives up every delivery, whose certificates are no longer
  accepted; denying a certificate and renewing the endpoint's own take effect at once.
\<close>

section \<open>Peers and pending deliveries through an operation\<close>

text \<open>A property of the certificates of all peers, and one of all pending deliveries, that does not
  depend on the progress of the sessions.\<close>

definition peers_all :: "('e \<Rightarrow> 'e certificate \<Rightarrow> bool) \<Rightarrow> ('e::linorder, 'w) owner \<Rightarrow> bool" where
  "peers_all R ow \<longleftrightarrow> bm_ok (o_peers ow) \<and> bm_all (\<lambda>e p. R e (reg_cert (p_reg p))) (o_peers ow)"

definition pending_all ::
  "('e key \<Rightarrow> 'e certificate \<Rightarrow> 'e envelope \<Rightarrow> nat \<Rightarrow> bool) \<Rightarrow> ('e::linorder, 'w) owner \<Rightarrow> bool"
where
  "pending_all R ow \<longleftrightarrow>
     bm_ok (o_pending ow) \<and> bm_all (\<lambda>k p. R k (pd_cert p) (pd_envelope p) (pd_deadline p)) (o_pending ow)"

lemma peers_all_same: "peers_all R ow \<Longrightarrow> o_peers ow' = o_peers ow \<Longrightarrow> peers_all R ow'"
  by (simp add: peers_all_def)

lemma peers_all_update:
  "peers_all R ow \<Longrightarrow> (\<And>p. bm_get e (o_peers ow) = Some p \<Longrightarrow> reg_cert (p_reg (f p)) = reg_cert (p_reg p)) \<Longrightarrow>
     peers_all R (update_peer e f ow)"
  by (auto simp: peers_all_def update_peer_def bm_ok_adjust intro!: bm_all_adjust)

lemma peers_all_frame [simp]:
  "peers_all R (ow\<lparr>o_world := w\<rparr>) = peers_all R ow" "peers_all R (ow\<lparr>o_pending := pd\<rparr>) = peers_all R ow"
  "peers_all R (ow\<lparr>o_stats := st\<rparr>) = peers_all R ow" "peers_all R (ow\<lparr>o_held := h\<rparr>) = peers_all R ow"
  "peers_all R (ow\<lparr>o_next := n\<rparr>) = peers_all R ow" "peers_all R (ow\<lparr>o_cursor := n\<rparr>) = peers_all R ow"
  "peers_all R (ow\<lparr>o_dedup := d\<rparr>) = peers_all R ow" "peers_all R (ow\<lparr>o_terminal := tr\<rparr>) = peers_all R ow"
  "peers_all R (ow\<lparr>o_log := lg\<rparr>) = peers_all R ow" "peers_all R (ow\<lparr>o_subs := ss\<rparr>) = peers_all R ow"
  "peers_all R (update_sub t g ow) = peers_all R ow" "peers_all R (abandon_sub s ow) = peers_all R ow"
  "peers_all R (release_held ow) = peers_all R ow" "peers_all R (finish_pending tk x now ow) = peers_all R ow"
  "peers_all R (clock_check tk ow) = peers_all R ow" "peers_all R (retain_budgets ow) = peers_all R ow"
  by (simp_all add: peers_all_def)

lemma peers_all_send: "peers_all R ow \<Longrightarrow> peers_all R (o_send E e c ow)"
  by (auto simp: o_send_eq intro!: peers_all_update split: option.split)

lemma peers_all_close_subs: "peers_all R ow \<Longrightarrow> peers_all R (close_subs E ow)"
  unfolding close_subs_def close_sub_def
  by (auto intro!: fold_inv [where P = "peers_all R"] peers_all_send peers_all_update split: option.split)

lemma peers_all_settle: "peers_all R ow \<Longrightarrow> peers_all R (settle_dedup E x now ow)"
  unfolding settle_dedup_def Let_def case_prod_beta send_outcome_def
  by (simp, rule fold_inv [where P = "peers_all R"]) (auto intro: peers_all_send)

lemma peers_all_return: "peers_all R ow \<Longrightarrow> peers_all R (return_credits E ow)"
  unfolding return_credits_def return_peer_def Let_def case_prod_beta
  by (auto intro!: fold_inv [where P = "peers_all R"] peers_all_send peers_all_update split: option.split)

lemma peers_all_grant: "peers_all R ow \<Longrightarrow> peers_all R (grant_credits E tk ow)"
  unfolding grant_credits_def grant_one_def Let_def case_prod_beta
  by (auto intro!: fold_inv [where P = "peers_all R"] peers_all_send
      dest!: credit_reserve_Inr split: option.split sum.split)

lemma peers_all_binding: "peers_all R ow \<Longrightarrow> peers_all R (set_binding e t f ow)"
  unfolding set_binding_def by (rule peers_all_update) auto

lemma peers_all_schedule: "peers_all R ow \<Longrightarrow> peers_all R (schedule E tk ow)"
proof -
  have "peers_all R (schedule_one E tk k ow)" if "peers_all R ow" for k ow
    using that by (auto simp: schedule_one_def Let_def intro!: peers_all_binding peers_all_update split: option.split)
  then show "peers_all R ow \<Longrightarrow> ?thesis"
    unfolding schedule_def by (auto intro!: fold_inv [where P = "peers_all R"])
qed

lemma pending_all_same: "pending_all R ow \<Longrightarrow> o_pending ow' = o_pending ow \<Longrightarrow> pending_all R ow'"
  by (simp add: pending_all_def)

lemma pending_all_schedule: "pending_all R ow \<Longrightarrow> pending_all R (schedule E tk ow)"
proof -
  have "pending_all R (schedule_one E tk k ow)" if "pending_all R ow" for k ow
    using that by (auto simp: schedule_one_def Let_def pending_all_def bm_ok_adjust intro!: bm_all_adjust split: option.split)
  then show "pending_all R ow \<Longrightarrow> ?thesis"
    unfolding schedule_def by (auto intro!: fold_inv [where P = "pending_all R"])
qed

lemma fold_bm_del: "fold bm_del ks m = filter (\<lambda>p. fst p \<notin> set ks) m"
  by (induction ks arbitrary: m) (auto simp: bm_del_def intro: filter_cong)

lemma fold_remove_peers: "bm_ok (o_peers ow) \<Longrightarrow> o_peers (fold (remove_peer tk) es ow) = filter (\<lambda>p. fst p \<notin> set es) (o_peers ow)"
proof -
  have "o_peers (fold (remove_peer tk) es ow) = fold bm_del es (o_peers ow)" if "bm_ok (o_peers ow)"
    using that by (induction es arbitrary: ow) (auto simp: remove_peer_peers bm_ok_del)
  then show "bm_ok (o_peers ow) \<Longrightarrow> ?thesis"
    by (simp add: fold_bm_del)
qed

lemma filter_map_filter:
  assumes "distinct (map fst m)"
  shows "filter (\<lambda>p. fst p \<notin> set (map fst (List.map_filter (\<lambda>(k, p). map_option (Pair k) (f k p)) m))) m
    = filter (\<lambda>(k, p). f k p = None) m"
proof (rule filter_cong [OF refl])
  fix x
  assume x: "x \<in> set m"
  have "fst x \<in> set (map fst (List.map_filter (\<lambda>(k, p). map_option (Pair k) (f k p)) m))
      \<longleftrightarrow> (\<exists>p. (fst x, p) \<in> set m \<and> f (fst x) p \<noteq> None)"
    by (cases x, auto simp: List.map_filter_def image_iff split: prod.splits) (rule exI, rule exI, rule conjI, assumption, simp)
  also have "\<dots> \<longleftrightarrow> f (fst x) (snd x) \<noteq> None"
    using x eq_key_imp_eq_value [OF assms] by (metis prod.collapse)
  finally show "(fst x \<notin> set (map fst (List.map_filter (\<lambda>(k, p). map_option (Pair k) (f k p)) m))) = (case x of (k, p) \<Rightarrow> f k p = None)"
    by (simp add: case_prod_beta)
qed

lemma finish_pending_table: "bm_ok (o_pending ow) \<Longrightarrow> o_pending (finish k r ow) = bm_del k (o_pending ow)"
  by (auto simp: finish_def Let_def bm_del_absent bm_has_def split: option.split)

lemma expire_all: "bm_ok (o_pending ow) \<Longrightarrow> o_pending (fold expire_one kes ow) = fold bm_del (map fst kes) (o_pending ow)"
  by (induction kes arbitrary: ow) (auto simp: expire_one_def finish_pending_table bm_ok_del)

lemma finish_pending_rest:
  assumes "bm_ok (o_pending ow)"
  shows "o_pending (finish_pending tk x now ow) = filter (\<lambda>(k, p). pending_error tk x now ow k p = None) (o_pending ow)"
proof -
  show ?thesis
    using assms filter_map_filter [OF bm_ok_distinct [OF assms], of "pending_error tk x now ow"]
    by (simp add: finish_pending_def fold_bm_del expire_all)
qed


section \<open>Maintenance\<close>

definition valid_peer :: "'e tick \<Rightarrow> ('e, 'w) owner \<Rightarrow> 'e \<Rightarrow> 'e certificate \<Rightarrow> bool" where
  "valid_peer tk ow e c \<longleftrightarrow> err (local_valid tk ow) = None \<and> check (o_trust ow) c e (wall tk) = Inr ()"

definition valid_pending :: "'e tick \<Rightarrow> ('e, 'w) owner \<Rightarrow> 'e key \<Rightarrow> 'e certificate \<Rightarrow> 'e envelope \<Rightarrow> nat \<Rightarrow> bool" where
  "valid_pending tk ow k c e deadline \<longleftrightarrow>
     err (local_valid tk ow) = None \<and> allows (o_cert ow) (mid_topic (snd (snd k))) True
     \<and> tk_instant tk < deadline \<and> wall tk < env_expires e
     \<and> check (o_trust ow) c (fst k) (wall tk) = Inr () \<and> allows c (mid_topic (snd (snd k))) False"

lemma valid_cong:
  assumes "o_trust a = o_trust b" "o_cert a = o_cert b" "o_self a = o_self b" "o_clock_failed a = o_clock_failed b"
  shows "valid_peer tk a = valid_peer tk b" "valid_pending tk a = valid_pending tk b" "local_valid tk a = local_valid tk b"
  using assms by (simp_all add: valid_peer_def valid_pending_def local_valid_def fun_eq_iff)

lemma remove_stale_valid: "bm_ok (o_peers ow) \<Longrightarrow> peers_all (valid_peer tk ow) (remove_stale tk ow)"
  unfolding remove_stale_def peers_all_def
  by (subst fold_remove_peers, assumption)
    (auto simp: fold_remove_peers bm_ok_filter bm_all_def list_all_iff stale_peers_def valid_peer_def image_iff)

lemma finish_pending_valid:
  assumes "bm_ok (o_pending ow)"
  shows "pending_all (valid_pending tk ow) (finish_pending tk (err (local_valid tk ow)) (wall tk) ow)"
  unfolding pending_all_def finish_pending_rest [OF assms]
  using assms
  by (auto simp: bm_ok_filter bm_all_def list_all_iff pending_error_def valid_pending_def Let_def
      split: if_splits option.splits sum.splits)

lemma settle_unexpired: "bm_all (\<lambda>_ d. now < dd_expires d) (o_dedup (settle_dedup E x now ow))"
  by (auto simp: settle_dedup_def Let_def case_prod_beta bm_all_def list_all_iff set_bm_retain)

lemma nothing_valid:
  "peers_all (valid_peer tk ow) ow \<Longrightarrow> pending_all (valid_pending tk ow) ow \<Longrightarrow> err (local_valid tk ow) \<noteq> None \<Longrightarrow>
     o_peers ow = [] \<and> o_pending ow = []"
  by (cases "o_peers ow"; cases "o_pending ow")
    (auto simp: peers_all_def pending_all_def valid_peer_def valid_pending_def bm_all_def)

text \<open>What maintenance leaves behind.\<close>

lemma maintenance_leaves:
  assumes "owner_wf L ow"
  shows "peers_all (valid_peer tk (maintenance E tk ow)) (maintenance E tk ow)"
    and "pending_all (valid_pending tk (maintenance E tk ow)) (maintenance E tk ow)"
    and "bm_all (\<lambda>_ d. wall tk < dd_expires d) (o_dedup (maintenance E tk ow))"
    and "o_trust (maintenance E tk ow) = o_trust ow" "o_cert (maintenance E tk ow) = o_cert ow"
proof -
  define x where "x = err (local_valid tk (clock_check tk ow))"
  define a where "a = remove_stale tk (clock_check tk ow)"
  define b where "b = settle_dedup E x (wall tk) (close_subs E a)"
  define c where "c = finish_pending tk x (wall tk) b"
  have eq: "maintenance E tk ow = schedule E tk (grant_credits E tk (retain_budgets (return_credits E c)))"
    by (simp add: maintenance_def Let_def x_def a_def b_def c_def)
  note same = valid_cong [of "maintenance E tk ow" "clock_check tk ow"]
  have v: "valid_peer tk (maintenance E tk ow) = valid_peer tk (clock_check tk ow)"
    "valid_pending tk (maintenance E tk ow) = valid_pending tk b" "x = err (local_valid tk b)"
    by (rule same valid_cong; simp add: eq a_def b_def c_def)+
      (simp add: x_def, rule arg_cong [where f = err], rule valid_cong; simp add: a_def b_def)
  have 1: "peers_all (valid_peer tk (clock_check tk ow)) a"
    unfolding a_def by (rule remove_stale_valid) (simp add: owner_wfD(1) [OF assms])
  show "peers_all (valid_peer tk (maintenance E tk ow)) (maintenance E tk ow)"
    unfolding v(1) unfolding eq c_def b_def
    by (intro peers_all_schedule peers_all_grant) (simp, intro peers_all_return, simp, intro peers_all_settle peers_all_close_subs 1)
  have ok: "bm_ok (o_pending b)"
    using owner_wfD(3) [OF wf_settle_dedup [OF wf_close_subs [OF wf_remove_stale [OF wf_clock_check [OF assms]]]]]
    by (simp add: b_def a_def)
  show "pending_all (valid_pending tk (maintenance E tk ow)) (maintenance E tk ow)"
    unfolding v(2) unfolding eq
    by (intro pending_all_schedule pending_all_same [OF finish_pending_valid [OF ok]]) (simp add: c_def v(3))
  show "bm_all (\<lambda>_ d. wall tk < dd_expires d) (o_dedup (maintenance E tk ow))"
    using settle_unexpired [of "wall tk" E x "close_subs E a"] by (simp add: eq c_def b_def)
  show "o_trust (maintenance E tk ow) = o_trust ow" "o_cert (maintenance E tk ow) = o_cert ow"
    by (simp_all add: eq c_def b_def a_def)
qed


text \<open>C26. Maintenance expels what is no longer allowed: in every reachable state, after \<open>maintenance\<close>, every session left
  is with a peer whose certificate is accepted at this moment, and every pending delivery is before its deadline, permitted
  to this endpoint as publisher and to its recipient as subscriber, with a certificate of the recipient that is accepted now; if the endpoint's own certificate or clock is not valid, no session
  and no pending delivery is left; and no replay record has expired.\<close>

theorem maintenance_expels:
  assumes "reach E s" "maintenance E tk (sy_owner s) = ow"
  shows "(\<forall>e p. bm_get e (o_peers ow) = Some p \<longrightarrow> check (o_trust ow) (reg_cert (p_reg p)) e (wall tk) = Inr ())
    \<and> (\<forall>k p. bm_get k (o_pending ow) = Some p \<longrightarrow>
         tk_instant tk < pd_deadline p \<and> wall tk < env_expires (pd_envelope p) \<and> allows (o_cert ow) (mid_topic (snd (snd k))) True
         \<and> check (o_trust ow) (pd_cert p) (fst k) (wall tk) = Inr () \<and> allows (pd_cert p) (mid_topic (snd (snd k))) False)
    \<and> (local_valid tk ow \<notin> range Inr \<longrightarrow> o_peers ow = [] \<and> o_pending ow = [])
    \<and> (\<forall>k d. bm_get k (o_dedup ow) = Some d \<longrightarrow> wall tk < dd_expires d)"
proof -
  note leaves = maintenance_leaves [OF wf.holds [OF assms(1)], where E = E and tk = tk, unfolded assms(2)]
  have "bm_get e (o_peers ow) = Some p \<Longrightarrow> valid_peer tk ow e (reg_cert (p_reg p))" for e p
    using leaves(1) by (auto simp: peers_all_def dest: bm_allD)
  moreover have "bm_get k (o_pending ow) = Some p \<Longrightarrow> valid_pending tk ow k (pd_cert p) (pd_envelope p) (pd_deadline p)" for k p
    using bm_allD [OF conjunct2 [OF leaves(2) [unfolded pending_all_def]]] by blast
  moreover have "o_peers ow = [] \<and> o_pending ow = []" if "local_valid tk ow \<notin> range Inr"
  proof -
    have "err (local_valid tk ow) \<noteq> None"
      using that by (auto simp: err_def split: sum.splits)
    with leaves(1,2) show ?thesis
      by (rule nothing_valid)
  qed
  ultimately show ?thesis
    using bm_allD [OF leaves(3)] unfolding valid_peer_def valid_pending_def by blast
qed


lemma sample_4_maintained: "bm_get 7 (o_peers (maintenance sample_env sample_tick sample_4)) = Some (sample_peer [] [])"
  "o_trust (maintenance sample_env sample_tick sample_4) = sample_trust"
proof -
  have "schedule sample_env sample_tick (grant_credits sample_env sample_tick sample_4) = grant_credits sample_env sample_tick sample_4"
    by (simp add: schedule_def bm_keys_def sample_states)
  moreover have "bm_get 7 (o_peers (grant_credits sample_env sample_tick sample_4)) = Some (sample_peer [] [])"
    using arg_cong [OF sample_grant, of o_peers] by simp (simp add: sample_5_def sample_4_def sample_3_def sample_2_def bm_get_def)
  moreover have "settle_dedup sample_env None 15 sample_4 = sample_4"
    by (rule sample_settle_none) (simp_all add: sample_states)
  ultimately show "bm_get 7 (o_peers (maintenance sample_env sample_tick sample_4)) = Some (sample_peer [] [])"
    by (simp add: maintenance_def Let_def sample_fields [OF sample_4_eq] err_def)
  show "o_trust (maintenance sample_env sample_tick sample_4) = sample_trust"
    by (simp add: maintenance_def Let_def) (simp add: sample_states)
qed

theorem maintenance_expels_witness:
  "bm_get 7 (o_peers (maintenance sample_env sample_tick sample_4)) = Some (sample_peer [] [])
   \<and> check sample_trust (reg_cert (p_reg (sample_peer [] []))) 7 15 = Inr ()"
  using maintenance_expels [OF sample_reach(7) refl, of sample_tick] sample_4_maintained by (simp add: sample_sys_def)

section \<open>Revocation and renewal\<close>

lemma check_revoked: "certificate_id c \<in> t_revoked t \<Longrightarrow> check t c e now \<noteq> Inr ()"
  by (auto simp: check_Inr)

lemma deny_revokes:
  assumes "deny cid ow = (Inr (), ow')" "wf_trust (o_trust ow)"
  shows "cid \<in> t_revoked (o_trust ow')"
  using assms by (auto simp: deny_def Let_def result_simps dest!: deny_certificate_Inr o_reserve_Inr split: if_splits)

text \<open>Denying a certificate ends its sessions: in every reachable state, after a denial succeeded, the certificate is
  revoked, no session and no pending delivery of the owner relies on it, and if it was the owner's own, the owner
  has no session and no pending delivery at all.\<close>

theorem deny_expels:
  assumes "reach E s" "cmd_deny E tk cid (sy_owner s) = (Inr (), ow)"
  shows "cid \<in> t_revoked (o_trust ow)
    \<and> (\<forall>e p. bm_get e (o_peers ow) = Some p \<longrightarrow> certificate_id (reg_cert (p_reg p)) \<noteq> cid)
    \<and> (\<forall>k p. bm_get k (o_pending ow) = Some p \<longrightarrow> certificate_id (pd_cert p) \<noteq> cid)
    \<and> (certificate_id (o_cert ow) = cid \<longrightarrow> o_peers ow = [] \<and> o_pending ow = [])"
proof -
  obtain ow1 where 1: "deny cid (sy_owner s) = (Inr (), ow1)" "ow = maintenance E tk (release_held ow1)"
    using assms(2) by (auto simp: cmd_deny_def split: prod.splits)
  have "owner_wf (ev_lib E) (release_held ow1)"
    using wf_deny [OF wf.holds [OF assms(1)], of cid] 1(1) by simp
  note leaves = maintenance_leaves [OF this, where E = E and tk = tk, folded 1(2)]
  have r: "cid \<in> t_revoked (o_trust ow)"
    using deny_revokes [OF 1(1) owner_wfD(7) [OF wf.holds [OF assms(1)]]] leaves(4) by simp
  have "certificate_id (reg_cert (p_reg p)) \<noteq> cid" if "bm_get e (o_peers ow) = Some p" for e p
    using bm_allD [OF conjunct2 [OF leaves(1) [unfolded peers_all_def]] that] r by (auto simp: valid_peer_def check_revoked)
  moreover have "certificate_id (pd_cert p) \<noteq> cid" if "bm_get k (o_pending ow) = Some p" for k p
    using bm_allD [OF conjunct2 [OF leaves(2) [unfolded pending_all_def]] that] r by (auto simp: valid_pending_def check_revoked)
  moreover have "o_peers ow = [] \<and> o_pending ow = []" if "certificate_id (o_cert ow) = cid"
  proof -
    have "err (local_valid tk ow) \<noteq> None"
      using check_revoked [of "o_cert ow" "o_trust ow"] r that by (auto simp: local_valid_def err_def result_simps split: sum.splits)
    with leaves(1,2) show ?thesis
      by (rule nothing_valid)
  qed
  ultimately show ?thesis
    using r by blast
qed


lemma sample_deny: "fst (cmd_deny sample_env sample_tick (replicate 16 3) sample_2) = Inr ()"
  using sample_size [of 7]
  by (simp add: cmd_deny_def deny_def deny_certificate_def revoked_count_def case_prod_beta sample_states sample_defs
    authority_trust_def trust_new_def)

theorem deny_expels_witness:
  "fst (cmd_deny sample_env sample_tick (replicate 16 3) sample_2) = Inr ()
   \<and> o_peers sample_2 \<noteq> [] \<and> o_peers (snd (cmd_deny sample_env sample_tick (replicate 16 3) sample_2)) = []"
proof -
  obtain ow where ow: "cmd_deny sample_env sample_tick (replicate 16 3) sample_2 = (Inr (), ow)"
    using sample_deny by (cases "cmd_deny sample_env sample_tick (replicate 16 3) sample_2") auto
  then have "o_cert ow = sample_cert 5"
    by (auto simp: cmd_deny_def deny_def Let_def maintenance_def result_simps split: prod.splits if_splits dest!: o_reserve_Inr)
      (simp_all add: sample_states)
  then show ?thesis
    using deny_expels [OF sample_reach(1), of sample_tick "replicate 16 3" ow] ow
    by (simp add: sample_sys_def certificate_id_def sample_cert) (simp add: sample_2_def)
qed

lemma peers_all_maintenance: "peers_all R ow \<Longrightarrow> peers_all R (maintenance E tk ow)"
proof -
  assume "peers_all R ow"
  then have "peers_all R (remove_stale tk (clock_check tk ow))"
    by (auto simp: remove_stale_def peers_all_def fold_remove_peers bm_ok_filter bm_all_def list_all_iff)
  then show ?thesis
    by (simp add: maintenance_def Let_def peers_all_schedule peers_all_grant peers_all_return peers_all_settle peers_all_close_subs)
qed

lemma maintenance_self: "o_self (maintenance E tk ow) = o_self ow"
  by (simp add: maintenance_def Let_def)

lemma fold_abandon_sub_more:
  "o_cert (fold abandon_sub ss ow) = o_cert ow" "o_trust (fold abandon_sub ss ow) = o_trust ow" "o_self (fold abandon_sub ss ow) = o_self ow"
  "o_peers (fold abandon_sub ss ow) = o_peers ow" "o_subs (fold abandon_sub ss ow) = o_subs ow"
  by (induction ss arbitrary: ow) simp_all

text \<open>The topics of the local subscriptions only become fewer.\<close>

lemma remove_peer_subs: "bm_keys (o_subs (remove_peer tk e ow)) = bm_keys (o_subs ow)"
  unfolding remove_peer_def Let_def case_prod_beta by (subst fold_same) (simp_all add: bm_keys_def bm_map_def)

lemma maintenance_topics: "set (bm_keys (o_subs (maintenance E tk ow))) \<subseteq> set (bm_keys (o_subs ow))"
proof -
  have stale: "bm_keys (o_subs (fold (remove_peer tk) es x)) = bm_keys (o_subs x)" for es and x :: "('a, 'b) owner"
    by (rule fold_same) (rule remove_peer_subs)
  have close_one: "set (bm_keys (o_subs (close_sub E t x))) \<subseteq> set (bm_keys (o_subs x))" for t and x :: "('a, 'b) owner"
    by (auto simp: close_sub_def fold_same split: option.split)
  have close: "set (bm_keys (o_subs (close_subs E x))) \<subseteq> set (bm_keys (o_subs x))" for x :: "('a, 'b) owner"
    unfolding close_subs_def by (rule fold_inv [where P = "\<lambda>y. set (bm_keys (o_subs y)) \<subseteq> set (bm_keys (o_subs x))"])
      (use close_one in blast)+
  have grant_one: "set (bm_keys (o_subs (grant_one E c x))) = set (bm_keys (o_subs x))" for c and x :: "('a, 'b) owner"
    by (cases c) (auto simp: grant_one_def Let_def update_sub_def dest!: credit_reserve_Inr split: option.split sum.split)
  have grant: "set (bm_keys (o_subs (grant_credits E tk x))) = set (bm_keys (o_subs x))" for x :: "('a, 'b) owner"
    by (auto simp: grant_credits_def Let_def fold_same [where g = "\<lambda>x. set (bm_keys (o_subs x))", OF grant_one] split: sum.split)
  show ?thesis
    using close [of "remove_stale tk (clock_check tk ow)"] by (simp add: maintenance_def Let_def grant remove_stale_def stale)
qed

text \<open>The state that a renewal hands to maintenance.\<close>

lemma cmd_renew_Inr:
  assumes "owner_wf L ow" "cmd_renew E tk cert ow = (Inr (), ow')"
  obtains now m x where "tk_now tk = Inr now" "trust_verify (ev_lib E) (o_trust ow) cert (o_self ow) now = Inr ()"
    "ow' = maintenance E tk x" "owner_wf L x" "o_cert x = cert\<lparr>c_memory := Some m\<rparr>" "o_trust x = o_trust ow" "o_self x = o_self ow"
    "o_peers x = []" "set (bm_keys (o_subs x)) \<subseteq> {t. allows cert t False}"
proof -
  from assms(2) obtain now m h n where 1: "tk_now tk = Inr now" "trust_verify (ev_lib E) (o_trust ow) cert (o_self ow) now = Inr ()"
    and ow': "ow' = maintenance E tk (retain_subs (fold (remove_peer tk) (bm_keys (o_peers ow))
        (ow\<lparr>o_held := h, o_next := n, o_cert := cert\<lparr>c_memory := Some m\<rparr>\<rparr>)))"
    unfolding cmd_renew_def Let_def by (auto simp: result_simps dest!: o_reserve_Inr)
  define x where "x = fold (remove_peer tk) (bm_keys (o_peers ow)) (ow\<lparr>o_held := h, o_next := n, o_cert := cert\<lparr>c_memory := Some m\<rparr>\<rparr>)"
  have x: "o_cert x = cert\<lparr>c_memory := Some m\<rparr>" "o_trust x = o_trust ow" "o_self x = o_self ow"
    unfolding x_def by (subst fold_same; simp)+
  have peers: "o_peers x = []"
    using fold_remove_peers [of "ow\<lparr>o_held := h, o_next := n, o_cert := cert\<lparr>c_memory := Some m\<rparr>\<rparr>"] owner_wfD(1) [OF assms(1)]
    by (simp add: x_def bm_keys_def filter_empty_conv)
  have wf: "owner_wf L (retain_subs x)"
    unfolding x_def by (intro wf_retain_subs fold_inv [where P = "owner_wf L"] wf_remove_peer) (use assms(1) in auto)
  have "o_cert (retain_subs x) = o_cert x" "o_trust (retain_subs x) = o_trust x" "o_self (retain_subs x) = o_self x"
      "o_peers (retain_subs x) = o_peers x" "o_subs (retain_subs x) = bm_retain (\<lambda>t _. allows (o_cert x) t False) (o_subs x)"
    by (simp_all add: retain_subs_def Let_def fold_abandon_sub_more)
  moreover from this(5) have "set (bm_keys (o_subs (retain_subs x))) \<subseteq> {t. allows cert t False}"
    by (auto simp: bm_keys_def set_bm_retain x)
  ultimately show thesis
    using that [OF 1 ow' [folded x_def] wf] x peers by simp
qed

text \<open>Renewing the certificate of an endpoint is complete: the new certificate is verified for this
  endpoint, no session of the old one is left, the subscriptions that are left are on topics that the new certificate
  permits, and the pending deliveries that are left are on topics that it permits to publish.\<close>

theorem renew_complete:
  assumes "reach E s" "cmd_renew E tk cert (sy_owner s) = (Inr (), ow)"
  shows "o_peers ow = [] \<and> (\<exists>m. o_cert ow = cert\<lparr>c_memory := Some m\<rparr>)
    \<and> (\<exists>now. tk_now tk = Inr now \<and> trust_verify (ev_lib E) (o_trust ow) cert (o_self ow) now = Inr ())
    \<and> (\<forall>t. bm_has t (o_subs ow) \<longrightarrow> allows cert t False)
    \<and> (\<forall>k. bm_has k (o_pending ow) \<longrightarrow> allows cert (mid_topic (snd (snd k))) True)"
proof -
  obtain now m x where 1: "tk_now tk = Inr now" "trust_verify (ev_lib E) (o_trust (sy_owner s)) cert (o_self (sy_owner s)) now = Inr ()"
    and ow: "ow = maintenance E tk x" and wf: "owner_wf (ev_lib E) x"
    and x: "o_cert x = cert\<lparr>c_memory := Some m\<rparr>" "o_trust x = o_trust (sy_owner s)" "o_self x = o_self (sy_owner s)" "o_peers x = []"
    and subs: "set (bm_keys (o_subs x)) \<subseteq> {t. allows cert t False}"
    by (rule cmd_renew_Inr [OF wf.holds [OF assms(1)] assms(2)])
  note leaves = maintenance_leaves [OF wf, where E = E and tk = tk, folded ow]
  have "peers_all (\<lambda>_ _. False) ow"
    unfolding ow by (rule peers_all_maintenance) (simp add: peers_all_def x)
  then have "o_peers ow = []"
    by (cases "o_peers ow") (auto simp: peers_all_def bm_all_def)
  moreover have "allows cert t False" if "bm_has t (o_subs ow)" for t
    using that maintenance_topics [of E tk x, folded ow] subs unfolding bm_keys_iff [symmetric] by blast
  moreover have "allows cert (mid_topic (snd (snd k))) True" if "bm_has k (o_pending ow)" for k
  proof -
    from that obtain p where "bm_get k (o_pending ow) = Some p"
      by (auto simp: bm_has_def)
    from bm_allD [OF conjunct2 [OF leaves(2) [unfolded pending_all_def]] this] show ?thesis
      by (simp add: valid_pending_def leaves(5) x)
  qed
  ultimately show ?thesis
    using 1 leaves(4,5) maintenance_self [of E tk x, folded ow] x by auto
qed

lemma sample_renew: "fst (cmd_renew sample_env sample_tick (sample_cert 5) sample_2) = Inr ()"
  using sample_size [of 7] sample_size [of 5]
  by (simp add: cmd_renew_def case_prod_beta sample_states sample_defs)

theorem renew_complete_witness:
  "fst (cmd_renew sample_env sample_tick (sample_cert 5) sample_2) = Inr ()
   \<and> o_peers sample_2 \<noteq> [] \<and> o_peers (snd (cmd_renew sample_env sample_tick (sample_cert 5) sample_2)) = []"
  using renew_complete [OF sample_reach(1), of sample_tick "sample_cert 5"] sample_renew
  by (cases "cmd_renew sample_env sample_tick (sample_cert 5) sample_2") (auto simp: sample_sys_def sample_2_def)

section \<open>Two sessions with the same peer\<close>

definition session_key :: "'e registration \<Rightarrow> 'e \<times> bytes" where
  "session_key reg = (reg_dialer reg, reg_nonce reg)"

definition current_key :: "'e \<Rightarrow> ('e, 'w) owner \<Rightarrow> ('e \<times> bytes) option" where
  "current_key e ow = map_option (\<lambda>p. session_key (p_reg p)) (bm_get e (o_peers ow))"

lemma current_key_release [simp]: "current_key e (release_held ow) = current_key e ow"
  by (simp add: current_key_def)

lemma install_current:
  assumes "owner_wf L ow"
  shows "current_key e (install_session E tk e reg memory ow) = Some (session_key reg)"
proof -
  define ow1 where "ow1 = (remove_peer tk e ow)\<lparr>o_pending := bm_map (\<lambda>key pd.
      if fst key = e then pd\<lparr>pd_cert := reg_cert reg\<rparr> else pd) (o_pending (remove_peer tk e ow))\<rparr>"
  obtain slt bts ow2 where 2: "peer_budget_entry e ow1 = ((slt, bts), ow2)"
    by (metis surj_pair)
  obtain c w where 3: "announce E e (o_subs ow2) \<lparr>p_reg = reg, p_outbound = [], p_inbound = [], p_slots = slt, p_bytes = bts,
      p_memory = memory\<rparr> (o_world ow2) = (\<lparr>p_reg = reg\<lparr>reg_cancelled := c\<rparr>, p_outbound = [], p_inbound = [], p_slots = slt, p_bytes = bts,
      p_memory = memory\<rparr>, w)"
    using announce_eq [of E e "o_subs ow2" "\<lparr>p_reg = reg, p_outbound = [], p_inbound = [], p_slots = slt, p_bytes = bts, p_memory = memory\<rparr>" "o_world ow2"]
    by auto
  show ?thesis
    using 2 3 by (simp add: install_session_def Let_def ow1_def current_key_def bmap_simps session_key_def)
qed

text \<open>A registration that is not refused leaves the session with the least key.\<close>

lemma register_least:
  assumes "owner_wf (ev_lib E) ow" "register E tk e reg ow = (Inr b, ow')"
  shows "current_key e ow' = Some (case current_key e ow of None \<Rightarrow> session_key reg | Some k \<Rightarrow> min k (session_key reg))"
    and "b \<longleftrightarrow> (case current_key e ow of None \<Rightarrow> True | Some k \<Rightarrow> session_key reg < k)"
proof -
  have "ow' = ow \<and> register_early e reg ow = Some (Inr False)" if "\<not> b"
    using assms(2) that by (auto simp: register_def result_simps split: option.splits)
  moreover have "register_early e reg ow = None \<and> current_key e ow' = Some (session_key reg)" if "b"
    using assms(2)
  proof (cases rule: register_cases)
    case (installed now m memory h n)
    have "owner_wf (ev_lib E) (ow\<lparr>o_held := h, o_next := n\<rparr>)"
      using assms(1) by (simp add: owner_wf_def)
    with installed show ?thesis
      by (auto simp: install_current session_key_def)
  qed (use that in auto)
  ultimately show "current_key e ow' = Some (case current_key e ow of None \<Rightarrow> session_key reg | Some k \<Rightarrow> min k (session_key reg))"
    "b \<longleftrightarrow> (case current_key e ow of None \<Rightarrow> True | Some k \<Rightarrow> session_key reg < k)"
    by (cases b; auto simp: register_early_def current_key_def session_key_def min_def split: option.splits if_splits)+
qed

text \<open>Registrations of one peer, one after the other, at their own times; \<open>None\<close> if one is refused.\<close>

fun register_all :: "('e::linorder, 'w) env \<Rightarrow> 'e \<Rightarrow> ('e tick \<times> 'e registration) list \<Rightarrow> ('e, 'w) owner \<Rightarrow> ('e, 'w) owner option" where
  "register_all E e [] ow = Some ow"
| "register_all E e ((tk, reg) # regs) ow =
     (case register E tk e reg ow of (Inl _, _) \<Rightarrow> None | (Inr _, ow') \<Rightarrow> register_all E e regs (release_held ow'))"

lemma register_all_least:
  assumes "owner_wf (ev_lib E) ow" "\<forall>x \<in> set regs. wf_certificate (ev_lib E) (reg_cert (snd x))"
    and "register_all E e regs ow = Some ow'" "current_key e ow = Some k"
  shows "current_key e ow' = Some (Min (insert k (set (map (session_key \<circ> snd) regs))))"
  using assms
proof (induction regs arbitrary: ow k)
  case (Cons x regs)
  obtain tk reg where x: "x = (tk, reg)"
    by (cases x)
  obtain b ow1 where 1: "register E tk e reg ow = (Inr b, ow1)" "register_all E e regs (release_held ow1) = Some ow'"
    using Cons.prems(3) by (auto simp: x split: prod.splits sum.splits)
  have "owner_wf (ev_lib E) (release_held ow1)"
    using wf_register [OF Cons.prems(1) _ 1(1)] Cons.prems(2) by (simp add: x)
  moreover have "current_key e (release_held ow1) = Some (min k (session_key reg))"
    using register_least(1) [OF Cons.prems(1) 1(1)] Cons.prems(4) by simp
  ultimately have "current_key e ow' = Some (Min (insert (min k (session_key reg)) (set (map (session_key \<circ> snd) regs))))"
    using Cons.IH [OF _ _ 1(2)] Cons.prems(2) by simp
  then show ?case
    by (cases "regs = []") (simp_all add: x min.assoc)
qed simp

text \<open>C27. The tie-break does not depend on the order: whatever sessions with one peer are registered, in whatever order, how often and at whatever
  times, if none is refused the one that stays is the one with the least pair of dialer and nonce, so
  two endpoints that dialled each other keep the same connection.\<close>

theorem tie_break_order:
  assumes "reach E s" "bm_get e (o_peers (sy_owner s)) = None"
    and "\<forall>x \<in> set regs \<union> set regs'. wf_certificate (ev_lib E) (reg_cert (snd x))"
    and "(session_key \<circ> snd) ` set regs = (session_key \<circ> snd) ` set regs'"
    and "register_all E e regs (sy_owner s) = Some a" "register_all E e regs' (sy_owner s) = Some b"
  shows "current_key e a = current_key e b
    \<and> current_key e a = (if regs = [] then None else Some (Min (set (map (session_key \<circ> snd) regs))))"
proof -
  note wf = wf.holds [OF assms(1)]
  have first: "current_key e ow' = (if rs = [] then None else Some (Min (set (map (session_key \<circ> snd) rs))))"
    if all: "register_all E e rs (sy_owner s) = Some ow'" and certs: "\<forall>x \<in> set rs. wf_certificate (ev_lib E) (reg_cert (snd x))" for rs ow'
  proof (cases rs)
    case Nil
    with all assms(2) show ?thesis
      by (simp add: current_key_def)
  next
    case (Cons x xs)
    obtain tk reg where x: "x = (tk, reg)"
      by (cases x)
    obtain c ow1 where 1: "register E tk e reg (sy_owner s) = (Inr c, ow1)" "register_all E e xs (release_held ow1) = Some ow'"
      using all by (auto simp: Cons x split: prod.splits sum.splits)
    have "owner_wf (ev_lib E) (release_held ow1)"
      using wf_register [OF wf _ 1(1)] certs by (simp add: Cons x)
    moreover have "current_key e (release_held ow1) = Some (session_key reg)"
      using register_least(1) [OF wf 1(1)] assms(2) by (simp add: current_key_def [of e "sy_owner s"])
    ultimately show ?thesis
      using register_all_least [OF _ _ 1(2)] certs by (simp add: Cons x)
  qed
  have "regs = [] \<longleftrightarrow> regs' = []"
    using assms(4) by auto
  then show ?thesis
    using first [OF assms(5)] first [OF assms(6)] assms(3,4) by simp
qed


definition sample_low :: "256 word registration" where
  "sample_low = sample_reg\<lparr>reg_nonce := replicate 16 1, reg_session := replicate 16 5\<rparr>"

lemma nonce_less: "\<not> replicate 16 (9 :: byte) \<le> replicate 16 1" "replicate 16 (1 :: byte) \<le> replicate 16 9"
proof -
  have "replicate (Suc n) (1 :: byte) < replicate (Suc n) 9" for n
    by simp
  from this [of 15] have "replicate 16 (1 :: byte) < replicate 16 9"
    by simp
  then show "\<not> replicate 16 (9 :: byte) \<le> replicate 16 1" "replicate 16 (1 :: byte) \<le> replicate 16 9"
    by simp_all
qed

lemmas sample_register = sample_2_def sample_1_def sample_start_def owner_new_def sample_sub_def sample_peer_def sample_low_def sample_reg_def
  register_def admission_check_def register_early_def install_session_def remove_peer_def drop_peer_def forget_peer_def
  peer_budget_entry_def announce_def sample_defs nonce_less

lemma register_low: "\<exists>ow. register_all sample_env 7 [(sample_tick, sample_reg), (sample_tick, sample_low)] sample_1 = Some ow"
  using sample_size [of 7] by (simp add: sample_register)

lemma register_high: "\<exists>ow. register_all sample_env 7 [(sample_tick, sample_low), (sample_tick, sample_reg)] sample_1 = Some ow"
  using sample_size [of 7] by (simp add: sample_register)


theorem tie_break_order_witness:
  "\<exists>a b. register_all sample_env 7 [(sample_tick, sample_reg), (sample_tick, sample_low)] sample_1 = Some a
     \<and> register_all sample_env 7 [(sample_tick, sample_low), (sample_tick, sample_reg)] sample_1 = Some b
     \<and> current_key 7 a = Some (7, replicate 16 1) \<and> current_key 7 b = Some (7, replicate 16 1)"
proof -
  obtain a b where ab: "register_all sample_env 7 [(sample_tick, sample_reg), (sample_tick, sample_low)] sample_1 = Some a"
      "register_all sample_env 7 [(sample_tick, sample_low), (sample_tick, sample_reg)] sample_1 = Some b"
    using register_low register_high by blast
  have "bm_get 7 (o_peers sample_1) = None" "wf_certificate sample_lib (reg_cert sample_reg)" "wf_certificate sample_lib (reg_cert sample_low)"
    by (simp_all add: sample_1_def sample_start_def owner_new_def bm_get_def sample_low_def sample_reg_def sample_cert)
  moreover have "min (session_key sample_reg) (session_key sample_low) = (7, replicate 16 1)"
    using nonce_less by (simp add: min_def session_key_def sample_low_def sample_reg_def)
  moreover have "ev_lib sample_env = sample_lib"
    by (simp add: sample_env_def)
  ultimately show ?thesis
    using tie_break_order [OF sample_reach(6), of 7 "[(sample_tick, sample_reg), (sample_tick, sample_low)]" "[(sample_tick, sample_low), (sample_tick, sample_reg)]" a b]
      ab by (auto simp: sample_sys_def min.commute insert_commute simp del: register_all.simps)
qed

end
