(* ===== verification/Handshake.thy ===== *)
theory Handshake
  imports Settings
begin

text \<open>
  The handshake of a messaging session, \<^verbatim>\<open>src/src/endpoint/transport.rs\<close>. A connection is what QUIC
  provides: the negotiated protocol, the authenticated identity of the other side and the exporter
  of the session's keys. The receiving half of the stream is the bytes that will arrive and whether the
  stream ends after them or stalls; a stall runs into the timeout around the handshake. The sending half
  is written through \<open>wa\<close>. The random nonce and the readings of the clock are arguments.
\<close>

definition MQ_ALPN :: bytes where
  "MQ_ALPN = str_bytes ''iroh-mq/1''"

definition SESSION_LABEL :: bytes where
  "SESSION_LABEL = str_bytes ''iroh-mq/session/v1''"

record 'e connection =
  cn_alpn :: bytes
  cn_remote :: 'e
  cn_export :: "bytes \<Rightarrow> bytes \<Rightarrow> bytes option"

record stream =
  st_bytes :: bytes
  st_fin :: bool

section \<open>Reading from a stream\<close>

definition stream_header :: "stream \<Rightarrow> nat \<Rightarrow> (header option \<times> stream) result" where
  "stream_header st mxp =
     rbind (read_header (st_fin st \<or> length (st_bytes st) \<ge> 12) (st_bytes st) mxp) (\<lambda>(h, b).
       Inr (h, st\<lparr>st_bytes := b\<rparr>))"

definition stream_exact :: "nat \<Rightarrow> stream \<Rightarrow> (bytes \<times> stream) result" where
  "stream_exact n st =
     (if length (st_bytes st) < n \<and> \<not> st_fin st then Inl Timeout
      else rbind (read_exact n (st_bytes st)) (\<lambda>(x, b). Inr (x, st\<lparr>st_bytes := b\<rparr>)))"

text \<open>Nothing more will arrive, and the stream does not end either.\<close>

definition stalled :: "stream \<Rightarrow> bool" where
  "stalled st \<longleftrightarrow> st_bytes st = [] \<and> \<not> st_fin st"

definition read_small :: "stream \<Rightarrow> byte \<Rightarrow> (bytes \<times> stream) result" where
  "read_small st expected =
     rbind (fail_if (stalled st) Timeout) (\<lambda>_.
     rbind (stream_header st 0) (\<lambda>(h, st).
     rbind (ok_or h PeerUnavailable) (\<lambda>h.
     rbind (fail_if (h_kind h \<noteq> expected) (Protocol ''handshake frame order'')) (\<lambda>_.
       stream_exact (h_metadata h) st))))"

definition send_frame :: "('s \<Rightarrow> bytes \<Rightarrow> 's result) \<Rightarrow> byte \<Rightarrow> bytes \<Rightarrow> bytes \<Rightarrow> 's \<Rightarrow> unit result \<times> 's" where
  "send_frame wa kind metadata payload s = tryop (rbind (write_frame wa s kind metadata payload) (\<lambda>s. Inr ((), s))) s"

section \<open>The handshake\<close>

record 'e handshake_result =
  hs_recv :: stream
  hs_hello :: hello_data
  hs_cert :: "'e certificate"
  hs_session :: bytes
  hs_dialer :: 'e
  hs_nonce :: bytes

text \<open>Parsing a HELLO and checking its certificate, which the acceptor does before it answers.\<close>

definition check_hello :: "'e lib \<Rightarrow> 'e trust \<Rightarrow> 'e \<Rightarrow> u64 result \<Rightarrow> bytes \<Rightarrow> (hello_data \<times> 'e certificate) result" where
  "check_hello L trust remote now b =
     rbind (parse_hello (codec L) b) (\<lambda>h.
     rbind (certificate_from_bytes L (he_cert h)) (\<lambda>c.
     rbind now (\<lambda>now.
     rbind (trust_verify L trust c remote now) (\<lambda>_.
       Inr (h, c)))))"

definition handshake ::
  "'e lib \<Rightarrow> ('s \<Rightarrow> bytes \<Rightarrow> 's result) \<Rightarrow> 'e connection \<Rightarrow> unit result \<Rightarrow> bool \<Rightarrow> config \<Rightarrow> 'e trust \<Rightarrow> 'e certificate
   \<Rightarrow> bytes \<Rightarrow> u64 result \<Rightarrow> u64 result \<Rightarrow> stream \<Rightarrow> 's \<Rightarrow> 'e handshake_result result \<times> 's"
where
  "handshake L wa conn opened dialing cfg trust cert nonce now1 now2 recv send =
     sbind (fail_if (cn_alpn conn \<noteq> MQ_ALPN) (Protocol ''ALPN''), send) (\<lambda>_ send.
     sbind (opened, send) (\<lambda>_ send.
     (let local = hello (codec L) (c_bytes cert) nonce (cf_max_payload cfg) (max_topics cfg) (as_secs (delivery_window cfg)) in
     sbind (if dialing then
              sbind (send_frame wa HELLO local [] send) (\<lambda>_ send. (read_small recv HELLO, send))
            else
              sbind (read_small recv HELLO, send) (\<lambda>(remote, recv) send.
              sbind (check_hello L trust (cn_remote conn) now1 remote, send) (\<lambda>_ send.
              sbind (send_frame wa HELLO local [] send) (\<lambda>_ send. (Inr (remote, recv), send))))) (\<lambda>(remote, recv) send.
     sbind (check_hello L trust (cn_remote conn) now2 remote, send) (\<lambda>(h, c) send.
     sbind (send_frame wa READY (ready_frame (codec L) nonce (he_nonce h)) [] send) (\<lambda>_ send.
     sbind (read_small recv READY, send) (\<lambda>(ready, recv) send.
     sbind (fail_if (ready \<noteq> ready_frame (codec L) (he_nonce h) nonce) (Protocol ''READY binding''), send) (\<lambda>_ send.
     sbind (ok_or (cn_export conn SESSION_LABEL (t_realm trust)) (Protocol ''session exporter''), send) (\<lambda>session send.
     (Inr \<lparr>hs_recv = recv, hs_hello = h, hs_cert = c, hs_session = session,
           hs_dialer = (if dialing then endpoint_id cert else cn_remote conn),
           hs_nonce = (if dialing then nonce else he_nonce h)\<rparr>, send))))))))))"

section \<open>Lemmas\<close>

lemma stream_eta [simp]: "\<lparr>st_bytes = st_bytes s, st_fin = st_fin s\<rparr> = s"
  by simp

lemma send_frame_pipe:
  "send_frame pipe kind metadata payload w = (Inr u, w') \<longleftrightarrow>
     (\<exists>f. write_frame pipe [] kind metadata payload = Inr f \<and> w' = w @ f)"
  by (auto simp: send_frame_def tryop_eq result_simps write_frame_def pipe_def)

lemma check_hello_Inr:
  assumes "external L" and "check_hello L trust remote now b = Inr (h, c)"
  shows "wf_hello h \<and> b = hello_encode (codec L) h \<and> wf_certificate L c \<and> c_bytes c = he_cert h
    \<and> (\<exists>n. now = Inr n \<and> trust_verify L trust c remote n = Inr ())"
  using assms cbor_codec.parse_hello_wf [of "codec L" b h]
  by (auto simp: check_hello_def result_simps external_def dest!: certificate_from_bytes_wf)

text \<open>A frame of the handshake that was written is read back.\<close>

lemma read_small_written:
  assumes "write_frame pipe [] kind metadata [] = Inr f" and "1 \<le> kind" and "kind \<le> 12"
  shows "read_small \<lparr>st_bytes = f @ rest, st_fin = fin\<rparr> expected =
    (if kind = expected then Inr (metadata, \<lparr>st_bytes = rest, st_fin = fin\<rparr>) else Inl (Protocol ''handshake frame order''))"
proof -
  from assms(1) have "length f \<ge> 12"
    by (auto simp: write_frame_pipe header_encode_Inr)
  moreover have "read_header True (f @ rest) 0 = Inr (Some \<lparr>h_kind = kind, h_metadata = length metadata, h_payload = 0\<rparr>, metadata @ rest)"
    using read_written_frame [OF assms, of 0 rest] by auto
  ultimately show ?thesis
    by (auto simp: read_small_def stalled_def stream_header_def stream_exact_def read_exact_def)
qed

lemma handshake_Inr:
  assumes "handshake L wa conn opened dialing cfg trust cert nonce now1 now2 recv send = (Inr hs, send')"
  obtains local remote recv1 s1 u s2 ready where
    "cn_alpn conn = MQ_ALPN"
    "local = hello (codec L) (c_bytes cert) nonce (cf_max_payload cfg) (max_topics cfg) (as_secs (delivery_window cfg))"
    "read_small recv HELLO = Inr (remote, recv1)" "send_frame wa HELLO local [] send = (Inr u, s1)"
    "check_hello L trust (cn_remote conn) now2 remote = Inr (hs_hello hs, hs_cert hs)"
    "send_frame wa READY (ready_frame (codec L) nonce (he_nonce (hs_hello hs))) [] s1 = (Inr (), send')"
    "read_small recv1 READY = Inr (ready, hs_recv hs)" "ready = ready_frame (codec L) (he_nonce (hs_hello hs)) nonce"
    "cn_export conn SESSION_LABEL (t_realm trust) = Some (hs_session hs)"
    "hs_dialer hs = (if dialing then endpoint_id cert else cn_remote conn)"
    "hs_nonce hs = (if dialing then nonce else he_nonce (hs_hello hs))"
  using assms by (cases dialing) (auto simp: handshake_def Let_def result_simps)

lemma handshake_verified:
  assumes "external L" and "handshake L wa conn opened dialing cfg trust cert nonce now1 now2 recv send = (Inr hs, send')"
  shows "cn_alpn conn = MQ_ALPN \<and> wf_hello (hs_hello hs) \<and> wf_certificate L (hs_cert hs)
    \<and> c_bytes (hs_cert hs) = he_cert (hs_hello hs)
    \<and> (\<exists>n. now2 = Inr n \<and> trust_verify L trust (hs_cert hs) (cn_remote conn) n = Inr ())
    \<and> cn_export conn SESSION_LABEL (t_realm trust) = Some (hs_session hs)"
  using assms(2) by (rule handshake_Inr) (auto dest!: check_hello_Inr [OF assms(1)])

lemma acceptor_silent:
  assumes "handshake L wa conn opened False cfg trust cert nonce now1 now2 recv send = (res, send')" and "send' \<noteq> send"
  obtains remote recv' h c n where "read_small recv HELLO = Inr (remote, recv')" "parse_hello (codec L) remote = Inr h"
    "certificate_from_bytes L (he_cert h) = Inr c" "now1 = Inr n" "trust_verify L trust c (cn_remote conn) n = Inr ()"
  using assms
  by (cases "read_small recv HELLO"; cases "check_hello L trust (cn_remote conn) now1 (fst (projr (read_small recv HELLO)))")
    (auto simp: handshake_def Let_def sbind_def fail_if_def check_hello_def result_simps split: if_splits sum.splits prod.splits)

text \<open>The HELLO that a side sends.\<close>

definition own_hello :: "config \<Rightarrow> 'e certificate \<Rightarrow> bytes \<Rightarrow> hello_data" where
  "own_hello cfg cert nonce =
     \<lparr>he_cert = c_bytes cert, he_nonce = nonce, he_max_payload = cf_max_payload cfg, he_max_topics = max_topics cfg,
      he_window_secs = as_secs (delivery_window cfg)\<rparr>"

lemma own_hello_wf:
  assumes "external L" and "config_validate cfg = Inr ()" and "wf_certificate L cert" and "length nonce = 16"
  shows "wf_hello (own_hello cfg cert nonce)"
proof -
  have "delivery_window cfg \<le> from_secs 300" "as_secs (delivery_window cfg) \<noteq> 0"
    using assms(2) by (auto simp: config_validate_def result_simps)
  then have "delivery_window cfg div 10 ^ 9 \<le> 300"
    by (simp add: from_secs_def div_le_mono [of _ "300 * 10 ^ 9" "10 ^ 9", simplified])
  then have "as_secs (delivery_window cfg) \<le> 300"
    by (simp add: as_secs_def word_le_nat_alt unat_of_nat)
  with assms external.wf_certificate_payload [OF assms(1,3)] config_validate_Inr [OF assms(2)]
    \<open>as_secs (delivery_window cfg) \<noteq> 0\<close> show ?thesis
    by (auto simp: own_hello_def wf_hello_def)
qed

lemma own_hello_encode:
  "hello mc (c_bytes cert) nonce (cf_max_payload cfg) (max_topics cfg) (as_secs (delivery_window cfg)) = hello_encode mc (own_hello cfg cert nonce)"
  by (simp add: hello_encode_def own_hello_def)

lemma check_hello_own:
  assumes "external L" and "config_validate cfg = Inr ()" and "wf_certificate L cert" and "length nonce = 16"
  shows "check_hello L trust remote now (hello_encode (codec L) (own_hello cfg cert nonce)) =
    rbind now (\<lambda>n. rbind (trust_verify L trust (cert\<lparr>c_memory := None\<rparr>) remote n) (\<lambda>_. Inr (own_hello cfg cert nonce, cert\<lparr>c_memory := None\<rparr>)))"
proof -
  have "parse_hello (codec L) (hello_encode (codec L) (own_hello cfg cert nonce)) = Inr (own_hello cfg cert nonce)"
    using cbor_codec.parse_hello_encode [of "codec L" _ "[]"] own_hello_wf [OF assms] assms(1)
    by (simp add: external_def)
  moreover have "certificate_from_bytes L (c_bytes cert) = Inr (cert\<lparr>c_memory := None\<rparr>)"
    using assms(3) by (auto simp: wf_certificate_def certificate_from_bytes_def result_simps split: sum.splits)
  ultimately show ?thesis
    by (simp add: check_hello_def own_hello_def)
qed

lemma trust_verify_memory [simp]: "trust_verify L trust (cert\<lparr>c_memory := x\<rparr>) remote n = trust_verify L trust cert remote n"
  by (simp add: trust_verify_def check_def certificate_id_def)

lemma frame_kinds [simp]: "1 \<le> HELLO" "HELLO \<le> 12" "1 \<le> READY" "READY \<le> 12" "HELLO \<noteq> READY" "READY \<noteq> HELLO"
  by (simp_all add: HELLO_def READY_def)

section \<open>Properties\<close>

text \<open>C8. A handshake that succeeds has authenticated the other side: both speak this protocol, the
  certificate in the other side's HELLO verifies for the identity that QUIC authenticated, at the time of
  the check, its limits are within the bounds of the protocol, and the session identifier comes from the
  exporter of this connection and realm. And the accepting side has written nothing to a peer whose
  certificate did not verify.\<close>

theorem handshake_authentic:
  assumes "external L" and "handshake L wa conn opened dialing cfg trust cert nonce now1 now2 recv send = (res, send')"
  shows "(\<forall>hs. res = Inr hs \<longrightarrow>
       cn_alpn conn = MQ_ALPN \<and> wf_hello (hs_hello hs) \<and> wf_certificate L (hs_cert hs)
       \<and> c_bytes (hs_cert hs) = he_cert (hs_hello hs)
       \<and> (\<exists>n. now2 = Inr n \<and> trust_verify L trust (hs_cert hs) (cn_remote conn) n = Inr ())
       \<and> cn_export conn SESSION_LABEL (t_realm trust) = Some (hs_session hs))
    \<and> (\<not> dialing \<and> send' \<noteq> send \<longrightarrow>
       (\<exists>remote recv' h c n. read_small recv HELLO = Inr (remote, recv') \<and> parse_hello (codec L) remote = Inr h
          \<and> certificate_from_bytes L (he_cert h) = Inr c \<and> now1 = Inr n \<and> trust_verify L trust c (cn_remote conn) n = Inr ()))"
  using handshake_verified [OF assms(1)] acceptor_silent assms(2) by metis

text \<open>C9. The two sides of a connection agree on their session: when both succeed, on streams that carry what the other
  wrote, they have the same dialer, the same nonce and the same session identifier, each holds the other's certificate
  and limits, and what follows on the streams is left to be read.\<close>

theorem handshake_agreement:
  assumes "external L" and "cn_export conD = cn_export conA" and "t_realm trustD = t_realm trustA"
    and "config_validate cfgD = Inr ()" and "config_validate cfgA = Inr ()"
    and "wf_certificate L certD" and "wf_certificate L certA" and "length nonceD = 16" and "length nonceA = 16"
    and D: "handshake L pipe conD oD True cfgD trustD certD nonceD d1 d2 \<lparr>st_bytes = outA @ restA, st_fin = finA\<rparr> [] = (Inr d, outD)"
    and A: "handshake L pipe conA oA False cfgA trustA certA nonceA a1 a2 \<lparr>st_bytes = outD @ restD, st_fin = finD\<rparr> [] = (Inr a, outA)"
  shows "hs_dialer d = hs_dialer a \<and> hs_nonce d = hs_nonce a \<and> hs_session d = hs_session a
    \<and> hs_dialer d = cn_remote conA \<and> hs_nonce d = nonceD
    \<and> hs_cert d = certA\<lparr>c_memory := None\<rparr> \<and> hs_cert a = certD\<lparr>c_memory := None\<rparr>
    \<and> hs_hello d = own_hello cfgA certA nonceA \<and> hs_hello a = own_hello cfgD certD nonceD
    \<and> hs_recv d = \<lparr>st_bytes = restA, st_fin = finA\<rparr> \<and> hs_recv a = \<lparr>st_bytes = restD, st_fin = finD\<rparr>"
proof -
  from D obtain fD rD remD recvD readyD where d:
      "write_frame pipe [] HELLO (hello_encode (codec L) (own_hello cfgD certD nonceD)) [] = Inr fD"
      "write_frame pipe [] READY (ready_frame (codec L) nonceD (he_nonce (hs_hello d))) [] = Inr rD" "outD = fD @ rD"
      "read_small \<lparr>st_bytes = outA @ restA, st_fin = finA\<rparr> HELLO = Inr (remD, recvD)"
      "check_hello L trustD (cn_remote conD) d2 remD = Inr (hs_hello d, hs_cert d)"
      "read_small recvD READY = Inr (readyD, hs_recv d)"
      "cn_export conD SESSION_LABEL (t_realm trustD) = Some (hs_session d)" "hs_dialer d = endpoint_id certD" "hs_nonce d = nonceD"
    by (rule handshake_Inr) (auto simp: send_frame_pipe own_hello_encode)
  from A obtain fA rA remA recvA readyA where a:
      "write_frame pipe [] HELLO (hello_encode (codec L) (own_hello cfgA certA nonceA)) [] = Inr fA"
      "write_frame pipe [] READY (ready_frame (codec L) nonceA (he_nonce (hs_hello a))) [] = Inr rA" "outA = fA @ rA"
      "read_small \<lparr>st_bytes = outD @ restD, st_fin = finD\<rparr> HELLO = Inr (remA, recvA)"
      "check_hello L trustA (cn_remote conA) a2 remA = Inr (hs_hello a, hs_cert a)"
      "read_small recvA READY = Inr (readyA, hs_recv a)"
      "cn_export conA SESSION_LABEL (t_realm trustA) = Some (hs_session a)" "hs_dialer a = cn_remote conA" "hs_nonce a = he_nonce (hs_hello a)"
    by (rule handshake_Inr) (auto simp: send_frame_pipe own_hello_encode)
  have rem: "remD = hello_encode (codec L) (own_hello cfgA certA nonceA)" "recvD = \<lparr>st_bytes = rA @ restA, st_fin = finA\<rparr>"
      "remA = hello_encode (codec L) (own_hello cfgD certD nonceD)" "recvA = \<lparr>st_bytes = rD @ restD, st_fin = finD\<rparr>"
    using d(4) a(4) read_small_written [OF a(1)] read_small_written [OF d(1)] by (auto simp: d(3) a(3))
  then have recv: "hs_recv d = \<lparr>st_bytes = restA, st_fin = finA\<rparr>" "hs_recv a = \<lparr>st_bytes = restD, st_fin = finD\<rparr>"
    using d(6) a(6) read_small_written [OF a(2)] read_small_written [OF d(2)] by auto
  have hellos: "hs_hello d = own_hello cfgA certA nonceA" "hs_cert d = certA\<lparr>c_memory := None\<rparr>"
      "hs_hello a = own_hello cfgD certD nonceD" "hs_cert a = certD\<lparr>c_memory := None\<rparr>"
    using d(5) a(5) check_hello_own [OF assms(1,5,7,9), of trustD "cn_remote conD" d2]
      check_hello_own [OF assms(1,4,6,8), of trustA "cn_remote conA" a2]
    by (auto simp: rem result_simps)
  obtain n where "trust_verify L trustA (hs_cert a) (cn_remote conA) n = Inr ()"
    using handshake_verified [OF assms(1) A] by auto
  then have "endpoint_id certD = cn_remote conA"
    by (auto simp: hellos trust_verify_def check_def endpoint_id_def result_simps split: if_splits)
  with d a hellos recv assms(2,3) show ?thesis
    by (auto simp: own_hello_def)
qed

context external
begin

lemma ready_size:
  assumes "length x = 16" and "length y = 16"
  shows "length (ready_frame (codec L) x y) \<le> MAX_METADATA"
  using assms enc_bytes_size [of x] enc_bytes_size [of y] enc_array_size [of 3] enc_u64_size [of 1]
  by (simp add: ready_frame_def writer_defs MAX_METADATA_def)

end

lemma write_fits: "length metadata \<le> MAX_METADATA \<Longrightarrow> \<exists>f. write_frame pipe [] kind metadata [] = Inr f"
  by (auto simp: write_frame_pipe header_encode_Inr MAX_METADATA_def)

lemma frames_written:
  assumes "external L" and "config_validate cfg = Inr ()" and "wf_certificate L cert" and "length nonce = 16" and "length other = 16"
  obtains f r where "write_frame pipe [] HELLO (hello_encode (codec L) (own_hello cfg cert nonce)) [] = Inr f"
    "write_frame pipe [] READY (ready_frame (codec L) nonce other) [] = Inr r"
  using write_fits [OF cbor_codec.hello_size [OF _ own_hello_wf [OF assms(1-4)]], of "codec L" HELLO]
    write_fits [OF external.ready_size [OF assms(1,4,5)], of READY] assms(1) by (auto simp: external_def)

lemma honest_handshake:
  assumes "external L" and "config_validate cfgD = Inr ()" and "config_validate cfgA = Inr ()"
    and "wf_certificate L certD" and "wf_certificate L certA" and "length nonceD = 16" and "length nonceA = 16"
    and "cn_alpn conD = MQ_ALPN" and "cn_alpn conA = MQ_ALPN"
    and "cn_export conD SESSION_LABEL (t_realm trustD) = Some k" and "cn_export conA SESSION_LABEL (t_realm trustA) = Some k'"
    and "trust_verify L trustD certA (cn_remote conD) d = Inr ()"
    and "trust_verify L trustA certD (cn_remote conA) a1 = Inr ()" and "trust_verify L trustA certD (cn_remote conA) a2 = Inr ()"
  shows "\<exists>outD outA hd ha.
      handshake L pipe conD (Inr ()) True cfgD trustD certD nonceD d1 (Inr d) \<lparr>st_bytes = outA @ restA, st_fin = finA\<rparr> [] = (Inr hd, outD)
    \<and> handshake L pipe conA (Inr ()) False cfgA trustA certA nonceA (Inr a1) (Inr a2) \<lparr>st_bytes = outD @ restD, st_fin = finD\<rparr> [] = (Inr ha, outA)
    \<and> hs_cert hd = certA\<lparr>c_memory := None\<rparr> \<and> hs_cert ha = certD\<lparr>c_memory := None\<rparr> \<and> hs_session hd = k \<and> hs_session ha = k'"
proof -
  obtain fD rD where D: "write_frame pipe [] HELLO (hello_encode (codec L) (own_hello cfgD certD nonceD)) [] = Inr fD"
      "write_frame pipe [] READY (ready_frame (codec L) nonceD nonceA) [] = Inr rD"
    by (rule frames_written [OF assms(1,2,4,6,7)])
  obtain fA rA where A: "write_frame pipe [] HELLO (hello_encode (codec L) (own_hello cfgA certA nonceA)) [] = Inr fA"
      "write_frame pipe [] READY (ready_frame (codec L) nonceA nonceD) [] = Inr rA"
    by (rule frames_written [OF assms(1,3,5,7,6)])
  have send: "send_frame pipe kind m [] w = (Inr (), w @ f)" if "write_frame pipe [] kind m [] = Inr f" for kind m w f
    using that send_frame_pipe [of kind m "[]" w "()" "w @ f"] by simp
  note reads = read_small_written [OF D(1)] read_small_written [OF D(2)] read_small_written [OF A(1)] read_small_written [OF A(2)]
  note hellos = check_hello_own [OF assms(1,2,4,6)] check_hello_own [OF assms(1,3,5,7)]
  have nonces: "he_nonce (own_hello cfgA certA nonceA) = nonceA" "he_nonce (own_hello cfgD certD nonceD) = nonceD"
    by (simp_all add: own_hello_def)
  show ?thesis
    by (intro exI [of _ "fD @ rD"] exI [of _ "fA @ rA"])
      (simp add: handshake_def own_hello_encode send D A reads hellos nonces assms Let_def)
qed

text \<open>The handshake of two honest sides goes through: on a connection with the protocol of the source, with valid
  settings and certificates that each verifies for the other, both succeed on streams that carry what the other writes.\<close>

theorem handshake_completes:
  assumes "external L" and "config_validate cfgD = Inr ()" and "config_validate cfgA = Inr ()"
    and "wf_certificate L certD" and "wf_certificate L certA" and "length nonceD = 16" and "length nonceA = 16"
    and "cn_alpn conD = MQ_ALPN" and "cn_alpn conA = MQ_ALPN"
    and "cn_export conD SESSION_LABEL (t_realm trustD) = Some k" and "cn_export conA SESSION_LABEL (t_realm trustA) = Some k'"
    and "trust_verify L trustD certA (cn_remote conD) d = Inr ()"
    and "trust_verify L trustA certD (cn_remote conA) a1 = Inr ()" and "trust_verify L trustA certD (cn_remote conA) a2 = Inr ()"
  shows "\<exists>outD outA hd ha.
      handshake L pipe conD (Inr ()) True cfgD trustD certD nonceD d1 (Inr d) \<lparr>st_bytes = outA @ restA, st_fin = finA\<rparr> [] = (Inr hd, outD)
    \<and> handshake L pipe conA (Inr ()) False cfgA trustA certA nonceA (Inr a1) (Inr a2) \<lparr>st_bytes = outD @ restD, st_fin = finD\<rparr> [] = (Inr ha, outA)"
  using honest_handshake [OF assms] by blast

section \<open>Witnesses\<close>

definition sample_con :: "256 word \<Rightarrow> 256 word connection" where
  "sample_con e = \<lparr>cn_alpn = MQ_ALPN, cn_remote = e, cn_export = (\<lambda>_ _. Some (replicate 16 1))\<rparr>"

lemma sample_con [simp]: "cn_alpn (sample_con e) = MQ_ALPN" "cn_remote (sample_con e) = e" "cn_export (sample_con e) x y = Some (replicate 16 1)"
    "cn_export (sample_con e) = cn_export (sample_con e')"
  by (simp_all add: sample_con_def)

lemmas sample_sides = config_new_valid config_new_valid sample_cert(3) sample_cert(3)

theorem handshake_completes_witness:
  "\<exists>outD outA hd ha.
      handshake sample_lib pipe (sample_con 7) (Inr ()) True config_new sample_trust (sample_cert 5) (replicate 16 8) (Inr 15) (Inr 15)
        \<lparr>st_bytes = outA @ [], st_fin = False\<rparr> [] = (Inr hd, outD)
    \<and> handshake sample_lib pipe (sample_con 5) (Inr ()) False config_new sample_trust (sample_cert 7) (replicate 16 9) (Inr 15) (Inr 15)
        \<lparr>st_bytes = outD @ [], st_fin = False\<rparr> [] = (Inr ha, outA)"
  by (rule handshake_completes [OF sample.external_axioms sample_sides]) (simp_all add: sample_verify)

lemma sample_handshake:
  obtains outD outA hd ha where
    "handshake sample_lib pipe (sample_con 7) (Inr ()) True config_new sample_trust (sample_cert 5) (replicate 16 8) (Inr 15) (Inr 15)
        \<lparr>st_bytes = outA @ [], st_fin = False\<rparr> [] = (Inr hd, outD)"
    "handshake sample_lib pipe (sample_con 5) (Inr ()) False config_new sample_trust (sample_cert 7) (replicate 16 9) (Inr 15) (Inr 15)
        \<lparr>st_bytes = outD @ [], st_fin = False\<rparr> [] = (Inr ha, outA)"
proof -
  from honest_handshake [where certD = "sample_cert 5" and certA = "sample_cert 7" and nonceD = "replicate 16 8" and nonceA = "replicate 16 9"
      and conD = "sample_con 7" and conA = "sample_con 5" and trustD = sample_trust and trustA = sample_trust and k = "replicate 16 1"
      and k' = "replicate 16 1" and d = 15 and ?a1.0 = 15 and ?a2.0 = 15 and ?d1.0 = "Inr 15" and restA = "[]" and restD = "[]" and finA = False and finD = False,
      OF sample.external_axioms sample_sides] that show ?thesis
    by (auto simp: sample_verify)
qed

theorem handshake_agreement_witness:
  "\<exists>outD outA d a.
     handshake sample_lib pipe (sample_con 7) (Inr ()) True config_new sample_trust (sample_cert 5) (replicate 16 8) (Inr 15) (Inr 15)
        \<lparr>st_bytes = outA @ [], st_fin = False\<rparr> [] = (Inr d, outD)
   \<and> handshake sample_lib pipe (sample_con 5) (Inr ()) False config_new sample_trust (sample_cert 7) (replicate 16 9) (Inr 15) (Inr 15)
        \<lparr>st_bytes = outD @ [], st_fin = False\<rparr> [] = (Inr a, outA)
   \<and> hs_dialer d = 5 \<and> hs_dialer a = 5 \<and> hs_nonce a = replicate 16 8 \<and> hs_session a = hs_session d \<and> hs_cert a = sample_cert 5"
proof -
  obtain outD outA d a where runs:
    "handshake sample_lib pipe (sample_con 7) (Inr ()) True config_new sample_trust (sample_cert 5) (replicate 16 8) (Inr 15) (Inr 15)
        \<lparr>st_bytes = outA @ [], st_fin = False\<rparr> [] = (Inr d, outD)"
    "handshake sample_lib pipe (sample_con 5) (Inr ()) False config_new sample_trust (sample_cert 7) (replicate 16 9) (Inr 15) (Inr 15)
        \<lparr>st_bytes = outD @ [], st_fin = False\<rparr> [] = (Inr a, outA)"
    by (rule sample_handshake)
  have "sample_cert 5\<lparr>c_memory := None\<rparr> = sample_cert 5"
    using sample_cert(2) [of 5] by simp
  with handshake_agreement [OF sample.external_axioms sample_con(4) refl sample_sides _ _ runs]
  have "hs_dialer d = 5 \<and> hs_dialer a = 5 \<and> hs_nonce a = replicate 16 8 \<and> hs_session a = hs_session d \<and> hs_cert a = sample_cert 5"
    by auto
  with runs show ?thesis
    by blast
qed

theorem handshake_authentic_witness:
  "\<exists>(hs :: 256 word handshake_result). wf_hello (hs_hello hs) \<and> trust_verify sample_lib sample_trust (hs_cert hs) 7 15 = Inr ()"
proof -
  obtain outD outA d a where
    "handshake sample_lib pipe (sample_con 7) (Inr ()) True config_new sample_trust (sample_cert 5) (replicate 16 8) (Inr 15) (Inr 15)
        \<lparr>st_bytes = outA @ [], st_fin = False\<rparr> [] = (Inr d, outD)"
    by (rule sample_handshake)
  from handshake_authentic [OF sample.external_axioms this] show ?thesis
    by auto
qed

end
