(* ===== verification/Bind.thy ===== *)
theory Bind
  imports Handshake
begin

text \<open>
  How an endpoint sets up QUIC, \<open>bind\<close> of \<^verbatim>\<open>src/src/endpoint/transport.rs\<close>: what it asks of the builder of an
  \<^verbatim>\<open>iroh\<close> endpoint, as a record. Choosing the local address and binding are the two calls of the builder that can
  fail; they are the fields of \<open>quic\<close>, a parameter. The errors they return are already the text that \<open>io_error\<close> makes of them.
\<close>

definition JOIN_ALPN :: bytes where
  "JOIN_ALPN = str_bytes ''iroh-mq/join/2''"

record transport_config =
  tc_bidi_streams :: u32
  tc_uni_streams :: u32
  tc_stream_receive_window :: u32
  tc_receive_window :: u32
  tc_send_window :: u64
  tc_datagram_receive :: "nat option"
  tc_datagram_send :: nat

datatype preset = N0 | Minimal

record endpoint_builder =
  eb_preset :: preset
  eb_secret_key :: bytes
  eb_alpns :: "bytes list"
  eb_relay_mode :: relay_mode
  eb_transport :: transport_config
  eb_ip_transports :: bool
  eb_bind_addr :: "socket_addr option"

record quic =
  qu_bind_addr :: "socket_addr \<Rightarrow> endpoint_builder \<Rightarrow> endpoint_builder result"
  qu_bind :: "endpoint_builder \<Rightarrow> unit result"

definition quic_transport_config :: "config \<Rightarrow> transport_config" where
  "quic_transport_config cfg =
     \<lparr>tc_bidi_streams = 1, tc_uni_streams = word_of_nat (max_topics cfg), tc_stream_receive_window = 2 * 1024 * 1024,
      tc_receive_window = 4 * 1024 * 1024, tc_send_window = 4 * 1024 * 1024, tc_datagram_receive = None, tc_datagram_send = 0\<rparr>"

definition bind_builder :: "config \<Rightarrow> bytes \<Rightarrow> bytes \<Rightarrow> endpoint_builder" where
  "bind_builder cfg identity alpn =
     \<lparr>eb_preset = (if relay_mode cfg = Relay_Default then N0 else Minimal), eb_secret_key = identity,
      eb_alpns = [alpn, JOIN_ALPN], eb_relay_mode = relay_mode cfg, eb_transport = quic_transport_config cfg,
      eb_ip_transports = (\<not> relay_only cfg), eb_bind_addr = None\<rparr>"

definition bind_protocol :: "quic \<Rightarrow> config \<Rightarrow> bytes \<Rightarrow> bytes \<Rightarrow> unit result" where
  "bind_protocol q cfg identity alpn =
     rbind (case bind_addr cfg of
              Some addr \<Rightarrow>
                if relay_only cfg then Inr (bind_builder cfg identity alpn)
                else qu_bind_addr q addr (bind_builder cfg identity alpn)
            | None \<Rightarrow> Inr (bind_builder cfg identity alpn)) (\<lambda>builder.
       qu_bind q builder)"

definition bind :: "quic \<Rightarrow> config \<Rightarrow> bytes \<Rightarrow> unit result" where
  "bind q cfg identity = bind_protocol q cfg identity MQ_ALPN"

section \<open>Lemmas\<close>

text \<open>The conversion \<open>max_topics as u32\<close> loses nothing for a valid configuration.\<close>

lemma uni_streams_exact:
  assumes "config_validate cfg = Inr ()"
  shows "unat (tc_uni_streams (quic_transport_config cfg)) = max_topics cfg"
proof -
  have "max_topics cfg \<le> 256"
    using assms by (auto simp: config_validate_def result_simps)
  then show ?thesis
    by (simp add: quic_transport_config_def unat_of_nat)
qed

lemma bind_succeeds:
  assumes "\<And>b. qu_bind q b = Inr ()" and "\<And>addr b. \<exists>b'. qu_bind_addr q addr b = Inr b'"
  shows "bind q cfg identity = Inr ()"
  using assms(2) by (auto simp: bind_def bind_protocol_def assms(1) split: option.splits) (metis assms(1) rbind_Inr)

text \<open>With \<open>relay_only\<close> the endpoint that is bound has no IP transport and no local address, whatever the configuration says of one, and
  it has a relay.\<close>

lemma relay_only_private:
  assumes "config_validate cfg = Inr ()" and "relay_only cfg" and "bind q cfg identity = Inr ()"
  obtains b where "qu_bind q b = Inr ()" "\<not> eb_ip_transports b" "eb_bind_addr b = None" "eb_relay_mode b \<noteq> Relay_Disabled"
  using assms that [of "bind_builder cfg identity MQ_ALPN"]
  by (auto simp: bind_def bind_protocol_def bind_builder_def config_validate_def result_simps split: option.splits)

section \<open>Witnesses\<close>

definition sample_quic :: quic where
  "sample_quic = \<lparr>qu_bind_addr = (\<lambda>a b. Inr (b\<lparr>eb_bind_addr := Some a\<rparr>)), qu_bind = (\<lambda>_. Inr ())\<rparr>"

lemma sample_bind [simp]: "bind sample_quic cfg identity = Inr ()"
  by (rule bind_succeeds) (simp_all add: sample_quic_def)

end
