(* ===== verification/Transport.thy ===== *)
theory Transport
  imports Owner_Sessions Bind
begin

text \<open>
  The tasks of a messaging session, \<^verbatim>\<open>src/src/endpoint/transport.rs\<close>: \<open>run\<close> with its registration and its
  loop that accepts data streams, the writer and the reader of control frames, the reader and the writer
  of DATA. A task talks to the owner through \<open>ask\<close>, which sends a command and waits for the reply (\<open>None\<close> when
  the owner has gone), and reserves metadata memory through \<open>rsv\<close>; both act on a state of any type, which
  \<open>owner_ask\<close> and \<open>owner_reserve\<close> make the system of \<open>Owner_Run\<close>. Cancelling a task is a stream that stalls, or a queue
  that ends: the task stops where it waits. The bytes that a stream brings are its argument.
\<close>

lemma read_header_shorter: "read_header timely b mx = Inr (Some h, b') \<Longrightarrow> length b' < length b"
  by (auto simp: read_header_def read_exact_def result_simps split: list.splits if_splits)

lemma stream_header_shorter: "stream_header st mx = Inr (Some h, st') \<Longrightarrow> length (st_bytes st') < length (st_bytes st)"
  by (auto simp: stream_header_def result_simps dest!: read_header_shorter)

lemma stream_exact_shorter: "stream_exact n st = Inr (b, st') \<Longrightarrow> length (st_bytes st') \<le> length (st_bytes st)"
  by (auto simp: stream_exact_def read_exact_def result_simps split: if_splits)

section \<open>DATA\<close>

function read_data ::
  "'e lib \<Rightarrow> ('e owner_command \<Rightarrow> 'o \<Rightarrow> 'e reply option \<times> 'o) \<Rightarrow> (nat \<Rightarrow> 'o \<Rightarrow> permit result \<times> 'o)
   \<Rightarrow> u64 \<Rightarrow> 'e \<Rightarrow> bytes \<Rightarrow> nat \<Rightarrow> (bytes \<times> topic) option \<Rightarrow> stream \<Rightarrow> 'o \<Rightarrow> unit result \<times> 'o"
where
  "read_data L ask rsv sid peer session mx binding st x =
     (if stalled st then (Inr (), x)
      else
      sbind (stream_header st mx, x) (\<lambda>(header, st) x.
      case header of
        None \<Rightarrow> (Inr (), x)
      | Some h \<Rightarrow>
        sbind (fail_if (h_kind h \<noteq> DATA) (Protocol ''non-DATA on data stream''), x) (\<lambda>_ x.
        sbind (rsv (h_metadata h * 2 + 1024) x) (\<lambda>_ x.
        sbind (stream_exact (h_metadata h) st, x) (\<lambda>(b, st) x.
        sbind (parse_data (codec L) b session, x) (\<lambda>(sub, sb) x.
        case ask (Begin peer session sub sid sb (h_payload h)) x of
          (None, x) \<Rightarrow> (Inl ShuttingDown, x)
        | (Some r, x) \<Rightarrow>
          (case r of
             Reply_Ticket (Inr ticket) \<Rightarrow>
               (let this_binding = (sub, mid_topic (env_id (rt_envelope ticket))) in
                if binding \<noteq> None \<and> binding \<noteq> Some this_binding
                then (Inl (Protocol ''data stream binding changed''), x)
                else sbind (stream_exact (h_payload h) st, x) (\<lambda>(payload, st) x.
                  case ask (Incoming peer session sub ticket (lease_received payload (rt_permits ticket))) x of
                    (None, x) \<Rightarrow> (Inl ShuttingDown, x)
                  | (Some _, x) \<Rightarrow> read_data L ask rsv sid peer session mx (Some this_binding) st x))
           | Reply_Ticket (Inl e) \<Rightarrow> if e = SubscriptionClosed then (Inr (), x) else (Inl e, x)
           | _ \<Rightarrow> (Inl ShuttingDown, x))))))))"
  by pat_completeness auto

termination
proof (relation "measure (\<lambda>(L, ask, rsv, sid, peer, session, mx, binding, st, x). length (st_bytes st))")
qed (auto dest!: stream_header_shorter stream_exact_shorter)

declare read_data.simps [simp del]

text \<open>The writer, on the items that its queue yields; \<open>stopped\<close> is the code with which the other side has stopped the
  stream.\<close>

fun write_items ::
  "'e lib \<Rightarrow> ('s \<Rightarrow> bytes \<Rightarrow> 's result) \<Rightarrow> ('s \<Rightarrow> nat option) \<Rightarrow> ('e owner_command \<Rightarrow> 'o \<Rightarrow> 'e reply option \<times> 'o)
   \<Rightarrow> bytes \<Rightarrow> 'e data_out list \<Rightarrow> 's \<Rightarrow> 'o \<Rightarrow> unit result \<times> 's \<times> 'o"
where
  "write_items L wa stopped ask session [] s x = (Inr (), s, x)"
| "write_items L wa stopped ask session (item # items) s x =
     (case send_frame wa DATA (data_frame (codec L) session (fst (snd (do_key item))) (do_signed item))
             (lease_bytes (do_payload item)) s of (r, s) \<Rightarrow>
      let r = (if (\<exists>e. r = Inl e) \<and> stopped s = Some 1 then Inl SubscriptionClosed else r) in
      case ask (SentData (do_key item) session r) x of
        (None, x) \<Rightarrow> (Inl ShuttingDown, s, x)
      | (Some _, x) \<Rightarrow>
          (case r of
             Inl e \<Rightarrow> (Inl e, s, x)
           | Inr _ \<Rightarrow> write_items L wa stopped ask session items s x))"

text \<open>\<open>write_data\<close>: a failure other than a closed subscription ends the session. \<open>opened\<close> is the result of opening the stream.\<close>

definition write_data ::
  "'e lib \<Rightarrow> ('s \<Rightarrow> bytes \<Rightarrow> 's result) \<Rightarrow> ('s \<Rightarrow> nat option) \<Rightarrow> ('e owner_command \<Rightarrow> 'o \<Rightarrow> 'e reply option \<times> 'o)
   \<Rightarrow> 'e \<Rightarrow> bytes \<Rightarrow> 's result \<Rightarrow> 'e data_out list \<Rightarrow> 's \<Rightarrow> 'o \<Rightarrow> unit result \<times> 's \<times> 'o"
where
  "write_data L wa stopped ask remote session opened items s x =
     (case (case opened of Inl e \<Rightarrow> (Inl e, s, x) | Inr s \<Rightarrow> write_items L wa stopped ask session items s x) of
        (Inr _, s, x) \<Rightarrow> (Inr (), s, x)
      | (Inl e, s, x) \<Rightarrow>
          if e = SubscriptionClosed then (Inl e, s, x) else (Inl e, s, snd (ask (End remote session) x)))"

section \<open>Control frames\<close>

fun control_writer ::
  "'e lib \<Rightarrow> ('s \<Rightarrow> bytes \<Rightarrow> 's result) \<Rightarrow> bytes \<Rightarrow> control list \<Rightarrow> 's \<Rightarrow> unit result \<times> 's"
where
  "control_writer L wa session [] s = (Inr (), s)"
| "control_writer L wa session (c # cs) s =
     (case control_encode (codec L) c session of (kind, metadata) \<Rightarrow>
      sbind (send_frame wa kind metadata [] s) (\<lambda>_ s. control_writer L wa session cs s))"

definition rate_window :: "nat \<Rightarrow> nat \<Rightarrow> nat \<Rightarrow> nat \<times> nat" where
  "rate_window t start n = (if t - start \<ge> from_secs 1 then (t, 0) else (start, n))"

text \<open>The reader, with the reading of the clock at each frame (one for the test of the window and the start of the next); \<open>start\<close> is the beginning of the window that \<open>count\<close> counts.\<close>

fun control_reader ::
  "'e lib \<Rightarrow> ('e owner_command \<Rightarrow> 'o \<Rightarrow> 'e reply option \<times> 'o) \<Rightarrow> (nat \<Rightarrow> 'o \<Rightarrow> permit result \<times> 'o)
   \<Rightarrow> 'e \<Rightarrow> bytes \<Rightarrow> nat list \<Rightarrow> nat \<Rightarrow> nat \<Rightarrow> stream \<Rightarrow> 'o \<Rightarrow> unit result \<times> 'o"
where
  "control_reader L ask rsv peer session [] n start st x = (Inr (), x)"
| "control_reader L ask rsv peer session (t # ts) n start st x =
     (if stalled st then (Inr (), x)
      else
      sbind (stream_header st 0, x) (\<lambda>(header, st) x.
      case header of
        None \<Rightarrow> (Inr (), x)
      | Some h \<Rightarrow>
        (case rate_window t start n of (start, n) \<Rightarrow>
         let n = Suc n in
         sbind (fail_if (n > 8192) (Protocol ''control rate limit''), x) (\<lambda>_ x.
         sbind (rsv (h_metadata h * 2 + 1024) x) (\<lambda>_ x.
         sbind (stream_exact (h_metadata h) st, x) (\<lambda>(b, st) x.
         sbind (control_decode (codec L) (h_kind h) b session, x) (\<lambda>c x.
         case ask (Remote peer session c) x of
           (None, x) \<Rightarrow> (Inl ShuttingDown, x)
         | (Some _, x) \<Rightarrow> control_reader L ask rsv peer session ts n start st x)))))))"

section \<open>A session\<close>

definition new_registration :: "'e handshake_result \<Rightarrow> 'e registration" where
  "new_registration h =
     \<lparr>reg_cert = hs_cert h, reg_session = hs_session h, reg_dialer = hs_dialer h, reg_nonce = hs_nonce h,
      reg_cancelled = False, reg_closed = False, reg_max_payload = he_max_payload (hs_hello h),
      reg_max_topics = he_max_topics (hs_hello h), reg_window_secs = he_window_secs (hs_hello h)\<rparr>"

text \<open>\<open>run\<close>: the handshake (which the timeout or the end of the endpoint may cut short) and the registration, then the
  tasks of the session, if the owner has accepted it, and the report of its end. The first component is what is sent to
  \<open>connected\<close>; the owner answers it when it registers the session.\<close>

definition registered :: "'e reply \<Rightarrow> unit result option" where
  "registered r = (case r of Reply_Registered q \<Rightarrow> Some (case q of Inl e \<Rightarrow> Inl e | Inr _ \<Rightarrow> Inr ()) | _ \<Rightarrow> None)"

definition start_session ::
  "('e owner_command \<Rightarrow> 'o \<Rightarrow> 'e reply option \<times> 'o) \<Rightarrow> 'e \<Rightarrow> 'e handshake_result result \<Rightarrow> 'o
   \<Rightarrow> unit result option \<times> 'e handshake_result option \<times> 'o"
where
  "start_session ask peer result x =
     (case result of
        Inl e \<Rightarrow> (Some (Inl e), None, x)
      | Inr h \<Rightarrow>
          (case ask (Register peer (new_registration h)) x of
             (None, x) \<Rightarrow> (None, None, x)
           | (Some r, x) \<Rightarrow> (registered r, if r = Reply_Registered (Inr True) then Some h else None, x)))"

definition run ::
  "('e owner_command \<Rightarrow> 'o \<Rightarrow> 'e reply option \<times> 'o) \<Rightarrow> 'e \<Rightarrow> 'e handshake_result result \<Rightarrow> ('e handshake_result \<Rightarrow> 'o \<Rightarrow> 'o) \<Rightarrow> 'o
   \<Rightarrow> unit result option \<times> 'o"
where
  "run ask peer result tasks x =
     (case start_session ask peer result x of
        (c, None, x) \<Rightarrow> (c, x)
      | (c, Some h, x) \<Rightarrow> (c, snd (ask (End peer (hs_session h)) (tasks h x))))"

text \<open>\<open>connect\<close> and \<open>incoming\<close>: \<open>connection\<close> is what connecting or accepting gives (the timeout, the end of the endpoint and a
  refusal are its errors), \<open>hs\<close> the result of the handshake on a connection, \<open>request\<close> the bytes of an enrollment.\<close>

definition connect ::
  "('e owner_command \<Rightarrow> 'o \<Rightarrow> 'e reply option \<times> 'o) \<Rightarrow> 'c result \<Rightarrow> 'e \<Rightarrow> ('c \<Rightarrow> 'e handshake_result result) \<Rightarrow> ('e handshake_result \<Rightarrow> 'o \<Rightarrow> 'o) \<Rightarrow> 'o
   \<Rightarrow> unit result option \<times> 'o"
where
  "connect ask connection peer hs tasks x =
     (case connection of Inl e \<Rightarrow> (Some (Inl e), x) | Inr conn \<Rightarrow> run ask peer (hs conn) tasks x)"

text \<open>The enrollment exchange on a connection, with the owner that answers it.\<close>

definition serve_connection ::
  "'e lib \<Rightarrow> ('e owner_command \<Rightarrow> 'o \<Rightarrow> 'e reply option \<times> 'o) \<Rightarrow> 'e \<Rightarrow> bytes \<Rightarrow> 'o \<Rightarrow> bytes result \<times> 'o"
where
  "serve_connection L ask peer request x =
     sbind (serve_request L request, x) (\<lambda>(cid, secret) x.
     case ask (Enroll peer cid secret) x of
       (Some (Reply_Enrollment r), x) \<Rightarrow> (case join_reply L r of (kind, b) \<Rightarrow> write_frame pipe [] kind b [], x)
     | (_, x) \<Rightarrow> (Inl ShuttingDown, x))"

definition incoming_connection ::
  "'e lib \<Rightarrow> ('e owner_command \<Rightarrow> 'o \<Rightarrow> 'e reply option \<times> 'o) \<Rightarrow> 'e connection result \<Rightarrow> bytes \<Rightarrow> ('e connection \<Rightarrow> 'e handshake_result result)
   \<Rightarrow> ('e handshake_result \<Rightarrow> 'o \<Rightarrow> 'o) \<Rightarrow> 'o \<Rightarrow> 'o"
where
  "incoming_connection L ask connection request hs tasks x =
     (case connection of
        Inl _ \<Rightarrow> x
      | Inr conn \<Rightarrow>
          if cn_alpn conn = JOIN_ALPN then snd (serve_connection L ask (cn_remote conn) request x)
          else snd (run ask (cn_remote conn) (hs conn) tasks x))"

text \<open>The loop of \<open>run\<close> that accepts data streams: the number of readers, the identifiers given out, and why it ended.\<close>

datatype session_event = Cancelled_Session | Closed_Connection | Accepted_Stream | Failed_Accept | Joined_Child bool

record session_loop =
  sl_active :: nat
  sl_generation :: u64
  sl_streams :: "u64 list"

definition session_step :: "nat \<Rightarrow> session_event \<Rightarrow> session_loop \<Rightarrow> string + session_loop" where
  "session_step mx e l =
     (case e of
        Cancelled_Session \<Rightarrow> Inl ''local cancellation''
      | Closed_Connection \<Rightarrow> Inl ''QUIC connection closed''
      | Failed_Accept \<Rightarrow> Inl ''stream accept failed''
      | Accepted_Stream \<Rightarrow>
          if sl_active l \<ge> mx then Inl ''inbound stream limit''
          else Inr (l\<lparr>sl_active := Suc (sl_active l), sl_generation := sl_generation l + 1,
                     sl_streams := sl_streams l @ [sl_generation l + 1]\<rparr>)
      | Joined_Child ok \<Rightarrow>
          if ok then Inr (l\<lparr>sl_active := sl_active l - 1\<rparr>) else Inl ''session task failed'')"

fun session_run :: "nat \<Rightarrow> session_event list \<Rightarrow> session_loop \<Rightarrow> string option \<times> session_loop" where
  "session_run mx [] l = (None, l)"
| "session_run mx (e # es) l =
     (case session_step mx e l of Inl why \<Rightarrow> (Some why, l) | Inr l \<Rightarrow> session_run mx es l)"

section \<open>Interface to the owner\<close>

text \<open>What the tasks need to keep an invariant of the state behind \<open>ask\<close>: every command they send keeps it, where the
  ticket of an \<open>Incoming\<close> is one that a \<open>Begin\<close> returned, and a registration carries a decoded certificate.\<close>

locale owner_channel =
  fixes L :: "('e::linorder) lib"
    and ask :: "'e owner_command \<Rightarrow> 'o \<Rightarrow> 'e reply option \<times> 'o"
    and rsv :: "nat \<Rightarrow> 'o \<Rightarrow> permit result \<times> 'o"
    and inv :: "'o \<Rightarrow> bool"
    and ticketed :: "'e \<Rightarrow> bytes \<Rightarrow> bytes \<Rightarrow> 'e receive_ticket \<Rightarrow> 'o \<Rightarrow> bool"
  assumes rsv_inv: "inv x \<Longrightarrow> inv (snd (rsv n x))"
    and begin_inv: "inv x \<Longrightarrow> inv (snd (ask (Begin peer session sub sid sb len) x))"
    and begin_ticket: "inv x \<Longrightarrow> ask (Begin peer session sub sid sb len) x = (Some (Reply_Ticket (Inr t)), y) \<Longrightarrow>
      ticketed peer session sub t y"
    and data_inv: "inv x \<Longrightarrow> ticketed peer session sub t x \<Longrightarrow>
      inv (snd (ask (Incoming peer session sub t (lease_received b (rt_permits t))) x))"
    and remote_inv: "inv x \<Longrightarrow> inv (snd (ask (Remote peer session c) x))"
    and sent_inv: "inv x \<Longrightarrow> inv (snd (ask (SentData key session r) x))"
    and end_inv: "inv x \<Longrightarrow> inv (snd (ask (End peer session) x))"
    and enroll_inv: "inv x \<Longrightarrow> inv (snd (ask (Enroll peer cid secret) x))"
    and register_inv: "inv x \<Longrightarrow> wf_certificate L (reg_cert reg) \<Longrightarrow> inv (snd (ask (Register peer reg) x))"
begin

text \<open>What \<open>read_data\<close> does with the reply to a \<open>Begin\<close>, before it goes on with \<open>K\<close>.\<close>

lemma after_begin_inv:
  assumes "inv y"
    and K: "\<And>b st' z. length (st_bytes st') \<le> length (st_bytes st) \<Longrightarrow> inv z \<Longrightarrow> inv (snd (K b st' z))"
  shows "inv (snd (case ask (Begin peer session sub sid sb n) y of
      (None, x) \<Rightarrow> (Inl ShuttingDown, x)
    | (Some r, x) \<Rightarrow>
      (case r of
         Reply_Ticket (Inr ticket) \<Rightarrow>
           (let this_binding = (sub, mid_topic (env_id (rt_envelope ticket))) in
            if binding \<noteq> None \<and> binding \<noteq> Some this_binding
            then (Inl (Protocol ''data stream binding changed''), x)
            else sbind (stream_exact n st, x) (\<lambda>(payload, st) x.
              case ask (Incoming peer session sub ticket (lease_received payload (rt_permits ticket))) x of
                (None, x) \<Rightarrow> (Inl ShuttingDown, x)
              | (Some _, x) \<Rightarrow> K (Some this_binding) st x))
       | Reply_Ticket (Inl e) \<Rightarrow> if e = SubscriptionClosed then (Inr (), x) else (Inl e, x)
       | _ \<Rightarrow> (Inl ShuttingDown, x))))"
proof -
  obtain r x where ask: "ask (Begin peer session sub sid sb n) y = (r, x)"
    by fastforce
  have x: "inv x"
    using begin_inv [OF assms(1), of peer session sub sid sb n] ask by simp
  have more: "inv (snd (sbind (stream_exact n st, x) (\<lambda>(payload, st) x.
      case ask (Incoming peer session sub t (lease_received payload (rt_permits t))) x of
        (None, x) \<Rightarrow> (Inl ShuttingDown, x) | (Some _, x) \<Rightarrow> K b st x)))"
    if "r = Some (Reply_Ticket (Inr t))" for t b
  proof (rule sbind_pure_inv [where P = inv, OF x], clarify)
    fix payload st'
    assume ex: "stream_exact n st = Inr (payload, st')"
    obtain a z where a: "ask (Incoming peer session sub t (lease_received payload (rt_permits t))) x = (a, z)"
      by fastforce
    have "inv z"
      using data_inv [OF x begin_ticket [OF assms(1) ask [unfolded that]], of payload] a by simp
    with a K [OF stream_exact_shorter [OF ex]] show "inv (snd (case ask (Incoming peer session sub t (lease_received payload (rt_permits t))) x of
        (None, x) \<Rightarrow> (Inl ShuttingDown, x) | (Some _, x) \<Rightarrow> K b st' x))"
      by (simp split: option.split)
  qed
  show ?thesis
    using ask x more by (auto simp: Let_def split: option.split reply.split sum.split)
qed

lemma read_data_inv:
  "inv x \<Longrightarrow> inv (snd (read_data L ask rsv sid peer session mx binding st x))"
proof (induction "length (st_bytes st)" arbitrary: binding st x rule: less_induct)
  case less
  show ?case
    apply (subst read_data.simps)
    apply (cases "stalled st")
     apply (simp add: less.prems)
    apply (simp only: if_False)
    apply (rule sbind_pure_inv [where P = inv], rule less.prems)
    apply (clarsimp simp: less.prems split: option.split)
    apply (rule sbind_pure_inv [where P = inv], rule less.prems)
    apply (rule sbind_inv [where P = inv])
     apply (rule rsv_inv, rule less.prems)
    apply (rule sbind_pure_inv [where P = inv], assumption)
    apply clarsimp
    apply (rule sbind_pure_inv [where P = inv], assumption)
    apply clarsimp
    apply (rule after_begin_inv, assumption)
    apply (rule less.hyps, drule stream_header_shorter, drule stream_exact_shorter, simp, assumption)
    done
qed

lemma write_items_inv: "inv x \<Longrightarrow> inv (snd (snd (write_items L wa stopped ask session items s x)))"
proof (induction items arbitrary: s x)
  case (Cons item items)
  obtain r s1 where f: "send_frame wa DATA (data_frame (codec L) session (fst (snd (do_key item))) (do_signed item))
      (lease_bytes (do_payload item)) s = (r, s1)"
    by fastforce
  define r' where "r' = (if (\<exists>e. r = Inl e) \<and> stopped s1 = Some 1 then Inl SubscriptionClosed else r)"
  obtain a x1 where a: "ask (SentData (do_key item) session r') x = (a, x1)"
    by fastforce
  have x1: "inv x1"
    using sent_inv [OF Cons.prems, of "do_key item" session r'] a by simp
  have "write_items L wa stopped ask session (item # items) s x =
      (case (a, x1) of
         (None, x) \<Rightarrow> (Inl ShuttingDown, s1, x)
       | (Some _, x) \<Rightarrow> (case r' of Inl e \<Rightarrow> (Inl e, s1, x) | Inr _ \<Rightarrow> write_items L wa stopped ask session items s1 x))"
    by (simp only: write_items.simps f prod.case Let_def r'_def [symmetric] a)
  with Cons.IH [OF x1] x1 show ?case
    by (auto split: option.split sum.split)
qed simp

lemma write_data_inv: "inv x \<Longrightarrow> inv (snd (snd (write_data L wa stopped ask remote session opened items s x)))"
  using write_items_inv [of x wa stopped session items]
  by (auto simp: write_data_def intro: end_inv split: sum.split prod.splits) (metis end_inv snd_conv)+

lemma control_reader_inv: "inv x \<Longrightarrow> inv (snd (control_reader L ask rsv peer session ts n start st x))"
proof (induction ts arbitrary: n start st x)
  case (Cons t ts)
  have more: "inv (snd (case ask (Remote peer session c) y of
      (None, x) \<Rightarrow> (Inl ShuttingDown, x)
    | (Some _, x) \<Rightarrow> control_reader L ask rsv peer session ts n start st x))" if "inv y" for c y n start st
    using remote_inv [OF that, of peer session c] Cons.IH by (auto split: prod.split option.split)
  show ?case
    apply (cases "stalled st")
     apply (simp add: Cons.prems)
    apply (simp only: control_reader.simps if_False)
    apply (rule sbind_pure_inv [where P = inv], rule Cons.prems)
    apply (clarsimp simp: Cons.prems Let_def split: option.split prod.split)
    apply (rule sbind_pure_inv [where P = inv], rule Cons.prems)
    apply (rule sbind_inv [where P = inv])
     apply (rule rsv_inv, rule Cons.prems)
    apply (rule sbind_pure_inv [where P = inv], assumption)
    apply clarsimp
    apply (rule sbind_pure_inv [where P = inv], assumption)
    apply (rule more, assumption)
    done
qed simp

lemma run_inv:
  assumes "inv x" and "\<And>h. result = Inr h \<Longrightarrow> wf_certificate L (hs_cert h)" and "\<And>h y. inv y \<Longrightarrow> inv (tasks h y)"
  shows "inv (snd (run ask peer result tasks x))"
proof (cases result)
  case (Inr h)
  obtain r y where a: "ask (Register peer (new_registration h)) x = (r, y)"
    by fastforce
  have "inv y"
    using register_inv [OF assms(1), of "new_registration h" peer] assms(2) [OF Inr] a by (simp add: new_registration_def)
  with assms(3) end_inv a Inr show ?thesis
    by (auto simp: run_def start_session_def split: option.split)
qed (simp add: run_def start_session_def assms)

lemma serve_connection_inv: "inv x \<Longrightarrow> inv (snd (serve_connection L ask peer request x))"
  unfolding serve_connection_def
proof (rule sbind_pure_inv [where P = inv], assumption, clarify)
  fix cid secret
  assume "inv x"
  obtain r y where a: "ask (Enroll peer cid secret) x = (r, y)"
    by fastforce
  with enroll_inv [OF \<open>inv x\<close>, of peer cid secret] have "inv y"
    by simp
  then show "inv (snd (case ask (Enroll peer cid secret) x of
      (Some (Reply_Enrollment r), x) \<Rightarrow> (case join_reply L r of (kind, b) \<Rightarrow> write_frame pipe [] kind b [], x)
    | (_, x) \<Rightarrow> (Inl ShuttingDown, x)))"
    by (simp add: a split: option.split reply.split)
qed

lemma incoming_inv:
  assumes "inv x" and "\<And>conn h. hs conn = Inr h \<Longrightarrow> wf_certificate L (hs_cert h)" and "\<And>h y. inv y \<Longrightarrow> inv (tasks h y)"
  shows "inv (incoming_connection L ask connection request hs tasks x)"
  using assms run_inv [OF assms(1)] serve_connection_inv by (auto simp: incoming_connection_def split: sum.split)

end

section \<open>The owner behind the channel\<close>

text \<open>\<open>oth\<close> is what the rest of the endpoint does between two interactions of the task; \<open>tks\<close> are the clocks.\<close>

definition owner_ask ::
  "('e::linorder, 'w) env \<Rightarrow> (nat \<Rightarrow> 'e tick) \<Rightarrow> (nat \<Rightarrow> ('e, 'w) system \<Rightarrow> ('e, 'w) system)
   \<Rightarrow> 'e owner_command \<Rightarrow> ('e, 'w) system \<times> nat \<Rightarrow> 'e reply option \<times> ('e, 'w) system \<times> nat"
where
  "owner_ask E tks oth c x =
     (case x of (s, n) \<Rightarrow>
      let s = oth n s in
      case turn E (tks n) (Command c) (sy_owner s) of (r, go, ow) \<Rightarrow>
        (Some r, \<lparr>sy_owner = ow, sy_tickets = tickets_after (Command c) r (sy_tickets s)\<rparr>, Suc n))"

definition owner_reserve :: "nat \<Rightarrow> ('e, 'w) system \<times> nat \<Rightarrow> permit result \<times> ('e, 'w) system \<times> nat" where
  "owner_reserve k x =
     (case x of (s, n) \<Rightarrow>
      case o_reserve (o_metadata (sy_owner s)) k (sy_owner s) of
        Inl e \<Rightarrow> (Inl e, s, n)
      | Inr (p, ow) \<Rightarrow> (Inr p, s\<lparr>sy_owner := release_held (hand_out [p] ow)\<rparr>, n))"

text \<open>The rest of the endpoint reaches its states as \<open>Owner_Run\<close> says and leaves the tickets of this task alone.\<close>

definition fair_others :: "('e::linorder, 'w) env \<Rightarrow> (nat \<Rightarrow> ('e, 'w) system \<Rightarrow> ('e, 'w) system) \<Rightarrow> bool" where
  "fair_others E oth \<longleftrightarrow> (\<forall>n s. reach E s \<longrightarrow> reach E (oth n s) \<and> set (sy_tickets s) \<subseteq> set (sy_tickets (oth n s)))"

lemma owner_ask_reach:
  assumes "fair_others E oth" and "reach E s" and "\<And>s'. reach E s' \<Longrightarrow> set (sy_tickets s) \<subseteq> set (sy_tickets s') \<Longrightarrow> admissible (ev_lib E) s' (Command c)"
  shows "reach E (fst (snd (owner_ask E tks oth c (s, n))))"
proof -
  define s' where "s' = oth n s"
  have s': "reach E s'" "set (sy_tickets s) \<subseteq> set (sy_tickets s')"
    using assms(1,2) by (simp_all add: fair_others_def s'_def)
  obtain r go ow where t: "turn E (tks n) (Command c) (sy_owner s') = (r, go, ow)"
    by (metis prod_cases3)
  have "sys_step E s' \<lparr>sy_owner = ow, sy_tickets = tickets_after (Command c) r (sy_tickets s')\<rparr>"
    using owner_turn [OF assms(3) [OF s'] t] .
  with s'(1) t show ?thesis
    by (auto simp: owner_ask_def Let_def s'_def [symmetric] intro: reach.step)
qed

lemma owner_channel_reach:
  assumes "fair_others E oth"
  shows "owner_channel (ev_lib E) (owner_ask E tks oth) owner_reserve (\<lambda>x. reach E (fst x))
    (\<lambda>peer session sub t x. (peer, session, sub, t) \<in> set (sy_tickets (fst x)))"
proof
  fix x :: "('a, 'b) system \<times> nat" and k
  assume r: "reach E (fst x)"
  show "reach E (fst (snd (owner_reserve k x)))"
  proof (cases "o_reserve (o_metadata (sy_owner (fst x))) k (sy_owner (fst x))")
    case (Inr a)
    then have "sys_step E (fst x) ((fst x)\<lparr>sy_owner := release_held (hand_out [fst a] (snd a))\<rparr>)"
      by (intro others env_step.reserve_outside [of "o_metadata (sy_owner (fst x))"]) auto
    from reach.step [OF r this] Inr show ?thesis
      by (auto simp: owner_reserve_def split: prod.split)
  qed (use r in \<open>auto simp: owner_reserve_def split: prod.split\<close>)
next
  fix x y :: "('a, 'b) system \<times> nat" and peer session sub sid sb len t
  assume "owner_ask E tks oth (Begin peer session sub sid sb len) x = (Some (Reply_Ticket (Inr t)), y)"
  then show "(peer, session, sub, t) \<in> set (sy_tickets (fst y))"
    by (auto simp: owner_ask_def Let_def tickets_after_def split: prod.splits)
next
  fix x :: "('a, 'b) system \<times> nat" and peer session sub t b
  assume "reach E (fst x)" "(peer, session, sub, t) \<in> set (sy_tickets (fst x))"
  then show "reach E (fst (snd (owner_ask E tks oth (Incoming peer session sub t (lease_received b (rt_permits t))) x)))"
    by (cases x) (auto intro!: owner_ask_reach [OF assms] simp: admissible_def lease_received_def)
qed (use owner_ask_reach [OF assms] in \<open>auto simp: admissible_def split: prod.splits\<close>)

interpretation idle: owner_channel "ev_lib E" "owner_ask E tks (\<lambda>_ s. s)" owner_reserve "\<lambda>x. reach E (fst x)"
  "\<lambda>peer session sub t x. (peer, session, sub, t) \<in> set (sy_tickets (fst x))" for E tks
  by (rule owner_channel_reach) (simp add: fair_others_def)

section \<open>From the writer to the reader\<close>

text \<open>What the reader of a data stream does with a list of messages, without the bytes in between.\<close>

fun deliver_items ::
  "'e lib \<Rightarrow> ('e owner_command \<Rightarrow> 'o \<Rightarrow> 'e reply option \<times> 'o) \<Rightarrow> (nat \<Rightarrow> 'o \<Rightarrow> permit result \<times> 'o)
   \<Rightarrow> u64 \<Rightarrow> 'e \<Rightarrow> bytes \<Rightarrow> (bytes \<times> topic) option \<Rightarrow> (bytes \<times> bytes \<times> bytes) list \<Rightarrow> 'o \<Rightarrow> unit result \<times> 'o"
where
  "deliver_items L ask rsv sid peer session binding [] x = (Inr (), x)"
| "deliver_items L ask rsv sid peer session binding ((sub, sb, payload) # items) x =
     sbind (rsv (length (data_frame (codec L) session sub sb) * 2 + 1024) x) (\<lambda>_ x.
     case ask (Begin peer session sub sid sb (length payload)) x of
       (None, x) \<Rightarrow> (Inl ShuttingDown, x)
     | (Some r, x) \<Rightarrow>
       (case r of
          Reply_Ticket (Inr ticket) \<Rightarrow>
            (let this_binding = (sub, mid_topic (env_id (rt_envelope ticket))) in
             if binding \<noteq> None \<and> binding \<noteq> Some this_binding
             then (Inl (Protocol ''data stream binding changed''), x)
             else case ask (Incoming peer session sub ticket (lease_received payload (rt_permits ticket))) x of
                 (None, x) \<Rightarrow> (Inl ShuttingDown, x)
               | (Some _, x) \<Rightarrow> deliver_items L ask rsv sid peer session (Some this_binding) items x)
        | Reply_Ticket (Inl e) \<Rightarrow> if e = SubscriptionClosed then (Inr (), x) else (Inl e, x)
        | _ \<Rightarrow> (Inl ShuttingDown, x)))"

definition item_message :: "'e data_out \<Rightarrow> bytes \<times> bytes \<times> bytes" where
  "item_message item = (fst (snd (do_key item)), do_signed item, lease_bytes (do_payload item))"

definition wf_message :: "nat \<Rightarrow> bytes \<times> bytes \<times> bytes \<Rightarrow> bool" where
  "wf_message mx m \<longleftrightarrow> length (fst m) = 16 \<and> length (fst (snd m)) \<le> 4096 \<and> length (snd (snd m)) \<le> mx"

definition message_frame :: "'e lib \<Rightarrow> bytes \<Rightarrow> bytes \<times> bytes \<times> bytes \<Rightarrow> bytes" where
  "message_frame L session m =
     projr (write_frame pipe [] DATA (data_frame (codec L) session (fst m) (fst (snd m))) (snd (snd m)))"

lemma read_message:
  assumes "external L" and "length session = 16" and "wf_message mx m" and "mx \<le> 1024 * 1024"
  defines "md \<equiv> data_frame (codec L) session (fst m) (fst (snd m))"
  shows "write_frame pipe w DATA md (snd (snd m)) = Inr (w @ message_frame L session m)"
    and "stream_header \<lparr>st_bytes = message_frame L session m @ rest, st_fin = fin\<rparr> mx
      = Inr (Some \<lparr>h_kind = DATA, h_metadata = length md, h_payload = length (snd (snd m))\<rparr>,
             \<lparr>st_bytes = md @ snd (snd m) @ rest, st_fin = fin\<rparr>)"
    and "stream_exact (length md) \<lparr>st_bytes = md @ r, st_fin = fin\<rparr> = Inr (md, \<lparr>st_bytes = r, st_fin = fin\<rparr>)"
    and "parse_data (codec L) md session = Inr (fst m, fst (snd m))"
    and "message_frame L session m \<noteq> []"
proof -
  have codec: "cbor_codec (codec L)"
    using assms(1) by (simp add: external_def)
  have size: "length md \<le> MAX_METADATA"
    using cbor_codec.data_size [OF codec assms(2)] assms(3) by (simp add: md_def wf_message_def)
  then obtain p where p: "header_encode \<lparr>h_kind = DATA, h_metadata = length md, h_payload = length (snd (snd m))\<rparr> = Inr p"
    using assms(3,4) by (auto simp: header_encode_Inr MAX_METADATA_def wf_message_def)
  have w: "write_frame pipe w DATA md (snd (snd m)) = Inr (w @ p @ md @ snd (snd m))" for w
    using size p by (simp add: write_frame_pipe)
  then have f: "message_frame L session m = p @ md @ snd (snd m)"
    by (simp add: message_frame_def md_def)
  with w show "write_frame pipe w DATA md (snd (snd m)) = Inr (w @ message_frame L session m)"
    by simp
  have "length p = 12"
    using p by (auto simp: header_encode_Inr)
  then show "message_frame L session m \<noteq> []"
    by (auto simp: f)
  from read_written_frame [OF w [of "[]"], of mx rest] assms(3) f
  have "read_header True (message_frame L session m @ rest) mx
      = Inr (Some \<lparr>h_kind = DATA, h_metadata = length md, h_payload = length (snd (snd m))\<rparr>, md @ snd (snd m) @ rest)"
    by (auto simp: wf_message_def DATA_def)
  with \<open>length p = 12\<close> show "stream_header \<lparr>st_bytes = message_frame L session m @ rest, st_fin = fin\<rparr> mx
      = Inr (Some \<lparr>h_kind = DATA, h_metadata = length md, h_payload = length (snd (snd m))\<rparr>,
             \<lparr>st_bytes = md @ snd (snd m) @ rest, st_fin = fin\<rparr>)"
    by (simp add: stream_header_def f)
  show "stream_exact (length md) \<lparr>st_bytes = md @ r, st_fin = fin\<rparr> = Inr (md, \<lparr>st_bytes = r, st_fin = fin\<rparr>)"
    by (simp add: stream_exact_def read_exact_def)
  show "parse_data (codec L) md session = Inr (fst m, fst (snd m))"
    using cbor_codec.parse_data_encode [OF codec assms(2), of "fst m" "fst (snd m)" "[]"] assms(3)
    by (simp add: md_def wf_message_def)
qed

lemma stream_exact_append: "stream_exact (length b) \<lparr>st_bytes = b @ r, st_fin = fin\<rparr> = Inr (b, \<lparr>st_bytes = r, st_fin = fin\<rparr>)"
  by (simp add: stream_exact_def read_exact_def)

lemma write_items_frames:
  assumes "external L" and "length session = 16" and "mx \<le> 1024 * 1024"
  shows "\<forall>item \<in> set items. wf_message mx (item_message item) \<Longrightarrow>
    write_items L pipe stopped ask session items w x = (Inr (), w', x') \<Longrightarrow>
    w' = w @ concat (map (\<lambda>item. message_frame L session (item_message item)) items)"
proof (induction items arbitrary: w x)
  case (Cons item items)
  have wf: "wf_message mx (item_message item)"
    using Cons.prems(1) by simp
  have "send_frame pipe DATA (data_frame (codec L) session (fst (snd (do_key item))) (do_signed item)) (lease_bytes (do_payload item)) w
      = (Inr (), w @ message_frame L session (item_message item))"
    using read_message(1) [OF assms(1,2) wf assms(3), of w] by (simp add: send_frame_def item_message_def)
  with Cons.prems obtain y where "write_items L pipe stopped ask session items (w @ message_frame L session (item_message item)) y = (Inr (), w', x')"
    by (auto simp: Let_def split: prod.splits option.splits)
  with Cons.IH [of "w @ message_frame L session (item_message item)" y] Cons.prems(1) show ?case
    by simp
qed simp

lemma read_data_frames:
  assumes "external L" and "length session = 16" and "mx \<le> 1024 * 1024"
  shows "\<forall>m \<in> set ms. wf_message mx m \<Longrightarrow>
    read_data L ask rsv sid peer session mx binding \<lparr>st_bytes = concat (map (message_frame L session) ms), st_fin = True\<rparr> x
      = deliver_items L ask rsv sid peer session binding ms x"
proof (induction ms arbitrary: binding x)
  case Nil
  show ?case
    by (subst read_data.simps) (simp add: stalled_def stream_header_def read_header_def)
next
  case (Cons m ms)
  obtain sub sb payload where m: "m = (sub, sb, payload)"
    by (metis prod_cases3)
  have wf: "wf_message mx (sub, sb, payload)"
    using Cons.prems m by simp
  note rm = read_message [OF assms(1,2) wf assms(3), simplified]
  have ih: "read_data L ask rsv sid peer session mx b \<lparr>st_bytes = concat (map (message_frame L session) ms), st_fin = True\<rparr> y
      = deliver_items L ask rsv sid peer session b ms y" for b y
    using Cons by simp
  show ?case
    apply (subst read_data.simps)
    apply (simp add: m stalled_def rm)
    apply (rule sbind_cong [OF refl])
    apply (auto simp: Let_def stream_exact_append ih split: option.split prod.split reply.split sum.split)
    done
qed

text \<open>What the reader of control frames does with a list of frames, without the bytes in between.\<close>

fun forward_controls ::
  "'e lib \<Rightarrow> ('e owner_command \<Rightarrow> 'o \<Rightarrow> 'e reply option \<times> 'o) \<Rightarrow> (nat \<Rightarrow> 'o \<Rightarrow> permit result \<times> 'o)
   \<Rightarrow> 'e \<Rightarrow> bytes \<Rightarrow> control list \<Rightarrow> 'o \<Rightarrow> unit result \<times> 'o"
where
  "forward_controls L ask rsv peer session [] x = (Inr (), x)"
| "forward_controls L ask rsv peer session (c # cs) x =
     sbind (rsv (length (snd (control_encode (codec L) c session)) * 2 + 1024) x) (\<lambda>_ x.
     case ask (Remote peer session c) x of
       (None, x) \<Rightarrow> (Inl ShuttingDown, x)
     | (Some _, x) \<Rightarrow> forward_controls L ask rsv peer session cs x)"

definition control_frame :: "'e lib \<Rightarrow> bytes \<Rightarrow> control \<Rightarrow> bytes" where
  "control_frame L session c =
     projr (write_frame pipe [] (fst (control_encode (codec L) c session)) (snd (control_encode (codec L) c session)) [])"

lemma control_kinds: "1 \<le> fst (control_kind c) \<and> fst (control_kind c) \<le> 12 \<and> fst (control_kind c) \<noteq> DATA"
  by (cases c) (auto simp: DATA_def)

lemma read_control:
  assumes "external L" and "length session = 16" and "wf_control c"
  defines "kind \<equiv> fst (control_encode (codec L) c session)" and "md \<equiv> snd (control_encode (codec L) c session)"
  shows "write_frame pipe w kind md [] = Inr (w @ control_frame L session c)"
    and "stream_header \<lparr>st_bytes = control_frame L session c @ rest, st_fin = fin\<rparr> 0
      = Inr (Some \<lparr>h_kind = kind, h_metadata = length md, h_payload = 0\<rparr>, \<lparr>st_bytes = md @ rest, st_fin = fin\<rparr>)"
    and "control_decode (codec L) kind md session = Inr c"
    and "control_frame L session c \<noteq> []"
proof -
  have codec: "cbor_codec (codec L)"
    using assms(1) by (simp add: external_def)
  have size: "length md \<le> MAX_METADATA"
    using cbor_codec.control_size [OF codec assms(3,2)] by (simp add: md_def MAX_METADATA_def)
  then obtain p where p: "header_encode \<lparr>h_kind = kind, h_metadata = length md, h_payload = 0\<rparr> = Inr p"
    by (auto simp: header_encode_Inr MAX_METADATA_def)
  have w: "write_frame pipe w kind md [] = Inr (w @ p @ md)" for w
    using size p by (simp add: write_frame_pipe)
  then have f: "control_frame L session c = p @ md"
    by (simp add: control_frame_def md_def kind_def)
  with w show "write_frame pipe w kind md [] = Inr (w @ control_frame L session c)"
    by simp
  have "length p = 12"
    using p by (auto simp: header_encode_Inr)
  then show "control_frame L session c \<noteq> []"
    by (auto simp: f)
  have kinds: "1 \<le> kind" "kind \<le> 12"
    using control_kinds [of c] by (simp_all add: kind_def control_encode_eq)
  from read_written_frame [OF w [of "[]"] kinds, of 0 rest] f
  have "read_header True (control_frame L session c @ rest) 0 = Inr (Some \<lparr>h_kind = kind, h_metadata = length md, h_payload = 0\<rparr>, md @ rest)"
    by auto
  with \<open>length p = 12\<close> show "stream_header \<lparr>st_bytes = control_frame L session c @ rest, st_fin = fin\<rparr> 0
      = Inr (Some \<lparr>h_kind = kind, h_metadata = length md, h_payload = 0\<rparr>, \<lparr>st_bytes = md @ rest, st_fin = fin\<rparr>)"
    by (simp add: stream_header_def f)
  show "control_decode (codec L) kind md session = Inr c"
    using cbor_codec.control_decode_encode [OF codec assms(3,2), of "[]"] by (simp add: kind_def md_def control_encode_eq)
qed

lemma control_writer_frames:
  assumes "external L" and "length session = 16"
  shows "\<forall>c \<in> set cs. wf_control c \<Longrightarrow>
    control_writer L pipe session cs w = (Inr (), w @ concat (map (control_frame L session) cs))"
proof (induction cs arbitrary: w)
  case (Cons c cs)
  obtain kind md where e: "control_encode (codec L) c session = (kind, md)"
    by fastforce
  with read_control(1) [OF assms, of c w] Cons.prems have "send_frame pipe kind md [] w = (Inr (), w @ control_frame L session c)"
    by (simp add: send_frame_def)
  with Cons e show ?case
    by simp
qed simp

lemma control_reader_frames:
  assumes "external L" and "length session = 16"
  shows "\<forall>c \<in> set cs. wf_control c \<Longrightarrow> length ts > length cs \<Longrightarrow> n + length cs \<le> 8192 \<Longrightarrow>
    control_reader L ask rsv peer session ts n start \<lparr>st_bytes = concat (map (control_frame L session) cs), st_fin = True\<rparr> x
      = forward_controls L ask rsv peer session cs x"
proof (induction cs arbitrary: ts n start x)
  case Nil
  then show ?case
    by (cases ts) (simp_all add: stalled_def stream_header_def read_header_def)
next
  case (Cons c cs)
  then obtain t ts' where ts: "ts = t # ts'" "length ts' > length cs"
    by (cases ts) auto
  obtain s' n' where w: "rate_window t start n = (s', n')" and n': "n' \<le> n"
    by (cases "rate_window t start n") (auto simp: rate_window_def split: if_splits)
  note rc = read_control [OF assms, of c]
  have ih: "control_reader L ask rsv peer session ts' (Suc n') s' \<lparr>st_bytes = concat (map (control_frame L session) cs), st_fin = True\<rparr> y
      = forward_controls L ask rsv peer session cs y" for y
    using Cons.IH [of ts' "Suc n'" s' y] Cons.prems ts n' by simp
  have "Suc n' \<le> 8192"
    using Cons.prems n' by simp
  then show ?case
    using Cons.prems
    apply (simp add: ts stalled_def rc w)
    apply (rule sbind_cong [OF refl])
    apply (auto simp: stream_exact_append rc ih split: option.split prod.split)
    done
qed

section \<open>Limits\<close>

text \<open>\<open>m\<close> measures what the owner has been asked.\<close>

lemma control_reader_rate:
  assumes ask: "\<And>c y. m (snd (ask c y)) \<le> Suc (m y)" and rsv: "\<And>k y. m (snd (rsv k y)) \<le> m y"
  shows "sorted ts \<Longrightarrow> \<forall>t \<in> set ts. start \<le> t \<and> t \<le> T \<Longrightarrow> start \<le> T \<Longrightarrow> n \<le> 8192 \<Longrightarrow>
    m (snd (control_reader L ask rsv peer session ts n start st x)) \<le> m x + (8192 - n) + 8192 * ((T - start) div from_secs 1)"
proof (induction ts arbitrary: n start st x)
  case (Cons t ts)
  obtain s' n' where w: "rate_window t start n = (s', n')"
    by fastforce
  have s': "start \<le> s'" "s' \<le> t" "n' \<le> 8192"
    using w Cons.prems by (auto simp: rate_window_def split: if_splits)
  have room: "8192 - n' + 8192 * ((T - s') div from_secs 1) \<le> 8192 - n + 8192 * ((T - start) div from_secs 1)"
  proof (cases "t - start \<ge> from_secs 1")
    case True
    then have eq: "s' = t" "n' = 0"
      using w by (auto simp: rate_window_def)
    have "T - t + from_secs 1 \<le> T - start"
      using True Cons.prems by auto
    then have "(T - t + from_secs 1) div from_secs 1 \<le> (T - start) div from_secs 1"
      by (rule div_le_mono)
    moreover have "(T - t + from_secs 1) div from_secs 1 = Suc ((T - t) div from_secs 1)"
      using div_add_self2 [of "from_secs 1" "T - t"] by (simp add: from_secs_def)
    ultimately show ?thesis
      unfolding eq by linarith
  qed (use w in \<open>auto simp: rate_window_def\<close>)
  have next_read: "m (snd (control_reader L ask rsv peer session ts (Suc n') s' st' y))
      \<le> m y + (8192 - Suc n') + 8192 * ((T - s') div from_secs 1)" if "Suc n' \<le> 8192" for st' y
    using Cons.prems s' that by (intro Cons.IH) auto
  define B where "B = m x + (8192 - n) + 8192 * ((T - start) div from_secs 1)"
  let ?R = "\<lambda>y. m y \<le> B"
  have B: "m x \<le> B"
    by (simp add: B_def)
  have step: "?R (snd (case ask (Remote peer session c) y of
      (None, x) \<Rightarrow> (Inl ShuttingDown, x)
    | (Some _, x) \<Rightarrow> control_reader L ask rsv peer session ts (Suc n') s' st' x))" if "m y \<le> m x" "Suc n' \<le> 8192" for c y st'
  proof -
    obtain a z where a: "ask (Remote peer session c) y = (a, z)"
      by fastforce
    then have "m z \<le> Suc (m x)"
      using ask [of "Remote peer session c" y] that(1) by simp
    with next_read [OF that(2), of st' z] room that(2) a show ?thesis
      unfolding B_def by (cases a) auto
  qed
  have "?R (snd (control_reader L ask rsv peer session (t # ts) n start st x))"
    apply (cases "stalled st")
     apply (simp add: B)
    apply (simp only: control_reader.simps if_False)
    apply (rule sbind_pure_inv [where P = ?R], rule B)
    apply (clarsimp simp: B w Let_def simp del: fail_if_simps split: option.split)
    apply (rule sbind_pure_inv [where P = ?R], rule B)
    apply (rule sbind_inv [where P = ?R])
     apply (rule le_trans [OF rsv B])
    apply (rule sbind_pure_inv [where P = ?R], assumption)
    apply clarify
    apply (rule sbind_pure_inv [where P = ?R], assumption)
    apply (rule step)
     apply (metis rsv snd_conv)
    apply (simp add: fail_if_eq)
    done
  then show ?case
    by (simp add: B_def)
qed simp

text \<open>The loop that accepts data streams: \<open>joined\<close> counts the tasks that have ended.\<close>

definition joined :: "session_event list \<Rightarrow> nat" where
  "joined es = length (filter (\<lambda>e. e = Joined_Child True) es)"

lemma session_run_limits:
  "sl_active l \<le> mx \<Longrightarrow> session_run mx es l = (why, l') \<Longrightarrow>
     sl_active l' \<le> mx
     \<and> (\<exists>k. sl_generation l' = sl_generation l + of_nat k
          \<and> sl_streams l' = sl_streams l @ map (\<lambda>i. sl_generation l + of_nat i) [1..<Suc k]
          \<and> sl_active l + k \<le> sl_active l' + joined es)"
proof (induction es arbitrary: l)
  case Nil
  then show ?case
    by (auto intro: exI [of _ 0] simp: joined_def)
next
  case (Cons e es)
  show ?case
  proof (cases "session_step mx e l")
    case (Inl a)
    with Cons.prems show ?thesis
      by (auto intro!: exI [of _ 0])
  next
    case (Inr l1)
    then have step: "session_run mx es l1 = (why, l')"
      using Cons.prems by simp
    show ?thesis
    proof (cases e)
      case Accepted_Stream
      then have l1: "sl_active l1 = Suc (sl_active l)" "sl_generation l1 = sl_generation l + 1" "sl_active l1 \<le> mx"
        "sl_streams l1 = sl_streams l @ [sl_generation l + 1]"
        using Inr by (auto simp: session_step_def split: if_splits)
      from Cons.IH [OF l1(3) step] obtain k where k: "sl_active l' \<le> mx" "sl_generation l' = sl_generation l1 + of_nat k"
        "sl_streams l' = sl_streams l1 @ map (\<lambda>i. sl_generation l1 + of_nat i) [1..<Suc k]" "sl_active l1 + k \<le> sl_active l' + joined es"
        by blast
      have "[1..<Suc (Suc k)] = 1 # map Suc [1..<Suc k]"
        by (simp only: map_Suc_upt) (simp add: upt_conv_Cons)
      then have "sl_streams l' = sl_streams l @ map (\<lambda>i. sl_generation l + of_nat i) [1..<Suc (Suc k)]"
        using k(3) l1 by (simp add: algebra_simps)
      with k l1 Accepted_Stream show ?thesis
        by (intro conjI exI [of _ "Suc k"]) (auto simp: joined_def algebra_simps)
    next
      case (Joined_Child ok)
      then have l1: "sl_active l1 = sl_active l - 1" "sl_generation l1 = sl_generation l" "sl_streams l1 = sl_streams l" "ok"
        using Inr by (auto simp: session_step_def split: if_splits)
      then have le: "sl_active l1 \<le> mx"
        using Cons.prems by simp
      from Cons.IH [OF le step] obtain k where "sl_active l' \<le> mx" "sl_generation l' = sl_generation l1 + of_nat k"
        "sl_streams l' = sl_streams l1 @ map (\<lambda>i. sl_generation l1 + of_nat i) [1..<Suc k]" "sl_active l1 + k \<le> sl_active l' + joined es"
        by blast
      with l1 Joined_Child show ?thesis
        by (intro conjI exI [of _ k]) (auto simp: joined_def)
    qed (use Inr in \<open>auto simp: session_step_def\<close>)
  qed
qed

text \<open>A session that has ended is forgotten: \<open>session_of\<close> is the session with a peer.\<close>

definition session_of :: "'e \<Rightarrow> ('e, 'w) owner \<Rightarrow> bytes option" where
  "session_of peer ow = map_option (\<lambda>p. reg_session (p_reg p)) (bm_get peer (o_peers ow))"

lemma has_session_of: "has_session peer session ow \<longleftrightarrow> session_of peer ow = Some session"
  by (auto simp: has_session_def session_of_def split: option.splits)

lemma session_of_update:
  "(\<And>p. reg_session (p_reg (f p)) = reg_session (p_reg p)) \<Longrightarrow> session_of peer (update_peer e f ow) = session_of peer ow"
  by (auto simp: session_of_def update_peer_def bm_get_adjust option.map_comp comp_def)

lemma session_of_frame [simp]:
  "session_of peer (ow\<lparr>o_world := w\<rparr>) = session_of peer ow" "session_of peer (ow\<lparr>o_pending := pd\<rparr>) = session_of peer ow"
  "session_of peer (ow\<lparr>o_stats := st\<rparr>) = session_of peer ow" "session_of peer (release_held ow) = session_of peer ow"
  by (simp_all add: session_of_def)

lemma session_of_schedule: "session_of peer (schedule E tk ow) = session_of peer ow"
proof -
  have "session_of peer (schedule_one E tk k ow) = session_of peer ow" for k ow
    by (simp add: schedule_one_def Let_def set_binding_def session_of_update split: option.split)
  then show ?thesis
    unfolding schedule_def by (intro fold_inv [where P = "\<lambda>ow'. session_of peer ow' = session_of peer ow"]) auto
qed

lemma end_forgets:
  assumes "owner_wf L ow" and "turn E tk (Command (End peer session)) ow = (r, go, ow')"
  shows "\<not> has_session peer session ow'"
proof -
  have "\<not> has_session peer session (cmd_end tk peer session ow)"
    using assms(1) by (auto simp: cmd_end_def has_session_def remove_peer_peers owner_wf_def bm_get_del)
  then show ?thesis
    using assms(2) by (auto simp: turn_def handle_input_def command_def Let_def has_session_of session_of_schedule)
qed

section \<open>Properties\<close>

text \<open>C13. The tasks of a session only take the owner through states that it reaches: whatever bytes a stream brings,
  in whatever pieces and until whatever point, whatever the queues hold and whatever the rest of the endpoint does in
  between, reading DATA, writing DATA, reading control frames, running a session after a handshake and taking an incoming connection
  leave the endpoint in a reachable state, so that all that is shown of the reachable states holds of it.\<close>

theorem session_tasks_reach:
  assumes "external (ev_lib E)" and "fair_others E oth" and "reach E s"
  shows "reach E (fst (snd (read_data (ev_lib E) (owner_ask E tks oth) owner_reserve sid peer session mx None st (s, n))))
    \<and> reach E (fst (snd (control_reader (ev_lib E) (owner_ask E tks oth) owner_reserve peer session ts 0 start st (s, n))))
    \<and> reach E (fst (snd (snd (write_data (ev_lib E) wa stopped (owner_ask E tks oth) peer session opened items out (s, n)))))
    \<and> (\<forall>tasks. (\<forall>h y. reach E (fst y) \<longrightarrow> reach E (fst (tasks h y))) \<longrightarrow>
        reach E (fst (snd (run (owner_ask E tks oth) peer
          (fst (handshake (ev_lib E) wa conn streams True cfg trust cert nonce now1 now2 recv send)) tasks (s, n))))
        \<and> reach E (fst (incoming_connection (ev_lib E) (owner_ask E tks oth) connection request
          (\<lambda>conn. fst (handshake (ev_lib E) wa conn streams False cfg trust cert nonce now1 now2 recv send)) tasks (s, n))))"
proof -
  note channel = owner_channel_reach [OF assms(2), of tks]
  have x: "reach E (fst (s, n))"
    using assms(3) by simp
  have cert: "wf_certificate (ev_lib E) (hs_cert h)"
    if "fst (handshake (ev_lib E) wa conn streams dialing cfg trust cert nonce now1 now2 recv send) = Inr h" for conn dialing h
    using handshake_verified [OF assms(1)] that by (metis prod.collapse)
  show ?thesis
    by (intro conjI allI impI owner_channel.read_data_inv [OF channel x] owner_channel.control_reader_inv [OF channel x]
        owner_channel.write_data_inv [OF channel x] owner_channel.run_inv [OF channel x]
        owner_channel.incoming_inv [OF channel x])
      (blast intro: cert)+
qed

text \<open>C14. Between the writer of a data stream and its reader nothing is lost, changed or reordered: the reader gives the owner exactly the
  messages that the writer took from its queue, in that order, as if there were no bytes in between. The owner's answers (\<open>ask\<close>) are
  arbitrary on both sides.\<close>

theorem data_pipe:
  assumes "external L" and "length session = 16" and "mx \<le> 1024 * 1024"
    and "\<forall>item \<in> set items. wf_message mx (item_message item)"
    and "write_items L pipe stopped ask session items [] x = (Inr (), w, x')"
  shows "read_data L ask' rsv sid peer session mx None \<lparr>st_bytes = w, st_fin = True\<rparr> y
    = deliver_items L ask' rsv sid peer session None (map item_message items) y"
proof -
  have "w = concat (map (message_frame L session) (map item_message items))"
    using write_items_frames [OF assms] by (simp add: comp_def)
  then show ?thesis
    using read_data_frames [OF assms(1-3), of "map item_message items"] assms(4) by auto
qed

text \<open>The same of the control stream, as long as its rate is not exceeded: the writer writes every control frame of its
  channel, and the reader gives the owner the same frames, in the same order.\<close>

theorem control_pipe:
  assumes "external L" and "length session = 16" and "\<forall>c \<in> set cs. wf_control c" and "length cs \<le> 8192"
    and "length cs < length ts"
  shows "\<exists>w. control_writer L pipe session cs [] = (Inr (), w)
    \<and> control_reader L ask rsv peer session ts 0 start \<lparr>st_bytes = w, st_fin = True\<rparr> y
      = forward_controls L ask rsv peer session cs y"
  using control_writer_frames [OF assms(1-3), of "[]"] control_reader_frames [OF assms(1-3,5), of 0] assms(4) by simp

text \<open>C24. A session cannot flood the owner with control frames: whatever bytes arrive, by the time \<open>T\<close> the reader of the session has sent the
  owner at most 8192 commands for every second that has begun since the start of the session. \<open>m\<close> is any count of the
  commands sent to the owner. The limit is one of a session: the reader of the next session of the same peer counts anew.\<close>

theorem control_rate_limited:
  assumes "\<And>c y. m (snd (ask c y)) \<le> Suc (m y)" and "\<And>k y. m (snd (rsv k y)) \<le> m y"
    and "sorted (start # ts)" and "\<forall>t \<in> set ts. t \<le> T" and "start \<le> T"
  shows "m (snd (control_reader L ask rsv peer session ts 0 start st x)) \<le> m x + 8192 * Suc ((T - start) div from_secs 1)"
  using control_reader_rate [where m = m and ask = ask and rsv = rsv and n = 0, OF assms(1,2) _ _ assms(5), of ts L peer session st x] assms(3,4)
  by simp

text \<open>The readers of a session: the loop never counts more than \<open>max_topics\<close> of them, every stream gets the next number, and the
  readers that have not ended are at most two more than that, since the loop takes the end of one of the two
  control tasks (\<open>c\<close> of those that joined) for the end of a reader.\<close>

theorem session_streams_limited:
  assumes "session_run mx es \<lparr>sl_active = 0, sl_generation = 0, sl_streams = []\<rparr> = (why, l)"
    and "joined es = readers + c" and "c \<le> 2"
  shows "sl_active l \<le> mx \<and> length (sl_streams l) \<le> mx + 2 + readers
    \<and> sl_streams l = map of_nat [1..<Suc (length (sl_streams l))]"
  using session_run_limits [OF _ assms(1)] assms(2,3) by fastforce

text \<open>C23. A session that the owner had accepted is gone when its \<open>run\<close> ends, however its tasks ended and
  whatever happened in the meantime: the owner has no session with this identifier for the peer.\<close>

theorem session_forgotten:
  assumes "fair_others E oth" and "reach E s" and "wf_certificate (ev_lib E) (hs_cert h)"
    and "\<And>h y. reach E (fst y) \<Longrightarrow> reach E (fst (tasks h y))"
    and "fst (owner_ask E tks oth (Register peer (new_registration h)) (s, n)) = Some (Reply_Registered (Inr True))"
  shows "\<not> has_session peer (hs_session h) (sy_owner (fst (snd (run (owner_ask E tks oth) peer (Inr h) tasks (s, n)))))"
proof -
  let ?ask = "owner_ask E tks oth"
  obtain y where y: "?ask (Register peer (new_registration h)) (s, n) = (Some (Reply_Registered (Inr True)), y)"
    using assms(5) by (metis prod.collapse)
  have "wf_certificate (ev_lib E) (reg_cert (new_registration h))" "reach E (fst (s, n))"
    using assms(2,3) by (simp_all add: new_registration_def)
  from owner_channel.register_inv [OF owner_channel_reach [OF assms(1)] this(2,1), of tks peer] y have "reach E (fst y)"
    by simp
  then have "reach E (fst (tasks h y))"
    by (rule assms(4))
  obtain s1 k where t: "tasks h y = (s1, k)"
    by fastforce
  have "reach E (oth k s1)"
    using assms(1) \<open>reach E (fst (tasks h y))\<close> by (auto simp: fair_others_def t)
  from end_forgets [OF wf.holds [OF this]]
  have "\<not> has_session peer (hs_session h) (sy_owner (fst (snd (?ask (End peer (hs_session h)) (s1, k)))))"
    by (auto simp: owner_ask_def Let_def split: prod.split)
  then show ?thesis
    by (simp add: run_def start_session_def y t)
qed

section \<open>Witnesses\<close>

abbreviation sample_ask :: "256 word owner_command \<Rightarrow> (256 word, unit) system \<times> nat \<Rightarrow> 256 word reply option \<times> (256 word, unit) system \<times> nat" where
  "sample_ask \<equiv> owner_ask sample_env (\<lambda>_. sample_tick) (\<lambda>_ s. s)"

lemma sample_others: "fair_others E (\<lambda>_ s. s)"
  by (simp add: fair_others_def)

definition sample_session :: "256 word handshake_result" where
  "sample_session =
     \<lparr>hs_recv = \<lparr>st_bytes = [], st_fin = False\<rparr>, hs_hello = \<lparr>he_cert = c_bytes (sample_cert 7), he_nonce = replicate 16 9, he_max_payload = 1024, he_max_topics = 4, he_window_secs = 300\<rparr>,
      hs_cert = sample_cert 7, hs_session = replicate 16 8, hs_dialer = 7, hs_nonce = replicate 16 9\<rparr>"

lemma sample_registration: "new_registration sample_session = sample_reg"
  by (simp add: new_registration_def sample_session_def sample_reg_def)

theorem session_forgotten_witness:
  "\<not> has_session 7 (replicate 16 8) (sy_owner (fst (snd (run sample_ask 7 (Inr sample_session) (\<lambda>_ y. y) (sample_sys sample_1, 0)))))"
proof -
  have "fst (sample_ask (Register 7 (new_registration sample_session)) (sample_sys sample_1, 0)) = Some (Reply_Registered (Inr True))"
    by (simp add: owner_ask_def sample_registration sample_sys_def step_2)
  from session_forgotten [OF sample_others sample_reach(6) _ _ this] show ?thesis
    by (simp add: sample_session_def sample_env_def sample_cert)
qed

theorem session_tasks_reach_witness:
  "reach sample_env (fst (snd (read_data (ev_lib sample_env) sample_ask owner_reserve 1 7 (replicate 16 8) 1024 None
     \<lparr>st_bytes = [0, 1], st_fin = True\<rparr> (sample_sys sample_5, 0))))"
proof -
  have "external (ev_lib sample_env)"
    using sample.external_axioms by (simp add: sample_env_def)
  from conjunct1 [OF session_tasks_reach [OF this sample_others sample_reach(2)]] show ?thesis .
qed

theorem session_streams_limited_witness:
  "sl_active (snd (session_run 1 [Accepted_Stream, Joined_Child True, Accepted_Stream, Accepted_Stream] \<lparr>sl_active = 0, sl_generation = 0, sl_streams = []\<rparr>)) \<le> 1"
  (is "sl_active (snd ?r) \<le> 1")
proof -
  have "joined [Accepted_Stream, Joined_Child True, Accepted_Stream, Accepted_Stream] = 1 + 0"
    by (simp add: joined_def)
  from session_streams_limited [OF prod.collapse [of ?r, symmetric] this] show ?thesis
    by simp
qed

definition sample_item :: "256 word data_out" where
  "sample_item =
     \<lparr>do_key = (5, replicate 16 6, env_id sample_message), do_signed = sample_signed, do_payload = sample_body,
      do_memory = \<lparr>permit_id = 0, permit_budget = 1, permit_n = 0\<rparr>\<rparr>"

lemma sample_item: "wf_message 1024 (item_message sample_item)" "item_message sample_item = (replicate 16 6, sample_signed, [1, 2, 3])"
  using sample_signed(2) by (simp_all add: wf_message_def item_message_def sample_item_def sample_body_def)

theorem data_pipe_witness:
  "\<exists>w x'. write_items sample_lib pipe (\<lambda>_. None) (\<lambda>_ n. (Some Reply_None, Suc n)) (replicate 16 8) [sample_item] [] 0 = (Inr (), w, x')
    \<and> read_data sample_lib sample_ask owner_reserve 1 7 (replicate 16 8) 1024 None \<lparr>st_bytes = w, st_fin = True\<rparr> (sample_sys sample_5, 0)
      = deliver_items sample_lib sample_ask owner_reserve 1 7 (replicate 16 8) None [(replicate 16 6, sample_signed, [1, 2, 3])] (sample_sys sample_5, 0)"
proof -
  let ?m = "item_message sample_item" and ?s = "replicate 16 8 :: bytes"
  have "write_items sample_lib pipe (\<lambda>_. None) (\<lambda>_ n. (Some Reply_None, Suc n)) ?s [sample_item] [] 0
      = (Inr (), message_frame sample_lib ?s ?m, 1)"
    using read_message(1) [OF sample.external_axioms _ sample_item(1), of ?s "[]"]
    by (simp add: send_frame_def) (simp add: item_message_def send_frame_def)
  moreover from data_pipe [OF sample.external_axioms _ _ _ this, of 1024 sample_ask owner_reserve 1 7 "(sample_sys sample_5, 0)"] sample_item
  have "read_data sample_lib sample_ask owner_reserve 1 7 ?s 1024 None \<lparr>st_bytes = message_frame sample_lib ?s ?m, st_fin = True\<rparr> (sample_sys sample_5, 0)
      = deliver_items sample_lib sample_ask owner_reserve 1 7 ?s None [(replicate 16 6, sample_signed, [1, 2, 3])] (sample_sys sample_5, 0)"
    by simp
  ultimately show ?thesis
    by blast
qed

theorem control_pipe_witness:
  "\<exists>w. control_writer sample_lib pipe (replicate 16 8) [Suback jobs (replicate 16 6) 0] [] = (Inr (), w)
    \<and> control_reader sample_lib sample_ask owner_reserve 7 (replicate 16 8) [0, 0] 0 0 \<lparr>st_bytes = w, st_fin = True\<rparr> (sample_sys sample_2, 0)
      = forward_controls sample_lib sample_ask owner_reserve 7 (replicate 16 8) [Suback jobs (replicate 16 6) 0] (sample_sys sample_2, 0)"
  by (rule control_pipe [OF sample.external_axioms])
    (simp_all add: wf_topic_def topic_new_def is_ascii_alphanumeric_def)

text \<open>Two frames are both read; of ten thousand in the same second at most 8192 get through.\<close>

theorem control_rate_limited_witness:
  "snd (control_reader sample_lib (\<lambda>_ n. (Some Reply_None, Suc n)) (\<lambda>k n. (Inr (sample_permit 0 0 k), n)) 7 (replicate 16 8) [0, 1, 2] 0 0
      \<lparr>st_bytes = concat (replicate 2 (control_frame sample_lib (replicate 16 8) (Suback jobs (replicate 16 6) 0))), st_fin = True\<rparr> 0) = 2
   \<and> snd (control_reader sample_lib (\<lambda>_ n. (Some Reply_None, Suc n)) (\<lambda>k n. (Inr (sample_permit 0 0 k), n)) 7 (replicate 16 8)
      (replicate 10001 0) 0 0
      \<lparr>st_bytes = concat (replicate 10000 (control_frame sample_lib (replicate 16 8) (Suback jobs (replicate 16 6) 0))), st_fin = True\<rparr> 0) \<le> 8192"
proof
  let ?c = "Suback jobs (replicate 16 6) 0"
  let ?ask = "\<lambda>_ n. (Some Reply_None, Suc n)" and ?rsv = "\<lambda>k n. (Inr (sample_permit 0 0 k), n)"
  have c: "wf_control ?c"
    by (simp add: wf_topic_def topic_new_def is_ascii_alphanumeric_def)
  have "control_reader sample_lib ?ask ?rsv 7 (replicate 16 8) [0, 1, 2] 0 0
      \<lparr>st_bytes = concat (map (control_frame sample_lib (replicate 16 8)) [?c, ?c]), st_fin = True\<rparr> 0
    = forward_controls sample_lib ?ask ?rsv 7 (replicate 16 8) [?c, ?c] 0"
    by (rule control_reader_frames [OF sample.external_axioms]) (use c in auto)
  moreover have "snd (forward_controls sample_lib ?ask ?rsv 7 session [c, c'] 0) = 2" for session c c'
    by simp
  moreover have "concat (replicate 2 x) = concat (map (\<lambda>_. x) [c, c'])" for x :: bytes and c c' :: control
    by (simp add: numeral_2_eq_2)
  ultimately show "snd (control_reader sample_lib ?ask ?rsv 7 (replicate 16 8) [0, 1, 2] 0 0
      \<lparr>st_bytes = concat (replicate 2 (control_frame sample_lib (replicate 16 8) ?c)), st_fin = True\<rparr> 0) = 2"
    by (simp only: list.map)
next
  have "snd (control_reader sample_lib (\<lambda>_ n. (Some Reply_None, Suc n)) (\<lambda>k n. (Inr (sample_permit 0 0 k), n)) 7 (replicate 16 8)
      (replicate k 0) 0 0 st 0) \<le> 8192" for k st
    using control_rate_limited [of "\<lambda>n. n" "\<lambda>_ n. (Some Reply_None, Suc n)" "\<lambda>k n. (Inr (sample_permit 0 0 k), n)" 0 "replicate k 0" 0
        sample_lib 7 "replicate 16 8" st 0] by simp
  then show "snd (control_reader sample_lib (\<lambda>_ n. (Some Reply_None, Suc n)) (\<lambda>k n. (Inr (sample_permit 0 0 k), n)) 7 (replicate 16 8)
      (replicate 10001 0) 0 0
      \<lparr>st_bytes = concat (replicate 10000 (control_frame sample_lib (replicate 16 8) (Suback jobs (replicate 16 6) 0))), st_fin = True\<rparr> 0) \<le> 8192"
    by this
qed

end
