(* ===== verification/Owner_Limits.thy ===== *)
theory Owner_Limits
  imports Owner_Sample
begin

text \<open>
  The limits of the endpoint owner: no input makes it panic, DATA is received only on credit,
  retries are paced, draining ends at its deadline, and the tables keep their invariant.
\<close>

section \<open>No panic\<close>

lemma verify_cose_size: "verify_cose L bs key context mx = Inr payload \<Longrightarrow> length bs \<le> mx"
  by (auto simp: verify_cose_def parse_cose_def result_simps Let_def)

lemma envelope_verify_size: "envelope_verify L sb peer = Inr e \<Longrightarrow> length sb \<le> 4096"
  by (auto simp: envelope_verify_def result_simps dest: verify_cose_size)

lemma begin_stream_subs: "begin_stream e sub stream topic ow = (r, ow') \<Longrightarrow> o_subs ow' = o_subs ow"
  by (auto simp: begin_stream_def sbind_def fail_if_def split: option.splits sum.splits if_splits prod.splits)

text \<open>Every credit carries the metadata that the largest accepted message needs.\<close>

lemma begin_grant_metadata:
  assumes "owner_wf L ow" "o_subs ow1 = o_subs ow" "begin_grant e sub env ow1 = (Inr g, ow2)"
  shows "permit_n (cg_metadata g) = 6144"
proof -
  from assms(3) obtain s where s: "bm_get (mid_topic (env_id env)) (o_subs ow1) = Some s" "bm_get e (s_grants s) = Some g"
    by (auto simp: begin_grant_def Let_def result_simps)
  then have "sub_wf (o_config ow) (set (bm_keys (o_peers ow))) s"
    using assms(1,2) by (auto simp: owner_wf_def dest: bm_allD)
  with s(2) show ?thesis
    by (auto simp: sub_wf_def dest: bm_allD)
qed

lemma begin_no_panic:
  assumes "owner_wf L ow"
  shows "fst (begin_data E tk e session sub stream sb len ow) \<noteq> Inr None"
proof
  assume "fst (begin_data E tk e session sub stream sb len ow) = Inr None"
  then obtain ow' where "begin_data E tk e session sub stream sb len ow = (Inr None, ow')"
    by (cases "begin_data E tk e session sub stream sb len ow") auto
  then obtain env ow1 ow2 g where 1: "begin_checks E tk e session sb len ow = Inr env"
      "begin_stream e sub stream (mid_topic (env_id env)) ow = (Inr (), ow1)" "begin_grant e sub env ow1 = (Inr g, ow2)"
      "length sb + 2048 > permit_n (cg_metadata g)"
    unfolding begin_data_def Let_def by (auto simp: result_simps split: if_splits)
  then have "length sb \<le> 4096"
    by (auto simp: begin_checks_def Let_def result_simps dest: envelope_verify_size)
  with 1(4) begin_grant_metadata [OF assms begin_stream_subs [OF 1(2)] 1(3)] show False
    by simp
qed

lemma revoke_no_panic:
  assumes "wf_trust (o_trust ow)"
  shows "fst (revoke E tk snapshot ow) \<noteq> Inr False"
proof
  assume "fst (revoke E tk snapshot ow) = Inr False"
  then obtain ow' where "revoke E tk snapshot ow = (Inr False, ow')"
    by (cases "revoke E tk snapshot ow") auto
  then obtain memory ow1 now trust where 1: "o_reserve (o_metadata ow) (4096 * 96) ow = Inr (memory, ow1)"
      "apply_revocations (ev_lib E) (o_trust ow1) snapshot now = Inr trust"
      "(revoked_count trust - revoked_count (o_trust ow1)) * 96 > permit_n memory"
    unfolding revoke_def Let_def by (auto simp: result_simps split: if_splits)
  then have "revoked_count trust \<le> 4096" "permit_n memory = 4096 * 96"
    using apply_revocations_Inr [OF 1(2)] o_reserve_Inr [OF 1(1)] by (auto simp: revoked_count_def)
  with 1(3) show False
    by auto
qed

text \<open>C29. The owner never panics: in every reachable state, whatever input arrives, the turn of the main loop
  does not run into the assertion of \<open>shrink_to\<close>, neither when a DATA frame takes its credit nor when a revocation
  snapshot is merged.\<close>

theorem owner_never_panics:
  assumes "reach E s"
  shows "fst (turn E tk i (sy_owner s)) \<noteq> Reply_Panic"
proof -
  note wf = wf.holds [OF assms]
  have c: "fst (command E tk c (sy_owner s)) \<noteq> Reply_Panic" for c
  proof (cases c)
    case (Begin e session sub stream sb len)
    with begin_no_panic [OF wf, of E tk e session sub stream sb len] show ?thesis
      by (auto simp: command_def split: prod.splits sum.splits option.splits)
  next
    case (Revoke snapshot)
    with revoke_no_panic [OF owner_wfD(7) [OF wf], of E tk snapshot] show ?thesis
      by (auto simp: command_def cmd_revoke_def split: prod.splits sum.splits bool.splits)
  qed (simp_all add: command_def cmd_connect_def cmd_shutdown_def split: sum.split option.split)
  then have "fst (handle_input E tk i (sy_owner s)) \<noteq> Reply_Panic"
    by (cases i) (auto simp: handle_input_def split: prod.splits, metis fst_conv)
  then show ?thesis
    by (auto simp: turn_def Let_def split: prod.splits bool.splits)
qed

theorem owner_never_panics_witness:
  "fst (turn sample_env sample_tick (Command (Begin 7 (replicate 16 8) (replicate 16 6) 1 sample_signed 3)) sample_5) \<noteq> Reply_Panic"
  using owner_never_panics [OF sample_reach(2)] by (simp add: sample_sys_def)

section \<open>Credit\<close>

text \<open>C28. No DATA without credit: in every reachable state, when \<open>begin\<close> accepts a DATA frame, the receiver has the
  subscription that the frame names, the peer confirmed it, an unused credit of that peer covers the whole
  frame, the ticket takes over the memory of that credit, and the credit is used up; the
  message fits the limits of the configuration and is signed by the peer.\<close>

theorem data_needs_credit:
  assumes "reach E s" "begin_data E tk e session sub stream sb len (sy_owner s) = (Inr (Some t), ow)"
  shows "\<exists>p l g. bm_get e (o_peers (sy_owner s)) = Some p \<and> reg_session (p_reg p) = session
    \<and> bm_get (mid_topic (env_id (rt_envelope t))) (o_subs (sy_owner s)) = Some l
    \<and> s_id l = sub \<and> s_mode l = env_mode (rt_envelope t) \<and> e \<in> s_confirmed l
    \<and> bm_get e (s_grants l) = Some g
    \<and> len + length (data_frame (codec (ev_lib E)) session sub sb) + 12 \<le> cg_bytes g
    \<and> cg_bytes g \<le> cf_max_payload (o_config (sy_owner s)) + MAX_METADATA + 12
    \<and> rt_permits t = cg_permits g \<and> permit_id (rt_metadata t) = permit_id (cg_metadata g)
    \<and> bm_get (mid_topic (env_id (rt_envelope t))) (o_subs ow) = Some (l\<lparr>s_grants := bm_del e (s_grants l)\<rparr>)
    \<and> len = env_len (rt_envelope t) \<and> len \<le> cf_max_payload (o_config (sy_owner s))
    \<and> envelope_verify (ev_lib E) sb e = Inr (rt_envelope t)"
proof -
  let ?ow = "sy_owner s"
  from assms(2) obtain env ow1 ow2 g where 1: "begin_checks E tk e session sb len ?ow = Inr env"
      "begin_stream e sub stream (mid_topic (env_id env)) ?ow = (Inr (), ow1)" "begin_grant e sub env ow1 = (Inr g, ow2)"
      "len + length (data_frame (codec (ev_lib E)) session sub sb) + 12 \<le> cg_bytes g"
    and t: "rt_envelope t = env" "rt_permits t = cg_permits g" "permit_id (rt_metadata t) = permit_id (cg_metadata g)"
    and ow: "o_subs ow = o_subs ow2"
    unfolding begin_data_def Let_def by (auto simp: result_simps not_less split: if_splits)
  note subs = begin_stream_subs [OF 1(2)]
  from 1(3) obtain l where l: "bm_get (mid_topic (env_id env)) (o_subs ?ow) = Some l" "s_id l = sub" "s_mode l = env_mode env"
      "e \<in> s_confirmed l" "bm_get e (s_grants l) = Some g"
      "ow2 = update_sub (mid_topic (env_id env)) (\<lambda>s. s\<lparr>s_grants := bm_del e (s_grants s)\<rparr>) ow1"
    by (auto simp: begin_grant_def Let_def result_simps subs)
  have "sub_wf (o_config ?ow) (set (bm_keys (o_peers ?ow))) l"
    using wf.holds [OF assms(1)] l(1) by (auto simp: owner_wf_def dest: bm_allD)
  then have "cg_bytes g \<le> cf_max_payload (o_config ?ow) + MAX_METADATA + 12"
    using l(5) by (auto simp: sub_wf_def dest: bm_allD)
  moreover have "bm_get (mid_topic (env_id env)) (o_subs ow) = Some (l\<lparr>s_grants := bm_del e (s_grants l)\<rparr>)"
    using l(1) by (simp add: ow l(6) update_sub_def bm_get_adjust subs)
  moreover obtain p where "bm_get e (o_peers ?ow) = Some p" "reg_session (p_reg p) = session" "len = env_len env"
      "len \<le> cf_max_payload (o_config ?ow)" "envelope_verify (ev_lib E) sb e = Inr env"
    using 1(1) by (auto simp: begin_checks_def peer_valid_def Let_def result_simps)
  ultimately show ?thesis
    using 1(4) l(1-5) t by auto
qed

theorem data_needs_credit_witness:
  "\<exists>g. bm_get 7 (s_grants (sample_sub [] {7} [(7, Inr ())] [(7, sample_credit)] [])) = Some g
     \<and> 3 + length (data_frame rfc8949 (replicate 16 8) (replicate 16 6) sample_signed) + 12 \<le> cg_bytes g
     \<and> rt_permits sample_ticket = cg_permits g"
proof -
  obtain r ow where b: "begin_data sample_env sample_tick 7 (replicate 16 8) (replicate 16 6) 1 sample_signed 3 sample_5 = (r, ow)"
    by (metis surj_pair)
  then have "r = Inr (Some sample_ticket)"
    using step_6 by (auto simp: turn_def handle_input_def command_def Let_def split: sum.splits option.splits)
  moreover have "bm_get (mid_topic (env_id (rt_envelope sample_ticket))) (o_subs sample_5) =
      Some (sample_sub [] {7} [(7, Inr ())] [(7, sample_credit)] [])"
    by (simp add: sample_ticket_def sample_message_def sample_5_def bm_get_def)
  moreover have "codec (ev_lib sample_env) = rfc8949"
    by (simp add: sample_env_def sample_lib_def)
  ultimately show ?thesis
    using data_needs_credit [OF sample_reach(2), of sample_tick 7 "replicate 16 8" "replicate 16 6" 1 sample_signed 3 sample_ticket ow] b
    by (auto simp: sample_sys_def)
qed

section \<open>Pacing\<close>

lemma backoff_bounds: "interval \<le> backoff interval n" "backoff interval n \<le> 32 * interval"
proof -
  have "(2::nat) ^ min (n - 1) 5 \<le> 2 ^ 5"
    by (rule power_increasing) auto
  then show "backoff interval n \<le> 32 * interval"
    by (simp add: backoff_def mult.commute)
qed (simp add: backoff_def)

text \<open>A delivery as it was, or just given to its writer.\<close>

definition paced :: "config \<Rightarrow> 'e tick \<Rightarrow> 'e key \<Rightarrow> 'e pending \<Rightarrow> 'e pending \<Rightarrow> bool" where
  "paced cfg tk k p p' \<longleftrightarrow>
     p' = p
     \<or> (\<not> pd_writing p \<and> pd_next p \<le> tk_instant tk \<and> tk_instant tk < pd_deadline p
        \<and> (\<forall>now. tk_now tk = Inr now \<longrightarrow> now < env_expires (pd_envelope p))
        \<and> (\<exists>n. p' = p\<lparr>pd_writing := True, pd_attempts := saturating_incr (pd_attempts p), pd_next := n\<rparr>
             \<and> tk_instant tk + retry_interval cfg \<le> n
             \<and> n \<le> tk_instant tk + 32 * retry_interval cfg + tk_jitter tk k))"

definition paced_all :: "('e, 'w) owner \<Rightarrow> 'e tick \<Rightarrow> ('e, 'w) owner \<Rightarrow> bool" where
  "paced_all ow tk ow' \<longleftrightarrow>
     o_config ow' = o_config ow
     \<and> (\<forall>k. rel_option (paced (o_config ow) tk k) (bm_get k (o_pending ow)) (bm_get k (o_pending ow')))"

lemma schedule_one_pending:
  "bm_get j (o_pending (schedule_one E tk k ow)) = bm_get j (o_pending ow)
   \<or> (j = k \<and> (\<exists>p n. bm_get k (o_pending ow) = Some p \<and> \<not> pd_writing p \<and> pd_next p \<le> tk_instant tk \<and> tk_instant tk < pd_deadline p
        \<and> (\<forall>now. tk_now tk = Inr now \<longrightarrow> now < env_expires (pd_envelope p))
        \<and> n = tk_instant tk + backoff (retry_interval (o_config ow)) (saturating_incr (pd_attempts p)) + tk_jitter tk k
        \<and> bm_get k (o_pending (schedule_one E tk k ow)) =
            Some (p\<lparr>pd_writing := True, pd_attempts := saturating_incr (pd_attempts p), pd_next := n\<rparr>)))"
  by (auto simp: schedule_one_def Let_def bm_get_adjust not_le not_less split: option.splits sum.splits)


lemma paced_schedule_one:
  assumes "paced_all ow tk x"
  shows "paced_all ow tk (schedule_one E tk k x)"
  unfolding paced_all_def
proof (intro conjI allI)
  show "o_config (schedule_one E tk k x) = o_config ow"
    using assms by (simp add: paced_all_def)
  fix j
  have j: "rel_option (paced (o_config ow) tk j) (bm_get j (o_pending ow)) (bm_get j (o_pending x))"
    and cfg: "o_config x = o_config ow"
    using assms unfolding paced_all_def by blast+
  from schedule_one_pending [of j E tk k x]
  show "rel_option (paced (o_config ow) tk j) (bm_get j (o_pending ow)) (bm_get j (o_pending (schedule_one E tk k x)))"
  proof (elim disjE conjE exE)
    fix p n
    assume "j = k" and p: "bm_get k (o_pending x) = Some p" "\<not> pd_writing p" "pd_next p \<le> tk_instant tk" "tk_instant tk < pd_deadline p"
        "\<forall>now. tk_now tk = Inr now \<longrightarrow> now < env_expires (pd_envelope p)"
      and n: "n = tk_instant tk + backoff (retry_interval (o_config x)) (saturating_incr (pd_attempts p)) + tk_jitter tk k"
      and p': "bm_get k (o_pending (schedule_one E tk k x)) =
        Some (p\<lparr>pd_writing := True, pd_attempts := saturating_incr (pd_attempts p), pd_next := n\<rparr>)"
    with j obtain q where q: "bm_get k (o_pending ow) = Some q" "paced (o_config ow) tk k q p"
      by (auto simp: rel_option_iff split: option.splits)
    with p(2) have "q = p"
      by (auto simp: paced_def)
    with p n q(1) p' \<open>j = k\<close> show ?thesis
      using backoff_bounds [of "retry_interval (o_config ow)" "saturating_incr (pd_attempts p)"] by (auto simp: paced_def cfg)
  qed (use j in simp)
qed

text \<open>Retries are paced: scheduling adds and removes no pending delivery, and gives one to its writer only if it is not being
  written, due, before its deadline and not expired; it then counts the attempt and makes it due again no
  earlier than the retry interval from now and no later than thirty-two intervals and the jitter.\<close>

theorem schedule_paced:
  "rel_option (paced (o_config ow) tk k) (bm_get k (o_pending ow)) (bm_get k (o_pending (schedule E tk ow)))"
proof -
  have "paced_all ow tk ow"
    by (auto simp: paced_all_def paced_def intro!: option.rel_refl)
  then have "paced_all ow tk (schedule E tk ow)"
    unfolding schedule_def by (intro fold_inv [where P = "paced_all ow tk"] paced_schedule_one)
  then show ?thesis
    unfolding paced_all_def by blast
qed

section \<open>Draining\<close>

lemma drain_control:
  "o_drain (snd (owner_control E tk e c ow)) = o_drain ow"
  by (auto simp: owner_control_def control_subscribe_def control_suback_def control_unsubscribe_def control_request_credit_def control_credit_def
      control_outcome_def control_goodbye_def Let_def sbind_def fail_if_def fold_same tryop_def dest!: o_reserve_Inr
      split: control.split option.split sum.split prod.split)


lemma drain_spawn: "spawn_task ow = Some ow' \<Longrightarrow> o_drain ow' = o_drain ow"
  by (auto simp: spawn_task_def dest!: o_reserve_Inr split: if_splits sum.splits)

lemma drain_begin: "o_drain (snd (begin_data E tk e session sub stream sb len ow)) = o_drain ow"
  by (auto simp: begin_data_def begin_stream_def begin_grant_def Let_def sbind_def fail_if_def split: sum.split prod.split option.split)

lemma drain_incoming: "o_drain (snd (incoming E tk e session sub t payload ow)) = o_drain ow"
  by (auto simp: incoming_def deliver_def Let_def sbind_def fail_if_def split: sum.split prod.split option.split dedup_state.split)

lemma drain_maintenance [simp]: "o_drain (maintenance E tk ow) = o_drain ow"
  by (simp add: maintenance_def Let_def)

lemma drain_deny: "o_drain (snd (deny cid ow)) = o_drain ow"
  by (auto simp: deny_def Let_def sbind_def tryop_def dest!: o_reserve_Inr split: sum.split prod.split)

lemma drain_revoke: "o_drain (snd (revoke E tk snapshot ow)) = o_drain ow"
  by (auto simp: revoke_def Let_def sbind_def tryop_def dest!: o_reserve_Inr split: sum.split prod.split)

text \<open>Once the owner drains, every command leaves it draining until the same deadline.\<close>

lemma drain_command:
  assumes "o_drain ow = Some d"
  shows "o_drain (snd (command E tk c ow)) = Some d"
proof -
  have sbind_drain: "snd (sbind (local_valid tk ow, ow) (\<lambda>now ow. sbind (fail_if (o_drain ow \<noteq> None) ShuttingDown, ow) f)) = ow" for f
    using assms by (cases "local_valid tk ow") auto
  note refuse = subscribe_def publish_def register_def
  show ?thesis
  proof (cases c)
    case (Remote e session ctl)
    have "o_drain (snd (sbind (peer_valid tk e session ow, ow) (\<lambda>_. owner_control E tk e ctl))) = Some d"
      using assms by (auto simp: sbind_def drain_control split: sum.split)
    then show ?thesis
      using assms by (auto simp: Remote command_def cmd_remote_def split: prod.split sum.split)
  next
    case (Begin e session sub stream sb len)
    with assms drain_begin [of E tk e session sub stream sb len ow] show ?thesis
      by (auto simp: command_def split: prod.split sum.split option.split)
  next
    case (Incoming e session sub t payload)
    with assms drain_incoming [of E tk e session sub t payload ow] show ?thesis
      by (auto simp: command_def cmd_incoming_def split: prod.split sum.split)
  next
    case (Deny cid)
    with assms drain_deny [of cid ow] show ?thesis
      by (auto simp: command_def cmd_deny_def split: prod.split)
  next
    case (Revoke snapshot)
    with assms drain_revoke [of E tk snapshot ow] show ?thesis
      by (auto simp: command_def cmd_revoke_def split: prod.split sum.split bool.split)
  qed (use assms in \<open>auto simp: command_def sbind_drain refuse cmd_issue_code_def cmd_revoke_code_def cmd_enroll_def not_draining_def
      cmd_connect_def cmd_sent_def cmd_end_def cmd_renew_def cmd_cancel_def cmd_shutdown_def Let_def sbind_def fail_if_def fold_same
      dest: drain_spawn split: prod.split sum.split option.split\<close>)
qed

text \<open>C30. Shutting down ends: once the owner drains, every turn of the main loop keeps the deadline, and the loop goes on after a turn exactly
  while a delivery is pending and the deadline has not come; so the first turn at or after the
  deadline is the last one.\<close>

theorem draining_ends:
  assumes "o_drain ow = Some d" "i \<noteq> Accept" "turn E tk i ow = (r, go, ow')"
  shows "o_drain ow' = Some d \<and> (go \<longleftrightarrow> o_pending ow' \<noteq> [] \<and> tk_instant tk < d)"
proof -
  have c: "command E tk c ow = (r, x) \<Longrightarrow> o_drain x = Some d" for c r x
    using drain_command [OF assms(1), of E tk c] by simp
  obtain ow1 where h: "handle_input E tk i ow = (r, False, ow1)" "o_drain ow1 = Some d" "ow' = schedule E tk (release_held ow1)"
      "go \<longleftrightarrow> \<not> drained tk ow'"
    using assms by (cases i) (auto simp: turn_def handle_input_def Let_def dest: c split: prod.splits bool.splits)
  then show ?thesis
    by (auto simp: drained_def not_le)
qed

theorem draining_ends_witness:
  "fst (snd (turn sample_env sample_tick Maintain (sample_published\<lparr>o_drain := Some 0\<rparr>))) = False"
  using draining_ends [of "sample_published\<lparr>o_drain := Some 0\<rparr>" 0 Maintain sample_env sample_tick]
  by (cases "turn sample_env sample_tick Maintain (sample_published\<lparr>o_drain := Some 0\<rparr>)") auto

section \<open>The tables\<close>

text \<open>C17. The tables of the owner keep their invariant: in every reachable state they are maps within the
  limits of a valid configuration, every session belongs to a peer with a certificate of the realm that names it and that the root signed, queues are
  within their capacity, and every confirmation, demand and credit of a subscription belongs to a connected peer.\<close>

theorem owner_tables: "reach E s \<Longrightarrow> owner_wf (ev_lib E) (sy_owner s)"
  by (rule wf.holds)

theorem owner_tables_witness: "owner_wf sample_lib sample_published \<and> length (o_peers sample_published) = 1"
  using owner_tables [OF sample_publish_reach(2)] by (simp add: sample_sys_def sample_env_def) (simp add: sample_published_def)

end
