(* ===== verification/Filesystem.thy ===== *)
theory Filesystem
  imports Prelude
begin

unbundle bit_operations_syntax

text \<open>
  The operations of \<^verbatim>\<open>std::fs\<close> that \<^verbatim>\<open>src/src/identity.rs\<close> and \<^verbatim>\<open>src/src/join.rs\<close> use, on a
  POSIX file system: inodes with permissions, directories that name inodes, symbolic links that a
  path follows, hard links. Every call takes the next entry of a list of faults: it works, or it
  fails with an error number, or the machine halts in the middle of it, after which no call does anything.
  An inode remembers what it was since it was last synchronized; \<open>crash_image\<close> says which inodes the
  disk may hold after a power failure: any state since the last \<open>fsync\<close> of the inode, and any
  contents at all of a file whose data was not synchronized. The user that runs the endpoint owns the files and has no
  privileges, so that the rights of the owner in the mode decide what it may open, search and change. No other process
  changes the files.
\<close>

type_synonym path = "string list"

datatype body =
    Regular bytes
  | Directory "(string, nat) bmap"
  | Symlink "nat option" path \<comment> \<open>where an absolute target starts\<close>
  | Device

record inode =
  i_mode :: u32
  i_body :: body
  i_dirty :: bool
  i_past :: "(u32 \<times> body) list"

type_synonym table = "(nat, inode) bmap"

datatype errno = ENOENT | EEXIST | ENOTDIR | EISDIR | ELOOP | EACCES | EIO

datatype fault = Works | Fails errno nat | Halts nat

record fs =
  fs_table :: table
  fs_umask :: u32
  fs_faults :: "fault list"
  fs_up :: bool

definition ebind :: "'x + 'a \<Rightarrow> ('a \<Rightarrow> 'x + 'b) \<Rightarrow> 'x + 'b" where
  "ebind r f = (case r of Inl e \<Rightarrow> Inl e | Inr x \<Rightarrow> f x)"

lemma ebind_simps [simp]: "ebind (Inl e) f = Inl e" "ebind (Inr x) f = f x"
  by (simp_all add: ebind_def)

lemma ebind_eq [result_simps]: "ebind r f = Inr y \<longleftrightarrow> (\<exists>x. r = Inr x \<and> f x = Inr y)"
  by (cases r) auto

section \<open>Paths\<close>

definition entries :: "table \<Rightarrow> nat \<Rightarrow> (string, nat) bmap option" where
  "entries t d =
     (case bm_get d t of
        None \<Rightarrow> None
      | Some nd \<Rightarrow> (case i_body nd of Directory es \<Rightarrow> Some es | _ \<Rightarrow> None))"

definition link_at :: "table \<Rightarrow> nat \<Rightarrow> (nat option \<times> path) option" where
  "link_at t i =
     (case bm_get i t of
        None \<Rightarrow> None
      | Some nd \<Rightarrow> (case i_body nd of Symlink s q \<Rightarrow> Some (s, q) | _ \<Rightarrow> None))"

text \<open>The rights that the mode gives to the owner: to read (\<open>0o400\<close>), to write (\<open>0o200\<close>), to search a directory (\<open>0o100\<close>).\<close>

definition permits :: "u32 \<Rightarrow> table \<Rightarrow> nat \<Rightarrow> bool" where
  "permits right t i = (case bm_get i t of None \<Rightarrow> True | Some nd \<Rightarrow> i_mode nd AND right \<noteq> 0)"

definition search :: "table \<Rightarrow> nat \<Rightarrow> errno + (string, nat) bmap" where
  "search t d =
     (case entries t d of
        None \<Rightarrow> Inl ENOTDIR
      | Some es \<Rightarrow> if permits 0x40 t d then Inr es else Inl EACCES)"

text \<open>Following a path from a directory; \<open>k\<close> symbolic links at most.\<close>

fun walk :: "nat \<Rightarrow> table \<Rightarrow> nat \<Rightarrow> path \<Rightarrow> errno + nat" where
  "walk k t i [] = Inr i"
| "walk k t i (n # ns) =
     (case search t i of
        Inl e \<Rightarrow> Inl e
      | Inr es \<Rightarrow>
          (case bm_get n es of
             None \<Rightarrow> Inl ENOENT
           | Some j \<Rightarrow>
               (case link_at t j of
                  None \<Rightarrow> walk k t j ns
                | Some (s, q) \<Rightarrow>
                    (case k of
                       0 \<Rightarrow> Inl ELOOP
                     | Suc k \<Rightarrow> walk k t (case s of None \<Rightarrow> i | Some r \<Rightarrow> r) (q @ ns)))))"

text \<open>A path starts at inode 0 (the root, or the working directory of a relative path). Linux follows 40 links.\<close>

definition resolve :: "table \<Rightarrow> path \<Rightarrow> errno + nat" where
  "resolve t p = walk 40 t 0 p"

text \<open>The directory a name is in, and the inode there without following a link.\<close>

definition locate :: "table \<Rightarrow> path \<Rightarrow> errno + (nat \<times> (string, nat) bmap \<times> string)" where
  "locate t p =
     ebind (resolve t (butlast p)) (\<lambda>d. ebind (search t d) (\<lambda>es. Inr (d, es, last p)))"

definition lresolve :: "table \<Rightarrow> path \<Rightarrow> errno + nat" where
  "lresolve t p =
     (if p = [] then Inr 0
      else ebind (locate t p) (\<lambda>(d, es, n). case bm_get n es of None \<Rightarrow> Inl ENOENT | Some i \<Rightarrow> Inr i))"

section \<open>Metadata\<close>

text \<open>The directory entries that name an inode.\<close>

definition links :: "table \<Rightarrow> nat \<Rightarrow> (nat \<times> string) list" where
  "links t i =
     concat (map (\<lambda>d. case entries t d of
         None \<Rightarrow> []
       | Some es \<Rightarrow> map (Pair d) (filter (\<lambda>n. bm_get n es = Some i) (remdups (bm_keys es))))
       (remdups (bm_keys t)))"

datatype file_type = IsFile | IsDir | IsSymlink | IsOther

record metadata =
  md_type :: file_type
  md_mode :: u32
  md_nlink :: nat

definition metadata_of :: "table \<Rightarrow> nat \<Rightarrow> errno + metadata" where
  "metadata_of t i =
     (case bm_get i t of
        None \<Rightarrow> Inl ENOENT
      | Some nd \<Rightarrow> Inr
          \<lparr>md_type = (case i_body nd of Regular _ \<Rightarrow> IsFile | Directory _ \<Rightarrow> IsDir | Symlink _ _ \<Rightarrow> IsSymlink | Device \<Rightarrow> IsOther),
           md_mode = i_mode nd,
           md_nlink = length (links t i)\<rparr>)"

section \<open>Changes\<close>

text \<open>A change of an inode keeps what it was among the states the disk may hold.\<close>

definition change :: "nat \<Rightarrow> (inode \<Rightarrow> inode) \<Rightarrow> table \<Rightarrow> table" where
  "change i f = bm_adjust i (\<lambda>nd. (f nd)\<lparr>i_past := (i_mode nd, i_body nd) # i_past nd\<rparr>)"

definition set_entries :: "nat \<Rightarrow> (string, nat) bmap \<Rightarrow> table \<Rightarrow> table" where
  "set_entries d es = change d (\<lambda>nd. nd\<lparr>i_body := Directory es\<rparr>)"

definition body_targets :: "body \<Rightarrow> nat list" where
  "body_targets b = (case b of Directory es \<Rightarrow> bm_vals es | _ \<Rightarrow> [])"

definition numbers :: "table \<Rightarrow> nat list" where
  "numbers t =
     bm_keys t @ concat (map (\<lambda>nd. body_targets (i_body nd) @ concat (map (body_targets \<circ> snd) (i_past nd))) (bm_vals t))"

definition fresh_inode :: "table \<Rightarrow> nat" where
  "fresh_inode t = Suc (foldr max (numbers t) 0)"

text \<open>A new entry for a new inode.\<close>

definition make_node :: "inode \<Rightarrow> path \<Rightarrow> table \<Rightarrow> errno + (nat \<times> table)" where
  "make_node nd p t =
     (if p = [] then Inl EEXIST
      else ebind (locate t p) (\<lambda>(d, es, n).
        if bm_has n es then Inl EEXIST
        else if \<not> permits 0x80 t d then Inl EACCES
        else (let i = fresh_inode t in Inr (i, set_entries d (bm_put n i es) (bm_put i nd t)))))"

text \<open>Renaming a file, atomically; a file at the target is replaced.\<close>

definition rename_node :: "path \<Rightarrow> path \<Rightarrow> table \<Rightarrow> errno + (unit \<times> table)" where
  "rename_node p q t =
     ebind (locate t p) (\<lambda>(d, es, n).
     ebind (locate t q) (\<lambda>(d', es', n').
     case bm_get n es of
       None \<Rightarrow> Inl ENOENT
     | Some i \<Rightarrow>
         if bm_get n' es' = Some i then Inr ((), t)
         else if \<not> permits 0x80 t d \<or> \<not> permits 0x80 t d' then Inl EACCES
         else if bm_has n' es' \<and> entries t (the (bm_get n' es')) \<noteq> None then Inl EISDIR
         else if d = d' then Inr ((), set_entries d (bm_put n' i (bm_del n es)) t)
         else Inr ((), set_entries d' (bm_put n' i es') (set_entries d (bm_del n es) t))))"

definition unlink_node :: "path \<Rightarrow> table \<Rightarrow> errno + (unit \<times> table)" where
  "unlink_node p t =
     ebind (locate t p) (\<lambda>(d, es, n).
     case bm_get n es of
       None \<Rightarrow> Inl ENOENT
     | Some i \<Rightarrow>
         if \<not> permits 0x80 t d then Inl EACCES
         else if entries t i \<noteq> None then Inl EISDIR
         else Inr ((), set_entries d (bm_del n es) t))"

definition append_node :: "nat \<Rightarrow> bytes \<Rightarrow> table \<Rightarrow> table" where
  "append_node i b =
     change i (\<lambda>nd. nd\<lparr>i_body := (case i_body nd of Regular c \<Rightarrow> Regular (c @ b) | x \<Rightarrow> x), i_dirty := True\<rparr>)"

definition sync_node :: "nat \<Rightarrow> table \<Rightarrow> table" where
  "sync_node i = bm_adjust i (\<lambda>nd. nd\<lparr>i_dirty := False, i_past := []\<rparr>)"

section \<open>Calls\<close>

text \<open>The next fault; \<open>partial\<close> is what a call that fails or is cut off may have done.\<close>

definition call :: "(nat \<Rightarrow> table \<Rightarrow> table) \<Rightarrow> (table \<Rightarrow> errno + ('a \<times> table)) \<Rightarrow> fs \<Rightarrow> (errno + 'a) \<times> fs" where
  "call partial f w =
     (if \<not> fs_up w then (Inl EIO, w)
      else case fs_faults w of
        Fails e n # fs \<Rightarrow> (Inl e, w\<lparr>fs_table := partial n (fs_table w), fs_faults := fs\<rparr>)
      | Halts n # fs \<Rightarrow> (Inl EIO, w\<lparr>fs_table := partial n (fs_table w), fs_faults := fs, fs_up := False\<rparr>)
      | fs \<Rightarrow>
          (case f (fs_table w) of
             Inl e \<Rightarrow> (Inl e, w\<lparr>fs_faults := tl fs\<rparr>)
           | Inr (x, t) \<Rightarrow> (Inr x, w\<lparr>fs_table := t, fs_faults := tl fs\<rparr>)))"

definition look :: "(table \<Rightarrow> errno + 'a) \<Rightarrow> fs \<Rightarrow> (errno + 'a) \<times> fs" where
  "look f = call (\<lambda>_ t. t) (\<lambda>t. ebind (f t) (\<lambda>x. Inr (x, t)))"

definition symlink_metadata :: "path \<Rightarrow> fs \<Rightarrow> (errno + metadata) \<times> fs" where
  "symlink_metadata p = look (\<lambda>t. ebind (lresolve t p) (metadata_of t))"

definition stat :: "path \<Rightarrow> fs \<Rightarrow> (errno + metadata) \<times> fs" where
  "stat p = look (\<lambda>t. ebind (resolve t p) (metadata_of t))"

text \<open>\<open>Path::exists\<close> and \<open>Path::is_dir\<close> answer no when the call fails.\<close>

definition path_exists :: "path \<Rightarrow> fs \<Rightarrow> bool \<times> fs" where
  "path_exists p w = (case stat p w of (Inl _, w) \<Rightarrow> (False, w) | (Inr _, w) \<Rightarrow> (True, w))"

definition path_is_dir :: "path \<Rightarrow> fs \<Rightarrow> bool \<times> fs" where
  "path_is_dir p w = (case stat p w of (Inl _, w) \<Rightarrow> (False, w) | (Inr m, w) \<Rightarrow> (md_type m = IsDir, w))"

text \<open>Permissions are \<open>0o777\<close> less the bits of the mask.\<close>

definition mkdir :: "path \<Rightarrow> fs \<Rightarrow> (errno + unit) \<times> fs" where
  "mkdir p w =
     call (\<lambda>_ t. t) (\<lambda>t.
       ebind (make_node \<lparr>i_mode = 0x1FF AND NOT (fs_umask w), i_body = Directory [], i_dirty = False, i_past = []\<rparr> p t)
         (\<lambda>(_, t). Inr ((), t))) w"

text \<open>\<open>create_dir_all\<close>: the directory, and on \<open>NotFound\<close> its ancestors first; given with the last name first.\<close>

definition mkdir_or_dir :: "path \<Rightarrow> fs \<Rightarrow> (errno + unit) \<times> fs" where
  "mkdir_or_dir p w =
     (case mkdir p w of
        (Inl e, w) \<Rightarrow> (case path_is_dir p w of (True, w) \<Rightarrow> (Inr (), w) | (False, w) \<Rightarrow> (Inl e, w))
      | (Inr _, w) \<Rightarrow> (Inr (), w))"

fun create_dirs :: "string list \<Rightarrow> fs \<Rightarrow> (errno + unit) \<times> fs" where
  "create_dirs [] w = mkdir_or_dir [] w"
| "create_dirs (n # ns) w =
     (case mkdir (rev (n # ns)) w of
        (Inr _, w) \<Rightarrow> (Inr (), w)
      | (Inl e, w) \<Rightarrow>
          if e = ENOENT then
            (case create_dirs ns w of
               (Inl e, w) \<Rightarrow> (Inl e, w)
             | (Inr _, w) \<Rightarrow> mkdir_or_dir (rev (n # ns)) w)
          else (case path_is_dir (rev (n # ns)) w of (True, w) \<Rightarrow> (Inr (), w) | (False, w) \<Rightarrow> (Inl e, w)))"

definition create_dir_all :: "path \<Rightarrow> fs \<Rightarrow> (errno + unit) \<times> fs" where
  "create_dir_all p = create_dirs (rev p)"

definition set_permissions :: "path \<Rightarrow> u32 \<Rightarrow> fs \<Rightarrow> (errno + unit) \<times> fs" where
  "set_permissions p m =
     call (\<lambda>_ t. t) (\<lambda>t. ebind (resolve t p) (\<lambda>i. Inr ((), change i (\<lambda>nd. nd\<lparr>i_mode := m\<rparr>) t)))"

text \<open>\<open>OpenOptions\<close>: a new file (\<open>create_new\<close>, \<open>mode\<close>); an existing one to read, and one with \<open>O_NOFOLLOW\<close>, which need the right to read.\<close>

definition open_new :: "path \<Rightarrow> u32 \<Rightarrow> fs \<Rightarrow> (errno + nat) \<times> fs" where
  "open_new p m w =
     call (\<lambda>_ t. t)
       (make_node \<lparr>i_mode = m AND NOT (fs_umask w), i_body = Regular [], i_dirty = True, i_past = []\<rparr> p) w"

definition open_existing :: "path \<Rightarrow> fs \<Rightarrow> (errno + nat) \<times> fs" where
  "open_existing p = look (\<lambda>t. ebind (resolve t p) (\<lambda>i. if permits 0x100 t i then Inr i else Inl EACCES))"

definition open_nofollow :: "path \<Rightarrow> fs \<Rightarrow> (errno + nat) \<times> fs" where
  "open_nofollow p = look (\<lambda>t. ebind (lresolve t p) (\<lambda>i.
     if link_at t i \<noteq> None then Inl ELOOP
     else if permits 0x100 t i then Inr i
     else Inl EACCES))"

definition file_metadata :: "nat \<Rightarrow> fs \<Rightarrow> (errno + metadata) \<times> fs" where
  "file_metadata i = look (\<lambda>t. metadata_of t i)"

text \<open>\<open>write_all\<close> on a file open since it was created, cut off after some bytes when it fails.\<close>

definition write_all :: "nat \<Rightarrow> bytes \<Rightarrow> fs \<Rightarrow> (errno + unit) \<times> fs" where
  "write_all i b = call (\<lambda>k. append_node i (take k b)) (\<lambda>t. Inr ((), append_node i b t))"

definition sync_all :: "nat \<Rightarrow> fs \<Rightarrow> (errno + unit) \<times> fs" where
  "sync_all i = call (\<lambda>_ t. t) (\<lambda>t. Inr ((), sync_node i t))"

definition rename :: "path \<Rightarrow> path \<Rightarrow> fs \<Rightarrow> (errno + unit) \<times> fs" where
  "rename p q = call (\<lambda>_ t. t) (rename_node p q)"

definition remove_file :: "path \<Rightarrow> fs \<Rightarrow> (errno + unit) \<times> fs" where
  "remove_file p = call (\<lambda>_ t. t) (unlink_node p)"

text \<open>\<open>take(n).read_to_end\<close>: the first \<open>n\<close> bytes of the file.\<close>

definition read_take :: "nat \<Rightarrow> nat \<Rightarrow> fs \<Rightarrow> (errno + bytes) \<times> fs" where
  "read_take i n =
     look (\<lambda>t. case bm_get i t of
         None \<Rightarrow> Inl ENOENT
       | Some nd \<Rightarrow> (case i_body nd of Regular b \<Rightarrow> Inr (take n b) | Directory _ \<Rightarrow> Inl EISDIR | _ \<Rightarrow> Inl EIO))"

section \<open>Power failures\<close>

definition versions :: "inode \<Rightarrow> (u32 \<times> body) list" where
  "versions nd = (i_mode nd, i_body nd) # i_past nd"

definition image_of :: "inode option \<Rightarrow> inode option \<Rightarrow> bool" where
  "image_of x y =
     (case x of
        None \<Rightarrow> y = None
      | Some nd \<Rightarrow> \<exists>nd'. y = Some nd' \<and> i_past nd' = [] \<and> \<not> i_dirty nd'
          \<and> ((i_mode nd', i_body nd') \<in> set (versions nd) \<or> i_dirty nd \<and> (\<exists>b. i_body nd' = Regular b)))"

definition crash_image :: "table \<Rightarrow> table \<Rightarrow> bool" where
  "crash_image t t' \<longleftrightarrow> (\<forall>i. image_of (bm_get i t) (bm_get i t'))"

definition boot :: "u32 \<Rightarrow> table \<Rightarrow> fs" where
  "boot umask t = \<lparr>fs_table = t, fs_umask = umask, fs_faults = [], fs_up = True\<rparr>"

section \<open>Lemmas on calls\<close>

lemma call_inv:
  assumes "P (fs_table w)" and "\<And>n. P (partial n (fs_table w))" and "\<And>x t. f (fs_table w) = Inr (x, t) \<Longrightarrow> P t"
  shows "P (fs_table (snd (call partial f w)))"
  using assms by (auto simp: call_def split: list.split fault.split sum.split)

lemma call_Inr: "call partial f w = (Inr x, w') \<Longrightarrow> f (fs_table w) = Inr (x, fs_table w')"
  by (auto simp: call_def split: if_splits list.splits fault.splits sum.splits)

lemma call_umask [simp]: "fs_umask (snd (call partial f w)) = fs_umask w"
  by (auto simp: call_def split: list.split fault.split sum.split)

lemma call_boot:
  "call partial f (boot m t) = (case f t of Inl e \<Rightarrow> (Inl e, boot m t) | Inr (x, t') \<Rightarrow> (Inr x, boot m t'))"
  by (simp add: call_def boot_def split: sum.split prod.split)

lemma look_table [simp]: "fs_table (snd (look f w)) = fs_table w"
  unfolding look_def by (rule call_inv [where P = "\<lambda>t. t = fs_table w"]) (auto simp: ebind_eq)

lemma look_umask [simp]: "fs_umask (snd (look f w)) = fs_umask w"
  by (simp add: look_def)

lemma look_Inr: "look f w = (Inr x, w') \<Longrightarrow> f (fs_table w) = Inr x \<and> fs_table w' = fs_table w"
  unfolding look_def by (drule call_Inr) (clarsimp simp: ebind_eq)

lemma look_boot [simp]: "look f (boot m t) = (f t, boot m t)"
  by (cases "f t") (simp_all add: look_def call_boot)

lemmas look_calls = symlink_metadata_def stat_def open_existing_def open_nofollow_def file_metadata_def read_take_def

lemma path_exists_table [simp]: "fs_table (snd (path_exists p w)) = fs_table w"
  using look_table [of "\<lambda>t. ebind (resolve t p) (metadata_of t)" w]
  by (auto simp: path_exists_def stat_def split: prod.split sum.split simp del: look_table)

lemma path_is_dir_table [simp]: "fs_table (snd (path_is_dir p w)) = fs_table w"
  using look_table [of "\<lambda>t. ebind (resolve t p) (metadata_of t)" w]
  by (auto simp: path_is_dir_def stat_def split: prod.split sum.split simp del: look_table)

section \<open>Lemmas on paths\<close>

lemma search_Inr [result_simps]: "search t d = Inr es \<longleftrightarrow> entries t d = Some es \<and> permits 0x40 t d"
  by (auto simp: search_def split: option.splits)

lemma searchI: "entries t d = Some es \<Longrightarrow> permits 0x40 t d \<Longrightarrow> search t d = Inr es"
  by (simp add: search_Inr)

text \<open>How a path leads to an inode, one name or one symbolic link at a time.\<close>

lemma walk_Inr_induct [consumes 1, case_names Here Step Link]:
  assumes "walk k t i ns = Inr r"
    and "\<And>k. P k r []"
    and "\<And>k i n ns es j. search t i = Inr es \<Longrightarrow> bm_get n es = Some j \<Longrightarrow> link_at t j = None \<Longrightarrow>
      walk k t j ns = Inr r \<Longrightarrow> P k j ns \<Longrightarrow> P k i (n # ns)"
    and "\<And>k i n ns es j s q i'. search t i = Inr es \<Longrightarrow> bm_get n es = Some j \<Longrightarrow> link_at t j = Some (s, q) \<Longrightarrow>
      i' = (case s of None \<Rightarrow> i | Some r \<Rightarrow> r) \<Longrightarrow>
      walk k t i' (q @ ns) = Inr r \<Longrightarrow> P k i' (q @ ns) \<Longrightarrow> P (Suc k) i (n # ns)"
  shows "P k i ns"
  using assms(1)
proof (induction k t'\<equiv>t i ns rule: walk.induct)
  case (2 k i n ns)
  then obtain es j where e: "search t i = Inr es" and j: "bm_get n es = Some j"
    by (auto split: option.splits sum.splits)
  show ?case
  proof (cases "link_at t j")
    case None
    with 2 e j show ?thesis
      by (intro assms(3) [OF e j]) auto
  next
    case (Some l)
    obtain s q where l: "link_at t j = Some (s, q)"
      using Some by (cases l) auto
    with 2 e j obtain k' where "k = Suc k'" "walk k' t (case s of None \<Rightarrow> i | Some r \<Rightarrow> r) (q @ ns) = Inr r"
      by (auto split: nat.splits)
    with 2 e j l show ?thesis
      by (auto intro!: assms(4) [OF e j l refl])
  qed
qed (use assms in auto)

lemma walk_append: "walk k t i xs = Inr j \<Longrightarrow> \<exists>k'. \<forall>ys. walk k t i (xs @ ys) = walk k' t j ys"
  by (induction rule: walk_Inr_induct) auto

lemma walk_prefix: "walk k t i (xs @ ys) = Inr j \<Longrightarrow> \<exists>j'. walk k t i xs = Inr j'"
proof (induction "xs @ ys" arbitrary: xs rule: walk_Inr_induct)
  case (Step k i n ns es j)
  then show ?case
    by (cases xs) auto
next
  case (Link k i n ns es j s q i')
  show ?case
  proof (cases xs)
    case (Cons x xs')
    with Link.hyps(7) have "x = n" "ns = xs' @ ys"
      by auto
    with Link.hyps(6) [of "q @ xs'"] Link.hyps(1-4) Cons show ?thesis
      by auto
  qed auto
qed simp

lemma resolve_prefix: "resolve t (p @ q) = Inr j \<Longrightarrow> \<exists>i. resolve t p = Inr i"
  by (simp add: resolve_def walk_prefix)

lemma resolve_lresolve:
  assumes "lresolve t p = Inr d" and "entries t d \<noteq> None"
  shows "resolve t p = Inr d"
proof (cases p rule: rev_cases)
  case (snoc q n)
  with assms obtain c es where c: "walk 40 t 0 q = Inr c" "search t c = Inr es" "bm_get n es = Some d"
    by (auto simp: lresolve_def locate_def resolve_def result_simps split: option.splits)
  from assms(2) have "link_at t d = None"
    by (auto simp: entries_def link_at_def split: option.splits body.splits)
  with c walk_append [OF c(1)] snoc show ?thesis
    by (auto simp: resolve_def)
qed (use assms in \<open>simp add: lresolve_def resolve_def\<close>)

lemma locate_in: "resolve t p = Inr d \<Longrightarrow> search t d = Inr es \<Longrightarrow> locate t (p @ [n]) = Inr (d, es, n)"
  by (simp add: locate_def)

text \<open>A path that leads somewhere already has every entry that \<open>mkdir\<close> would make.\<close>

lemma make_node_exists:
  assumes "resolve t p = Inr j"
  shows "make_node nd p t = Inl EEXIST"
proof (cases p rule: rev_cases)
  case (snoc q n)
  from assms obtain c where c: "walk 40 t 0 q = Inr c"
    using resolve_prefix [of t q "[n]"] snoc by (auto simp: resolve_def)
  with walk_append [OF c] assms snoc obtain k where "walk k t c [n] = Inr j"
    by (auto simp: resolve_def)
  with c snoc show ?thesis
    by (auto simp: make_node_def locate_def resolve_def bm_has_def split: option.splits sum.splits)
qed (simp add: make_node_def)

lemma mkdir_exists: "resolve (fs_table w) p = Inr j \<Longrightarrow> fs_table (snd (mkdir p w)) = fs_table w"
  unfolding mkdir_def
  using make_node_exists [of "fs_table w" p j "\<lparr>i_mode = 0x1FF AND NOT (fs_umask w), i_body = Directory [], i_dirty = False, i_past = []\<rparr>"]
  by (intro call_inv [where P = "\<lambda>t. t = fs_table w"]) auto

lemma mkdir_or_dir_exists:
  assumes "resolve (fs_table w) p = Inr j"
  shows "fs_table (snd (mkdir_or_dir p w)) = fs_table w"
proof -
  obtain r w1 where m: "mkdir p w = (r, w1)"
    by fastforce
  obtain r2 w2 where d: "path_is_dir p w1 = (r2, w2)"
    by fastforce
  show ?thesis
    using mkdir_exists [OF assms] path_is_dir_table [of p w1] m d
    by (auto simp: mkdir_or_dir_def split: sum.split bool.split)
qed

lemma create_dirs_exists:
  "resolve (fs_table w) (rev ns) = Inr j \<Longrightarrow> fs_table (snd (create_dirs ns w)) = fs_table w"
proof (induction ns arbitrary: j w)
  case (Cons n ns)
  obtain r w1 where m: "mkdir (rev (n # ns)) w = (r, w1)"
    by fastforce
  then have t1: "fs_table w1 = fs_table w"
    using mkdir_exists [OF Cons.prems] by simp
  obtain i where i: "resolve (fs_table w) (rev ns) = Inr i"
    using resolve_prefix [of "fs_table w" "rev ns" "[n]"] Cons.prems by auto
  obtain r2 w2 where c: "create_dirs ns w1 = (r2, w2)"
    by fastforce
  then have t2: "fs_table w2 = fs_table w"
    using Cons.IH [of w1 i] i t1 by simp
  obtain r3 w3 where d: "path_is_dir (rev (n # ns)) w1 = (r3, w3)"
    by fastforce
  then have t3: "fs_table w3 = fs_table w"
    using path_is_dir_table [of "rev (n # ns)" w1] t1 by simp
  show ?case
    using m c d t1 t2 t3 mkdir_or_dir_exists [of w2 "rev (n # ns)" j] Cons.prems
    by (auto split: sum.split bool.split)
qed (simp add: mkdir_or_dir_exists)

lemma create_dir_all_exists:
  "resolve (fs_table w) p = Inr j \<Longrightarrow> fs_table (snd (create_dir_all p w)) = fs_table w"
  by (simp add: create_dir_all_def create_dirs_exists)

text \<open>A change that keeps the entries for directories and links keeps the directories that paths lead to.\<close>

definition keeps_dirs :: "table \<Rightarrow> table \<Rightarrow> bool" where
  "keeps_dirs t u \<longleftrightarrow>
     (\<forall>j es. entries t j = Some es \<longrightarrow>
        (\<exists>es'. entries u j = Some es' \<and> (permits 0x40 t j \<longrightarrow> permits 0x40 u j)
          \<and> (\<forall>k r. bm_get k es = Some r \<longrightarrow> entries t r \<noteq> None \<or> link_at t r \<noteq> None \<longrightarrow> bm_get k es' = Some r)))
     \<and> (\<forall>j. link_at t j \<noteq> None \<longrightarrow> link_at u j = link_at t j)"

lemma entries_no_link: "entries t j = Some es \<Longrightarrow> link_at t j = None"
  by (auto simp: entries_def link_at_def split: option.splits body.splits)

lemma keeps_dirsD:
  assumes "keeps_dirs t u" and "search t j = Inr es" and "bm_get k es = Some r" and "entries t r \<noteq> None \<or> link_at t r \<noteq> None"
  obtains es' where "search u j = Inr es'" and "bm_get k es' = Some r"
  using assms unfolding keeps_dirs_def search_Inr by blast

lemma walk_keeps:
  assumes "walk k t s ns = Inr r" and "entries t r \<noteq> None" and keeps: "keeps_dirs t u"
  shows "walk k u s ns = Inr r"
  using assms(1)
proof (induction rule: walk_Inr_induct)
  case (Step k i n ns es j)
  have "entries t j \<noteq> None"
    using Step.hyps(4) assms(2) by (cases ns) (auto simp: search_Inr split: option.splits sum.splits)
  then obtain es' where "search u i = Inr es'" "bm_get n es' = Some j" "link_at u j = None"
    using keeps_dirsD [OF keeps Step.hyps(1,2)] keeps entries_no_link [of u j]
    unfolding keeps_dirs_def by (metis option.exhaust)
  with Step.IH show ?case
    by simp
next
  case (Link k i n ns es j s q i')
  then obtain es' where "search u i = Inr es'" "bm_get n es' = Some j" "link_at u j = Some (s, q)"
    using keeps_dirsD [OF keeps Link.hyps(1,2)] keeps unfolding keeps_dirs_def by (metis option.distinct(1))
  with Link show ?case
    by simp
qed simp

lemma lresolve_keeps:
  assumes "lresolve t p = Inr d" and "entries t d \<noteq> None" and keeps: "keeps_dirs t u"
  shows "lresolve u p = Inr d"
proof (cases "p = []")
  case False
  with assms(1) obtain c es where c: "walk 40 t 0 (butlast p) = Inr c" "search t c = Inr es" "bm_get (last p) es = Some d"
    by (auto simp: lresolve_def locate_def resolve_def result_simps split: option.splits)
  then obtain es' where "search u c = Inr es'" "bm_get (last p) es' = Some d"
    using keeps_dirsD [OF keeps c(2,3)] assms(2) by blast
  moreover have "walk 40 u 0 (butlast p) = Inr c"
    using walk_keeps [OF c(1) _ keeps] c(2) by (simp add: search_Inr)
  ultimately show ?thesis
    using False by (simp add: lresolve_def locate_def resolve_def)
qed (use assms in \<open>simp add: lresolve_def\<close>)

lemma keeps_dirs_same: "(\<And>j. entries u j = entries t j) \<Longrightarrow> (\<And>j. link_at u j = link_at t j) \<Longrightarrow> (\<And>j. permits 0x40 u j = permits 0x40 t j) \<Longrightarrow>
   keeps_dirs t u"
  by (auto simp: keeps_dirs_def)

section \<open>Lemmas on links\<close>

lemma set_links: "(d, n) \<in> set (links t i) \<longleftrightarrow> (\<exists>es. entries t d = Some es \<and> bm_get n es = Some i)"
proof
  assume "\<exists>es. entries t d = Some es \<and> bm_get n es = Some i"
  then obtain es where es: "entries t d = Some es" "bm_get n es = Some i"
    by blast
  then have "bm_has d t" "bm_has n es"
    by (auto simp: entries_def bm_has_def split: option.splits)
  with es show "(d, n) \<in> set (links t i)"
    by (auto simp: links_def bm_keys_iff [symmetric] split: option.splits intro!: bexI [of _ d])
next
  assume "(d, n) \<in> set (links t i)"
  then show "\<exists>es. entries t d = Some es \<and> bm_get n es = Some i"
    by (cases "entries t d") (auto simp: links_def split: option.splits)
qed

lemma distinct_links: "distinct (links t i)"
proof -
  define f where "f d = (case entries t d of None \<Rightarrow> []
    | Some es \<Rightarrow> map (Pair d) (filter (\<lambda>n. bm_get n es = Some i) (remdups (bm_keys es))))" for d
  have "distinct (concat (map f ds))" if "distinct ds" for ds
    using that
  proof (induction ds)
    case (Cons d ds)
    have "distinct (f d)"
      by (auto simp: f_def distinct_map inj_on_def split: option.split)
    with Cons show ?case
      by (auto simp: f_def split: option.splits)
  qed simp
  from this [of "remdups (bm_keys t)"] show ?thesis
    by (simp add: links_def f_def [abs_def])
qed

lemma length_links: "length (links t i) = card (set (links t i))"
  by (simp add: distinct_links distinct_card)

lemma length_links_cong: "set (links t i) = set (links u j) \<Longrightarrow> length (links t i) = length (links u j)"
  by (simp add: length_links)

section \<open>Fresh inodes\<close>

lemma le_foldr_max: "x \<in> set xs \<Longrightarrow> x \<le> foldr max xs (0 :: nat)"
  by (induction xs) auto

lemma fresh_inode_numbers: "fresh_inode t \<notin> set (numbers t)"
  using le_foldr_max [of "fresh_inode t" "numbers t"] by (auto simp: fresh_inode_def)

lemma fresh_inode_unused: "bm_get (fresh_inode t) t = None"
proof -
  have "\<not> bm_has (fresh_inode t) t"
    using fresh_inode_numbers [of t] by (auto simp: numbers_def bm_keys_iff)
  then show ?thesis
    by (simp add: bm_has_def)
qed

lemma fresh_inode_unnamed:
  assumes "bm_get d t = Some nd" and "(m, Directory es) \<in> set (versions nd)"
  shows "bm_get k es \<noteq> Some (fresh_inode t)"
proof
  assume "bm_get k es = Some (fresh_inode t)"
  then have "fresh_inode t \<in> set (body_targets (Directory es))"
    by (force simp: body_targets_def bm_vals_def dest!: bm_get_in_set)
  moreover have "nd \<in> set (bm_vals t)"
    using assms(1) by (force simp: bm_vals_def dest!: bm_get_in_set)
  ultimately have "fresh_inode t \<in> set (numbers t)"
    using assms(2) by (force simp: numbers_def versions_def)
  with fresh_inode_numbers show False
    by blast
qed

end
