(* ===== verification/Atomic_Replace.thy ===== *)
theory Atomic_Replace
  imports Filesystem
begin

unbundle bit_operations_syntax

text \<open>
  Replacing a file by writing a temporary one, synchronizing it, renaming it and synchronizing the
  directory, on the file system of \<open>Filesystem\<close>. \<open>stored\<close> says what a private directory holds under a
  name, \<open>durable\<close> that it does so after a power failure at this moment. The relation \<open>replacing\<close> describes
  the file system between the start of the replacement and any moment of it, and each step keeps it; its images hold
  the old or the new contents.
\<close>

definition owner_only :: "u32 \<Rightarrow> bool" where
  "owner_only m \<longleftrightarrow> m AND 0x3F = 0"

text \<open>Private, and with the rights that its owner needs: to read a file; to read, to write and to search a directory.\<close>

definition own_file :: "u32 \<Rightarrow> bool" where
  "own_file m \<longleftrightarrow> owner_only m \<and> m AND 0x100 \<noteq> 0"

definition own_dir :: "u32 \<Rightarrow> bool" where
  "own_dir m \<longleftrightarrow> owner_only m \<and> m AND 0x100 \<noteq> 0 \<and> m AND 0x80 \<noteq> 0 \<and> m AND 0x40 \<noteq> 0"

definition held :: "table \<Rightarrow> nat option \<Rightarrow> bytes option \<Rightarrow> bool" where
  "held t x v =
     (case v of
        None \<Rightarrow> x = None
      | Some b \<Rightarrow> \<exists>i f. x = Some i \<and> bm_get i t = Some f \<and> own_file (i_mode f) \<and> i_body f = Regular b \<and> length (links t i) = 1)"

definition stored :: "table \<Rightarrow> path \<Rightarrow> nat \<Rightarrow> string \<Rightarrow> bytes option \<Rightarrow> bool" where
  "stored t p d n v \<longleftrightarrow>
     lresolve t p = Inr d
     \<and> (\<exists>nd es. bm_get d t = Some nd \<and> own_dir (i_mode nd) \<and> i_body nd = Directory es \<and> held t (bm_get n es) v)"

definition durable :: "table \<Rightarrow> path \<Rightarrow> nat \<Rightarrow> string \<Rightarrow> bytes option \<Rightarrow> bool" where
  "durable t p d n v \<longleftrightarrow> (\<forall>t'. crash_image t t' \<longrightarrow> stored t' p d n v)"

section \<open>Images\<close>

definition settle :: "table \<Rightarrow> table" where
  "settle t = bm_map (\<lambda>_ nd. nd\<lparr>i_dirty := False, i_past := []\<rparr>) t"

lemma crash_image_settle: "crash_image t (settle t)"
  by (auto simp: crash_image_def image_of_def versions_def settle_def bm_get_map split: option.split)

lemma entries_settle [simp]: "entries (settle t) d = entries t d"
  and link_at_settle [simp]: "link_at (settle t) d = link_at t d"
  by (auto simp: entries_def link_at_def settle_def bm_get_map split: option.split)

lemma permits_settle [simp]: "permits x (settle t) d = permits x t d"
  by (auto simp: permits_def settle_def bm_get_map split: option.split)

lemma links_settle [simp]: "length (links (settle t) i) = length (links t i)"
  by (rule length_links_cong) (auto simp: set_links)

lemma entries_Some: "entries t d = Some es \<longleftrightarrow> (\<exists>nd. bm_get d t = Some nd \<and> i_body nd = Directory es)"
  by (auto simp: entries_def split: option.splits body.splits)

lemma stored_resolve: "stored t p d n v \<Longrightarrow> resolve t p = Inr d"
  by (auto simp: stored_def intro!: resolve_lresolve) (auto simp: entries_Some)

lemma own_dir_permits: "bm_get d t = Some nd \<Longrightarrow> own_dir (i_mode nd) \<Longrightarrow> x \<in> {0x40, 0x80, 0x100} \<Longrightarrow> permits x t d"
  by (auto simp: permits_def own_dir_def)

lemma stored_search:
  assumes "stored t p d n v" and "entries t d = Some es"
  shows "search t d = Inr es" and "x \<in> {0x40, 0x80, 0x100} \<Longrightarrow> permits x t d"
  using assms own_dir_permits [of d t] by (auto simp: stored_def search_Inr)

lemma stored_settle: "stored (settle t) p d n v \<Longrightarrow> stored t p d n v"
proof -
  assume s: "stored (settle t) p d n v"
  then obtain nd es where "lresolve (settle t) p = Inr d" and nd: "bm_get d (settle t) = Some nd" "own_dir (i_mode nd)"
      "i_body nd = Directory es" "held (settle t) (bm_get n es) v"
    by (auto simp: stored_def)
  then have "lresolve t p = Inr d"
    using lresolve_keeps [of "settle t" p d t] keeps_dirs_same [of t "settle t"] entries_Some [of "settle t" d es]
    by simp
  moreover obtain nd' where "bm_get d t = Some nd'" "i_mode nd' = i_mode nd" "i_body nd' = i_body nd"
    using nd(1) by (auto simp: settle_def bm_get_map)
  moreover have "held t (bm_get n es) v"
    using nd(4) links_settle [of t] by (auto simp: held_def settle_def bm_get_map split: option.splits)
  ultimately show ?thesis
    using nd by (auto simp: stored_def)
qed

lemma durable_stored: "durable t p d n v \<Longrightarrow> stored t p d n v"
  using crash_image_settle stored_settle unfolding durable_def by blast

lemma crash_imageD:
  assumes "crash_image t t'" and "bm_get i t = Some nd"
  obtains nd' where "bm_get i t' = Some nd'"
    and "(i_mode nd', i_body nd') \<in> set (versions nd) \<or> i_dirty nd \<and> (\<exists>b. i_body nd' = Regular b)"
proof -
  from assms have "image_of (Some nd) (bm_get i t')"
    by (metis crash_image_def)
  with that show ?thesis
    by (auto simp: image_of_def)
qed

section \<open>Changes of one directory\<close>

text \<open>What differs when a directory, and a file that no directory named, change.\<close>

lemma stored_transfer:
  assumes s: "stored t p d n v"
    and other: "\<And>j. j \<noteq> d \<Longrightarrow> j \<noteq> i \<Longrightarrow> bm_get j u = bm_get j t"
    and t: "bm_get d t = Some nd" "i_body nd = Directory es"
    and u: "bm_get d u = Some nd'" "i_body nd' = Directory es'"
    and mode: "own_dir (i_mode nd) \<Longrightarrow> own_dir (i_mode nd')"
    and i: "bm_get i t = None" "\<And>f. bm_get i u = Some f \<Longrightarrow> \<exists>b. i_body f = Regular b"
      "\<And>c es k. entries t c = Some es \<Longrightarrow> bm_get k es \<noteq> Some i"
    and names: "\<And>k. k \<noteq> n \<Longrightarrow> bm_get k es' = bm_get k es \<or> (bm_get k es = None \<and> bm_get k es' = Some i)"
  shows "lresolve u p = Inr d"
    and "bm_get n es' = bm_get n es \<Longrightarrow> stored u p d n v"
    and "bm_get n es' = Some i \<Longrightarrow> \<forall>k. k \<noteq> n \<longrightarrow> bm_get k es' \<noteq> Some i \<Longrightarrow> bm_get i u = Some f \<Longrightarrow>
      i_body f = Regular b \<Longrightarrow> own_file (i_mode f) \<Longrightarrow> stored u p d n (Some b)"
proof -
  from s t have old: "held t (bm_get n es) v" and p: "lresolve t p = Inr d" and priv: "own_dir (i_mode nd)"
    by (auto simp: stored_def)
  have "i \<noteq> d"
    using i(1) t by auto
  have ent: "entries t d = Some es" "entries u d = Some es'"
    using t u by (auto simp: entries_Some)
  have ent': "entries u j = entries t j" if "j \<noteq> d" for j
    using other [of j] i(1,2) that by (cases "j = i") (auto simp: entries_def split: option.split body.split)
  have lnk: "link_at u j = link_at t j" for j
    using other [of j] i(1,2) t u by (cases "j = i"; cases "j = d") (auto simp: link_at_def split: option.split body.split)
  have not_n: "k \<noteq> n" if "bm_get k es = Some r" "entries t r \<noteq> None \<or> link_at t r \<noteq> None" for k r
    using old that by (auto simp: held_def entries_def link_at_def split: option.splits)
  have perm: "permits 0x40 u j" if "permits 0x40 t j" "entries t j = Some es1" for j es1
    using that other [of j] i(1) u(1) mode [OF priv] by (cases "j = d"; cases "j = i") (auto simp: permits_def own_dir_def entries_def)
  have keeps: "keeps_dirs t u"
    unfolding keeps_dirs_def
  proof (intro conjI allI impI)
    fix j es1
    assume e: "entries t j = Some es1"
    show "\<exists>es2. entries u j = Some es2 \<and> (permits 0x40 t j \<longrightarrow> permits 0x40 u j)
      \<and> (\<forall>k r. bm_get k es1 = Some r \<longrightarrow> entries t r \<noteq> None \<or> link_at t r \<noteq> None \<longrightarrow> bm_get k es2 = Some r)"
    proof (cases "j = d")
      case True
      with e ent names not_n perm [OF _ e] show ?thesis
        by (metis option.distinct(1) option.inject)
    qed (use e ent' perm [OF _ e] in auto)
  qed (rule lnk)
  then show res: "lresolve u p = Inr d"
    using lresolve_keeps [OF p] ent by auto
  have linked: "(c, k) \<in> set (links u j) \<longleftrightarrow> (c, k) \<in> set (links t j)" if "j \<noteq> i" "(c, k) \<noteq> (d, n)" for c k j
    using that ent ent' [of c] names [of k] by (cases "c = d") (auto simp: set_links)
  show "stored u p d n v" if "bm_get n es' = bm_get n es"
  proof -
    have "held u (bm_get n es) v"
    proof (cases v)
      case (Some b)
      with old obtain j f where j: "bm_get n es = Some j" "bm_get j t = Some f" "own_file (i_mode f)" "i_body f = Regular b"
          "length (links t j) = 1"
        by (auto simp: held_def)
      then have "j \<noteq> i" "j \<noteq> d"
        using i(1) t by auto
      moreover have "(d, n) \<in> set (links u j) \<longleftrightarrow> (d, n) \<in> set (links t j)"
        using ent that by (simp add: set_links)
      then have "set (links u j) = set (links t j)"
        using linked [OF \<open>j \<noteq> i\<close>] by (intro set_eqI) (metis prod.exhaust)
      then have "length (links u j) = length (links t j)"
        by (rule length_links_cong)
      ultimately show ?thesis
        using j other [of j] Some by (auto simp: held_def)
    qed (use old in \<open>simp add: held_def\<close>)
    with res u mode priv that show ?thesis
      by (auto simp: stored_def)
  qed
  show "stored u p d n (Some b)"
    if "bm_get n es' = Some i" "\<forall>k. k \<noteq> n \<longrightarrow> bm_get k es' \<noteq> Some i" "bm_get i u = Some f" "i_body f = Regular b" "own_file (i_mode f)"
  proof -
    have "(c, k) \<in> set (links u i) \<longleftrightarrow> (c, k) = (d, n)" for c k
    proof (cases "c = d")
      case False
      then show ?thesis
        using ent' [of c] i(3) [of c _ k] by (auto simp: set_links)
    qed (use that ent in \<open>auto simp: set_links\<close>)
    then have "set (links u i) = {(d, n)}"
      by auto
    then have "length (links u i) = 1"
      by (simp add: length_links)
    with res u mode priv that show ?thesis
      by (auto simp: stored_def held_def)
  qed
qed

section \<open>The steps of a replacement\<close>

definition unnamed :: "table \<Rightarrow> nat \<Rightarrow> bool" where
  "unnamed t i \<longleftrightarrow> bm_get i t = None
     \<and> (\<forall>c nd m es k. bm_get c t = Some nd \<longrightarrow> (m, Directory es) \<in> set (versions nd) \<longrightarrow> bm_get k es \<noteq> Some i)"

definition with_temp :: "(string, nat) bmap \<Rightarrow> string \<Rightarrow> nat \<Rightarrow> (string, nat) bmap \<Rightarrow> bool" where
  "with_temp es0 tmp i es \<longleftrightarrow> (\<forall>k. k \<noteq> tmp \<longrightarrow> bm_get k es = bm_get k es0) \<and> (bm_get tmp es = None \<or> bm_get tmp es = Some i)"

definition with_new :: "(string, nat) bmap \<Rightarrow> string \<Rightarrow> string \<Rightarrow> nat \<Rightarrow> (string, nat) bmap \<Rightarrow> bool" where
  "with_new es0 n tmp i es \<longleftrightarrow>
     (\<forall>k. k \<noteq> tmp \<longrightarrow> k \<noteq> n \<longrightarrow> bm_get k es = bm_get k es0) \<and> bm_get tmp es = None \<and> bm_get n es = Some i"

lemma with_temp_names:
  "with_temp es0 tmp i es \<Longrightarrow> bm_get tmp es0 = None \<Longrightarrow>
     bm_get k es = bm_get k es0 \<or> (bm_get k es0 = None \<and> bm_get k es = Some i)"
  by (cases "k = tmp") (auto simp: with_temp_def)

lemma with_new_names: "with_new es0 n tmp i es \<Longrightarrow> bm_get tmp es0 = None \<Longrightarrow> k \<noteq> n \<Longrightarrow> bm_get k es = bm_get k es0"
  by (cases "k = tmp") (auto simp: with_new_def)

definition fully_written :: "bytes \<Rightarrow> inode \<Rightarrow> bool" where
  "fully_written b f \<longleftrightarrow> \<not> i_dirty f \<and> (\<forall>(m, x) \<in> set (versions f). own_file m \<and> x = Regular b)"

text \<open>\<open>fin\<close>: the temporary file has been renamed.\<close>

definition dir_state ::
  "inode \<Rightarrow> (string, nat) bmap \<Rightarrow> string \<Rightarrow> string \<Rightarrow> nat \<Rightarrow> bool \<Rightarrow> inode \<Rightarrow> bool"
where
  "dir_state nd0 es0 n tmp i fin nd \<longleftrightarrow>
     \<not> i_dirty nd \<and> i_mode nd = i_mode nd0
     \<and> (\<exists>es. i_body nd = Directory es \<and> (if fin then with_new es0 n tmp i es else with_temp es0 tmp i es))
     \<and> (\<forall>v \<in> set (i_past nd). v \<in> set (versions nd0)
         \<or> fst v = i_mode nd0
           \<and> (\<exists>es. snd v = Directory es \<and> (with_temp es0 tmp i es \<or> fin \<and> with_new es0 n tmp i es)))"

definition replacing ::
  "table \<Rightarrow> nat \<Rightarrow> inode \<Rightarrow> (string, nat) bmap \<Rightarrow> string \<Rightarrow> string \<Rightarrow> nat \<Rightarrow> bytes \<Rightarrow> bool \<Rightarrow> table \<Rightarrow> bool"
where
  "replacing t0 d nd0 es0 n tmp i b fin t \<longleftrightarrow>
     (\<forall>j. j \<noteq> d \<longrightarrow> j \<noteq> i \<longrightarrow> bm_get j t = bm_get j t0)
     \<and> (\<exists>nd. bm_get d t = Some nd \<and> dir_state nd0 es0 n tmp i fin nd)
     \<and> (\<exists>f. bm_get i t = Some f \<and> (\<forall>v \<in> set (versions f). \<exists>c. snd v = Regular c) \<and> (fin \<longrightarrow> fully_written b f))"

text \<open>The situation at the start: a durable directory, where the temporary name is not in use.\<close>

definition replaceable ::
  "table \<Rightarrow> path \<Rightarrow> nat \<Rightarrow> inode \<Rightarrow> (string, nat) bmap \<Rightarrow> string \<Rightarrow> string \<Rightarrow> bytes option \<Rightarrow> bool"
where
  "replaceable t0 p d nd0 es0 n tmp v \<longleftrightarrow>
     durable t0 p d n v \<and> bm_get d t0 = Some nd0 \<and> i_body nd0 = Directory es0 \<and> n \<noteq> tmp \<and> bm_get tmp es0 = None"

lemma durable_not_dirty:
  assumes "durable t p d n v" and "bm_get d t = Some nd"
  shows "\<not> i_dirty nd"
proof
  assume "i_dirty nd"
  then have "crash_image t (bm_put d \<lparr>i_mode = 0, i_body = Regular [], i_dirty = False, i_past = []\<rparr> (settle t))"
    using assms(2) by (auto simp: crash_image_def image_of_def versions_def bm_get_put settle_def bm_get_map split: option.split)
  with assms(1) show False
    by (fastforce simp: durable_def stored_def bm_get_put)
qed

lemma crash_image_back:
  assumes "crash_image t t'" and "v0 \<in> set (versions nd0)" and "bm_get d t0 = Some nd0"
    and "\<And>j. j \<noteq> d \<Longrightarrow> j \<noteq> i \<Longrightarrow> bm_get j t = bm_get j t0" and "bm_get i t0 = None"
  shows "crash_image t0 (bm_put d \<lparr>i_mode = fst v0, i_body = snd v0, i_dirty = False, i_past = []\<rparr> (bm_del i t'))"
  unfolding crash_image_def
proof
  fix j
  show "image_of (bm_get j t0) (bm_get j (bm_put d \<lparr>i_mode = fst v0, i_body = snd v0, i_dirty = False, i_past = []\<rparr> (bm_del i t')))"
  proof (cases "j = d \<or> j = i")
    case True
    with assms(2,3,5) show ?thesis
      by (auto simp: bm_get_put bm_get_del image_of_def)
  next
    case False
    then have "bm_get j t0 = bm_get j t"
      using assms(4) by simp
    with assms(1) False show ?thesis
      by (simp add: bm_get_put bm_get_del crash_image_def)
  qed
qed

lemma replacing_image:
  assumes start: "replaceable t0 p d nd0 es0 n tmp v" and i: "unnamed t0 i"
    and rep: "replacing t0 d nd0 es0 n tmp i b fin t" and img: "crash_image t t'"
    and nd: "bm_get d t = Some nd" and nd': "bm_get d t' = Some nd'" "(i_mode nd', i_body nd') = x" "x \<in> set (versions nd)"
  shows "x \<in> set (versions nd0) \<Longrightarrow> stored t' p d n v"
    and "fst x = i_mode nd0 \<Longrightarrow> snd x = Directory es \<Longrightarrow> with_temp es0 tmp i es \<Longrightarrow> stored t' p d n v"
    and "fst x = i_mode nd0 \<Longrightarrow> snd x = Directory es \<Longrightarrow> fin \<Longrightarrow> with_new es0 n tmp i es \<Longrightarrow> stored t' p d n (Some b)"
proof -
  have durable: "durable t0 p d n v" and d: "bm_get d t0 = Some nd0" "i_body nd0 = Directory es0"
    and tmp: "n \<noteq> tmp" "bm_get tmp es0 = None"
    using start by (auto simp: replaceable_def)
  have "i \<noteq> d"
    using i d by (auto simp: unnamed_def)
  define prior where "prior v0 = bm_put d \<lparr>i_mode = fst v0, i_body = snd v0, i_dirty = False, i_past = []\<rparr> (bm_del i t')" for v0
  have image: "crash_image t0 (prior v0)" if "v0 \<in> set (versions nd0)" for v0
    unfolding prior_def
    by (rule crash_image_back [OF img that d(1)]) (use rep i in \<open>auto simp: replacing_def unnamed_def\<close>)
  have old: "stored (prior v0) p d n v" if "v0 \<in> set (versions nd0)" for v0
    using durable image [OF that] by (auto simp: durable_def)
  have fi: "\<exists>c. i_body f = Regular c" if "bm_get i t' = Some f" for f
  proof -
    obtain f0 where f0: "bm_get i t = Some f0" "\<forall>v \<in> set (versions f0). \<exists>c. snd v = Regular c"
      using rep by (auto simp: replacing_def)
    from crash_imageD [OF img f0(1)] obtain f' where "bm_get i t' = Some f'"
      and "(i_mode f', i_body f') \<in> set (versions f0) \<or> i_dirty f0 \<and> (\<exists>b. i_body f' = Regular b)" .
    with f0(2) that show ?thesis
      by auto
  qed
  have un: "bm_get k es1 \<noteq> Some i" if v0: "v0 \<in> set (versions nd0)" and e: "entries (prior v0) c = Some es1" for v0 c es1 k
  proof -
    obtain ndc where c: "bm_get c (prior v0) = Some ndc" "i_body ndc = Directory es1"
      using e by (auto simp: entries_Some)
    have "image_of (bm_get c t0) (Some ndc)"
      using image [OF v0] c(1) by (metis crash_image_def)
    then obtain nd1 where nd1: "bm_get c t0 = Some nd1"
      by (cases "bm_get c t0") (auto simp: image_of_def)
    from crash_imageD [OF image [OF v0] nd1] obtain ndc' where "bm_get c (prior v0) = Some ndc'"
      and "(i_mode ndc', i_body ndc') \<in> set (versions nd1) \<or> i_dirty nd1 \<and> (\<exists>b. i_body ndc' = Regular b)" .
    with c have "(i_mode ndc, Directory es1) \<in> set (versions nd1)"
      by auto
    with nd1 i show ?thesis
      by (auto simp: unnamed_def)
  qed
  note transfer = stored_transfer [OF old, where u = t' and i = i]
  have side: "\<And>j. j \<noteq> d \<Longrightarrow> j \<noteq> i \<Longrightarrow> bm_get j t' = bm_get j (prior v0)"
      "bm_get i (prior v0) = None" "bm_get d (prior v0) = Some \<lparr>i_mode = fst v0, i_body = snd v0, i_dirty = False, i_past = []\<rparr>" for v0
    using \<open>i \<noteq> d\<close> by (auto simp: prior_def bm_get_put bm_get_del)
  have now: "(i_mode nd0, Directory es0) \<in> set (versions nd0)"
    using d by (simp add: versions_def)
  show "stored t' p d n v" if x: "x \<in> set (versions nd0)"
  proof -
    obtain es where "i_body nd' = Directory es"
      using old [OF x] side(3) [of x] nd'(2) by (auto simp: stored_def)
    with x show ?thesis
      by (intro transfer(2) [OF x side(1) side(3) _ nd'(1) _ _ side(2) fi un [OF x]])
        (use nd' in auto)
  qed
  show "stored t' p d n v" if "fst x = i_mode nd0" "snd x = Directory es" "with_temp es0 tmp i es"
    by (rule transfer(2) [where es = es0 and es' = es, OF now side(1) side(3) _ nd'(1) _ _ side(2) fi un [OF now]])
      (use that nd' tmp with_temp_names [OF that(3) tmp(2)] in \<open>auto simp: with_temp_def\<close>)
  show "stored t' p d n (Some b)" if "fst x = i_mode nd0" "snd x = Directory es" "fin" "with_new es0 n tmp i es"
  proof -
    obtain f0 where f0: "bm_get i t = Some f0" "fully_written b f0"
      using rep \<open>fin\<close> by (auto simp: replacing_def)
    from crash_imageD [OF img f0(1)] obtain f where f: "bm_get i t' = Some f"
      and "(i_mode f, i_body f) \<in> set (versions f0) \<or> i_dirty f0 \<and> (\<exists>b. i_body f = Regular b)" .
    with f0(2) have fb: "i_body f = Regular b" "own_file (i_mode f)"
      by (auto simp: fully_written_def)
    show ?thesis
      by (rule transfer(3) [where es = es0 and es' = es, OF now side(1) side(3) _ nd'(1) _ _ side(2) fi un [OF now] _ _ _ f fb])
        (use that(1-3) nd' tmp i d with_new_names [OF that(4) tmp(2)] that(4) [unfolded with_new_def] in
          \<open>auto simp: unnamed_def versions_def\<close>)
  qed
qed

lemma dir_state_version:
  assumes "dir_state nd0 es0 n tmp i fin nd" and "x \<in> set (versions nd)"
  shows "x \<in> set (versions nd0)
    \<or> fst x = i_mode nd0 \<and> (\<exists>es. snd x = Directory es \<and> (with_temp es0 tmp i es \<or> fin \<and> with_new es0 n tmp i es))"
  using assms by (auto simp: dir_state_def versions_def split: if_splits)

lemma replacing_version:
  assumes "replacing t0 d nd0 es0 n tmp i b fin t" and "crash_image t t'"
  obtains nd nd' x where "bm_get d t = Some nd" "dir_state nd0 es0 n tmp i fin nd" "bm_get d t' = Some nd'"
    "(i_mode nd', i_body nd') = x" "x \<in> set (versions nd)"
proof -
  from assms(1) obtain nd where nd: "bm_get d t = Some nd" "dir_state nd0 es0 n tmp i fin nd"
    by (auto simp: replacing_def)
  from crash_imageD [OF assms(2) nd(1)] obtain nd' where "bm_get d t' = Some nd'"
    and "(i_mode nd', i_body nd') \<in> set (versions nd) \<or> i_dirty nd \<and> (\<exists>b. i_body nd' = Regular b)" .
  with nd that show ?thesis
    by (auto simp: dir_state_def)
qed

text \<open>At every moment, what a power failure leaves is the old contents or the new.\<close>

lemma replacing_old_or_new:
  assumes "replaceable t0 p d nd0 es0 n tmp v" and "unnamed t0 i"
    and rep: "replacing t0 d nd0 es0 n tmp i b fin t" and img: "crash_image t t'"
  shows "stored t' p d n v \<or> stored t' p d n (Some b)"
proof -
  from replacing_version [OF rep img] obtain nd nd' x where nd: "bm_get d t = Some nd" and st: "dir_state nd0 es0 n tmp i fin nd"
    and nd': "bm_get d t' = Some nd'" "(i_mode nd', i_body nd') = x" "x \<in> set (versions nd)" .
  note image = replacing_image [OF assms nd nd']
  from dir_state_version [OF st nd'(3)] image show ?thesis
    by blast
qed

lemma replacing_durable:
  assumes "replaceable t0 p d nd0 es0 n tmp v" and "unnamed t0 i"
    and rep: "replacing t0 d nd0 es0 n tmp i b True t" and synced: "\<And>nd. bm_get d t = Some nd \<Longrightarrow> i_past nd = []"
  shows "durable t p d n (Some b)"
  unfolding durable_def
proof (intro allI impI)
  fix t'
  assume img: "crash_image t t'"
  from replacing_version [OF rep img] obtain nd nd' x where nd: "bm_get d t = Some nd" and st: "dir_state nd0 es0 n tmp i True nd"
    and nd': "bm_get d t' = Some nd'" "(i_mode nd', i_body nd') = x" "x \<in> set (versions nd)" .
  then have "fst x = i_mode nd0" "\<exists>es. snd x = Directory es \<and> with_new es0 n tmp i es"
    using synced [OF nd] by (auto simp: versions_def dir_state_def)
  then show "stored t' p d n (Some b)"
    using replacing_image(3) [OF assms(1-3) img nd nd'] by blast
qed

text \<open>The path still leads to the directory.\<close>

lemma replacing_resolve:
  assumes start: "replaceable t0 p d nd0 es0 n tmp v" and i: "unnamed t0 i"
    and rep: "replacing t0 d nd0 es0 n tmp i b fin t"
  shows "resolve t p = Inr d"
proof -
  from start have s: "stored t0 p d n v" and d: "bm_get d t0 = Some nd0" "i_body nd0 = Directory es0" and tmp: "bm_get tmp es0 = None"
    by (auto simp: replaceable_def intro: durable_stored)
  from rep obtain nd es where nd: "bm_get d t = Some nd" "i_body nd = Directory es" "i_mode nd = i_mode nd0"
    and es: "if fin then with_new es0 n tmp i es else with_temp es0 tmp i es"
    by (auto simp: replacing_def dir_state_def)
  have other: "j \<noteq> d \<Longrightarrow> j \<noteq> i \<Longrightarrow> bm_get j t = bm_get j t0" for j
    using rep by (simp add: replacing_def)
  have fresh: "bm_get k es1 \<noteq> Some i" if "entries t0 c = Some es1" for c es1 k
    using that i by (auto simp: entries_Some unnamed_def versions_def)
  have reg: "\<exists>b. i_body f = Regular b" if "bm_get i t = Some f" for f
    using rep that by (auto simp: replacing_def versions_def)
  have names: "bm_get k es = bm_get k es0 \<or> (bm_get k es0 = None \<and> bm_get k es = Some i)" if "k \<noteq> n" for k
    using es with_temp_names [of es0 tmp i es k] with_new_names [of es0 n tmp i es k] tmp that by (auto split: if_splits)
  have "lresolve t p = Inr d"
    by (rule stored_transfer(1) [OF s other d nd(1,2) _ _ reg fresh names]) (use nd i in \<open>auto simp: unnamed_def\<close>)
  then show ?thesis
    using nd by (auto intro!: resolve_lresolve simp: entries_Some)
qed

lemma replacing_permits:
  assumes "replaceable t0 p d nd0 es0 n tmp v" and "replacing t0 d nd0 es0 n tmp i b fin t" and "x \<in> {0x40, 0x80, 0x100}"
  shows "permits x t d"
proof -
  from assms(1) have "own_dir (i_mode nd0)"
    using durable_stored [of t0 p d n v] by (auto simp: replaceable_def stored_def)
  with assms(2,3) show ?thesis
    by (auto simp: replacing_def dir_state_def intro!: own_dir_permits)
qed

lemma replacing_locate:
  assumes "replaceable t0 p d nd0 es0 n tmp v" and "unnamed t0 i" and rep: "replacing t0 d nd0 es0 n tmp i b fin t"
  obtains es where "locate t (p @ [k]) = Inr (d, es, k)" "search t d = Inr es"
    "if fin then with_new es0 n tmp i es else with_temp es0 tmp i es"
proof -
  from rep obtain es where es: "entries t d = Some es" "if fin then with_new es0 n tmp i es else with_temp es0 tmp i es"
    unfolding replacing_def dir_state_def by (auto simp: entries_Some)
  moreover have "search t d = Inr es"
    using es(1) replacing_permits [OF assms(1) rep, of "0x40"] by (simp add: searchI)
  ultimately show ?thesis
    by (intro that locate_in replacing_resolve [OF assms])
qed

text \<open>The steps.\<close>

lemma fresh_unnamed: "unnamed t (fresh_inode t)"
  unfolding unnamed_def using fresh_inode_unused fresh_inode_unnamed by blast

lemma resolve_file:
  assumes "resolve t p = Inr d" and "search t d = Inr es" and "bm_get n es = Some i" and "link_at t i = None"
  shows "resolve t (p @ [n]) = Inr i"
  using walk_append [of 40 t 0 p d] assms by (auto simp: resolve_def)

lemma dir_state_start:
  assumes "\<not> i_dirty nd0" and "i_body nd0 = Directory es0" and "with_temp es0 tmp i es"
  shows "dir_state nd0 es0 n tmp i False (nd0\<lparr>i_body := Directory es, i_past := versions nd0\<rparr>)"
  using assms by (simp add: dir_state_def versions_def)

lemma dir_state_change:
  assumes "dir_state nd0 es0 n tmp i fin nd" and "fin \<longrightarrow> fin'"
    and "if fin' then with_new es0 n tmp i es else with_temp es0 tmp i es"
  shows "dir_state nd0 es0 n tmp i fin' (nd\<lparr>i_body := Directory es, i_past := versions nd\<rparr>)"
  using assms by (fastforce simp: dir_state_def versions_def split: if_splits)

lemma replacing_make:
  assumes start: "replaceable t0 p d nd0 es0 n tmp v"
    and make: "make_node \<lparr>i_mode = m, i_body = Regular [], i_dirty = True, i_past = []\<rparr> (p @ [tmp]) t0 = Inr (i, t)"
  shows "unnamed t0 i" and "replacing t0 d nd0 es0 n tmp i b False t"
    and "bm_get i t = Some \<lparr>i_mode = m, i_body = Regular [], i_dirty = True, i_past = []\<rparr>"
proof -
  from start have s: "stored t0 p d n v" and d: "bm_get d t0 = Some nd0" "i_body nd0 = Directory es0" and tmp: "bm_get tmp es0 = None"
    by (auto simp: replaceable_def intro: durable_stored)
  have clean: "\<not> i_dirty nd0"
    using start durable_not_dirty unfolding replaceable_def by blast
  have "locate t0 (p @ [tmp]) = Inr (d, es0, tmp)"
    by (rule locate_in [OF stored_resolve [OF s] stored_search(1) [OF s]]) (use d in \<open>simp add: entries_Some\<close>)
  with make tmp have i: "i = fresh_inode t0"
    and t: "t = set_entries d (bm_put tmp i es0) (bm_put i \<lparr>i_mode = m, i_body = Regular [], i_dirty = True, i_past = []\<rparr> t0)"
    by (auto simp: make_node_def bm_has_def Let_def split: if_splits)
  show un: "unnamed t0 i"
    by (simp add: i fresh_unnamed)
  then have "i \<noteq> d"
    using d by (auto simp: unnamed_def)
  then show f: "bm_get i t = Some \<lparr>i_mode = m, i_body = Regular [], i_dirty = True, i_past = []\<rparr>"
    by (simp add: t set_entries_def change_def bmap_simps)
  have "bm_get d t = Some (nd0\<lparr>i_body := Directory (bm_put tmp i es0), i_past := versions nd0\<rparr>)"
    using \<open>i \<noteq> d\<close> d by (simp add: t set_entries_def change_def bmap_simps versions_def)
  moreover have "with_temp es0 tmp i (bm_put tmp i es0)"
    by (simp add: with_temp_def bm_get_put)
  ultimately show "replacing t0 d nd0 es0 n tmp i b False t"
    using f dir_state_start [OF clean d(2)] by (auto simp: replacing_def t set_entries_def change_def bmap_simps versions_def)
qed

lemma replacing_file:
  assumes "replacing t0 d nd0 es0 n tmp i b fin t" and "unnamed t0 i" and "bm_get d t0 = Some nd0"
    and "\<And>f. bm_get i t = Some f \<Longrightarrow> \<forall>v \<in> set (versions f). \<exists>c. snd v = Regular c \<Longrightarrow> fin \<longrightarrow> fully_written b f \<Longrightarrow>
      (\<forall>v \<in> set (versions (g f)). \<exists>c. snd v = Regular c) \<and> (fin \<longrightarrow> fully_written b (g f))"
  shows "replacing t0 d nd0 es0 n tmp i b fin (bm_adjust i g t)"
proof -
  have "i \<noteq> d"
    using assms(2,3) by (auto simp: unnamed_def)
  with assms(1,4) show ?thesis
    by (auto simp: replacing_def bm_get_adjust)
qed

lemma replacing_append:
  assumes "replacing t0 d nd0 es0 n tmp i b False t" and "unnamed t0 i" and "bm_get d t0 = Some nd0"
  shows "replacing t0 d nd0 es0 n tmp i b False (append_node i c t)"
  unfolding append_node_def change_def
  by (rule replacing_file [OF assms]) (auto simp: versions_def)

lemma replacing_sync_file:
  assumes "replacing t0 d nd0 es0 n tmp i b fin t" and "unnamed t0 i" and "bm_get d t0 = Some nd0"
  shows "replacing t0 d nd0 es0 n tmp i b fin (sync_node i t)"
  unfolding sync_node_def
  by (rule replacing_file [OF assms]) (auto simp: versions_def fully_written_def)

lemma replacing_chmod:
  assumes "replacing t0 d nd0 es0 n tmp i b fin t" and "unnamed t0 i" and "bm_get d t0 = Some nd0" and "own_file m"
  shows "replacing t0 d nd0 es0 n tmp i b fin (change i (\<lambda>nd. nd\<lparr>i_mode := m\<rparr>) t)"
  unfolding change_def
  by (rule replacing_file [OF assms(1-3)]) (use assms(4) in \<open>auto simp: versions_def fully_written_def\<close>)

lemma replacing_sync_dir:
  assumes "replacing t0 d nd0 es0 n tmp i b fin t" and "unnamed t0 i" and "bm_get d t0 = Some nd0"
  shows "replacing t0 d nd0 es0 n tmp i b fin (sync_node d t)"
    and "bm_get d (sync_node d t) = Some nd \<Longrightarrow> i_past nd = []"
  using assms by (cases fin; auto simp: replacing_def sync_node_def bm_get_adjust dir_state_def unnamed_def)+

lemma replacing_entries:
  assumes rep: "replacing t0 d nd0 es0 n tmp i b fin t" and "unnamed t0 i" and "bm_get d t0 = Some nd0" and "fin \<longrightarrow> fin'"
    and es: "if fin' then with_new es0 n tmp i es else with_temp es0 tmp i es"
    and f: "fin' \<longrightarrow> (\<exists>f. bm_get i t = Some f \<and> fully_written b f)"
  shows "replacing t0 d nd0 es0 n tmp i b fin' (set_entries d es t)"
proof -
  from rep obtain nd where nd: "bm_get d t = Some nd" "dir_state nd0 es0 n tmp i fin nd"
    by (auto simp: replacing_def)
  then have "bm_get d (set_entries d es t) = Some (nd\<lparr>i_body := Directory es, i_past := versions nd\<rparr>)"
    by (simp add: set_entries_def change_def bmap_simps versions_def)
  with dir_state_change [OF nd(2) assms(4) es] assms show ?thesis
    by (auto simp: replacing_def set_entries_def change_def bmap_simps unnamed_def)
qed

lemma replacing_rename:
  assumes start: "replaceable t0 p d nd0 es0 n tmp v" and un: "unnamed t0 i" and rep: "replacing t0 d nd0 es0 n tmp i b False t"
    and f: "bm_get i t = Some f" "fully_written b f" and ok: "rename_node (p @ [tmp]) (p @ [n]) t = Inr (u, t')"
  shows "replacing t0 d nd0 es0 n tmp i b True t'" and "bm_get i t' = Some f"
proof -
  from replacing_locate [OF start un rep] obtain es where l: "locate t (p @ [tmp]) = Inr (d, es, tmp)" and es: "with_temp es0 tmp i es"
    and e: "search t d = Inr es"
    by (metis (full_types))
  from start have d: "bm_get d t0 = Some nd0" "i_body nd0 = Directory es0" and n: "n \<noteq> tmp"
    by (auto simp: replaceable_def)
  have "bm_get n es = bm_get n es0"
    using es n by (simp add: with_temp_def)
  moreover have "bm_get n es0 \<noteq> Some i"
    using un d by (auto simp: unnamed_def versions_def)
  moreover have l': "locate t (p @ [n]) = Inr (d, es, n)"
    using locate_in [OF replacing_resolve [OF start un rep] e] .
  ultimately have t': "t' = set_entries d (bm_put n i (bm_del tmp es)) t"
    using ok l es by (auto simp: rename_node_def with_temp_def split: if_splits)
  then show "bm_get i t' = Some f"
    using f un d by (auto simp: set_entries_def change_def bmap_simps unnamed_def)
  have "with_new es0 n tmp i (bm_put n i (bm_del tmp es))"
    using es n by (auto simp: with_new_def with_temp_def bmap_simps)
  then show "replacing t0 d nd0 es0 n tmp i b True t'"
    unfolding t' using f by (intro replacing_entries [OF rep un d(1)]) auto
qed

lemma replacing_unlink:
  assumes start: "replaceable t0 p d nd0 es0 n tmp v" and un: "unnamed t0 i" and rep: "replacing t0 d nd0 es0 n tmp i b fin t"
    and ok: "unlink_node (p @ [tmp]) t = Inr (u, t')"
  shows "replacing t0 d nd0 es0 n tmp i b fin t'"
proof -
  from replacing_locate [OF start un rep] obtain es where l: "locate t (p @ [tmp]) = Inr (d, es, tmp)"
    and es: "if fin then with_new es0 n tmp i es else with_temp es0 tmp i es"
    by metis
  from start have d: "bm_get d t0 = Some nd0"
    by (auto simp: replaceable_def)
  from ok l es have fin: "\<not> fin" and t': "t' = set_entries d (bm_del tmp es) t"
    by (auto simp: unlink_node_def with_new_def split: option.splits if_splits)
  show ?thesis
    unfolding t' by (rule replacing_entries [OF rep un d]) (use es fin in \<open>auto simp: with_temp_def bmap_simps\<close>)
qed

text \<open>Changing the permissions of the directory, from private to private.\<close>

lemma durable_chmod:
  assumes durable: "durable t p d n v" and m: "own_dir m"
  shows "durable (change d (\<lambda>nd. nd\<lparr>i_mode := m\<rparr>) t) p d n v"
  unfolding durable_def
proof (intro allI impI)
  fix t'
  assume img: "crash_image (change d (\<lambda>nd. nd\<lparr>i_mode := m\<rparr>) t) t'"
  from durable_stored [OF durable] obtain nd0 es0 where d: "bm_get d t = Some nd0" "i_body nd0 = Directory es0"
    by (auto simp: stored_def)
  have c: "bm_get d (change d (\<lambda>nd. nd\<lparr>i_mode := m\<rparr>) t) = Some (nd0\<lparr>i_mode := m, i_past := versions nd0\<rparr>)"
    using d by (simp add: change_def bmap_simps versions_def)
  define i where "i = fresh_inode t"
  have i: "bm_get i t = None" "i \<noteq> d"
    using fresh_inode_unused [of t] d by (auto simp: i_def)
  from crash_imageD [OF img c] durable_not_dirty [OF durable d(1)] obtain nd' where nd': "bm_get d t' = Some nd'"
    and x: "(i_mode nd', i_body nd') = (m, Directory es0) \<or> (i_mode nd', i_body nd') \<in> set (versions nd0)"
    using d(2) by (auto simp: versions_def)
  define v0 where "v0 = (if (i_mode nd', i_body nd') \<in> set (versions nd0) then (i_mode nd', i_body nd') else (i_mode nd0, Directory es0))"
  have v0: "v0 \<in> set (versions nd0)" "snd v0 = i_body nd'" "own_dir (fst v0) \<Longrightarrow> own_dir (i_mode nd')"
    using x d m by (auto simp: v0_def versions_def)
  define u where "u = bm_put d \<lparr>i_mode = fst v0, i_body = snd v0, i_dirty = False, i_past = []\<rparr> (bm_del i t')"
  have image: "crash_image t u"
    unfolding u_def by (rule crash_image_back [OF img v0(1) d(1)]) (use i in \<open>simp_all add: change_def bmap_simps\<close>)
  then have s: "stored u p d n v"
    using durable by (simp add: durable_def)
  then obtain es where es: "i_body nd' = Directory es"
    using v0 by (auto simp: stored_def u_def bm_get_put)
  have no_i: "bm_get i t' = None"
  proof -
    have "image_of (bm_get i (change d (\<lambda>nd. nd\<lparr>i_mode := m\<rparr>) t)) (bm_get i t')"
      using img unfolding crash_image_def by blast
    with i show ?thesis
      by (simp add: change_def bmap_simps image_of_def)
  qed
  have un: "bm_get k es1 \<noteq> Some i" if e: "entries u c = Some es1" for c es1 k
  proof -
    obtain ndc where c: "bm_get c u = Some ndc" "i_body ndc = Directory es1"
      using e by (auto simp: entries_Some)
    have "image_of (bm_get c t) (Some ndc)"
      using image c(1) by (metis crash_image_def)
    then obtain nd1 where "bm_get c t = Some nd1" "(i_mode ndc, Directory es1) \<in> set (versions nd1)"
      using c(2) by (cases "bm_get c t") (auto simp: image_of_def)
    then show ?thesis
      using fresh_inode_unnamed by (simp add: i_def)
  qed
  show "stored t' p d n v"
    by (rule stored_transfer(2) [OF s _ _ _ nd' es, where i = i and es = es
          and nd = "\<lparr>i_mode = fst v0, i_body = snd v0, i_dirty = False, i_past = []\<rparr>"])
      (use i v0 es un no_i in \<open>auto simp: u_def bmap_simps\<close>)
qed

lemma replaceable_chmod:
  assumes "replaceable t p d nd es n tmp v" and "own_dir m"
  shows "\<exists>nd'. replaceable (change d (\<lambda>nd. nd\<lparr>i_mode := m\<rparr>) t) p d nd' es n tmp v"
  using assms durable_chmod [of t p d n v m] by (auto simp: replaceable_def change_def bmap_simps)

end
