(* ===== verification/Files.thy ===== *)
theory Files
  imports Atomic_Replace Join
begin

unbundle bit_operations_syntax

text \<open>
  The files of an endpoint: the storage of a host's state, \<open>FileHostStorage\<close> of \<^verbatim>\<open>src/src/join.rs\<close>, and the key
  file of \<^verbatim>\<open>src/src/identity.rs\<close>, on the file system of \<open>Filesystem\<close>. The random number of the temporary
  name is an argument. A path has at least one component; its parent is what is left without the
  last one, the working directory when that is empty.
\<close>

section \<open>Helpers\<close>

definition io_error :: "errno \<Rightarrow> error" where
  "io_error e = Io (case e of
       ENOENT \<Rightarrow> ''No such file or directory (os error 2)''
     | EIO \<Rightarrow> ''Input/output error (os error 5)''
     | EACCES \<Rightarrow> ''Permission denied (os error 13)''
     | EEXIST \<Rightarrow> ''File exists (os error 17)''
     | ENOTDIR \<Rightarrow> ''Not a directory (os error 20)''
     | EISDIR \<Rightarrow> ''Is a directory (os error 21)''
     | ELOOP \<Rightarrow> ''Too many levels of symbolic links (os error 40)'')"

text \<open>\<open>?\<close> on the result of a call.\<close>

definition io :: "(errno + 'a) \<times> fs \<Rightarrow> 'a result \<times> fs" where
  "io r = (case r of (Inl e, w) \<Rightarrow> (Inl (io_error e), w) | (Inr x, w) \<Rightarrow> (Inr x, w))"

definition file_parent :: "path \<Rightarrow> path" where
  "file_parent p = butlast p"

text \<open>The 32 hexadecimal digits of a \<open>u128\<close>.\<close>

definition hex_char :: "nat \<Rightarrow> char" where
  "hex_char k = ''0123456789abcdef'' ! k"

definition hex32 :: "128 word \<Rightarrow> string" where
  "hex32 r = map (\<lambda>k. hex_char (unat r div 16 ^ k mod 16)) (rev [0..<32])"

definition is_symlink :: "metadata \<Rightarrow> bool" where
  "is_symlink m \<longleftrightarrow> md_type m = IsSymlink"

definition group_or_other :: "metadata \<Rightarrow> bool" where
  "group_or_other m \<longleftrightarrow> md_mode m AND 0x3F \<noteq> 0"

section \<open>The storage of a host\<close>

definition validate_parent :: "path \<Rightarrow> fs \<Rightarrow> unit result \<times> fs" where
  "validate_parent p w =
     sbind (io (symlink_metadata p w)) (\<lambda>m w.
     sbind (fail_if (md_type m \<noteq> IsDir \<or> is_symlink m) (Config ''persistent-state directory must be a real directory''), w) (\<lambda>_ w.
     (fail_if (group_or_other m) (Config ''persistent-state directory must be private (0700)''), w)))"

definition validate_file :: "metadata \<Rightarrow> unit result" where
  "validate_file m =
     rbind (fail_if (md_type m \<noteq> IsFile \<or> is_symlink m) (Config ''persistent state must be a private regular file'')) (\<lambda>_.
     fail_if (md_nlink m \<noteq> 1 \<or> group_or_other m) (Config ''persistent state must be an unlinked private (0600) file''))"

definition load_file :: "path \<Rightarrow> fs \<Rightarrow> bytes option result \<times> fs" where
  "load_file p w =
     (case path_exists (file_parent p) w of (there, w) \<Rightarrow>
      sbind (if there then validate_parent (file_parent p) w else (Inr (), w)) (\<lambda>_ w.
      case symlink_metadata p w of
        (Inl e, w) \<Rightarrow> if e = ENOENT then (Inr None, w) else (Inl (io_error e), w)
      | (Inr m, w) \<Rightarrow>
          sbind (validate_file m, w) (\<lambda>_ w.
          sbind (io (open_nofollow p w)) (\<lambda>file w.
          sbind (io (file_metadata file w)) (\<lambda>m w.
          sbind (validate_file m, w) (\<lambda>_ w.
          sbind (io (read_take file (MAX_BYTES + 1) w)) (\<lambda>b w.
          sbind (fail_if (length b > MAX_BYTES) MessageTooLarge, w) (\<lambda>_ w.
          (Inr (Some b), w)))))))))"

text \<open>The closure of \<open>save_file\<close>.\<close>

definition replace_state :: "path \<Rightarrow> path \<Rightarrow> bytes \<Rightarrow> fs \<Rightarrow> unit result \<times> fs" where
  "replace_state p temporary b w =
     sbind (io (open_new temporary 0x180 w)) (\<lambda>file w.
     sbind (io (write_all file b w)) (\<lambda>_ w.
     sbind (io (sync_all file w)) (\<lambda>_ w.
     sbind (io (rename temporary p w)) (\<lambda>_ w.
     sbind (io (set_permissions p 0x180 w)) (\<lambda>_ w.
     sbind (io (open_existing (file_parent p) w)) (\<lambda>dir w.
     sbind (io (sync_all dir w)) (\<lambda>_ w.
     (Inr (), w))))))))"

definition save_file :: "path \<Rightarrow> 128 word \<Rightarrow> bytes \<Rightarrow> fs \<Rightarrow> unit result \<times> fs" where
  "save_file p r b w =
     (if length b > MAX_BYTES then (Inl MessageTooLarge, w)
      else case path_exists (file_parent p) w of (parent_existed, w) \<Rightarrow>
        sbind (io (create_dir_all (file_parent p) w)) (\<lambda>_ w.
        sbind (if parent_existed then (Inr (), w) else io (set_permissions (file_parent p) 0x1C0 w)) (\<lambda>_ w.
        sbind (validate_parent (file_parent p) w) (\<lambda>_ w.
        sbind (case symlink_metadata p w of
                 (Inl _, w) \<Rightarrow> (Inr (), w)
               | (Inr m, w) \<Rightarrow> (validate_file m, w)) (\<lambda>_ w.
        (let temporary = file_parent p @ [''.rtn-mq-state-'' @ hex32 r] in
         case replace_state p temporary b w of
           (Inl e, w) \<Rightarrow> (Inl e, snd (remove_file temporary w))
         | (Inr _, w) \<Rightarrow> (Inr (), w)))))))"

text \<open>\<open>Admission::persistent\<close>.\<close>

definition persistent ::
  "('e::linorder) lib \<Rightarrow> path \<Rightarrow> 128 word \<Rightarrow> authority \<Rightarrow> u64 \<Rightarrow> fs \<Rightarrow> 'e admission result \<times> fs"
where
  "persistent L p r = with_storage L (load_file p) (save_file p r)"

text \<open>\<open>generate_host_state\<close>; \<open>a\<close> is the generated authority.\<close>

definition generate_host_state :: "'e lib \<Rightarrow> authority \<Rightarrow> bytes" where
  "generate_host_state L a = host_encode L (host_new a False)"

section \<open>The key file\<close>

text \<open>An \<open>Identity\<close> is the 32 bytes of its secret key.\<close>

definition id_validate :: "metadata \<Rightarrow> unit result" where
  "id_validate m =
     fail_if (md_type m \<noteq> IsFile \<or> is_symlink m \<or> md_nlink m \<noteq> 1 \<or> group_or_other m)
       (Config ''key must be a private (0600), unlinked regular file'')"

definition replace_key :: "path \<Rightarrow> path \<Rightarrow> bytes \<Rightarrow> fs \<Rightarrow> unit result \<times> fs" where
  "replace_key p temporary key w =
     sbind (io (open_new temporary 0x180 w)) (\<lambda>file w.
     sbind (io (write_all file key w)) (\<lambda>_ w.
     sbind (io (sync_all file w)) (\<lambda>_ w.
     sbind (io (rename temporary p w)) (\<lambda>_ w.
     sbind (io (open_existing (file_parent p) w)) (\<lambda>dir w.
     sbind (io (sync_all dir w)) (\<lambda>_ w.
     (Inr (), w)))))))"

definition id_save :: "path \<Rightarrow> 128 word \<Rightarrow> bytes \<Rightarrow> fs \<Rightarrow> unit result \<times> fs" where
  "id_save p r key w =
     sbind (io (symlink_metadata (file_parent p) w)) (\<lambda>m w.
     sbind (fail_if (md_type m \<noteq> IsDir \<or> is_symlink m \<or> group_or_other m)
              (Config ''key directory must be private (0700) and not a symlink''), w) (\<lambda>_ w.
     sbind (case symlink_metadata p w of
              (Inr m, w) \<Rightarrow> (id_validate m, w)
            | (Inl e, w) \<Rightarrow> if e = ENOENT then (Inr (), w) else (Inl (io_error e), w)) (\<lambda>_ w.
     (let temporary = file_parent p @ [''.rtn-mq-key-'' @ hex32 r] in
      case replace_key p temporary key w of
        (Inl e, w) \<Rightarrow> (Inl e, snd (remove_file temporary w))
      | (Inr _, w) \<Rightarrow> (Inr (), w)))))"

definition id_load :: "path \<Rightarrow> fs \<Rightarrow> bytes result \<times> fs" where
  "id_load p w =
     sbind (io (symlink_metadata p w)) (\<lambda>m w.
     sbind (id_validate m, w) (\<lambda>_ w.
     sbind (io (open_nofollow p w)) (\<lambda>file w.
     sbind (io (file_metadata file w)) (\<lambda>m w.
     sbind (id_validate m, w) (\<lambda>_ w.
     sbind (io (read_take file 33 w)) (\<lambda>b w.
     sbind (fail_if (length b \<noteq> 32) (Config ''key must contain exactly 32 bytes''), w) (\<lambda>_ w.
     (Inr b, w))))))))"

section \<open>Reasoning about sequences of calls\<close>

definition post :: "('a result \<Rightarrow> 's \<Rightarrow> bool) \<Rightarrow> 'a result \<times> 's \<Rightarrow> bool" where
  "post Q r \<longleftrightarrow> Q (fst r) (snd r)"

lemma post_pair [simp]: "post Q (x, s) \<longleftrightarrow> Q x s"
  by (simp add: post_def)

lemma post_sbind:
  assumes "\<And>e s. r = (Inl e, s) \<Longrightarrow> Q (Inl e) s" and "\<And>x s. r = (Inr x, s) \<Longrightarrow> post Q (f x s)"
  shows "post Q (sbind r f)"
  using assms by (cases r; cases "fst r") (auto simp: post_def)

lemma call_Inl:
  "call partial f w = (Inl e, s) \<Longrightarrow> fs_table s = fs_table w \<or> (\<exists>n. fs_table s = partial n (fs_table w))"
  by (auto simp: call_def split: if_splits list.splits fault.splits sum.splits)

lemma io_eq: "io r = (Inr x, s) \<longleftrightarrow> r = (Inr x, s)" "io r = (Inl e, s) \<longleftrightarrow> (\<exists>n. r = (Inl n, s) \<and> e = io_error n)"
  by (auto simp: io_def split: prod.splits sum.splits)

lemma io_look_table: "io (look f w) = (r, s) \<Longrightarrow> fs_table s = fs_table w"
  using look_table [of f w] by (cases r) (auto simp: io_eq simp del: look_table)

lemma io_call_Inl:
  "io (call partial f w) = (Inl e, s) \<Longrightarrow> fs_table s = fs_table w \<or> (\<exists>n. fs_table s = partial n (fs_table w))"
  by (auto simp: io_eq dest: call_Inl)

lemma io_call_Inl_same: "io (call (\<lambda>_ t. t) f w) = (Inl e, s) \<Longrightarrow> fs_table s = fs_table w"
  by (auto dest: io_call_Inl)

lemma io_call_Inr: "io (call partial f w) = (Inr x, s) \<Longrightarrow> f (fs_table w) = Inr (x, fs_table s)"
  by (auto simp: io_eq dest: call_Inr)

lemma io_look_Inr: "io (look f w) = (Inr x, s) \<Longrightarrow> f (fs_table w) = Inr x \<and> fs_table s = fs_table w"
  by (auto simp: io_eq dest: look_Inr)

lemma mode_bits [simp]: "own_file 0x180" "own_dir 0x1C0"
  by (simp_all add: owner_only_def own_file_def own_dir_def)

text \<open>A umask that leaves the owner the right to read.\<close>

lemma umask_own: "m AND 0x100 = 0 \<Longrightarrow> own_file (0x180 AND NOT m)"
proof -
  assume "m AND 0x100 = 0"
  moreover have "(0x180 AND NOT m) AND 0x100 = (0x100 :: u32) XOR (m AND 0x100)"
    by (rule bit_eqI) (auto simp: bit_simps bit_numeral_rec split: nat.splits)
  ultimately have "(0x180 AND NOT m) AND 0x100 = (0x100 :: u32)"
    by simp
  moreover have "(0x100 :: u32) \<noteq> 0"
    by simp
  moreover have "(0x180 AND NOT m) AND 0x3F = (0 :: u32)"
    by (simp add: ac_simps)
  ultimately show ?thesis
    unfolding own_file_def owner_only_def by metis
qed

text \<open>No call changes the umask.\<close>

lemma io_umask: "fs_umask (snd x) = fs_umask w \<Longrightarrow> io x = (r, s) \<Longrightarrow> fs_umask s = fs_umask w"
  by (auto simp: io_def split: prod.splits sum.splits)

lemma path_umask [simp]: "fs_umask (snd (path_exists p w)) = fs_umask w" "fs_umask (snd (path_is_dir p w)) = fs_umask w"
  using look_umask [of "\<lambda>t. ebind (resolve t p) (metadata_of t)" w]
  by (auto simp: path_exists_def path_is_dir_def stat_def split: prod.split sum.split simp del: look_umask)

lemma call_umasks [simp]:
  "fs_umask (snd (mkdir p w)) = fs_umask w" "fs_umask (snd (set_permissions p x w)) = fs_umask w"
  "fs_umask (snd (symlink_metadata p w)) = fs_umask w" "fs_umask (snd (open_new p x w)) = fs_umask w"
  "fs_umask (snd (write_all i b w)) = fs_umask w" "fs_umask (snd (sync_all i w)) = fs_umask w"
  "fs_umask (snd (rename p q w)) = fs_umask w" "fs_umask (snd (open_existing p w)) = fs_umask w"
  "fs_umask (snd (remove_file p w)) = fs_umask w"
  by (simp_all add: mkdir_def set_permissions_def symlink_metadata_def open_new_def write_all_def sync_all_def rename_def open_existing_def
      remove_file_def)

lemma mkdir_or_dir_umask [simp]: "fs_umask (snd (mkdir_or_dir p w)) = fs_umask w"
proof -
  obtain r w1 r2 w2 where "mkdir p w = (r, w1)" "path_is_dir p w1 = (r2, w2)"
    by (metis surj_pair)
  then show ?thesis
    using call_umasks(1) [of p w] path_umask(2) [of p w1] by (auto simp: mkdir_or_dir_def split: sum.split bool.split)
qed

lemma create_dirs_umask [simp]: "fs_umask (snd (create_dirs ns w)) = fs_umask w"
proof (induction ns arbitrary: w)
  case (Cons n ns)
  obtain r w1 r2 w2 r3 w3 where m: "mkdir (rev (n # ns)) w = (r, w1)" and c: "create_dirs ns w1 = (r2, w2)" and d: "path_is_dir (rev (n # ns)) w1 = (r3, w3)"
    by (metis surj_pair)
  then show ?case
    using call_umasks(1) [of "rev (n # ns)" w] Cons.IH [of w1] path_umask(2) [of "rev (n # ns)" w1] mkdir_or_dir_umask [of "rev (n # ns)" w2]
    by (auto split: sum.split bool.split)
qed simp

lemma sbind_umask: "fs_umask (snd r) = fs_umask w \<Longrightarrow> (\<And>x s. fs_umask s = fs_umask w \<Longrightarrow> fs_umask (snd (f x s)) = fs_umask w) \<Longrightarrow>
   fs_umask (snd (sbind r f)) = fs_umask w"
  by (cases r; cases "fst r") auto

lemma io_umasks [simp]: "fs_umask (snd (io x)) = fs_umask (snd x)"
  by (auto simp: io_def split: prod.splits sum.splits)

lemma replace_state_umask [simp]: "fs_umask (snd (replace_state p q b w)) = fs_umask w"
  unfolding replace_state_def by (intro sbind_umask) simp_all

lemma validate_parent_umask [simp]: "fs_umask (snd (validate_parent p w)) = fs_umask w"
  unfolding validate_parent_def by (intro sbind_umask) simp_all

lemma save_file_umask: "fs_umask (snd (save_file p r b w)) = fs_umask w"
proof -
  have close: "fs_umask (snd (case x of (Inl e, w) \<Rightarrow> (Inl e, snd (remove_file q w)) | (Inr _, w) \<Rightarrow> (Inr (), w))) = fs_umask (snd x)"
    for x :: "unit result \<times> fs" and q
    by (auto split: prod.split sum.split)
  have check: "fs_umask (snd (case x of (Inl _, w) \<Rightarrow> (Inr (), w) | (Inr m, w) \<Rightarrow> (validate_file m, w))) = fs_umask (snd x)" for x
    by (auto split: prod.split sum.split)
  obtain ex w1 where e: "path_exists (file_parent p) w = (ex, w1)"
    by fastforce
  then have "fs_umask w1 = fs_umask w"
    using path_umask(1) [of "file_parent p" w] by simp
  then show ?thesis
    unfolding save_file_def Let_def e
    by (auto simp: close check create_dir_all_def intro!: sbind_umask split: if_splits)
qed

section \<open>A replacement survives a power failure\<close>

text \<open>Where a replacement can be, and where it is when it has succeeded.\<close>

definition progress ::
  "table \<Rightarrow> nat \<Rightarrow> inode \<Rightarrow> (string, nat) bmap \<Rightarrow> string \<Rightarrow> string \<Rightarrow> bytes \<Rightarrow> table \<Rightarrow> bool"
where
  "progress t0 d nd0 es0 n tmp b t \<longleftrightarrow>
     t = t0 \<or> (\<exists>i fin. unnamed t0 i \<and> replacing t0 d nd0 es0 n tmp i b fin t)"

definition finished ::
  "table \<Rightarrow> nat \<Rightarrow> inode \<Rightarrow> (string, nat) bmap \<Rightarrow> string \<Rightarrow> string \<Rightarrow> bytes \<Rightarrow> table \<Rightarrow> bool"
where
  "finished t0 d nd0 es0 n tmp b t \<longleftrightarrow>
     (\<exists>i. unnamed t0 i \<and> replacing t0 d nd0 es0 n tmp i b True t \<and> (\<forall>nd. bm_get d t = Some nd \<longrightarrow> i_past nd = []))"

lemma progressI: "unnamed t0 i \<Longrightarrow> replacing t0 d nd0 es0 n tmp i b fin t \<Longrightarrow> progress t0 d nd0 es0 n tmp b t"
  by (auto simp: progress_def)

lemma progress_start: "progress t0 d nd0 es0 n tmp b t0"
  by (simp add: progress_def)

lemma progress_unlink:
  assumes start: "replaceable t0 p d nd0 es0 n tmp v" and "progress t0 d nd0 es0 n tmp b (fs_table w)"
  shows "progress t0 d nd0 es0 n tmp b (fs_table (snd (remove_file (p @ [tmp]) w)))"
  unfolding remove_file_def
proof (rule call_inv [where P = "progress t0 d nd0 es0 n tmp b"])
  fix x t
  assume u: "unlink_node (p @ [tmp]) (fs_table w) = Inr (x, t)"
  from assms(2) consider "fs_table w = t0" | i fin where "unnamed t0 i" "replacing t0 d nd0 es0 n tmp i b fin (fs_table w)"
    by (auto simp: progress_def)
  then show "progress t0 d nd0 es0 n tmp b t"
  proof cases
    case 1
    moreover have "locate t0 (p @ [tmp]) = Inr (d, es0, tmp)" "bm_get tmp es0 = None"
      using start by (auto simp: replaceable_def entries_Some intro!: locate_in stored_resolve stored_search(1) durable_stored)
    ultimately show ?thesis
      using u by (simp add: unlink_node_def)
  next
    case 2
    then show ?thesis
      by (intro progressI [OF _ replacing_unlink [OF start _ _ u]])
  qed
qed (use assms(2) in auto)

definition outcome ::
  "table \<Rightarrow> nat \<Rightarrow> inode \<Rightarrow> (string, nat) bmap \<Rightarrow> string \<Rightarrow> string \<Rightarrow> bytes \<Rightarrow> unit result \<Rightarrow> fs \<Rightarrow> bool"
where
  "outcome t0 d nd0 es0 n tmp b r s \<longleftrightarrow>
     progress t0 d nd0 es0 n tmp b (fs_table s) \<and> (r = Inr () \<longrightarrow> finished t0 d nd0 es0 n tmp b (fs_table s))"

lemma file_parent_snoc [simp]: "file_parent (p @ [n]) = p"
  by (simp add: file_parent_def)

lemma outcome_Inl: "progress t0 d nd0 es0 n tmp b (fs_table s) \<Longrightarrow> outcome t0 d nd0 es0 n tmp b (Inl e) s"
  by (simp add: outcome_def)

lemma outcome_Inr: "finished t0 d nd0 es0 n tmp b (fs_table s) \<Longrightarrow> outcome t0 d nd0 es0 n tmp b (Inr ()) s"
  by (auto simp: outcome_def finished_def progress_def)

text \<open>The steps up to the renaming, which both saves have in common, in front of what follows.\<close>

lemma post_rename:
  assumes start: "replaceable t0 p d nd0 es0 n tmp v" and w: "fs_table w = t0" and umask: "fs_umask w AND 0x100 = 0"
    and cont: "\<And>i s. unnamed t0 i \<Longrightarrow> replacing t0 d nd0 es0 n tmp i b True (fs_table s) \<Longrightarrow> post (outcome t0 d nd0 es0 n tmp b) (K s)"
  shows "post (outcome t0 d nd0 es0 n tmp b) (sbind (io (open_new (p @ [tmp]) 0x180 w)) (\<lambda>file w.
     sbind (io (write_all file b w)) (\<lambda>_ w.
     sbind (io (sync_all file w)) (\<lambda>_ w.
     sbind (io (rename (p @ [tmp]) (p @ [n]) w)) (\<lambda>_ w. K w)))))"
proof (rule post_sbind)
  fix e s
  assume "io (open_new (p @ [tmp]) 0x180 w) = (Inl e, s)"
  then show "outcome t0 d nd0 es0 n tmp b (Inl e) s"
    unfolding open_new_def by (intro outcome_Inl) (simp add: io_call_Inl_same w progress_start)
next
  fix i w1
  assume "io (open_new (p @ [tmp]) 0x180 w) = (Inr i, w1)"
  then have make: "make_node \<lparr>i_mode = 0x180 AND NOT (fs_umask w), i_body = Regular [], i_dirty = True, i_past = []\<rparr> (p @ [tmp]) t0
      = Inr (i, fs_table w1)"
    unfolding open_new_def using w by (auto dest: io_call_Inr)
  note un = replacing_make(1) [OF start make]
  have d: "bm_get d t0 = Some nd0"
    using start by (simp add: replaceable_def)
  note f1 = replacing_make(3) [OF start make] and rep1 = replacing_make(2) [OF start make, of b]
  show "post (outcome t0 d nd0 es0 n tmp b) (sbind (io (write_all i b w1)) (\<lambda>_ w. sbind (io (sync_all i w)) (\<lambda>_ w.
     sbind (io (rename (p @ [tmp]) (p @ [n]) w)) (\<lambda>_ w. K w))))"
  proof (rule post_sbind)
    fix e s
    assume "io (write_all i b w1) = (Inl e, s)"
    then have "replacing t0 d nd0 es0 n tmp i b False (fs_table s)"
      unfolding write_all_def by (auto dest!: io_call_Inl intro: rep1 replacing_append [OF rep1 un d])
    then show "outcome t0 d nd0 es0 n tmp b (Inl e) s"
      by (intro outcome_Inl progressI [OF un])
  next
    fix x w2
    assume "io (write_all i b w1) = (Inr x, w2)"
    then have w2: "fs_table w2 = append_node i b (fs_table w1)"
      unfolding write_all_def by (auto dest: io_call_Inr)
    then have rep2: "replacing t0 d nd0 es0 n tmp i b False (fs_table w2)"
      by (simp add: replacing_append [OF rep1 un d])
    show "post (outcome t0 d nd0 es0 n tmp b) (sbind (io (sync_all i w2)) (\<lambda>_ w. sbind (io (rename (p @ [tmp]) (p @ [n]) w)) (\<lambda>_ w. K w)))"
    proof (rule post_sbind)
      fix e s
      assume "io (sync_all i w2) = (Inl e, s)"
      then show "outcome t0 d nd0 es0 n tmp b (Inl e) s"
        unfolding sync_all_def by (intro outcome_Inl progressI [OF un]) (auto dest!: io_call_Inl_same intro: rep2)
    next
      fix y w3
      assume "io (sync_all i w2) = (Inr y, w3)"
      then have w3: "fs_table w3 = sync_node i (fs_table w2)"
        unfolding sync_all_def by (auto dest: io_call_Inr)
      then have rep3: "replacing t0 d nd0 es0 n tmp i b False (fs_table w3)"
        by (simp add: replacing_sync_file [OF rep2 un d])
      have f3: "bm_get i (fs_table w3) = Some \<lparr>i_mode = 0x180 AND NOT (fs_umask w), i_body = Regular b, i_dirty = False, i_past = []\<rparr>"
        using f1 by (simp add: w3 w2 sync_node_def append_node_def change_def bmap_simps)
      show "post (outcome t0 d nd0 es0 n tmp b) (sbind (io (rename (p @ [tmp]) (p @ [n]) w3)) (\<lambda>_ w. K w))"
      proof (rule post_sbind)
        fix e s
        assume "io (rename (p @ [tmp]) (p @ [n]) w3) = (Inl e, s)"
        then show "outcome t0 d nd0 es0 n tmp b (Inl e) s"
          unfolding rename_def by (intro outcome_Inl progressI [OF un]) (auto dest!: io_call_Inl_same intro: rep3)
      next
        fix z w4
        assume "io (rename (p @ [tmp]) (p @ [n]) w3) = (Inr z, w4)"
        then have "rename_node (p @ [tmp]) (p @ [n]) (fs_table w3) = Inr (z, fs_table w4)"
          unfolding rename_def by (auto dest: io_call_Inr)
        then have "replacing t0 d nd0 es0 n tmp i b True (fs_table w4)"
          by (intro replacing_rename(1) [OF start un rep3 f3]) (simp_all add: fully_written_def versions_def umask_own umask)
        then show "post (outcome t0 d nd0 es0 n tmp b) (K w4)"
          by (rule cont [OF un])
      qed
    qed
  qed
qed

lemma post_sync_parent:
  assumes start: "replaceable t0 p d nd0 es0 n tmp v" and un: "unnamed t0 i"
    and rep: "replacing t0 d nd0 es0 n tmp i b True (fs_table w)"
  shows "post (outcome t0 d nd0 es0 n tmp b) (sbind (io (open_existing p w)) (\<lambda>dir w. sbind (io (sync_all dir w)) (\<lambda>_ w. (Inr (), w))))"
proof (rule post_sbind)
  fix e s
  assume "io (open_existing p w) = (Inl e, s)"
  then show "outcome t0 d nd0 es0 n tmp b (Inl e) s"
    unfolding open_existing_def using rep by (intro outcome_Inl progressI [OF un]) (auto dest!: io_look_table)
next
  fix d' w1
  assume "io (open_existing p w) = (Inr d', w1)"
  then have w1: "fs_table w1 = fs_table w" and d': "d' = d"
    unfolding open_existing_def using replacing_resolve [OF start un rep] by (auto dest!: io_look_Inr split: if_splits)
  have d: "bm_get d t0 = Some nd0"
    using start by (simp add: replaceable_def)
  show "post (outcome t0 d nd0 es0 n tmp b) (sbind (io (sync_all d' w1)) (\<lambda>_ w. (Inr (), w)))"
  proof (rule post_sbind)
    fix e s
    assume "io (sync_all d' w1) = (Inl e, s)"
    then show "outcome t0 d nd0 es0 n tmp b (Inl e) s"
      unfolding sync_all_def using rep w1 by (intro outcome_Inl progressI [OF un]) (auto dest!: io_call_Inl_same)
  next
    fix x s
    assume "io (sync_all d' w1) = (Inr x, s)"
    then have "fs_table s = sync_node d (fs_table w)"
      unfolding sync_all_def by (auto dest: io_call_Inr simp: w1 d')
    then show "post (outcome t0 d nd0 es0 n tmp b) (Inr (), s)"
      using replacing_sync_dir [OF rep un d] un by (auto intro!: outcome_Inr simp: finished_def)
  qed
qed

lemma replace_state_post:
  assumes start: "replaceable t0 p d nd0 es0 n tmp v" and w: "fs_table w = t0" and umask: "fs_umask w AND 0x100 = 0"
  shows "post (outcome t0 d nd0 es0 n tmp b) (replace_state (p @ [n]) (p @ [tmp]) b w)"
  unfolding replace_state_def file_parent_snoc
proof (rule post_rename [OF start w umask])
  fix i and s :: fs
  assume un: "unnamed t0 i" and rep: "replacing t0 d nd0 es0 n tmp i b True (fs_table s)"
  have d: "bm_get d t0 = Some nd0"
    using start by (simp add: replaceable_def)
  from replacing_locate [OF start un rep, of n] obtain es where "search (fs_table s) d = Inr es" "with_new es0 n tmp i es"
    by (metis (full_types))
  moreover have "link_at (fs_table s) i = None"
    using rep by (auto simp: replacing_def fully_written_def versions_def link_at_def split: option.split)
  ultimately have target: "resolve (fs_table s) (p @ [n]) = Inr i"
    by (intro resolve_file [OF replacing_resolve [OF start un rep]]) (auto simp: with_new_def)
  show "post (outcome t0 d nd0 es0 n tmp b) (sbind (io (set_permissions (p @ [n]) 0x180 s)) (\<lambda>_ w.
      sbind (io (open_existing p w)) (\<lambda>dir w. sbind (io (sync_all dir w)) (\<lambda>_ w. (Inr (), w)))))"
  proof (rule post_sbind)
    fix e s'
    assume "io (set_permissions (p @ [n]) 0x180 s) = (Inl e, s')"
    then show "outcome t0 d nd0 es0 n tmp b (Inl e) s'"
      unfolding set_permissions_def using rep by (intro outcome_Inl progressI [OF un]) (auto dest!: io_call_Inl_same)
  next
    fix x s'
    assume "io (set_permissions (p @ [n]) 0x180 s) = (Inr x, s')"
    then have "fs_table s' = change i (\<lambda>nd. nd\<lparr>i_mode := 0x180\<rparr>) (fs_table s)"
      unfolding set_permissions_def using target by (auto dest: io_call_Inr)
    then show "post (outcome t0 d nd0 es0 n tmp b)
        (sbind (io (open_existing p s')) (\<lambda>dir w. sbind (io (sync_all dir w)) (\<lambda>_ w. (Inr (), w))))"
      using replacing_chmod [OF rep un d mode_bits(1)]
      by (intro post_sync_parent [OF start un]) auto
  qed
qed

lemma replace_key_post:
  assumes start: "replaceable t0 p d nd0 es0 n tmp v" and w: "fs_table w = t0" and umask: "fs_umask w AND 0x100 = 0"
  shows "post (outcome t0 d nd0 es0 n tmp b) (replace_key (p @ [n]) (p @ [tmp]) b w)"
  unfolding replace_key_def file_parent_snoc
  by (rule post_rename [OF start w umask]) (rule post_sync_parent [OF start])

text \<open>The failed closure is followed by the removal of the temporary file.\<close>

lemma outcome_cleanup:
  assumes start: "replaceable t0 p d nd0 es0 n tmp v" and "post (outcome t0 d nd0 es0 n tmp b) r"
  shows "post (outcome t0 d nd0 es0 n tmp b)
    (case r of (Inl e, w) \<Rightarrow> (Inl e, snd (remove_file (p @ [tmp]) w)) | (Inr _, w) \<Rightarrow> (Inr (), w))"
  using assms(2) progress_unlink [OF start]
  by (auto simp: post_def outcome_def split: prod.splits sum.splits)

definition state_temp :: "128 word \<Rightarrow> string" where
  "state_temp r = ''.rtn-mq-state-'' @ hex32 r"

definition key_temp :: "128 word \<Rightarrow> string" where
  "key_temp r = ''.rtn-mq-key-'' @ hex32 r"

lemma validate_parent_table: "validate_parent p w = (r, s) \<Longrightarrow> fs_table s = fs_table w"
  unfolding validate_parent_def symlink_metadata_def
  using look_table [of "\<lambda>t. ebind (lresolve t p) (metadata_of t)" w]
  by (cases "look (\<lambda>t. ebind (lresolve t p) (metadata_of t)) w"; cases r)
    (auto simp: io_def result_simps split: sum.splits simp del: look_table)

lemma symlink_metadata_table: "symlink_metadata p w = (r, s) \<Longrightarrow> fs_table s = fs_table w"
  unfolding symlink_metadata_def using look_table [of "\<lambda>t. ebind (lresolve t p) (metadata_of t)" w]
  by (simp del: look_table)

lemma save_file_tail:
  assumes start: "replaceable (fs_table w) p d nd0 es0 n (state_temp r) v" and umask: "fs_umask w AND 0x100 = 0"
  shows "post (outcome (fs_table w) d nd0 es0 n (state_temp r) b)
    (sbind (validate_parent p w) (\<lambda>_ w.
     sbind (case symlink_metadata (p @ [n]) w of
              (Inl _, w) \<Rightarrow> (Inr (), w)
            | (Inr m, w) \<Rightarrow> (validate_file m, w)) (\<lambda>_ w.
     (let temporary = p @ [''.rtn-mq-state-'' @ hex32 r] in
      case replace_state (p @ [n]) temporary b w of
        (Inl e, w) \<Rightarrow> (Inl e, snd (remove_file temporary w))
      | (Inr _, w) \<Rightarrow> (Inr (), w)))))"
proof (rule post_sbind)
  fix e s
  assume "validate_parent p w = (Inl e, s)"
  then show "outcome (fs_table w) d nd0 es0 n (state_temp r) b (Inl e) s"
    by (intro outcome_Inl) (simp add: validate_parent_table progress_start)
next
  fix x s
  assume v: "validate_parent p w = (Inr x, s)"
  then have s: "fs_table s = fs_table w" and su: "fs_umask s = fs_umask w"
    using validate_parent_umask [of p w] by (simp_all add: validate_parent_table [OF v])
  show "post (outcome (fs_table w) d nd0 es0 n (state_temp r) b)
    (sbind (case symlink_metadata (p @ [n]) s of (Inl _, w) \<Rightarrow> (Inr (), w) | (Inr m, w) \<Rightarrow> (validate_file m, w)) (\<lambda>_ w.
     (let temporary = p @ [''.rtn-mq-state-'' @ hex32 r] in
      case replace_state (p @ [n]) temporary b w of
        (Inl e, w) \<Rightarrow> (Inl e, snd (remove_file temporary w))
      | (Inr _, w) \<Rightarrow> (Inr (), w))))"
  proof (rule post_sbind)
    fix e s'
    assume "(case symlink_metadata (p @ [n]) s of (Inl _, w) \<Rightarrow> (Inr (), w) | (Inr m, w) \<Rightarrow> (validate_file m, w)) = (Inl e, s')"
    then have "fs_table s' = fs_table w"
      using symlink_metadata_table [of "p @ [n]" s] s by (auto split: prod.splits sum.splits)
    then show "outcome (fs_table w) d nd0 es0 n (state_temp r) b (Inl e) s'"
      by (intro outcome_Inl) (simp add: progress_start)
  next
    fix y s'
    assume "(case symlink_metadata (p @ [n]) s of (Inl _, w) \<Rightarrow> (Inr (), w) | (Inr m, w) \<Rightarrow> (validate_file m, w)) = (Inr y, s')"
    then obtain x0 where x0: "symlink_metadata (p @ [n]) s = (x0, s')"
      by (auto split: prod.splits sum.splits)
    have "fs_umask s' = fs_umask s"
      using call_umasks(3) [of "p @ [n]" s] unfolding x0 by simp
    then have "fs_table s' = fs_table w" "fs_umask s' AND 0x100 = 0"
      using symlink_metadata_table [OF x0] s su umask by simp_all
    from outcome_cleanup [OF start replace_state_post [OF start this]]
    show "post (outcome (fs_table w) d nd0 es0 n (state_temp r) b)
     (let temporary = p @ [''.rtn-mq-state-'' @ hex32 r] in
      case replace_state (p @ [n]) temporary b s' of
        (Inl e, w) \<Rightarrow> (Inl e, snd (remove_file temporary w))
      | (Inr _, w) \<Rightarrow> (Inr (), w))"
      unfolding Let_def state_temp_def [symmetric] .
  qed
qed

text \<open>Saving with any faults: where the file system is afterwards. When the first call fails, the permissions of the
  directory are set again.\<close>

lemma save_file_post:
  assumes start: "replaceable (fs_table w) p d nd0 es0 n (state_temp r) v" and umask: "fs_umask w AND 0x100 = 0"
  shows "\<exists>t0 nd. replaceable t0 p d nd es0 n (state_temp r) v
    \<and> post (outcome t0 d nd es0 n (state_temp r) b) (save_file (p @ [n]) r b w)"
proof (cases "length b > MAX_BYTES")
  case True
  then show ?thesis
    using start progress_start unfolding save_file_def outcome_def post_def by fastforce
next
  case False
  have p: "resolve (fs_table w) p = Inr d"
    using start by (auto simp: replaceable_def intro: stored_resolve durable_stored)
  obtain existed w1 where e: "path_exists p w = (existed, w1)"
    by fastforce
  then have w1: "fs_table w1 = fs_table w"
    using path_exists_table [of p w] by simp
  obtain x w2 where c: "io (create_dir_all p w1) = (x, w2)"
    by fastforce
  then have w2: "fs_table w2 = fs_table w"
    using create_dir_all_exists [of w1 p d] p w1 by (auto simp: io_def split: prod.splits sum.splits)
  define y w3 where "y = fst (if existed then (Inr (), w2) else io (set_permissions p 0x1C0 w2))"
    and "w3 = snd (if existed then (Inr (), w2) else io (set_permissions p 0x1C0 w2))"
  then have y: "(if existed then (Inr (), w2) else io (set_permissions p 0x1C0 w2)) = (y, w3)"
    by simp
  have w3: "fs_table w3 = fs_table w \<or> (\<exists>u. y = Inr u) \<and> fs_table w3 = change d (\<lambda>nd. nd\<lparr>i_mode := 0x1C0\<rparr>) (fs_table w)"
    using y p w2 unfolding set_permissions_def
    by (cases y) (auto dest!: io_call_Inr io_call_Inl_same split: if_splits)
  have u3: "fs_umask w3 AND 0x100 = 0"
    using umask path_umask(1) [of p w] create_dirs_umask [of "rev p" w1] call_umasks(2) [of p "0x1C0" w2] e c
      io_umasks [of "create_dir_all p w1"] io_umasks [of "set_permissions p 0x1C0 w2"]
    by (auto simp: w3_def create_dir_all_def)
  have t3: "\<exists>nd. replaceable (fs_table w3) p d nd es0 n (state_temp r) v"
    using w3 start replaceable_chmod [OF start mode_bits(2)] by auto
  show ?thesis
  proof (cases "\<exists>u v. x = Inr u \<and> y = Inr v")
    case True
    with t3 save_file_tail [OF _ u3, of p d _ es0 n r v b] False e c y show ?thesis
      by (fastforce simp: save_file_def)
  next
    case fails: False
    then have "post (outcome (fs_table w) d nd0 es0 n (state_temp r) b) (save_file (p @ [n]) r b w)"
      using False e c y w2 w3
      by (cases x; cases y) (auto simp: save_file_def outcome_def progress_start)
    with start show ?thesis
      by blast
  qed
qed

section \<open>Reading what is stored\<close>

lemma io_pair [simp]: "io (Inl e, w) = (Inl (io_error e), w)" "io (Inr x, w) = (Inr x, w)"
  by (simp_all add: io_def)

lemma stat_boot: "path_exists p (boot m t) = (\<exists>md. ebind (resolve t p) (metadata_of t) = Inr md, boot m t)"
  by (auto simp: path_exists_def stat_def split: sum.split)

definition private_file :: "table \<Rightarrow> nat \<Rightarrow> bytes \<Rightarrow> bool" where
  "private_file t i b \<longleftrightarrow>
     (\<exists>f. bm_get i t = Some f \<and> i_body f = Regular b \<and> owner_only (i_mode f) \<and> length (links t i) = 1)"

definition private_dir :: "table \<Rightarrow> nat \<Rightarrow> bool" where
  "private_dir t d \<longleftrightarrow> (\<exists>nd es. bm_get d t = Some nd \<and> i_body nd = Directory es \<and> owner_only (i_mode nd))"

lemma validate_file_iff:
  "metadata_of t i = Inr md \<Longrightarrow> validate_file md = Inr () \<longleftrightarrow> (\<exists>b. private_file t i b)"
  "metadata_of t i = Inr md \<Longrightarrow> id_validate md = Inr () \<longleftrightarrow> (\<exists>b. private_file t i b)"
  by (auto simp: metadata_of_def validate_file_def id_validate_def private_file_def result_simps is_symlink_def group_or_other_def
      owner_only_def split: option.splits body.splits)

lemma directory_metadata:
  "(\<exists>md. metadata_of t d = Inr md \<and> md_type md = IsDir \<and> \<not> group_or_other md) \<longleftrightarrow> private_dir t d"
  by (auto simp: metadata_of_def private_dir_def group_or_other_def owner_only_def split: option.splits body.splits)

lemma validate_parent_boot:
  shows "snd (validate_parent p (boot m t)) = boot m t"
    and "fst (validate_parent p (boot m t)) = Inr () \<longleftrightarrow> (\<exists>d. lresolve t p = Inr d \<and> private_dir t d)"
proof -
  have v: "validate_parent p (boot m t) =
      (case ebind (lresolve t p) (metadata_of t) of
         Inl e \<Rightarrow> Inl (io_error e)
       | Inr md \<Rightarrow> rbind (fail_if (md_type md \<noteq> IsDir \<or> is_symlink md) (Config ''persistent-state directory must be a real directory'')) (\<lambda>_.
           fail_if (group_or_other md) (Config ''persistent-state directory must be private (0700)'')), boot m t)"
    by (cases "ebind (lresolve t p) (metadata_of t)")
      (auto simp: validate_parent_def symlink_metadata_def sbind_def split: sum.split)
  then show "snd (validate_parent p (boot m t)) = boot m t"
    by simp
  from v show "fst (validate_parent p (boot m t)) = Inr () \<longleftrightarrow> (\<exists>d. lresolve t p = Inr d \<and> private_dir t d)"
    unfolding directory_metadata [symmetric]
    by (cases "ebind (lresolve t p) (metadata_of t)")
      (auto simp: result_simps is_symlink_def ebind_def split: sum.splits if_splits)
qed

lemma private_dir_entries: "private_dir t d \<Longrightarrow> entries t d \<noteq> None"
  by (auto simp: private_dir_def entries_def)

text \<open>What can be loaded: what is stored in a private directory that may be searched, in a private file that may be read.\<close>

definition loadable :: "table \<Rightarrow> path \<Rightarrow> nat \<Rightarrow> string \<Rightarrow> bytes option \<Rightarrow> bool" where
  "loadable t p d n v \<longleftrightarrow> lresolve t p = Inr d \<and> private_dir t d
     \<and> (\<exists>es. search t d = Inr es \<and> (case v of None \<Rightarrow> bm_get n es = None
         | Some b \<Rightarrow> \<exists>i. bm_get n es = Some i \<and> private_file t i b \<and> permits 0x100 t i))"

lemma stored_loadable: "stored t p d n v \<Longrightarrow> loadable t p d n v"
proof -
  assume "stored t p d n v"
  then obtain nd es where "lresolve t p = Inr d" "bm_get d t = Some nd" "own_dir (i_mode nd)" "i_body nd = Directory es" "held t (bm_get n es) v"
    by (auto simp: stored_def)
  moreover from this have "private_dir t d" "search t d = Inr es"
    by (auto simp: private_dir_def search_Inr entries_Some permits_def own_dir_def)
  ultimately show ?thesis
    by (cases v) (fastforce simp: loadable_def held_def private_file_def permits_def own_file_def split: option.splits)+
qed

lemma stored_unique: "stored t p d n v \<Longrightarrow> stored t p d n v' \<Longrightarrow> v = v'"
  by (auto simp: stored_def held_def split: option.splits)

lemma lresolve_in:
  "resolve t p = Inr d \<Longrightarrow> search t d = Inr es \<Longrightarrow>
     lresolve t (p @ [n]) = (case bm_get n es of None \<Rightarrow> Inl ENOENT | Some i \<Rightarrow> Inr i)"
  by (simp add: lresolve_def locate_def)

lemma lresolve_snoc_Inr:
  "lresolve t (p @ [n]) = Inr i \<longleftrightarrow> (\<exists>d es. resolve t p = Inr d \<and> search t d = Inr es \<and> bm_get n es = Some i)"
proof
  show "lresolve t (p @ [n]) = Inr i \<Longrightarrow> \<exists>d es. resolve t p = Inr d \<and> search t d = Inr es \<and> bm_get n es = Some i"
    by (auto simp: lresolve_def locate_def result_simps split: option.splits)
qed (auto simp: lresolve_in)

lemma entries_metadata: "entries t d = Some es \<Longrightarrow> \<exists>md. metadata_of t d = Inr md"
  by (auto simp: entries_Some metadata_of_def)

lemma private_file_metadata: "private_file t i b \<Longrightarrow> \<exists>md. metadata_of t i = Inr md"
  by (auto simp: private_file_def metadata_of_def)

lemma private_file_link: "private_file t i b \<Longrightarrow> link_at t i = None"
  by (auto simp: private_file_def link_at_def)

lemma private_file_read:
  "private_file t i b \<Longrightarrow> read_take i k (boot m t) = (Inr (take k b), boot m t)"
  by (auto simp: private_file_def read_take_def)

lemma private_file_unique: "private_file t i b \<Longrightarrow> private_file t i c \<Longrightarrow> b = c"
  by (auto simp: private_file_def)

text \<open>Opening and reading a file that passed the check.\<close>

lemma read_private:
  assumes "lresolve t p = Inr i" and "private_file t i b"
  obtains md where "symlink_metadata p (boot m t) = (Inr md, boot m t)" "validate_file md = Inr ()" "id_validate md = Inr ()"
    "open_nofollow p (boot m t) = (if permits 0x100 t i then Inr i else Inl EACCES, boot m t)" "file_metadata i (boot m t) = (Inr md, boot m t)"
proof -
  from private_file_metadata [OF assms(2)] obtain md where md: "metadata_of t i = Inr md"
    by blast
  with assms private_file_link [OF assms(2)] validate_file_iff [OF md] show ?thesis
    by (intro that [of md]) (auto simp: symlink_metadata_def open_nofollow_def file_metadata_def)
qed

lemma load_parent_ok:
  assumes "lresolve t p = Inr d" and "private_dir t d"
  shows "path_exists p (boot m t) = (True, boot m t)" and "validate_parent p (boot m t) = (Inr (), boot m t)"
proof -
  obtain es where "entries t d = Some es"
    using private_dir_entries [OF assms(2)] by blast
  then show "path_exists p (boot m t) = (True, boot m t)"
    using entries_metadata resolve_lresolve [OF assms(1)] by (force simp: stat_boot)
  show "validate_parent p (boot m t) = (Inr (), boot m t)"
    using validate_parent_boot [of p m t] assms by (auto intro: prod_eqI)
qed

lemma load_file_loadable:
  assumes "loadable t p d n v" and "case v of None \<Rightarrow> True | Some b \<Rightarrow> length b \<le> MAX_BYTES"
  shows "load_file (p @ [n]) (boot m t) = (Inr v, boot m t)"
proof -
  from assms(1) obtain es where p: "lresolve t p = Inr d" "private_dir t d" and es: "search t d = Inr es"
    and v: "case v of None \<Rightarrow> bm_get n es = None | Some b \<Rightarrow> \<exists>i. bm_get n es = Some i \<and> private_file t i b \<and> permits 0x100 t i"
    by (auto simp: loadable_def)
  have l: "lresolve t (p @ [n]) = (case bm_get n es of None \<Rightarrow> Inl ENOENT | Some i \<Rightarrow> Inr i)"
    using p es by (intro lresolve_in resolve_lresolve) (auto simp: search_Inr)
  show ?thesis
  proof (cases v)
    case None
    with l v load_parent_ok [OF p, of m] show ?thesis
      by (simp add: load_file_def symlink_metadata_def)
  next
    case (Some b)
    with v obtain i where i: "bm_get n es = Some i" and f: "private_file t i b" and "permits 0x100 t i"
      by auto
    with l have "lresolve t (p @ [n]) = Inr i"
      by simp
    from read_private [OF this f] \<open>permits 0x100 t i\<close> obtain md where "symlink_metadata (p @ [n]) (boot m t) = (Inr md, boot m t)"
      "validate_file md = Inr ()" "open_nofollow (p @ [n]) (boot m t) = (Inr i, boot m t)"
      "file_metadata i (boot m t) = (Inr md, boot m t)"
      by metis
    with Some assms(2) load_parent_ok [OF p, of m] private_file_read [OF f] show ?thesis
      by (simp add: load_file_def)
  qed
qed

lemmas load_file_stored = load_file_loadable [OF stored_loadable]

text \<open>What a load returns, whatever calls fail in it: the contents of a private file.\<close>

lemma read_checked:
  assumes "io (open_nofollow p w) = (Inr i, w1)" and "io (file_metadata i w1) = (Inr md, w2)"
    and "validate_file md = Inr () \<or> id_validate md = Inr ()" and "io (read_take i k w2) = (Inr b, w3)"
  shows "fs_table w3 = fs_table w \<and> lresolve (fs_table w) p = Inr i \<and> permits 0x100 (fs_table w) i \<and> (\<exists>c. private_file (fs_table w) i c \<and> b = take k c)"
proof -
  have 1: "lresolve (fs_table w) p = Inr i" "permits 0x100 (fs_table w) i" "fs_table w1 = fs_table w"
    using assms(1) by (auto simp: open_nofollow_def result_simps dest!: io_look_Inr split: if_splits)
  have 2: "metadata_of (fs_table w) i = Inr md" "fs_table w2 = fs_table w"
    using assms(2) 1(3) by (auto simp: file_metadata_def dest!: io_look_Inr)
  then obtain c where c: "private_file (fs_table w) i c"
    using validate_file_iff [OF 2(1)] assms(3) by blast
  moreover have "b = take k c" "fs_table w3 = fs_table w"
    using assms(4) 2(2) c by (auto simp: read_take_def private_file_def dest!: io_look_Inr)
  ultimately show ?thesis
    using 1 by blast
qed

lemma load_file_private:
  assumes "load_file p w = (Inr (Some b), w')"
  shows "\<exists>i. lresolve (fs_table w) p = Inr i \<and> private_file (fs_table w) i b \<and> permits 0x100 (fs_table w) i" and "length b \<le> MAX_BYTES"
proof -
  obtain ex w1 where e: "path_exists (file_parent p) w = (ex, w1)"
    by fastforce
  then have w1: "fs_table w1 = fs_table w"
    using path_exists_table [of "file_parent p" w] by simp
  obtain u w2 where v: "(if ex then validate_parent (file_parent p) w1 else (Inr (), w1)) = (u, w2)"
    by fastforce
  then have w2: "fs_table w2 = fs_table w"
    using w1 validate_parent_table by (auto split: if_splits)
  obtain x w3 where m: "symlink_metadata p w2 = (x, w3)"
    by fastforce
  then have w3: "fs_table w3 = fs_table w"
    using symlink_metadata_table w2 by metis
  from assms obtain i md w4 w5 c where steps: "io (open_nofollow p w3) = (Inr i, w4)" "io (file_metadata i w4) = (Inr md, w5)"
      "validate_file md = Inr ()" "io (read_take i (MAX_BYTES + 1) w5) = (Inr c, w')" "c = b" and len: "length b \<le> MAX_BYTES"
    by (cases u; cases x) (auto simp: load_file_def e v m result_simps split: if_splits)
  from read_checked [OF steps(1,2) _ steps(4)] steps(3,5) len w3
  show "\<exists>i. lresolve (fs_table w) p = Inr i \<and> private_file (fs_table w) i b \<and> permits 0x100 (fs_table w) i" "length b \<le> MAX_BYTES"
    by (auto simp: min_def split: if_splits)
qed

lemma id_load_private:
  assumes "id_load p w = (Inr b, w')"
  shows "length b = 32 \<and> (\<exists>i. lresolve (fs_table w) p = Inr i \<and> private_file (fs_table w) i b \<and> permits 0x100 (fs_table w) i)"
proof -
  obtain x w1 where m: "symlink_metadata p w = (x, w1)"
    by fastforce
  then have w1: "fs_table w1 = fs_table w"
    by (rule symlink_metadata_table)
  from assms obtain i md w4 w5 where steps: "io (open_nofollow p w1) = (Inr i, w4)" "io (file_metadata i w4) = (Inr md, w5)"
      "id_validate md = Inr ()" "io (read_take i 33 w5) = (Inr b, w')" and len: "length b = 32"
    by (cases x) (auto simp: id_load_def m result_simps)
  from read_checked [OF steps(1,2) _ steps(4)] steps(3) len w1 show ?thesis
    by (auto simp: min_def split: if_splits)
qed

lemma load_file_Some:
  assumes "load_file (p @ [n]) (boot m t) = (Inr (Some b), w)"
  shows "\<exists>d. loadable t p d n (Some b)"
proof -
  from load_file_private(1) [OF assms] obtain i where i: "lresolve t (p @ [n]) = Inr i" "private_file t i b" "permits 0x100 t i"
    by (auto simp: boot_def)
  then obtain d es where d: "resolve t p = Inr d" "search t d = Inr es" "bm_get n es = Some i"
    by (auto simp: lresolve_snoc_Inr)
  with entries_metadata have there: "path_exists p (boot m t) = (True, boot m t)"
    by (force simp: stat_boot search_Inr)
  with assms validate_parent_boot(1) [of p m t] have "fst (validate_parent p (boot m t)) = Inr ()"
    by (cases "validate_parent p (boot m t)") (auto simp: load_file_def result_simps)
  then obtain d' where d': "lresolve t p = Inr d'" "private_dir t d'"
    using validate_parent_boot(2) by blast
  moreover have "d' = d"
    using resolve_lresolve [OF d'(1) private_dir_entries [OF d'(2)]] d by simp
  ultimately show ?thesis
    using d i by (auto simp: loadable_def)
qed

lemma id_load_iff:
  "id_load p (boot m t) = (Inr b, boot m t) \<longleftrightarrow>
     length b = 32 \<and> (\<exists>i. lresolve t p = Inr i \<and> private_file t i b \<and> permits 0x100 t i)"
proof
  assume "length b = 32 \<and> (\<exists>i. lresolve t p = Inr i \<and> private_file t i b \<and> permits 0x100 t i)"
  then obtain i where i: "lresolve t p = Inr i" and f: "private_file t i b" "permits 0x100 t i" and b: "length b = 32"
    by blast
  from read_private [OF i f(1), of m] obtain md where "symlink_metadata p (boot m t) = (Inr md, boot m t)"
    "id_validate md = Inr ()" "open_nofollow p (boot m t) = (if permits 0x100 t i then Inr i else Inl EACCES, boot m t)"
    "file_metadata i (boot m t) = (Inr md, boot m t)" .
  with b f(2) private_file_read [OF f(1)] show "id_load p (boot m t) = (Inr b, boot m t)"
    by (simp add: id_load_def)
next
  assume "id_load p (boot m t) = (Inr b, boot m t)"
  then show "length b = 32 \<and> (\<exists>i. lresolve t p = Inr i \<and> private_file t i b \<and> permits 0x100 t i)"
    using id_load_private [of p "boot m t" b "boot m t"] by (simp add: boot_def)
qed

section \<open>Saving a key\<close>

lemma id_save_post:
  assumes start: "replaceable (fs_table w) p d nd0 es0 n (key_temp r) v" and umask: "fs_umask w AND 0x100 = 0"
  shows "post (outcome (fs_table w) d nd0 es0 n (key_temp r) b) (id_save (p @ [n]) r b w)"
  unfolding id_save_def file_parent_snoc
proof (rule post_sbind)
  fix e s
  assume "io (symlink_metadata p w) = (Inl e, s)"
  then show "outcome (fs_table w) d nd0 es0 n (key_temp r) b (Inl e) s"
    unfolding symlink_metadata_def by (intro outcome_Inl) (auto dest!: io_look_table simp: progress_start)
next
  fix md s
  assume md: "io (symlink_metadata p w) = (Inr md, s)"
  then have s: "fs_table s = fs_table w"
    unfolding symlink_metadata_def by (rule io_look_table)
  have su: "fs_umask s = fs_umask w"
    by (rule io_umask [OF _ md]) simp
  let ?check = "case symlink_metadata (p @ [n]) s of
      (Inl e, w) \<Rightarrow> if e = ENOENT then (Inr (), w) else (Inl (io_error e), w) | (Inr m, w) \<Rightarrow> (id_validate m, w)"
  obtain x s1 where m: "symlink_metadata (p @ [n]) s = (x, s1)"
    by fastforce
  have check: "fs_table (snd ?check) = fs_table w"
    using symlink_metadata_table [OF m] s by (cases x) (simp_all add: m)
  have check_umask: "fs_umask (snd ?check) AND 0x100 = 0"
    using call_umasks(3) [of "p @ [n]" s] su umask by (cases x) (simp_all add: m)
  have rest: "post (outcome (fs_table w) d nd0 es0 n (key_temp r) b) (sbind ?check (\<lambda>_ w.
      let temporary = p @ [''.rtn-mq-key-'' @ hex32 r] in
      case replace_key (p @ [n]) temporary b w of (Inl e, w) \<Rightarrow> (Inl e, snd (remove_file temporary w)) | (Inr _, w) \<Rightarrow> (Inr (), w)))"
  proof (rule post_sbind)
    fix e s'
    assume "?check = (Inl e, s')"
    with check show "outcome (fs_table w) d nd0 es0 n (key_temp r) b (Inl e) s'"
      by (intro outcome_Inl) (simp add: progress_start)
  next
    fix y s'
    assume "?check = (Inr y, s')"
    with check check_umask have "fs_table s' = fs_table w" "fs_umask s' AND 0x100 = 0"
      by simp_all
    from outcome_cleanup [OF start replace_key_post [OF start this]]
    show "post (outcome (fs_table w) d nd0 es0 n (key_temp r) b) (let temporary = p @ [''.rtn-mq-key-'' @ hex32 r] in
      case replace_key (p @ [n]) temporary b s' of (Inl e, w) \<Rightarrow> (Inl e, snd (remove_file temporary w)) | (Inr _, w) \<Rightarrow> (Inr (), w))"
      unfolding Let_def key_temp_def [symmetric] .
  qed
  show "post (outcome (fs_table w) d nd0 es0 n (key_temp r) b)
     (sbind (fail_if (md_type md \<noteq> IsDir \<or> is_symlink md \<or> group_or_other md)
              (Config ''key directory must be private (0700) and not a symlink''), s) (\<lambda>_ w.
      sbind (case symlink_metadata (p @ [n]) w of
          (Inl e, w) \<Rightarrow> if e = ENOENT then (Inr (), w) else (Inl (io_error e), w) | (Inr m, w) \<Rightarrow> (id_validate m, w)) (\<lambda>_ w.
      let temporary = p @ [''.rtn-mq-key-'' @ hex32 r] in
      case replace_key (p @ [n]) temporary b w of (Inl e, w) \<Rightarrow> (Inl e, snd (remove_file temporary w)) | (Inr _, w) \<Rightarrow> (Inr (), w))))"
  proof (rule post_sbind)
    fix e s'
    assume "(fail_if (md_type md \<noteq> IsDir \<or> is_symlink md \<or> group_or_other md)
              (Config ''key directory must be private (0700) and not a symlink''), s) = (Inl e, s')"
    with s show "outcome (fs_table w) d nd0 es0 n (key_temp r) b (Inl e) s'"
      by (intro outcome_Inl) (auto simp: progress_start)
  qed (use rest in auto)
qed

section \<open>Saving succeeds when no call fails\<close>

lemma boot_simps [simp]: "fs_table (boot m t) = t" "fs_umask (boot m t) = m"
  by (simp_all add: boot_def)

lemma entries_cong: "bm_get d t = bm_get d u \<Longrightarrow> entries t d = entries u d"
  by (simp add: entries_def)

lemma rename_succeeds:
  assumes start: "replaceable t0 p d nd0 es0 n tmp v" and umask: "m AND 0x100 = 0"
  obtains i t1 t4 where "make_node \<lparr>i_mode = 0x180 AND NOT m, i_body = Regular [], i_dirty = True, i_past = []\<rparr> (p @ [tmp]) t0 = Inr (i, t1)"
    "rename_node (p @ [tmp]) (p @ [n]) (sync_node i (append_node i b t1)) = Inr ((), t4)"
    "unnamed t0 i" "replacing t0 d nd0 es0 n tmp i b True t4"
proof -
  let ?F = "\<lparr>i_mode = 0x180 AND NOT m, i_body = Regular [], i_dirty = True, i_past = []\<rparr>"
  from start have s: "stored t0 p d n v" and d: "bm_get d t0 = Some nd0" "i_body nd0 = Directory es0" and tmp: "bm_get tmp es0 = None"
    and n: "n \<noteq> tmp"
    by (auto simp: replaceable_def intro: durable_stored)
  have "locate t0 (p @ [tmp]) = Inr (d, es0, tmp)"
    by (rule locate_in [OF stored_resolve [OF s] stored_search(1) [OF s]]) (use d in \<open>simp add: entries_Some\<close>)
  moreover have "permits 0x80 t0 d"
    using s d by (intro stored_search(2) [of t0 p d n v es0]) (auto simp: entries_Some)
  ultimately obtain i t1 where make: "make_node ?F (p @ [tmp]) t0 = Inr (i, t1)"
    and t1: "t1 = set_entries d (bm_put tmp i es0) (bm_put i ?F t0)"
    using tmp by (auto simp: make_node_def bm_has_def Let_def)
  note un = replacing_make(1) [OF start make] and f1 = replacing_make(3) [OF start make]
  define t3 where "t3 = sync_node i (append_node i b t1)"
  have rep3: "replacing t0 d nd0 es0 n tmp i b False t3"
    unfolding t3_def by (intro replacing_sync_file replacing_append replacing_make(2) [OF start make] un d)
  have f3: "bm_get i t3 = Some \<lparr>i_mode = 0x180 AND NOT m, i_body = Regular b, i_dirty = False, i_past = []\<rparr>"
    using f1 by (simp add: t3_def sync_node_def append_node_def change_def bmap_simps)
  have "i \<noteq> d"
    using un d by (auto simp: unnamed_def)
  then have "entries t3 d = Some (bm_put tmp i es0)"
    using d by (simp add: entries_def t3_def t1 sync_node_def append_node_def set_entries_def change_def bmap_simps)
  then have e3: "search t3 d = Inr (bm_put tmp i es0)"
    using replacing_permits [OF start rep3] by (simp add: searchI)
  note r3 = replacing_resolve [OF start un rep3]
  have "entries t3 j = None" if j: "bm_get n es0 = Some j" for j
  proof -
    have "entries t0 j = None" "j \<noteq> d" "j \<noteq> i"
      using s d j un by (auto simp: stored_def held_def entries_def unnamed_def versions_def split: option.splits)
    with rep3 show ?thesis
      by (simp add: replacing_def entries_def)
  qed
  moreover have "bm_get n es0 \<noteq> Some i"
    using un d by (auto simp: unnamed_def versions_def)
  ultimately have t4: "rename_node (p @ [tmp]) (p @ [n]) t3 = Inr ((), set_entries d (bm_put n i (bm_del tmp (bm_put tmp i es0))) t3)"
    (is "_ = Inr ((), ?t4)")
    using n replacing_permits [OF start rep3, of "0x80"] locate_in [OF r3 e3] by (cases "bm_get n es0") (auto simp: rename_node_def bmap_simps bm_has_def)
  then have "replacing t0 d nd0 es0 n tmp i b True ?t4"
    by (intro replacing_rename(1) [OF start un rep3 f3]) (simp_all add: fully_written_def versions_def umask_own umask)
  with make t4 un that show ?thesis
    by (simp add: t3_def)
qed

lemma replace_succeeds:
  assumes start: "replaceable t0 p d nd0 es0 n tmp v" and umask: "m AND 0x100 = 0"
  shows "\<exists>t. replace_state (p @ [n]) (p @ [tmp]) b (boot m t0) = (Inr (), boot m t)"
    and "\<exists>t. replace_key (p @ [n]) (p @ [tmp]) b (boot m t0) = (Inr (), boot m t)"
proof -
  from rename_succeeds [OF start umask] obtain i t1 t4
    where steps: "make_node \<lparr>i_mode = 0x180 AND NOT m, i_body = Regular [], i_dirty = True, i_past = []\<rparr> (p @ [tmp]) t0 = Inr (i, t1)"
      "rename_node (p @ [tmp]) (p @ [n]) (sync_node i (append_node i b t1)) = Inr ((), t4)"
    and un: "unnamed t0 i" and rep: "replacing t0 d nd0 es0 n tmp i b True t4" .
  have d: "bm_get d t0 = Some nd0"
    using start by (simp add: replaceable_def)
  from replacing_locate [OF start un rep, of n] obtain es where "search t4 d = Inr es" "with_new es0 n tmp i es"
    by (metis (full_types))
  moreover have "link_at t4 i = None"
    using rep by (auto simp: replacing_def fully_written_def versions_def link_at_def split: option.split)
  ultimately have target: "resolve t4 (p @ [n]) = Inr i"
    by (intro resolve_file [OF replacing_resolve [OF start un rep]]) (auto simp: with_new_def)
  note calls = open_new_def write_all_def sync_all_def rename_def set_permissions_def open_existing_def call_boot
  show "\<exists>t. replace_state (p @ [n]) (p @ [tmp]) b (boot m t0) = (Inr (), boot m t)"
    using steps target replacing_resolve [OF start un replacing_chmod [OF rep un d mode_bits(1)]]
      replacing_permits [OF start replacing_chmod [OF rep un d mode_bits(1)], of "0x100"]
    by (auto simp: replace_state_def calls)
  show "\<exists>t. replace_key (p @ [n]) (p @ [tmp]) b (boot m t0) = (Inr (), boot m t)"
    using steps replacing_resolve [OF start un rep] replacing_permits [OF start rep, of "0x100"] by (auto simp: replace_key_def calls)
qed

lemma stored_validates:
  assumes "stored t p d n v"
  shows "(case symlink_metadata (p @ [n]) (boot m t) of (Inl _, w) \<Rightarrow> (Inr (), w) | (Inr md, w) \<Rightarrow> (validate_file md, w))
      = (Inr (), boot m t)"
    and "(case symlink_metadata (p @ [n]) (boot m t) of
        (Inl e, w) \<Rightarrow> if e = ENOENT then (Inr (), w) else (Inl (io_error e), w)
      | (Inr md, w) \<Rightarrow> (id_validate md, w)) = (Inr (), boot m t)"
proof -
  from stored_loadable [OF assms] obtain es where p: "lresolve t p = Inr d" "private_dir t d" and es: "search t d = Inr es"
    and v: "case v of None \<Rightarrow> bm_get n es = None | Some b \<Rightarrow> \<exists>i. bm_get n es = Some i \<and> private_file t i b \<and> permits 0x100 t i"
    by (auto simp: loadable_def)
  have l: "lresolve t (p @ [n]) = (case bm_get n es of None \<Rightarrow> Inl ENOENT | Some i \<Rightarrow> Inr i)"
    using p es by (intro lresolve_in resolve_lresolve) (auto simp: search_Inr)
  consider "symlink_metadata (p @ [n]) (boot m t) = (Inl ENOENT, boot m t)"
    | md where "symlink_metadata (p @ [n]) (boot m t) = (Inr md, boot m t)" "validate_file md = Inr ()" "id_validate md = Inr ()"
  proof (cases v)
    case None
    with v l that(1) show ?thesis
      by (simp add: symlink_metadata_def)
  next
    case (Some b)
    with v obtain i where "bm_get n es = Some i" "private_file t i b"
      by auto
    with l that(2) read_private [of t "p @ [n]" i b m] show ?thesis
      by (metis option.simps(5))
  qed
  then show "(case symlink_metadata (p @ [n]) (boot m t) of (Inl _, w) \<Rightarrow> (Inr (), w) | (Inr md, w) \<Rightarrow> (validate_file md, w))
      = (Inr (), boot m t)"
    and "(case symlink_metadata (p @ [n]) (boot m t) of
        (Inl e, w) \<Rightarrow> if e = ENOENT then (Inr (), w) else (Inl (io_error e), w)
      | (Inr md, w) \<Rightarrow> (id_validate md, w)) = (Inr (), boot m t)"
    by (cases; simp)+
qed

lemma create_dir_all_boot:
  assumes "resolve t p = Inr d" and "private_dir t d"
  shows "create_dir_all p (boot m t) = (Inr (), boot m t)"
proof -
  have mk: "mkdir p (boot m t) = (Inl EEXIST, boot m t)"
    using make_node_exists [OF assms(1)] by (simp add: mkdir_def call_boot)
  have dir: "path_is_dir p (boot m t) = (True, boot m t)"
    using assms by (auto simp: path_is_dir_def stat_def private_dir_def metadata_of_def)
  show ?thesis
    by (cases p rule: rev_cases) (use mk dir in \<open>auto simp: create_dir_all_def mkdir_or_dir_def\<close>)
qed

lemma save_succeeds:
  assumes start: "replaceable t0 p d nd0 es0 n (state_temp r) v" and "length b \<le> MAX_BYTES" and umask: "m AND 0x100 = 0"
  shows "\<exists>t. save_file (p @ [n]) r b (boot m t0) = (Inr (), boot m t)"
proof -
  from start have s: "stored t0 p d n v"
    by (auto simp: replaceable_def intro: durable_stored)
  then have p: "lresolve t0 p = Inr d" "private_dir t0 d"
    using stored_loadable by (auto simp: loadable_def)
  from replace_succeeds(1) [OF start umask] obtain t where "replace_state (p @ [n]) (p @ [state_temp r]) b (boot m t0) = (Inr (), boot m t)"
    by blast
  with assms(2) load_parent_ok [OF p, of m] create_dir_all_boot [OF stored_resolve [OF s] p(2), of m] stored_validates(1) [OF s, of m]
  show ?thesis
    by (auto simp: save_file_def state_temp_def)
qed

lemma id_save_succeeds:
  assumes start: "replaceable t0 p d nd0 es0 n (key_temp r) v" and umask: "m AND 0x100 = 0"
  shows "\<exists>t. id_save (p @ [n]) r b (boot m t0) = (Inr (), boot m t)"
proof -
  from start have s: "stored t0 p d n v"
    by (auto simp: replaceable_def intro: durable_stored)
  then have p: "lresolve t0 p = Inr d" "private_dir t0 d"
    using stored_loadable by (auto simp: loadable_def)
  then obtain md where "symlink_metadata p (boot m t0) = (Inr md, boot m t0)" "md_type md = IsDir" "\<not> group_or_other md"
    using directory_metadata [of t0 d] by (auto simp: symlink_metadata_def)
  with stored_validates(2) [OF s, of m] replace_succeeds(2) [OF start umask, of b] show ?thesis
    by (auto simp: id_save_def key_temp_def is_symlink_def)
qed

section \<open>Properties\<close>

definition entry_at :: "table \<Rightarrow> nat \<Rightarrow> string \<Rightarrow> nat option" where
  "entry_at t d n = (case entries t d of None \<Rightarrow> None | Some es \<Rightarrow> bm_get n es)"

lemma replaceableI:
  assumes "durable t p d n v" and "n \<noteq> tmp" and "entry_at t d tmp = None"
  shows "\<exists>nd es. replaceable t p d nd es n tmp v"
  using assms durable_stored [OF assms(1)] by (fastforce simp: replaceable_def stored_def entry_at_def entries_def)

lemma progress_images:
  assumes "replaceable t0 p d nd0 es0 n tmp v" and "progress t0 d nd0 es0 n tmp b t" and "crash_image t t'"
  shows "stored t' p d n v \<or> stored t' p d n (Some b)"
  using assms replacing_old_or_new [OF assms(1) _ _ assms(3)] by (auto simp: progress_def replaceable_def durable_def)

lemma finished_durable:
  assumes "replaceable t0 p d nd0 es0 n tmp v" and "finished t0 d nd0 es0 n tmp b t"
  shows "durable t p d n (Some b)"
  using assms replacing_durable [OF assms(1)] by (auto simp: finished_def)

lemma calm_boot: "fs_up w \<Longrightarrow> fs_faults w = [] \<Longrightarrow> w = boot (fs_umask w) (fs_table w)"
  by (simp add: boot_def)

text \<open>A table whose inodes are all synchronized is its only image.\<close>

lemma stored_cong:
  assumes "stored t p d n v" and same: "\<And>i. bm_get i u = bm_get i t"
  shows "stored u p d n v"
proof -
  have e: "entries u = entries t" "link_at u = link_at t"
    using same by (auto simp: entries_def link_at_def)
  then have "length (links u i) = length (links t i)" for i
    by (intro length_links_cong) (auto simp: set_links)
  moreover have "lresolve t p = Inr d" "entries t d \<noteq> None"
    using stored_loadable [OF assms(1)] private_dir_entries by (auto simp: loadable_def)
  then have "lresolve u p = Inr d"
    by (rule lresolve_keeps [OF _ _ keeps_dirs_same]) (simp_all add: e same permits_def)
  ultimately show ?thesis
    using assms(1) same by (auto simp: stored_def held_def split: option.splits)
qed

lemma synced_durable:
  assumes "stored t p d n v" and synced: "\<And>i nd. bm_get i t = Some nd \<Longrightarrow> i_past nd = [] \<and> \<not> i_dirty nd"
  shows "durable t p d n v"
  unfolding durable_def
proof (intro allI impI stored_cong [OF assms(1)])
  fix t' i
  assume "crash_image t t'"
  then have "image_of (bm_get i t) (bm_get i t')"
    by (simp add: crash_image_def)
  then show "bm_get i t' = bm_get i t"
    using synced [of i] by (cases "bm_get i t") (auto simp: image_of_def versions_def)
qed

definition state_ready :: "path \<Rightarrow> nat \<Rightarrow> string \<Rightarrow> 128 word \<Rightarrow> fs \<Rightarrow> bool" where
  "state_ready dir d n r w \<longleftrightarrow> fs_umask w AND 0x100 = 0 \<and> n \<noteq> state_temp r \<and> entry_at (fs_table w) d (state_temp r) = None
     \<and> (\<exists>old. durable (fs_table w) dir d n old \<and> (case old of None \<Rightarrow> True | Some c \<Rightarrow> length c \<le> MAX_BYTES))"

definition power_failure :: "fs \<Rightarrow> fs \<Rightarrow> bool" where
  "power_failure w w' \<longleftrightarrow> (\<exists>disk m. crash_image (fs_table w) disk \<and> w' = boot m disk)"

lemma save_file_crash:
  assumes ready: "state_ready dir d n r w" and save: "save_file (dir @ [n]) r b w = (res, w')"
  obtains old where "durable (fs_table w) dir d n old" "case old of None \<Rightarrow> True | Some c \<Rightarrow> length c \<le> MAX_BYTES"
    "\<And>disk. crash_image (fs_table w') disk \<Longrightarrow> stored disk dir d n old \<or> stored disk dir d n (Some b) \<and> length b \<le> MAX_BYTES"
    "res = Inr () \<Longrightarrow> durable (fs_table w') dir d n (Some b) \<and> length b \<le> MAX_BYTES \<and> entry_at (fs_table w') d (state_temp r) = None"
proof -
  from ready obtain old where old: "durable (fs_table w) dir d n old" "case old of None \<Rightarrow> True | Some c \<Rightarrow> length c \<le> MAX_BYTES"
    and names: "n \<noteq> state_temp r" "entry_at (fs_table w) d (state_temp r) = None" and umask: "fs_umask w AND 0x100 = 0"
    by (auto simp: state_ready_def)
  show ?thesis
  proof (cases "length b \<le> MAX_BYTES")
    case False
    with save have "res = Inl MessageTooLarge" "w' = w"
      by (auto simp: save_file_def)
    with old that show ?thesis
      by (auto simp: durable_def)
  next
    case True
    obtain nd0 es0 where start: "replaceable (fs_table w) dir d nd0 es0 n (state_temp r) old"
      using replaceableI [OF old(1) names] by blast
    obtain t0 nd where t0: "replaceable t0 dir d nd es0 n (state_temp r) old" and out: "outcome t0 d nd es0 n (state_temp r) b res w'"
      using save_file_post [OF start umask, of b] save by auto
    have "entry_at (fs_table w') d (state_temp r) = None" if "res = Inr ()"
      using out that by (auto simp: outcome_def finished_def replacing_def dir_state_def with_new_def entry_at_def entries_def)
    with True old progress_images [OF t0] finished_durable [OF t0] out show ?thesis
      by (intro that [of old]) (auto simp: outcome_def)
  qed
qed

text \<open>C10. Saving the state of a host replaces the file as a whole. Whatever calls fail and whenever the machine
  halts, after a power failure \<open>load\<close> reads the old state or the new one, never a mixture and never an error; when
  \<open>save\<close> has returned success it reads the new one; and when no call fails, \<open>save\<close> succeeds. The directory
  must be on the disk and the name of the temporary file free, and the umask leaves the owner the right to read.\<close>

theorem state_file_crash_safe:
  assumes "durable (fs_table w) dir d n old" and "case old of None \<Rightarrow> True | Some c \<Rightarrow> length c \<le> MAX_BYTES"
    and "n \<noteq> state_temp r" and "entry_at (fs_table w) d (state_temp r) = None"
    and umask: "fs_umask w AND 0x100 = 0" and save: "save_file (dir @ [n]) r b w = (res, w')"
  shows "(\<forall>disk. crash_image (fs_table w') disk \<longrightarrow>
        load_file (dir @ [n]) (boot m disk) = (Inr old, boot m disk)
        \<or> load_file (dir @ [n]) (boot m disk) = (Inr (Some b), boot m disk))
    \<and> (res = Inr () \<longrightarrow> durable (fs_table w') dir d n (Some b)
        \<and> load_file (dir @ [n]) (boot m (fs_table w')) = (Inr (Some b), boot m (fs_table w')))
    \<and> (fs_up w \<and> fs_faults w = [] \<and> length b \<le> MAX_BYTES \<longrightarrow> res = Inr ())"
proof -
  have ready: "state_ready dir d n r w"
    using assms(1-4) umask by (auto simp: state_ready_def)
  obtain nd0 es0 where start: "replaceable (fs_table w) dir d nd0 es0 n (state_temp r) old"
    using replaceableI [OF assms(1,3,4)] by blast
  from save_file_crash [OF ready save] obtain old' where old': "durable (fs_table w) dir d n old'"
    and images: "\<And>disk. crash_image (fs_table w') disk \<Longrightarrow>
      stored disk dir d n old' \<or> stored disk dir d n (Some b) \<and> length b \<le> MAX_BYTES"
    and ok: "res = Inr () \<Longrightarrow> durable (fs_table w') dir d n (Some b) \<and> length b \<le> MAX_BYTES"
    by metis
  have "old' = old"
    using stored_unique [OF durable_stored [OF old'] durable_stored [OF assms(1)]] .
  have new: "load_file (dir @ [n]) (boot m t) = (Inr (Some b), boot m t)" if "stored t dir d n (Some b)" "length b \<le> MAX_BYTES" for t
    using load_file_stored [OF that(1)] that(2) by simp
  have "res = Inr ()" if "fs_up w" "fs_faults w = []" "length b \<le> MAX_BYTES"
    using save_succeeds [OF start that(3) umask] save calm_boot [OF that(1,2)] by auto
  with images ok \<open>old' = old\<close> new load_file_stored [OF _ assms(2)] durable_stored show ?thesis
    by metis
qed

definition sample_disk :: table where
  "sample_disk =
     [(0, \<lparr>i_mode = 0x1C0, i_body = Directory [(''key'', 2), (''state'', 1)], i_dirty = False, i_past = []\<rparr>),
      (1, \<lparr>i_mode = 0x180, i_body = Regular [7], i_dirty = False, i_past = []\<rparr>),
      (2, \<lparr>i_mode = 0x180, i_body = Regular (replicate 32 3), i_dirty = False, i_past = []\<rparr>)]"

lemma sample_disk_durable: "durable sample_disk [] 0 ''state'' (Some [7])" "durable sample_disk [] 0 ''key'' (Some (replicate 32 3))"
proof -
  have synced: "bm_get i sample_disk = Some nd \<Longrightarrow> i_past nd = [] \<and> \<not> i_dirty nd" for i nd
    by (auto simp: sample_disk_def bm_get_def split: if_splits)
  have "length (links sample_disk 1) = 1" "length (links sample_disk 2) = 1"
    by (simp_all add: links_def sample_disk_def bm_keys_def entries_def bm_get_def)
  then have "stored sample_disk [] 0 ''state'' (Some [7])" "stored sample_disk [] 0 ''key'' (Some (replicate 32 3))"
    by (auto simp: stored_def lresolve_def held_def sample_disk_def bm_get_def owner_only_def own_file_def own_dir_def)
  then show "durable sample_disk [] 0 ''state'' (Some [7])" "durable sample_disk [] 0 ''key'' (Some (replicate 32 3))"
    by (auto intro: synced_durable dest: synced)
qed

lemma sample_names: "entry_at sample_disk 0 (state_temp r) = None" "entry_at sample_disk 0 (key_temp r) = None"
  "''state'' \<noteq> state_temp r" "''key'' \<noteq> key_temp r"
  by (simp_all add: entry_at_def entries_def sample_disk_def bm_get_def state_temp_def key_temp_def)

theorem state_file_crash_safe_witness:
  "\<exists>w'. save_file [''state''] 5 [9] (boot 18 sample_disk) = (Inr (), w')
    \<and> load_file [''state''] (boot 18 (fs_table w')) = (Inr (Some [9]), boot 18 (fs_table w'))"
proof -
  obtain res w' where save: "save_file ([] @ [''state'']) 5 [9] (boot 18 sample_disk) = (res, w')"
    by fastforce
  have "durable (fs_table (boot 18 sample_disk)) [] 0 ''state'' (Some [7])"
    "entry_at (fs_table (boot 18 sample_disk)) 0 (state_temp 5) = None"
    by (simp_all add: sample_disk_durable sample_names)
  from state_file_crash_safe [OF this(1) _ sample_names(3) this(2) _ save, where m = 18] save show ?thesis
    by (auto simp: MAX_BYTES_def boot_def)
qed

text \<open>The key file is replaced in the same way: after a power failure at any moment \<open>load\<close> gives the old key or the new
  one, and after a successful \<open>save\<close> the new one.\<close>

theorem key_file_crash_safe:
  assumes "durable (fs_table w) dir d n (Some old)" and "length old = 32" and "length key = 32"
    and "n \<noteq> key_temp r" and "entry_at (fs_table w) d (key_temp r) = None"
    and umask: "fs_umask w AND 0x100 = 0" and save: "id_save (dir @ [n]) r key w = (res, w')"
  shows "(\<forall>disk. crash_image (fs_table w') disk \<longrightarrow>
        id_load (dir @ [n]) (boot m disk) = (Inr old, boot m disk) \<or> id_load (dir @ [n]) (boot m disk) = (Inr key, boot m disk))
    \<and> (res = Inr () \<longrightarrow> durable (fs_table w') dir d n (Some key)
        \<and> id_load (dir @ [n]) (boot m (fs_table w')) = (Inr key, boot m (fs_table w')))
    \<and> (fs_up w \<and> fs_faults w = [] \<longrightarrow> res = Inr ())"
proof -
  obtain nd0 es0 where start: "replaceable (fs_table w) dir d nd0 es0 n (key_temp r) (Some old)"
    using replaceableI [OF assms(1,4,5)] by blast
  have out: "outcome (fs_table w) d nd0 es0 n (key_temp r) key res w'"
    using id_save_post [OF start umask, of key] save by simp
  have load: "id_load (dir @ [n]) (boot m t) = (Inr k, boot m t)" if "stored t dir d n (Some k)" "length k = 32" for t k
    using that(2) stored_loadable [OF that(1)] resolve_lresolve [of t dir d]
    by (auto simp: id_load_iff loadable_def lresolve_snoc_Inr search_Inr)
  have "stored disk dir d n (Some old) \<or> stored disk dir d n (Some key)" if "crash_image (fs_table w') disk" for disk
    using progress_images [OF start _ that] out by (simp add: outcome_def)
  moreover have "durable (fs_table w') dir d n (Some key)" if "res = Inr ()"
    using finished_durable [OF start] out that by (simp add: outcome_def)
  moreover have "res = Inr ()" if "fs_up w" "fs_faults w = []"
    using id_save_succeeds [OF start umask, of key] save calm_boot [OF that] by auto
  ultimately show ?thesis
    using load assms(2,3) durable_stored by metis
qed

theorem key_file_crash_safe_witness:
  "\<exists>w'. id_save [''key''] 5 (replicate 32 4) (boot 18 sample_disk) = (Inr (), w')
    \<and> id_load [''key''] (boot 18 (fs_table w')) = (Inr (replicate 32 4), boot 18 (fs_table w'))"
proof -
  obtain res w' where save: "id_save ([] @ [''key'']) 5 (replicate 32 4) (boot 18 sample_disk) = (res, w')"
    by fastforce
  have "durable (fs_table (boot 18 sample_disk)) [] 0 ''key'' (Some (replicate 32 3))"
    "entry_at (fs_table (boot 18 sample_disk)) 0 (key_temp 5) = None"
    by (simp_all only: boot_simps sample_disk_durable sample_names)
  from key_file_crash_safe [OF this(1) _ _ sample_names(4) this(2) _ save, where m = 18] save show ?thesis
    by (auto simp: boot_def)
qed

text \<open>C25. What is read from a file is private. When no call fails, \<open>load\<close> returns a state exactly when the path leads to a regular
  file with one link, no permission for others and the owner's permission to read, of at most 4 MiB, in a real directory
  without permission for others that the owner may search, and then it is all of its contents; a key, exactly when it
  leads to such a file of 32 bytes. And whatever calls fail, what either of them returns is all of the contents of such a file; only
  the check of the directory is left out, when the call that looks for the directory fails.\<close>

theorem files_private:
  "(load_file (dir @ [n]) (boot m t) = (Inr (Some b), boot m t) \<longleftrightarrow>
     (\<exists>d es i. lresolve t dir = Inr d \<and> private_dir t d \<and> search t d = Inr es \<and> bm_get n es = Some i
       \<and> private_file t i b \<and> permits 0x100 t i)
     \<and> length b \<le> MAX_BYTES)
   \<and> (id_load p (boot m t) = (Inr key, boot m t) \<longleftrightarrow>
     length key = 32 \<and> (\<exists>i. lresolve t p = Inr i \<and> private_file t i key \<and> permits 0x100 t i))
   \<and> (\<forall>w w' c. (load_file p w = (Inr (Some c), w') \<longrightarrow>
         length c \<le> MAX_BYTES \<and> (\<exists>i. lresolve (fs_table w) p = Inr i \<and> private_file (fs_table w) i c \<and> permits 0x100 (fs_table w) i))
       \<and> (id_load p w = (Inr c, w') \<longrightarrow>
         length c = 32 \<and> (\<exists>i. lresolve (fs_table w) p = Inr i \<and> private_file (fs_table w) i c \<and> permits 0x100 (fs_table w) i)))"
proof (intro conjI allI impI)
  show "load_file (dir @ [n]) (boot m t) = (Inr (Some b), boot m t) \<longleftrightarrow>
     (\<exists>d es i. lresolve t dir = Inr d \<and> private_dir t d \<and> search t d = Inr es \<and> bm_get n es = Some i
       \<and> private_file t i b \<and> permits 0x100 t i)
     \<and> length b \<le> MAX_BYTES"
    using load_file_Some [of dir n m t b] load_file_private(2) [of "dir @ [n]" "boot m t" b] load_file_loadable [of t dir _ n "Some b" m]
    by (auto simp: loadable_def)
qed (simp_all add: id_load_iff load_file_private id_load_private)

lemma sample_disk_changed:
  fixes x :: u32
  defines "t \<equiv> change 1 (\<lambda>nd. nd\<lparr>i_mode := x\<rparr>) sample_disk"
  shows "lresolve t [''state''] = Inr i \<Longrightarrow> i = 1" "permits y t 1 \<longleftrightarrow> x AND y \<noteq> 0" "private_file t 1 c \<Longrightarrow> owner_only x"
proof -
  have "bm_get 0 t = bm_get 0 sample_disk" "\<exists>f. bm_get 1 t = Some f \<and> i_mode f = x"
    by (simp_all add: t_def change_def bm_adjust_def bm_map_def bm_get_def sample_disk_def)
  then show "lresolve t [''state''] = Inr i \<Longrightarrow> i = 1" "permits y t 1 \<longleftrightarrow> x AND y \<noteq> 0" "private_file t 1 c \<Longrightarrow> owner_only x"
    by (auto simp: lresolve_def locate_def resolve_def search_def entries_def permits_def private_file_def sample_disk_def bm_get_def
        split: if_splits)
qed

theorem files_private_witness:
  "load_file [''state''] (boot 18 sample_disk) = (Inr (Some [7]), boot 18 sample_disk)
    \<and> (\<forall>c w. fst (load_file [''state''] (w\<lparr>fs_table := change 1 (\<lambda>nd. nd\<lparr>i_mode := 0\<rparr>) sample_disk\<rparr>)) \<noteq> Inr (Some c)
      \<and> fst (load_file [''state''] (w\<lparr>fs_table := change 1 (\<lambda>nd. nd\<lparr>i_mode := 0x1A4\<rparr>) sample_disk\<rparr>)) \<noteq> Inr (Some c))"
proof -
  note three = files_private [where dir = "[]" and n = "''state''" and m = 18 and b = "[7]" and t = sample_disk and p = "[''state'']"]
  have "length (links sample_disk 1) = 1"
    by (simp add: links_def sample_disk_def bm_keys_def entries_def bm_get_def)
  then have "load_file [''state''] (boot 18 sample_disk) = (Inr (Some [7]), boot 18 sample_disk)"
    using three [THEN conjunct1]
    by (simp add: lresolve_def private_dir_def search_def entries_def private_file_def permits_def owner_only_def sample_disk_def bm_get_def
        MAX_BYTES_def)
  moreover have "fst (load_file [''state''] (w\<lparr>fs_table := change 1 (\<lambda>nd. nd\<lparr>i_mode := x\<rparr>) sample_disk\<rparr>)) \<noteq> Inr (Some c)"
    if x: "x AND 0x100 = 0 \<or> \<not> owner_only x" for x c and w :: fs
  proof
    let ?t = "change 1 (\<lambda>nd. nd\<lparr>i_mode := x\<rparr>) sample_disk"
    assume "fst (load_file [''state''] (w\<lparr>fs_table := ?t\<rparr>)) = Inr (Some c)"
    then obtain w' where "load_file [''state''] (w\<lparr>fs_table := ?t\<rparr>) = (Inr (Some c), w')"
      by (metis prod.collapse)
    from three [THEN conjunct2, THEN conjunct2, rule_format, THEN conjunct1, rule_format, OF this] obtain i
      where i: "lresolve ?t [''state''] = Inr i" "private_file ?t i c" "permits 0x100 ?t i"
      by auto
    moreover from i(1) have "i = 1"
      by (rule sample_disk_changed(1))
    ultimately show False
      using x sample_disk_changed(2) [of "0x100" x] sample_disk_changed(3) [of x c] by simp
  qed
  ultimately show ?thesis
    by (simp add: owner_only_def)
qed

section \<open>The file storage keeps the contract of a host storage\<close>

interpretation state_file: host_storage "state_ready dir d n r" "save_file (dir @ [n]) r" "load_file (dir @ [n])" power_failure
  for dir d n r
proof
  fix w b w' w2
  assume ready: "state_ready dir d n r w" and save: "save_file (dir @ [n]) r b w = (Inr (), w')"
  from save_file_crash [OF this] have new: "durable (fs_table w') dir d n (Some b) \<and> length b \<le> MAX_BYTES \<and> entry_at (fs_table w') d (state_temp r) = None"
    by metis
  with ready save_file_umask [of "dir @ [n]" r b w] save show "state_ready dir d n r w'"
    by (auto simp: state_ready_def)
  show "load_file (dir @ [n]) w2 = (Inr (Some b), w2)" if "power_failure w' w2"
    using that new by (auto simp: power_failure_def durable_def intro!: load_file_stored)
next
  fix w b res w' w2
  assume ready: "state_ready dir d n r w" and save: "save_file (dir @ [n]) r b w = (res, w')" and "power_failure w' w2"
  then obtain disk m where disk: "crash_image (fs_table w') disk" "w2 = boot m disk"
    by (auto simp: power_failure_def)
  from save_file_crash [OF ready save] obtain old where old: "durable (fs_table w) dir d n old"
      "case old of None \<Rightarrow> True | Some c \<Rightarrow> length c \<le> MAX_BYTES"
    and two: "stored disk dir d n old \<or> stored disk dir d n (Some b) \<and> length b \<le> MAX_BYTES"
    using disk(1) by metis
  from two show "load_file (dir @ [n]) w2 = (Inr (Some b), w2)
      \<or> (\<forall>w1 v. power_failure w w1 \<longrightarrow> load_file (dir @ [n]) w1 = (Inr v, w1) \<longrightarrow> load_file (dir @ [n]) w2 = (Inr v, w2))"
  proof
    assume s: "stored disk dir d n old"
    have "v = old" if "power_failure w w1" "load_file (dir @ [n]) w1 = (Inr v, w1)" for w1 v
      using that load_file_stored [OF _ old(2)] old(1) by (fastforce simp: power_failure_def durable_def)
    with load_file_stored [OF s old(2)] disk(2) show ?thesis
      by auto
  qed (use disk(2) load_file_stored [of disk dir d n "Some b"] in auto)
qed

text \<open>C11. What a host with a state file acknowledged survives a power failure: after a code has been issued or revoked, or an
  endpoint enrolled, the host that is started again from whatever the disk holds has the state that it had in memory. The directory of the
  file is on the disk, the name of the temporary file free, and the umask leaves the owner the right to read (\<open>state_ready\<close>).\<close>

theorem host_survives_power_failure:
  fixes L :: "('e::linorder) lib"
  assumes "external L" and "wf_host L h" and "ho_storage h"
    and "state_ready dir d n r w" and "crash_image (fs_table w') disk"
  shows "(admission_issue L (save_file (dir @ [n]) r) opts addr now mx secret cid (Host h) m w = (Inr code, Host h', m', w')
       \<and> mx \<le> 256 \<and> (\<forall>p \<in> set (jo_permissions opts). wf_topic (p_topic p))
       \<and> \<not> bm_has (join_code_id L \<lparr>jc_address = compact_address addr, jc_secret = secret\<rparr>) (ho_codes h)
       \<longrightarrow> persistent L (dir @ [n]) r a later (boot u disk) = (Inr (Host (stored_host h')), boot u disk))
    \<and> (revoke_code L (save_file (dir @ [n]) r) cid (Host h) w = (Inr (), Host h', w')
       \<longrightarrow> persistent L (dir @ [n]) r a later (boot u disk) = (Inr (Host (stored_host h')), boot u disk))
    \<and> (enroll L (save_file (dir @ [n]) r) peer cid secret now host_expires trust mx fresh (Host h) m w = (Inr en, Host h', m', w')
       \<and> mx \<le> 256 \<and> length fresh = 16 \<and> \<not> bm_has fresh (ho_members h) \<and> certificate_id (en_certificate en) = fresh
       \<and> (\<forall>g e c. bm_get cid (ho_codes h) = Some g \<and> bm_get e (g_redeemed g) = Some c \<longrightarrow> certificate_id c \<noteq> fresh)
       \<longrightarrow> admission_check (Host h') peer (en_certificate en) = Inr ()
         \<and> persistent L (dir @ [n]) r a later (boot u disk) = (Inr (Host (stored_host h')), boot u disk))"
proof -
  have "power_failure w' (boot u disk)"
    using assms(5) by (auto simp: power_failure_def)
  note durable = admission_durable [OF assms(1-3) state_file.host_storage_axioms assms(4) this]
  show ?thesis
    unfolding persistent_def using durable by blast
qed

theorem host_survives_power_failure_witness:
  "\<exists>h' w'. revoke_code sample_lib (save_file [''state''] 5) (replicate 16 8) (Host (sample_host True)) (boot 18 sample_disk)
      = (Inr (), Host h', w')
    \<and> persistent sample_lib [''state''] 5 sample_authority 3 (boot 18 (settle (fs_table w')))
      = (Inr (Host (stored_host h')), boot 18 (settle (fs_table w')))"
proof -
  have small: "length (host_encode sample_lib ((sample_host True)\<lparr>ho_codes := []\<rparr>)) \<le> MAX_BYTES"
    using sample_host_size [of True] by (simp add: sample_host_def host_new_def)
  have ready: "state_ready [] 0 ''state'' 5 (boot 18 sample_disk)"
    using sample_disk_durable(1) by (auto simp: state_ready_def sample_names MAX_BYTES_def intro!: exI [of _ "Some [7]"])
  obtain nd es where "replaceable sample_disk [] 0 nd es ''state'' (state_temp 5) (Some [7])"
    using replaceableI [OF sample_disk_durable(1) sample_names(3,1)] by blast
  from save_succeeds [OF this small, of 18] obtain t
    where save: "save_file [''state''] 5 (host_encode sample_lib ((sample_host True)\<lparr>ho_codes := []\<rparr>)) (boot 18 sample_disk)
      = (Inr (), boot 18 t)"
    by auto
  have has: "bm_has (replicate 16 8) (ho_codes (sample_host True))" "ho_storage (sample_host True)"
    by (simp_all add: sample_host_def bm_has_def bm_get_def)
  obtain h' w' where op: "revoke_code sample_lib (save_file ([] @ [''state'']) 5) (replicate 16 8) (Host (sample_host True)) (boot 18 sample_disk)
      = (Inr (), Host h', w')"
    using small save has by (auto simp: revoke_code_def Let_def persist_def sample_host_def bm_del_def split: if_splits)
  from host_survives_power_failure [OF sample.external_axioms sample_host_wf has(2) ready crash_image_settle, THEN conjunct2, THEN conjunct1,
      THEN mp, OF op] op show ?thesis
    by auto
qed

text \<open>A save that has to create the directory, evaluated.\<close>

definition bare_disk :: table where
  "bare_disk = [(0, \<lparr>i_mode = 0x1C0, i_body = Directory [], i_dirty = False, i_past = []\<rparr>)]"

definition new_disk :: table where
  "new_disk =
     [(0, \<lparr>i_mode = 0x1C0, i_body = Directory [(''new'', 1)], i_dirty = False, i_past = [(0x1C0, Directory [])]\<rparr>),
      (1, \<lparr>i_mode = 0x1ED, i_body = Directory [], i_dirty = False, i_past = []\<rparr>)]"

definition private_disk :: table where
  "private_disk =
     [(0, \<lparr>i_mode = 0x1C0, i_body = Directory [(''new'', 1)], i_dirty = False, i_past = [(0x1C0, Directory [])]\<rparr>),
      (1, \<lparr>i_mode = 0x1C0, i_body = Directory [], i_dirty = False, i_past = [(0x1ED, Directory [])]\<rparr>)]"

definition saved_disk :: table where
  "saved_disk =
     [(0, \<lparr>i_mode = 0x1C0, i_body = Directory [(''new'', 1)], i_dirty = False, i_past = [(0x1C0, Directory [])]\<rparr>),
      (1, \<lparr>i_mode = 0x1C0, i_body = Directory [(''state'', 2)], i_dirty = False, i_past = []\<rparr>),
      (2, \<lparr>i_mode = 0x180, i_body = Regular [9], i_dirty = False, i_past = [(0x180, Regular [9])]\<rparr>)]"

definition lost_disk :: table where
  "lost_disk =
     [(0, \<lparr>i_mode = 0x1C0, i_body = Directory [], i_dirty = False, i_past = []\<rparr>),
      (1, \<lparr>i_mode = 0x1C0, i_body = Directory [(''state'', 2)], i_dirty = False, i_past = []\<rparr>),
      (2, \<lparr>i_mode = 0x180, i_body = Regular [9], i_dirty = False, i_past = []\<rparr>)]"

lemmas table_eval = call_boot make_node_def locate_def lresolve_def resolve_def entries_def link_at_def bm_get_def bm_has_def
  fresh_inode_def numbers_def bm_keys_def bm_vals_def body_targets_def set_entries_def change_def bm_adjust_def bm_map_def
  bm_del_def metadata_of_def links_def search_def permits_def

lemma mkdir_new: "create_dir_all [''new''] (boot 18 bare_disk) = (Inr (), boot 18 new_disk)"
  by (simp add: create_dir_all_def mkdir_def bare_disk_def new_disk_def table_eval)

lemma chmod_new: "set_permissions [''new''] 0x1C0 (boot 18 new_disk) = (Inr (), boot 18 private_disk)"
  by (simp add: set_permissions_def new_disk_def private_disk_def table_eval)

lemma replace_new:
  "replace_state [''new'', ''state''] [''new'', state_temp 5] [9] (boot 18 private_disk) = (Inr (), boot 18 saved_disk)"
proof -
  have "state_temp 5 \<noteq> ''state''"
    by (simp add: state_temp_def)
  then show ?thesis
    by (simp add: replace_state_def open_new_def write_all_def sync_all_def rename_def set_permissions_def open_existing_def
        rename_node_def append_node_def sync_node_def file_parent_def private_disk_def saved_disk_def numeral_2_eq_2 [symmetric] table_eval)
qed

lemma save_new: "save_file [''new'', ''state''] 5 [9] (boot 18 bare_disk) = (Inr (), boot 18 saved_disk)"
proof -
  have "path_exists [''new''] (boot 18 bare_disk) = (False, boot 18 bare_disk)"
    by (simp add: path_exists_def stat_def bare_disk_def table_eval)
  moreover have "validate_parent [''new''] (boot 18 private_disk) = (Inr (), boot 18 private_disk)"
    by (simp add: validate_parent_def symlink_metadata_def private_disk_def table_eval is_symlink_def group_or_other_def)
  moreover have "symlink_metadata [''new'', ''state''] (boot 18 private_disk) = (Inl ENOENT, boot 18 private_disk)"
    by (simp add: symlink_metadata_def private_disk_def table_eval)
  ultimately show ?thesis
    using replace_new by (simp add: save_file_def file_parent_def mkdir_new chmod_new state_temp_def MAX_BYTES_def)
qed

text \<open>C12. The first state saved in a new directory can be lost although \<open>save\<close> returned success and \<open>load\<close> read it back: the directory
  that \<open>save\<close> creates is synchronized, but not the directory it is in.\<close>

theorem new_directory_not_durable:
  "\<exists>w' disk. save_file [''new'', ''state''] 5 [9] (boot 18 bare_disk) = (Inr (), w') \<and> crash_image (fs_table w') disk
    \<and> load_file [''new'', ''state''] (boot 18 disk) = (Inr None, boot 18 disk)"
proof (intro exI conjI)
  show "save_file [''new'', ''state''] 5 [9] (boot 18 bare_disk) = (Inr (), boot 18 saved_disk)"
    by (rule save_new)
  show "crash_image (fs_table (boot 18 saved_disk)) lost_disk"
    by (auto simp: crash_image_def image_of_def versions_def saved_disk_def lost_disk_def bm_get_def)
  show "load_file [''new'', ''state''] (boot 18 lost_disk) = (Inr None, boot 18 lost_disk)"
    by (simp add: load_file_def path_exists_def stat_def symlink_metadata_def file_parent_def lost_disk_def table_eval)
qed

end
