(* ===== verification/Endpoint.thy ===== *)
theory Endpoint
  imports Transport Owner_Limits Files
begin

text \<open>
  The public interface, \<^verbatim>\<open>src/src/endpoint.rs\<close>: starting a host or a client, the operations of \<open>MessagingEndpoint\<close>
  and \<open>Publisher\<close>, which validate their arguments, send a command to the owner and return its answer, and what the owner can receive from them. The objects that
  they hand out are in \<open>Receipts\<close>. As in \<open>Transport\<close>, \<open>ask\<close> sends a command and \<open>rsv\<close> reserves metadata
  memory. Connecting is an argument, as its result.
\<close>

section \<open>Starting an endpoint\<close>

record 'e handle =
  hd_pool :: pool
  hd_metadata :: budget_ref
  hd_config :: config
  hd_trust :: "'e trust"
  hd_self :: 'e
  hd_host :: "'e option"

text \<open>\<open>start_bound\<close>: the budgets are new, so their identities are, and the permits are counted from 2.\<close>

definition start_bound ::
  "'e lib \<Rightarrow> config \<Rightarrow> 'e trust \<Rightarrow> bytes \<Rightarrow> 'e certificate \<Rightarrow> 'e admission \<Rightarrow> 'e option \<Rightarrow> 'e tick \<Rightarrow> 'w
   \<Rightarrow> ('e handle \<times> ('e, 'w) owner) result"
where
  "start_bound L cfg trust identity cert adm host tk w =
     (let pl = pool_new 0 (payload_bytes cfg) (cf_max_payload cfg);
          metadata = \<lparr>br_id = 1, br_limit = metadata_bytes cfg\<rparr>;
          m = \<lparr>meter_budget = 1, meter_limit = metadata_bytes cfg, meter_live = [], meter_next = 2\<rparr>
      in
      rbind (admission_meter adm m) (\<lambda>(adm, m).
      rbind (certificate_metered cert m) (\<lambda>(cert, m).
      rbind (admit m (revoked_count trust * 96)) (\<lambda>(revocation_memory, m).
        Inr (\<lparr>hd_pool = pl, hd_metadata = metadata, hd_config = cfg, hd_trust = trust,
              hd_self = key_public L identity, hd_host = host\<rparr>,
             owner_new cfg trust identity (key_public L identity) cert revocation_memory
               \<lparr>br_id = 0, br_limit = payload_bytes cfg\<rparr> metadata adm [] (meter_next m) tk w)))))"

text \<open>\<open>q\<close> are the calls that bind the QUIC endpoint, \<open>cid\<close> the random identifier of the certificate.\<close>

definition host_with_admission ::
  "('e::linorder) lib \<Rightarrow> config \<Rightarrow> bytes \<Rightarrow> permission list \<Rightarrow> 'e admission \<Rightarrow> bytes \<Rightarrow> quic \<Rightarrow> 'e tick \<Rightarrow> 'w
   \<Rightarrow> ('e handle \<times> ('e, 'w) owner) result"
where
  "host_with_admission L cfg identity permissions adm cid q tk w =
     rbind (config_validate cfg) (\<lambda>_.
     rbind (tk_now tk) (\<lambda>now.
     rbind (admission_authority adm) (\<lambda>authority.
     rbind (authority_issue L authority cid (key_public L identity) permissions now
              (now + as_secs MAX_JOIN_LIFETIME) limits_default) (\<lambda>certificate.
     rbind (bind q cfg identity) (\<lambda>_.
       start_bound L cfg (authority_trust L authority) identity certificate adm None tk w)))))"

definition host_in_memory ::
  "('e::linorder) lib \<Rightarrow> config \<Rightarrow> bytes \<Rightarrow> permission list \<Rightarrow> authority \<Rightarrow> bytes \<Rightarrow> quic \<Rightarrow> 'e tick \<Rightarrow> 'w
   \<Rightarrow> ('e handle \<times> ('e, 'w) owner) result"
where
  "host_in_memory L cfg identity permissions a =
     host_with_admission L cfg identity permissions (Host (host_new a False))"

text \<open>\<open>a\<close> is the authority that \<open>with_storage\<close> generates when nothing is stored, \<open>loaded_at\<close> the clock when it decodes
  what is.\<close>

definition host_with_storage ::
  "('e::linorder) lib \<Rightarrow> config \<Rightarrow> bytes \<Rightarrow> permission list \<Rightarrow> ('w \<Rightarrow> bytes option result \<times> 'w) \<Rightarrow> (bytes \<Rightarrow> 'w \<Rightarrow> unit result \<times> 'w)
   \<Rightarrow> authority \<Rightarrow> u64 \<Rightarrow> bytes \<Rightarrow> quic \<Rightarrow> 'e tick \<Rightarrow> 'w \<Rightarrow> ('e handle \<times> ('e, 'w) owner) result \<times> 'w"
where
  "host_with_storage L cfg identity permissions load save a loaded_at cid q tk w =
     (case with_storage L load save a loaded_at w of
        (Inl e, w) \<Rightarrow> (Inl e, w)
      | (Inr adm, w) \<Rightarrow> (host_with_admission L cfg identity permissions adm cid q tk w, w))"

definition host_persistent ::
  "('e::linorder) lib \<Rightarrow> config \<Rightarrow> bytes \<Rightarrow> permission list \<Rightarrow> path \<Rightarrow> 128 word \<Rightarrow> authority \<Rightarrow> u64 \<Rightarrow> bytes \<Rightarrow> quic \<Rightarrow> 'e tick \<Rightarrow> fs
   \<Rightarrow> ('e handle \<times> ('e, fs) owner) result \<times> fs"
where
  "host_persistent L cfg identity permissions state_path r a loaded_at cid q tk w =
     (case persistent L state_path r a loaded_at w of
        (Inl e, w) \<Rightarrow> (Inl e, w)
      | (Inr adm, w) \<Rightarrow> (host_with_admission L cfg identity permissions adm cid q tk w, w))"

section \<open>Requests\<close>

text \<open>\<open>Handle::request\<close>: \<open>stopped\<close> says that the endpoint was cancelled, \<open>answer\<close> reads the reply that the command has. \<open>None\<close>, from either,
  is a channel that was closed.\<close>

definition request ::
  "bool \<Rightarrow> ('e owner_command \<Rightarrow> 'o \<Rightarrow> 'e reply option \<times> 'o) \<Rightarrow> ('e reply \<Rightarrow> 'a result option) \<Rightarrow> 'e owner_command \<Rightarrow> 'o \<Rightarrow> 'a result \<times> 'o"
where
  "request stopped ask answer c x =
     (if stopped then (Inl ShuttingDown, x)
      else case ask c x of (r, x) \<Rightarrow> (case Option.bind r answer of None \<Rightarrow> Inl ShuttingDown | Some a \<Rightarrow> a, x))"

definition unit_answer :: "'e reply \<Rightarrow> unit result option" where
  "unit_answer r = (case r of Reply_Unit a \<Rightarrow> Some a | _ \<Rightarrow> None)"

definition code_answer :: "'e reply \<Rightarrow> 'e join_code result option" where
  "code_answer r = (case r of Reply_Code a \<Rightarrow> Some a | _ \<Rightarrow> None)"

definition receipt_answer :: "'e reply \<Rightarrow> ('e message_id \<times> 'e list) result option" where
  "receipt_answer r = (case r of Reply_Receipt a \<Rightarrow> Some a | _ \<Rightarrow> None)"

definition metrics_answer :: "'e reply \<Rightarrow> Owner_State.metrics result option" where
  "metrics_answer r = (case r of Reply_Metrics a \<Rightarrow> Some (Inr a) | _ \<Rightarrow> None)"

definition ready_answer :: "'e reply \<Rightarrow> bool result option" where
  "ready_answer r = (case r of Reply_Ready a \<Rightarrow> Some a | _ \<Rightarrow> None)"

text \<open>\<open>connect_host\<close>: the reply of a command that the owner has given to a task comes from the task.\<close>

definition connect_host ::
  "bool \<Rightarrow> ('e owner_command \<Rightarrow> 'o \<Rightarrow> 'e reply option \<times> 'o) \<Rightarrow> ('o \<Rightarrow> unit result option \<times> 'o) \<Rightarrow> 'e \<Rightarrow> 'o \<Rightarrow> unit result \<times> 'o"
where
  "connect_host stopped ask task host x =
     (if stopped then (Inl ShuttingDown, x)
      else case ask (Connect host) x of
        (Some (Reply_Spawned e), x) \<Rightarrow>
          (case task x of (c, x) \<Rightarrow> (case c of None \<Rightarrow> Inl ShuttingDown | Some a \<Rightarrow> a, x))
      | (r, x) \<Rightarrow> (case Option.bind r unit_answer of None \<Rightarrow> Inl ShuttingDown | Some a \<Rightarrow> a, x))"

datatype shutdown_mode = Immediate | Drain duration

text \<open>\<open>Instant\<close> counts in signed 64-bit seconds.\<close>

definition instant_checked_add :: "nat \<Rightarrow> duration \<Rightarrow> nat option" where
  "instant_checked_add t d = (if t + d < 2 ^ 63 * 10 ^ 9 then Some (t + d) else None)"

text \<open>\<open>shutdown\<close>: \<open>ending\<close> runs the owner until it is done and gives the metrics that it returns to whoever asked first.\<close>

definition shutdown ::
  "bool \<Rightarrow> ('e owner_command \<Rightarrow> 'o \<Rightarrow> 'e reply option \<times> 'o) \<Rightarrow> ('o \<Rightarrow> Owner_State.metrics option \<times> 'o) \<Rightarrow> shutdown_mode \<Rightarrow> nat \<Rightarrow> 'o
   \<Rightarrow> Owner_State.metrics result \<times> 'o"
where
  "shutdown stopped ask ending mode now x =
     sbind (case mode of Immediate \<Rightarrow> Inr now
            | Drain d \<Rightarrow> ok_or (instant_checked_add now d) (Config ''shutdown timeout is too large''), x) (\<lambda>deadline x.
     if stopped then (Inl ShuttingDown, snd (ending x))
     else case ask (Shutdown deadline) x of
       (None, x) \<Rightarrow> (Inl ShuttingDown, snd (ending x))
     | (Some r, x) \<Rightarrow>
         (case ending x of (m, x) \<Rightarrow>
          (case unit_answer r of
             Some (Inl e) \<Rightarrow> Inl e
           | _ \<Rightarrow> (case m of None \<Rightarrow> Inl ShuttingDown | Some m \<Rightarrow> Inr m), x)))"

text \<open>\<open>join\<close>: \<open>connection\<close> is the result of connecting to the address of the code, \<open>exchange\<close> what the connection
  carries; \<open>go\<close> connects the new client to its host and \<open>leave\<close> shuts it down.\<close>

definition join_start ::
  "('e::linorder) lib \<Rightarrow> config \<Rightarrow> bytes \<Rightarrow> 'e join_code \<Rightarrow> quic \<Rightarrow> 'e result \<Rightarrow> (bytes \<Rightarrow> bytes) \<Rightarrow> u64 \<Rightarrow> 'e tick \<Rightarrow> 'w
   \<Rightarrow> ('e handle \<times> ('e, 'w) owner) result"
where
  "join_start L cfg identity code q connection exchange now tk w =
     rbind (config_validate cfg) (\<lambda>_.
     rbind (fail_if (key_public L identity = host_id code) Unauthorized) (\<lambda>_.
     rbind (bind q cfg identity) (\<lambda>_.
     rbind connection (\<lambda>remote.
     rbind (redeem L code remote (key_public L identity) exchange None now) (\<lambda>enrollment.
       start_bound L cfg (en_trust enrollment) identity (en_certificate enrollment)
         (Client (host_id code)) (Some (host_id code)) tk w)))))"

definition join_endpoint ::
  "('e::linorder) lib \<Rightarrow> config \<Rightarrow> bytes \<Rightarrow> 'e join_code \<Rightarrow> quic \<Rightarrow> 'e result \<Rightarrow> (bytes \<Rightarrow> bytes) \<Rightarrow> u64 \<Rightarrow> 'e tick \<Rightarrow> 'w
   \<Rightarrow> (('e, 'w) owner \<Rightarrow> unit result \<times> ('e, 'w) owner) \<Rightarrow> (('e, 'w) owner \<Rightarrow> ('e, 'w) owner)
   \<Rightarrow> 'e handle result \<times> ('e, 'w) owner option"
where
  "join_endpoint L cfg identity code q connection exchange now tk w go leave =
     (case join_start L cfg identity code q connection exchange now tk w of
        Inl e \<Rightarrow> (Inl e, None)
      | Inr (h, ow) \<Rightarrow>
          (case go ow of
             (Inl e, ow) \<Rightarrow> (Inl e, Some (leave ow))
           | (Inr _, ow) \<Rightarrow> (Inr h, Some ow)))"

section \<open>The operations of an endpoint\<close>

definition issue_join_code ::
  "bool \<Rightarrow> ('e owner_command \<Rightarrow> 'o \<Rightarrow> 'e reply option \<times> 'o) \<Rightarrow> join_options \<Rightarrow> 'e address \<Rightarrow> 'o \<Rightarrow> 'e join_code result \<times> 'o"
where
  "issue_join_code stopped ask opts address x =
     sbind (join_options_validate opts, x) (\<lambda>_ x. request stopped ask code_answer (IssueCode opts address) x)"

definition revoke_join_code ::
  "bool \<Rightarrow> ('e owner_command \<Rightarrow> 'o \<Rightarrow> 'e reply option \<times> 'o) \<Rightarrow> bytes \<Rightarrow> 'o \<Rightarrow> unit result \<times> 'o"
where
  "revoke_join_code stopped ask cid = request stopped ask unit_answer (RevokeCode cid)"

text \<open>\<open>rejoin\<close>, with the connection as in \<open>join_start\<close>.\<close>

definition rejoin ::
  "'e lib \<Rightarrow> bool \<Rightarrow> ('e owner_command \<Rightarrow> 'o \<Rightarrow> 'e reply option \<times> 'o) \<Rightarrow> (nat \<Rightarrow> 'o \<Rightarrow> permit result \<times> 'o) \<Rightarrow> ('o \<Rightarrow> unit result option \<times> 'o)
   \<Rightarrow> 'e handle \<Rightarrow> 'e join_code \<Rightarrow> 'e result \<Rightarrow> (bytes \<Rightarrow> bytes) \<Rightarrow> u64 \<Rightarrow> 'o \<Rightarrow> unit result \<times> 'o"
where
  "rejoin L stopped ask rsv task h code connection exchange now x =
     sbind (fail_if (hd_host h \<noteq> Some (host_id code)) Unauthorized, x) (\<lambda>_ x.
     sbind (rsv (128 * 1024) x) (\<lambda>_ x.
     sbind (rbind connection (\<lambda>remote. redeem L code remote (hd_self h) exchange (Some (hd_trust h)) now), x) (\<lambda>enrollment x.
     sbind (request stopped ask unit_answer (Renew (en_certificate enrollment)) x) (\<lambda>_ x.
       connect_host stopped ask task (host_id code) x))))"

definition disconnect ::
  "bool \<Rightarrow> ('e owner_command \<Rightarrow> 'o \<Rightarrow> 'e reply option \<times> 'o) \<Rightarrow> 'e \<Rightarrow> 'o \<Rightarrow> unit result \<times> 'o"
where
  "disconnect stopped ask peer = request stopped ask unit_answer (Disconnect peer)"

record subscription_options =
  so_mode :: delivery_mode

definition so_acknowledged :: subscription_options where
  "so_acknowledged = \<lparr>so_mode = Acknowledged\<rparr>"

definition so_best_effort :: subscription_options where
  "so_best_effort = \<lparr>so_mode = BestEffort\<rparr>"

text \<open>The topic of a \<open>Subscription\<close> or a \<open>Publisher\<close> is its part that the interface uses.\<close>

definition subscribe_topic ::
  "bool \<Rightarrow> ('e owner_command \<Rightarrow> 'o \<Rightarrow> 'e reply option \<times> 'o) \<Rightarrow> string \<Rightarrow> subscription_options \<Rightarrow> 'o \<Rightarrow> topic result \<times> 'o"
where
  "subscribe_topic stopped ask name opts x =
     sbind (topic_new name, x) (\<lambda>topic x.
     sbind (request stopped ask unit_answer (SubscribeTopic topic (so_mode opts)) x) (\<lambda>_ x. (Inr topic, x)))"

definition publisher :: "'e certificate \<Rightarrow> string \<Rightarrow> topic result" where
  "publisher cert name =
     rbind (topic_new name) (\<lambda>topic. rbind (fail_if (\<not> allows cert topic True) Unauthorized) (\<lambda>_. Inr topic))"

definition publish_payload ::
  "bool \<Rightarrow> ('e owner_command \<Rightarrow> 'o \<Rightarrow> 'e reply option \<times> 'o) \<Rightarrow> (nat \<Rightarrow> 'o \<Rightarrow> permit result \<times> 'o) \<Rightarrow> 'e handle \<Rightarrow> topic \<Rightarrow> lease
   \<Rightarrow> publish_options \<Rightarrow> 'o \<Rightarrow> ('e message_id \<times> 'e list) result \<times> 'o"
where
  "publish_payload stopped ask rsv h topic payload opts x =
     sbind (fail_if (\<not> owns (hd_pool h) payload) (Config ''payload must belong to this endpoint's buffer pool''), x) (\<lambda>_ x.
     sbind (rsv (512 + length (po_format opts)) x) (\<lambda>_ x.
       request stopped ask receipt_answer (Publish topic payload opts) x))"

definition endpoint_deny ::
  "bool \<Rightarrow> ('e owner_command \<Rightarrow> 'o \<Rightarrow> 'e reply option \<times> 'o) \<Rightarrow> bytes \<Rightarrow> 'o \<Rightarrow> unit result \<times> 'o"
where
  "endpoint_deny stopped ask cid = request stopped ask unit_answer (Deny cid)"

definition endpoint_revoke ::
  "bool \<Rightarrow> ('e owner_command \<Rightarrow> 'o \<Rightarrow> 'e reply option \<times> 'o) \<Rightarrow> bytes \<Rightarrow> 'o \<Rightarrow> unit result \<times> 'o"
where
  "endpoint_revoke stopped ask snapshot = request stopped ask unit_answer (Revoke snapshot)"

definition endpoint_metrics ::
  "bool \<Rightarrow> ('e owner_command \<Rightarrow> 'o \<Rightarrow> 'e reply option \<times> 'o) \<Rightarrow> 'o \<Rightarrow> Owner_State.metrics result \<times> 'o"
where
  "endpoint_metrics stopped ask = request stopped ask metrics_answer Metrics"

definition topics_ready ::
  "bool \<Rightarrow> ('e owner_command \<Rightarrow> 'o \<Rightarrow> 'e reply option \<times> 'o) \<Rightarrow> 'e \<Rightarrow> string \<Rightarrow> string \<Rightarrow> 'o \<Rightarrow> bool result \<times> 'o"
where
  "topics_ready stopped ask peer outgoing inc x =
     sbind (topic_new outgoing, x) (\<lambda>outgoing x.
     sbind (topic_new inc, x) (\<lambda>inc x.
       request stopped ask ready_answer (TopicsReady peer outgoing inc) x))"

definition receipt_cancel ::
  "bool \<Rightarrow> ('e owner_command \<Rightarrow> 'o \<Rightarrow> 'e reply option \<times> 'o) \<Rightarrow> 'e message_id \<Rightarrow> 'o \<Rightarrow> unit result \<times> 'o"
where
  "receipt_cancel stopped ask i = request stopped ask unit_answer (Cancel i)"

section \<open>A started endpoint\<close>

lemma start_bound_Inr:
  assumes "start_bound L cfg trust identity cert adm host tk w = Inr (h, ow)"
    and "config_validate cfg = Inr ()" and "wf_trust trust" and "wf_certificate L cert"
  shows "fresh_owner L ow" and "o_trust ow = trust" and "o_self ow = key_public L identity" and "c_claims (o_cert ow) = c_claims cert"
    and "c_bytes (o_cert ow) = c_bytes cert" and "o_clock_failed ow = False" and "hd_host h = host" and "hd_self h = key_public L identity"
    and "\<exists>m m'. admission_meter adm m = Inr (o_admission ow, m')"
proof -
  from assms(1) obtain m1 adm' m2 cert' m3 memory m4 where
      e: "admission_meter adm m1 = Inr (adm', m2)" "certificate_metered cert m2 = Inr (cert', m3)" "admit m3 (revoked_count trust * 96) = Inr (memory, m4)"
    and ow: "ow = owner_new cfg trust identity (key_public L identity) cert' memory
        \<lparr>br_id = 0, br_limit = payload_bytes cfg\<rparr> \<lparr>br_id = 1, br_limit = metadata_bytes cfg\<rparr> adm' [] (meter_next m4) tk w"
    and h: "hd_host h = host" "hd_self h = key_public L identity"
    by (auto simp: start_bound_def Let_def result_simps)
  note c = certificate_metered_wf [OF e(2), of L]
  show "fresh_owner L ow"
    unfolding fresh_owner_def ow using assms(2-4) c by blast
  show "o_trust ow = trust" "o_self ow = key_public L identity" "c_claims (o_cert ow) = c_claims cert"
    "c_bytes (o_cert ow) = c_bytes cert" "o_clock_failed ow = False"
    using c by (simp_all add: ow owner_new_def)
  show "\<exists>m m'. admission_meter adm m = Inr (o_admission ow, m')"
    using e(1) by (auto simp: ow owner_new_def)
qed (use assms(1) in \<open>auto simp: start_bound_def Let_def result_simps\<close>)

lemma authority_trust_wf: "wf_trust (authority_trust L a)"
  by (simp add: authority_trust_def trust_new_def wf_trust_def)

lemma trust_verify_same: "c_claims c' = c_claims c \<Longrightarrow> c_bytes c' = c_bytes c \<Longrightarrow> trust_verify L t c' peer now = trust_verify L t c peer now"
  by (simp add: trust_verify_def check_def certificate_id_def)

lemma enrollment_decode_Inr:
  assumes "enrollment_decode L b peer expected now = Inr en"
  shows "wf_certificate L (en_certificate en)" and "wf_trust (en_trust en)"
    and "trust_verify L (case expected of None \<Rightarrow> en_trust en | Some t \<Rightarrow> t) (en_certificate en) peer now = Inr ()"
    and "now < en_expires en"
  using assms certificate_from_bytes_wf [of L]
  by (auto simp: enrollment_decode_def Let_def result_simps trust_new_def wf_trust_def not_le)

lemma redeem_Inr:
  assumes "redeem L code remote self exchange expected now = Inr en"
  shows "remote = host_id code" and "wf_certificate L (en_certificate en)" and "wf_trust (en_trust en)"
    and "trust_verify L (case expected of None \<Rightarrow> en_trust en | Some t \<Rightarrow> t) (en_certificate en) self now = Inr ()"
proof -
  from assms show "remote = host_id code"
    by (auto simp: redeem_def result_simps)
  from assms obtain b where "enrollment_decode L b self expected now = Inr en"
    by (auto simp: redeem_def result_simps parse_join_reply_def Let_def split: if_splits)
  from enrollment_decode_Inr [OF this] show "wf_certificate L (en_certificate en)" "wf_trust (en_trust en)"
    "trust_verify L (case expected of None \<Rightarrow> en_trust en | Some t \<Rightarrow> t) (en_certificate en) self now = Inr ()"
    by auto
qed

text \<open>A new host needs little memory, so it starts with every valid configuration.\<close>

lemma start_bound_new:
  assumes "config_validate cfg = Inr ()" and "length (c_bytes cert) \<le> MAX_CERT" and "revoked_count trust = 0"
    and "\<And>m. admission_meter adm m = Inr (adm, m)"
  shows "\<exists>h ow. start_bound L cfg trust identity cert adm host tk w = Inr (h, ow)"
proof -
  have "256 * 1024 \<le> metadata_bytes cfg"
    using assms(1) by (auto simp: config_validate_def result_simps)
  moreover have "length (c_bytes cert) * 4 + 16 * 1024 \<le> 256 * 1024"
    using assms(2) by (simp add: MAX_CERT_def)
  ultimately show ?thesis
    by (simp add: start_bound_def Let_def certificate_metered_def admit_def meter_used_def charged_def total_def meter_permit_def assms(3,4))
qed

section \<open>Requests keep the invariants\<close>

lemma request_inv:
  assumes "P x" and "P (snd (ask c x))"
  shows "P (snd (request stopped ask answer c x))"
  using assms by (auto simp: request_def split: prod.split)

lemma request_reach:
  assumes "fair_others E oth" and "reach E s"
    and "\<And>s'. reach E s' \<Longrightarrow> set (sy_tickets s) \<subseteq> set (sy_tickets s') \<Longrightarrow> admissible (ev_lib E) s' (Command c)"
  shows "reach E (fst (snd (request stopped (owner_ask E tks oth) answer c (s, n))))"
  by (rule request_inv [where P = "\<lambda>x. reach E (fst x)"]) (use assms owner_ask_reach [OF assms] in auto)

lemma connect_host_reach:
  assumes "fair_others E oth" and "reach E (fst x)" and "\<And>y. reach E (fst y) \<Longrightarrow> reach E (fst (snd (task y)))"
  shows "reach E (fst (snd (connect_host stopped (owner_ask E tks oth) task host x)))"
proof -
  obtain r y where y: "owner_ask E tks oth (Connect host) x = (r, y)"
    by (rule prod.exhaust)
  have "reach E (fst y)"
    using owner_ask_reach [OF assms(1), of "fst x" "Connect host" tks "snd x"] assms(2) y by (simp add: admissible_def)
  then show ?thesis
    using assms(2) assms(3) [of y] by (auto simp: connect_host_def y split: option.split reply.split prod.split)
qed

lemma owner_reserve_reach: "reach E (fst x) \<Longrightarrow> reach E (fst (snd (owner_reserve k x)))"
  by (rule idle.rsv_inv)

lemma start_issued:
  assumes "external L" and "config_validate cfg = Inr ()"
    and c: "authority_issue L a cid (key_public L identity) perms now ex lims = Inr c"
    and "length (a_realm a) = 16" and "length cid = 16" and topics: "\<forall>p \<in> set perms. wf_topic (p_topic p)"
  obtains h ow where "start_bound L cfg (authority_trust L a) identity c (Host (host_new a False)) None tk w = Inr (h, ow)"
    "fresh_owner L ow" "o_self ow = key_public L identity" "c_claims (o_cert ow) = c_claims c"
    "\<forall>tk' n. tk_now tk' = Inr n \<and> now \<le> n \<and> n < ex \<longrightarrow> local_valid tk' ow = Inr n"
proof -
  note issued = external.authority_issue_Inr [OF assms(1) c assms(4,5) topics]
  note verifies = external.authority_issue_verifies [OF assms(1) c assms(4,5) topics]
  have "length (c_bytes c) \<le> MAX_CERT"
    using external.wf_certificate_payload [OF assms(1)] issued by blast
  then obtain h ow where start: "start_bound L cfg (authority_trust L a) identity c (Host (host_new a False)) None tk w = Inr (h, ow)"
    using start_bound_new [OF assms(2), of c "authority_trust L a" "Host (host_new a False)"]
    by (fastforce simp: authority_trust_def trust_new_def revoked_count_def admission_meter_def host_meter_def host_new_def)
  note ow = start_bound_Inr [OF start assms(2) authority_trust_wf]
  have "local_valid tk' ow = Inr n" if "tk_now tk' = Inr n" "now \<le> n" "n < ex" for tk' n
  proof -
    have "check (authority_trust L a) c (key_public L identity) n = Inr ()"
      using verifies [OF that(2,3)] by (auto simp: trust_verify_def result_simps)
    then show ?thesis
      using ow issued that(1) check_claims [of "o_cert ow" c] by (simp add: local_valid_def)
  qed
  with start ow issued that show ?thesis
    by blast
qed

section \<open>Properties\<close>

text \<open>C20. A new host starts exactly when its certificate fits. With a valid configuration, a clock that can be read and whose
  lifetime does not overflow, at most 256 valid permissions and a QUIC endpoint that can be bound: when the certificate over the
  permissions has at most 15 KiB, the endpoint starts in a state where all that is shown of the reachable states holds, its own
  certificate is accepted for the whole lifetime, and it may do what was asked for; when it is larger, \<open>host\<close> fails with
  \<open>MessageTooLarge\<close>. Up to 53 permissions always fit, whatever the topics.\<close>

theorem new_host_starts:
  assumes "external L" and "config_validate cfg = Inr ()" and "tk_now tk = Inr now" and "now < now + as_secs MAX_JOIN_LIFETIME"
    and "length (a_realm a) = 16" and "length cid = 16"
    and "\<forall>p \<in> set perms. wf_permission p" and "distinct (map p_topic perms)" and "length perms \<le> MAX_PERMISSIONS"
    and "bind q cfg identity = Inr ()"
  shows "(length (issued_bytes L a cid (key_public L identity) perms now (now + as_secs MAX_JOIN_LIFETIME) limits_default) \<le> MAX_CERT \<longrightarrow>
      (\<exists>h ow. host_in_memory L cfg identity perms a cid q tk w = Inr (h, ow)
      \<and> fresh_owner L ow \<and> o_self ow = key_public L identity
      \<and> (\<forall>tk' n. tk_now tk' = Inr n \<and> now \<le> n \<and> n < now + as_secs MAX_JOIN_LIFETIME \<longrightarrow> local_valid tk' ow = Inr n)
      \<and> (\<forall>p \<in> set perms. (p_publish p \<longrightarrow> allows (o_cert ow) (p_topic p) True) \<and> (p_subscribe p \<longrightarrow> allows (o_cert ow) (p_topic p) False))))
    \<and> (MAX_CERT < length (issued_bytes L a cid (key_public L identity) perms now (now + as_secs MAX_JOIN_LIFETIME) limits_default) \<longrightarrow>
      host_in_memory L cfg identity perms a cid q tk w = Inl MessageTooLarge)
    \<and> (length perms \<le> 53 \<longrightarrow>
      length (issued_bytes L a cid (key_public L identity) perms now (now + as_secs MAX_JOIN_LIFETIME) limits_default) \<le> MAX_CERT)"
proof (intro conjI impI)
  note issue = external.authority_issue_size [OF assms(1,5-9,4), of "key_public L identity" limits_default, unfolded Let_def]
  note run = host_in_memory_def host_with_admission_def admission_authority_def host_new_def
  assume "length (issued_bytes L a cid (key_public L identity) perms now (now + as_secs MAX_JOIN_LIFETIME) limits_default) \<le> MAX_CERT"
  with issue obtain c where c: "authority_issue L a cid (key_public L identity) perms now (now + as_secs MAX_JOIN_LIFETIME) limits_default = Inr c"
    by simp
  have topics: "\<forall>p \<in> set perms. wf_topic (p_topic p)"
    using assms(7) by (simp add: wf_permission_def)
  note issued = external.authority_issue_Inr [OF assms(1) c assms(5,6) topics]
  obtain h ow where start: "start_bound L cfg (authority_trust L a) identity c (Host (host_new a False)) None tk w = Inr (h, ow)"
    and ow: "fresh_owner L ow" "o_self ow = key_public L identity" "c_claims (o_cert ow) = c_claims c"
      "\<forall>tk' n. tk_now tk' = Inr n \<and> now \<le> n \<and> n < now + as_secs MAX_JOIN_LIFETIME \<longrightarrow> local_valid tk' ow = Inr n"
    using start_issued [OF assms(1,2) c assms(5,6) topics, of tk w] .
  moreover have "host_in_memory L cfg identity perms a cid q tk w = Inr (h, ow)"
    using start c assms(2,3,10) by (simp add: run)
  moreover have "(p_publish p \<longrightarrow> allows (o_cert ow) (p_topic p) True) \<and> (p_subscribe p \<longrightarrow> allows (o_cert ow) (p_topic p) False)"
    if "p \<in> set perms" for p
    using that ow(3) issued by (auto simp: allows_def list_ex_iff)
  ultimately have "host_in_memory L cfg identity perms a cid q tk w = Inr (h, ow) \<and> fresh_owner L ow \<and> o_self ow = key_public L identity
      \<and> (\<forall>tk' n. tk_now tk' = Inr n \<and> now \<le> n \<and> n < now + as_secs MAX_JOIN_LIFETIME \<longrightarrow> local_valid tk' ow = Inr n)
      \<and> (\<forall>p \<in> set perms. (p_publish p \<longrightarrow> allows (o_cert ow) (p_topic p) True) \<and> (p_subscribe p \<longrightarrow> allows (o_cert ow) (p_topic p) False))"
    by simp
  then show "\<exists>h ow. host_in_memory L cfg identity perms a cid q tk w = Inr (h, ow)
      \<and> fresh_owner L ow \<and> o_self ow = key_public L identity
      \<and> (\<forall>tk' n. tk_now tk' = Inr n \<and> now \<le> n \<and> n < now + as_secs MAX_JOIN_LIFETIME \<longrightarrow> local_valid tk' ow = Inr n)
      \<and> (\<forall>p \<in> set perms. (p_publish p \<longrightarrow> allows (o_cert ow) (p_topic p) True) \<and> (p_subscribe p \<longrightarrow> allows (o_cert ow) (p_topic p) False))"
    by blast
next
  assume "MAX_CERT < length (issued_bytes L a cid (key_public L identity) perms now (now + as_secs MAX_JOIN_LIFETIME) limits_default)"
  with external.authority_issue_size [OF assms(1,5-9,4)] assms(2,3)
  show "host_in_memory L cfg identity perms a cid q tk w = Inl MessageTooLarge"
    by (simp add: host_in_memory_def host_with_admission_def admission_authority_def host_new_def Let_def)
next
  assume "length perms \<le> 53"
  then show "length (issued_bytes L a cid (key_public L identity) perms now (now + as_secs MAX_JOIN_LIFETIME) limits_default) \<le> MAX_CERT"
    by (rule external.issued_bytes_fit [OF assms(1,5-7)])
qed

text \<open>C21. A client that has joined holds a certificate in its own name from the realm of its host: whatever the connection carries, \<open>join\<close>
  starts a client only over a connection to the host named in the code, with a valid configuration, an identity that is not the
  host's, and a certificate that the root it was told of has signed and that is valid; the client starts as the reachable states
  demand, and dials only its host.\<close>

theorem join_starts:
  assumes "join_start L cfg identity code q connection exchange now tk w = Inr (h, ow)"
  shows "config_validate cfg = Inr () \<and> bind q cfg identity = Inr () \<and> connection = Inr (host_id code) \<and> key_public L identity \<noteq> host_id code
    \<and> fresh_owner L ow \<and> o_self ow = key_public L identity \<and> hd_host h = Some (host_id code)
    \<and> trust_verify L (o_trust ow) (o_cert ow) (o_self ow) now = Inr ()
    \<and> (\<forall>peer. can_dial (o_admission ow) peer \<longleftrightarrow> peer = host_id code)"
proof -
  from assms obtain remote en where cfg: "config_validate cfg = Inr ()" "bind q cfg identity = Inr ()" "connection = Inr remote" "key_public L identity \<noteq> host_id code"
    and en: "redeem L code remote (key_public L identity) exchange None now = Inr en"
    and start: "start_bound L cfg (en_trust en) identity (en_certificate en) (Client (host_id code)) (Some (host_id code)) tk w = Inr (h, ow)"
    by (auto simp: join_start_def result_simps)
  note r = redeem_Inr [OF en]
  note ow = start_bound_Inr [OF start cfg(1) r(3,2)]
  have "o_admission ow = Client (host_id code)"
    using ow(9) by (auto simp: admission_meter_def)
  then show ?thesis
    using cfg r ow trust_verify_same [OF ow(4,5), of L "en_trust en" "key_public L identity" now] by (auto simp: can_dial_def)
qed

section \<open>The operations on a running endpoint\<close>

text \<open>Of the operations, only those that send a certificate or a payload need something of their arguments.\<close>

definition unconditional :: "'e owner_command \<Rightarrow> bool" where
  "unconditional c \<longleftrightarrow> (case c of
      IssueCode _ _ \<Rightarrow> True | RevokeCode _ \<Rightarrow> True | Disconnect _ \<Rightarrow> True | SubscribeTopic _ _ \<Rightarrow> True | Deny _ \<Rightarrow> True
    | Revoke _ \<Rightarrow> True | Metrics \<Rightarrow> True | TopicsReady _ _ _ \<Rightarrow> True | Cancel _ \<Rightarrow> True | _ \<Rightarrow> False)"

lemma unconditional_reach:
  assumes "fair_others E oth" and "reach E (fst x)" and "unconditional c"
  shows "reach E (fst (snd (request stopped (owner_ask E tks oth) answer c x)))"
  using request_reach [OF assms(1,2), of c stopped tks answer "snd x"] assms(3)
  by (auto simp: unconditional_def admissible_def split: owner_command.splits)

lemma rejoin_reach:
  assumes "fair_others E oth" and "reach E (fst x)" and "\<And>y. reach E (fst y) \<Longrightarrow> reach E (fst (snd (task y)))"
  shows "reach E (fst (snd (rejoin (ev_lib E) stopped (owner_ask E tks oth) owner_reserve task h code connection exchange now x)))"
  unfolding rejoin_def
  apply (rule sbind_pure_inv [where P = "\<lambda>x. reach E (fst x)"], rule assms)
  apply (rule sbind_inv [where P = "\<lambda>x. reach E (fst x)"], rule owner_reserve_reach, rule assms)
  apply (rule sbind_pure_inv [where P = "\<lambda>x. reach E (fst x)"], assumption)
  apply (rule sbind_inv [where P = "\<lambda>x. reach E (fst x)"])
  subgoal for _ p y en
    using request_reach [OF assms(1), of "fst y" "Renew (en_certificate en)" stopped tks unit_answer "snd y"]
    by (auto simp: admissible_def result_simps dest: redeem_Inr(2))
  apply (rule connect_host_reach [OF assms(1) _ assms(3)])
   apply assumption+
  done

text \<open>A payload is published with permits that the application holds, and the rest of the endpoint lets it keep them.\<close>

definition holds_permits :: "permit list \<Rightarrow> ('e, 'w) system \<Rightarrow> bool" where
  "holds_permits ps s \<longleftrightarrow> set ps \<subseteq> set (o_outside (sy_owner s))"

lemma owner_reserve_holds: "holds_permits ps (fst x) \<Longrightarrow> holds_permits ps (fst (snd (owner_reserve k x)))"
  by (auto simp: owner_reserve_def holds_permits_def release_held_def hand_out_def dest!: o_reserve_Inr split: prod.splits sum.splits)

lemma publish_reach:
  assumes "fair_others E oth" and "reach E (fst x)" and "holds_permits (lease_permits payload) (fst x)"
    and "\<And>n s. holds_permits (lease_permits payload) s \<Longrightarrow> holds_permits (lease_permits payload) (oth n s)"
  shows "reach E (fst (snd (publish_payload stopped (owner_ask E tks oth) owner_reserve h topic payload po x)))"
proof -
  let ?P = "\<lambda>x. reach E (fst x) \<and> holds_permits (lease_permits payload) (fst x)"
  have ask: "reach E (fst (snd (owner_ask E tks oth (Publish topic payload po) y)))" if "?P y" for y
  proof -
    have "sys_step E (oth (snd y) (fst y)) (fst (snd (owner_ask E tks oth (Publish topic payload po) y)))"
      using assms(4) [of "fst y" "snd y"] that
      by (auto simp: owner_ask_def Let_def admissible_def holds_permits_def split: prod.split intro!: sys_step.owner_turn)
    then show ?thesis
      using assms(1) that by (auto simp: fair_others_def intro: reach.step)
  qed
  obtain r y where y: "owner_reserve (512 + length (po_format po)) x = (r, y)"
    by (rule prod.exhaust)
  have "?P y"
    using assms(2,3) owner_reserve_reach [of E x] owner_reserve_holds [of _ x] y by (metis snd_conv)
  then have "reach E (fst (snd (request stopped (owner_ask E tks oth) receipt_answer (Publish topic payload po) y)))"
    using ask by (intro request_inv [where P = "\<lambda>x. reach E (fst x)"]) auto
  with \<open>?P y\<close> show ?thesis
    unfolding publish_payload_def
    by (intro sbind_pure_inv [where P = "\<lambda>x. reach E (fst x)", OF assms(2)]) (cases r; simp add: y)
qed

text \<open>The operations of the interface only take the endpoint through states that it reaches, whatever the rest of the endpoint does between
  their steps. A payload is published with permits that the application holds.\<close>

lemma endpoint_operations_reach:
  assumes "fair_others E oth" and "reach E s" and "holds_permits (lease_permits payload) s"
    and "\<And>n s. holds_permits (lease_permits payload) s \<Longrightarrow> holds_permits (lease_permits payload) (oth n s)"
    and "\<And>y. reach E (fst y) \<Longrightarrow> reach E (fst (snd (task y)))" and "\<And>y. reach E (fst y) \<Longrightarrow> reach E (fst (snd (ending y)))"
  shows "reach E (fst (snd (issue_join_code stopped (owner_ask E tks oth) opts address (s, n))))
    \<and> reach E (fst (snd (revoke_join_code stopped (owner_ask E tks oth) cid (s, n))))
    \<and> reach E (fst (snd (rejoin (ev_lib E) stopped (owner_ask E tks oth) owner_reserve task h code connection exchange now (s, n))))
    \<and> reach E (fst (snd (disconnect stopped (owner_ask E tks oth) peer (s, n))))
    \<and> reach E (fst (snd (subscribe_topic stopped (owner_ask E tks oth) name so (s, n))))
    \<and> reach E (fst (snd (publish_payload stopped (owner_ask E tks oth) owner_reserve h topic payload po (s, n))))
    \<and> reach E (fst (snd (endpoint_deny stopped (owner_ask E tks oth) cid (s, n))))
    \<and> reach E (fst (snd (endpoint_revoke stopped (owner_ask E tks oth) snapshot (s, n))))
    \<and> reach E (fst (snd (endpoint_metrics stopped (owner_ask E tks oth) (s, n))))
    \<and> reach E (fst (snd (topics_ready stopped (owner_ask E tks oth) peer outgoing inc (s, n))))
    \<and> reach E (fst (snd (receipt_cancel stopped (owner_ask E tks oth) i (s, n))))
    \<and> reach E (fst (snd (connect_host stopped (owner_ask E tks oth) task host (s, n))))
    \<and> reach E (fst (snd (shutdown stopped (owner_ask E tks oth) ending mode t (s, n))))"
proof -
  let ?P = "\<lambda>x. reach E (fst x)"
  have x: "?P (s, n)"
    using assms(2) by simp
  note request = unconditional_reach [OF assms(1) _, unfolded unconditional_def]
  have 1: "?P (snd (issue_join_code stopped (owner_ask E tks oth) opts address (s, n)))"
    unfolding issue_join_code_def by (rule sbind_pure_inv [where P = ?P, OF x], rule request [OF x]) simp
  have 2: "?P (snd (subscribe_topic stopped (owner_ask E tks oth) name so (s, n)))"
    unfolding subscribe_topic_def
    by (rule sbind_pure_inv [where P = ?P, OF x], rule sbind_inv [where P = ?P], rule request [OF x]) simp_all
  have 3: "?P (snd (topics_ready stopped (owner_ask E tks oth) peer outgoing inc (s, n)))"
    unfolding topics_ready_def by (rule sbind_pure_inv [where P = ?P, OF x])+ (rule request [OF x], simp)
  have 4: "?P (snd (publish_payload stopped (owner_ask E tks oth) owner_reserve h topic payload po (s, n)))"
    by (rule publish_reach [OF assms(1) x _ assms(4)]) (use assms(3) in simp_all)
  have 5: "?P (snd (rejoin (ev_lib E) stopped (owner_ask E tks oth) owner_reserve task h code connection exchange now (s, n)))"
    by (rule rejoin_reach [OF assms(1) x]) (rule assms(5))
  have 6: "?P (snd (shutdown stopped (owner_ask E tks oth) ending mode t (s, n)))"
  proof -
    have "?P (snd (owner_ask E tks oth (Shutdown d) (s, n)))" for d
      using owner_ask_reach [OF assms(1,2), of "Shutdown d"] by (simp add: admissible_def)
    then have "?P (snd (if stopped then (Inl ShuttingDown, snd (ending (s, n)))
        else case owner_ask E tks oth (Shutdown d) (s, n) of (None, x) \<Rightarrow> (Inl ShuttingDown, snd (ending x))
          | (Some r, x) \<Rightarrow> (case ending x of (m, x) \<Rightarrow> (f r m, x))))" for d and f :: "_ \<Rightarrow> _ \<Rightarrow> Owner_State.metrics result"
      using assms(6) [OF x] assms(6) [of "snd (owner_ask E tks oth (Shutdown d) (s, n))"]
      by (auto simp: case_prod_beta split: option.split)
    then show ?thesis
      unfolding shutdown_def by (intro sbind_pure_inv [where P = ?P, OF x])
  qed
  show ?thesis
    unfolding revoke_join_code_def disconnect_def endpoint_deny_def endpoint_revoke_def endpoint_metrics_def receipt_cancel_def
    by (intro conjI 1 2 3 4 5 6 request [OF x] connect_host_reach [OF assms(1) x]) (simp_all add: assms(5))
qed

section \<open>What the interface sends\<close>

text \<open>The calls that an application makes on an endpoint; a payload is published through the \<open>Publisher\<close> of a topic.\<close>

datatype 'e interface_call =
    Call_Issue join_options "'e address"
  | Call_Revoke_Code bytes
  | Call_Rejoin "'e join_code" "'e result" "bytes \<Rightarrow> bytes"
  | Call_Disconnect 'e
  | Call_Subscribe string subscription_options
  | Call_Publish string lease publish_options
  | Call_Deny bytes
  | Call_Revoke bytes
  | Call_Metrics
  | Call_Ready 'e string string
  | Call_Cancel "'e message_id"
  | Call_Shutdown shutdown_mode

definition finished_call :: "'a result \<times> 'o \<Rightarrow> unit result \<times> 'o" where
  "finished_call r = (case r of (Inl e, x) \<Rightarrow> (Inl e, x) | (Inr _, x) \<Rightarrow> (Inr (), x))"

text \<open>Around the owner: \<open>cert\<close> is the certificate that the endpoint has, \<open>now\<close> and \<open>t\<close> are the clocks.\<close>

record ('e, 'o) surroundings =
  su_stopped :: bool
  su_ask :: "'e owner_command \<Rightarrow> 'o \<Rightarrow> 'e reply option \<times> 'o"
  su_reserve :: "nat \<Rightarrow> 'o \<Rightarrow> permit result \<times> 'o"
  su_task :: "'o \<Rightarrow> unit result option \<times> 'o"
  su_ending :: "'o \<Rightarrow> Owner_State.metrics option \<times> 'o"
  su_cert :: "'e certificate"
  su_now :: u64
  su_instant :: nat

definition perform :: "'e lib \<Rightarrow> ('e, 'o) surroundings \<Rightarrow> 'e handle \<Rightarrow> 'e interface_call \<Rightarrow> 'o \<Rightarrow> unit result \<times> 'o" where
  "perform L S h c x =
     (case c of
        Call_Issue opts address \<Rightarrow> finished_call (issue_join_code (su_stopped S) (su_ask S) opts address x)
      | Call_Revoke_Code cid \<Rightarrow> revoke_join_code (su_stopped S) (su_ask S) cid x
      | Call_Rejoin code connection exchange \<Rightarrow>
          rejoin L (su_stopped S) (su_ask S) (su_reserve S) (su_task S) h code connection exchange (su_now S) x
      | Call_Disconnect peer \<Rightarrow> disconnect (su_stopped S) (su_ask S) peer x
      | Call_Subscribe name so \<Rightarrow> finished_call (subscribe_topic (su_stopped S) (su_ask S) name so x)
      | Call_Publish name payload po \<Rightarrow>
          sbind (publisher (su_cert S) name, x) (\<lambda>topic x.
            finished_call (publish_payload (su_stopped S) (su_ask S) (su_reserve S) h topic payload po x))
      | Call_Deny cid \<Rightarrow> endpoint_deny (su_stopped S) (su_ask S) cid x
      | Call_Revoke snapshot \<Rightarrow> endpoint_revoke (su_stopped S) (su_ask S) snapshot x
      | Call_Metrics \<Rightarrow> finished_call (endpoint_metrics (su_stopped S) (su_ask S) x)
      | Call_Ready peer outgoing inc \<Rightarrow> finished_call (topics_ready (su_stopped S) (su_ask S) peer outgoing inc x)
      | Call_Cancel i \<Rightarrow> receipt_cancel (su_stopped S) (su_ask S) i x
      | Call_Shutdown mode \<Rightarrow> finished_call (shutdown (su_stopped S) (su_ask S) (su_ending S) mode (su_instant S) x))"

text \<open>The same surroundings with a record of the commands that were sent.\<close>

definition aside :: "('o \<Rightarrow> 'a \<times> 'o) \<Rightarrow> 'l \<times> 'o \<Rightarrow> 'a \<times> 'l \<times> 'o" where
  "aside f y = (case f (snd y) of (r, x) \<Rightarrow> (r, fst y, x))"

definition recording :: "('e, 'o) surroundings \<Rightarrow> ('e, 'e owner_command list \<times> 'o) surroundings" where
  "recording S =
     \<lparr>su_stopped = su_stopped S, su_ask = (\<lambda>c y. aside (su_ask S c) (fst y @ [c], snd y)), su_reserve = (\<lambda>k. aside (su_reserve S k)),
      su_task = aside (su_task S), su_ending = aside (su_ending S), su_cert = su_cert S, su_now = su_now S, su_instant = su_instant S\<rparr>"

definition sent :: "'e lib \<Rightarrow> ('e, 'o) surroundings \<Rightarrow> 'e handle \<Rightarrow> 'e interface_call \<Rightarrow> 'o \<Rightarrow> 'e owner_command list" where
  "sent L S h c x = fst (snd (perform L (recording S) h c ([], x)))"

text \<open>What the interface has checked of a command when the owner receives it, and the calls that pass the checks.\<close>

definition vetted :: "'e lib \<Rightarrow> 'e certificate \<Rightarrow> u64 \<Rightarrow> nat \<Rightarrow> 'e handle \<Rightarrow> 'e owner_command \<Rightarrow> bool" where
  "vetted L cert now t h c \<longleftrightarrow>
     (case c of
        IssueCode opts _ \<Rightarrow> join_options_validate opts = Inr ()
      | SubscribeTopic topic _ \<Rightarrow> wf_topic topic
      | Publish topic payload _ \<Rightarrow> wf_topic topic \<and> allows cert topic True \<and> owns (hd_pool h) payload
      | Renew c \<Rightarrow> trust_verify L (hd_trust h) c (hd_self h) now = Inr ()
      | Connect host \<Rightarrow> hd_host h = Some host
      | TopicsReady _ outgoing inc \<Rightarrow> wf_topic outgoing \<and> wf_topic inc
      | Shutdown deadline \<Rightarrow> t \<le> deadline
      | RevokeCode _ \<Rightarrow> True | Disconnect _ \<Rightarrow> True | Deny _ \<Rightarrow> True | Revoke _ \<Rightarrow> True | Cancel _ \<Rightarrow> True | Metrics \<Rightarrow> True
      | _ \<Rightarrow> False)"

definition acceptable :: "'e lib \<Rightarrow> ('e, 'o) surroundings \<Rightarrow> 'e handle \<Rightarrow> 'e interface_call \<Rightarrow> 'o \<Rightarrow> bool" where
  "acceptable L S h c x \<longleftrightarrow>
     (case c of
        Call_Issue opts _ \<Rightarrow> join_options_validate opts = Inr ()
      | Call_Rejoin code connection exchange \<Rightarrow> hd_host h = Some (host_id code) \<and> \<not> isl (fst (su_reserve S (128 * 1024) x))
          \<and> connection = Inr (host_id code) \<and> \<not> isl (redeem L code (host_id code) (hd_self h) exchange (Some (hd_trust h)) (su_now S))
      | Call_Subscribe name _ \<Rightarrow> \<not> isl (topic_new name)
      | Call_Publish name payload po \<Rightarrow> \<not> isl (topic_new name) \<and> allows (su_cert S) (Topic name) True \<and> owns (hd_pool h) payload
          \<and> \<not> isl (fst (su_reserve S (512 + length (po_format po)) x))
      | Call_Ready _ outgoing inc \<Rightarrow> \<not> isl (topic_new outgoing) \<and> \<not> isl (topic_new inc)
      | Call_Shutdown (Drain d) \<Rightarrow> su_instant S + d < 2 ^ 63 * 10 ^ 9
      | _ \<Rightarrow> True)"

lemmas operations = issue_join_code_def revoke_join_code_def disconnect_def subscribe_topic_def publish_payload_def endpoint_deny_def
  endpoint_revoke_def endpoint_metrics_def topics_ready_def receipt_cancel_def publisher_def finished_call_def

lemma recording_simps [simp]:
  "su_stopped (recording S) = su_stopped S" "su_cert (recording S) = su_cert S" "su_now (recording S) = su_now S"
  "su_instant (recording S) = su_instant S"
  by (simp_all add: recording_def)

text \<open>Recording changes nothing else.\<close>

lemma request_recorded:
  "request st (su_ask (recording S)) answer c (l, x) =
     (case request st (su_ask S) answer c x of (r, y) \<Rightarrow> (r, if st then l else l @ [c], y))"
  by (simp add: request_def recording_def aside_def split: prod.split)

lemma connect_recorded:
  "connect_host st (su_ask (recording S)) (su_task (recording S)) host (l, x) =
     (case connect_host st (su_ask S) (su_task S) host x of (r, y) \<Rightarrow> (r, if st then l else l @ [Connect host], y))"
  by (simp add: connect_host_def recording_def aside_def split: prod.split option.split reply.split)

lemma reserve_recorded: "su_reserve (recording S) k (l, x) = (case su_reserve S k x of (r, y) \<Rightarrow> (r, l, y))"
  by (simp add: recording_def aside_def)

lemma shutdown_recorded:
  "shutdown st (su_ask (recording S)) (su_ending (recording S)) mode t (l, x) =
     (case shutdown st (su_ask S) (su_ending S) mode t x of (r, y) \<Rightarrow>
        (r, (case mode of Immediate \<Rightarrow> if st then l else l @ [Shutdown t]
             | Drain d \<Rightarrow> if st \<or> instant_checked_add t d = None then l else l @ [Shutdown (t + d)]), y))"
  by (cases mode; cases st)
    (auto simp: shutdown_def recording_def aside_def instant_checked_add_def ok_or_def split: prod.split option.split sum.split)

lemma request_unit_Inr:
  "request st ask unit_answer c x = (Inr (), y) \<longleftrightarrow> \<not> st \<and> ask c x = (Some (Reply_Unit (Inr ())), y)"
proof -
  obtain r z where r: "ask c x = (r, z)"
    by (rule prod.exhaust)
  then show ?thesis
    by (cases r; cases "the r") (auto simp: request_def unit_answer_def)
qed

lemma rejoin_recorded:
  "rejoin L st (su_ask (recording S)) (su_reserve (recording S)) (su_task (recording S)) h code connection exchange now (l, x) =
     (case rejoin L st (su_ask S) (su_reserve S) (su_task S) h code connection exchange now x of (r, y) \<Rightarrow>
        (r, l @ (case su_reserve S (128 * 1024) x of
             (Inr _, x1) \<Rightarrow> (case rbind connection (\<lambda>remote. redeem L code remote (hd_self h) exchange (Some (hd_trust h)) now) of
                Inr en \<Rightarrow> if st \<or> hd_host h \<noteq> Some (host_id code) then []
                  else Renew (en_certificate en) # (if fst (su_ask S (Renew (en_certificate en)) x1) = Some (Reply_Unit (Inr ()))
                    then [Connect (host_id code)] else [])
              | Inl _ \<Rightarrow> [])
           | (Inl _, _) \<Rightarrow> []), y))"
proof -
  obtain p x1 where p: "su_reserve S 131072 x = (p, x1)"
    by (rule prod.exhaust)
  let ?en = "rbind connection (\<lambda>remote. redeem L code remote (hd_self h) exchange (Some (hd_trust h)) now)"
  show ?thesis
  proof (cases "hd_host h = Some (host_id code) \<and> \<not> isl p \<and> \<not> isl ?en")
    case False
    then show ?thesis
      by (cases "hd_host h = Some (host_id code)"; cases p; cases ?en) (simp_all add: rejoin_def reserve_recorded p)
  next
    case True
    then obtain en where en: "?en = Inr en" and h: "hd_host h = Some (host_id code)" and "\<not> isl p"
      by (auto simp: isl_def) (metis sum.exhaust)
    then obtain q where q: "p = Inr q"
      by (cases p) auto
    obtain a x2 where a: "request st (su_ask S) unit_answer (Renew (en_certificate en)) x1 = (a, x2)"
      by (rule prod.exhaust)
    show ?thesis
    proof (cases a)
      case (Inl e)
      moreover from this have "\<not> (\<not> st \<and> fst (su_ask S (Renew (en_certificate en)) x1) = Some (Reply_Unit (Inr ())))"
        using a request_unit_Inr [of st "su_ask S" "Renew (en_certificate en)" x1] by (auto simp: prod_eq_iff)
      ultimately show ?thesis
        by (auto simp: rejoin_def reserve_recorded p q en h request_recorded a)
    next
      case (Inr u)
      then have "\<not> st \<and> su_ask S (Renew (en_certificate en)) x1 = (Some (Reply_Unit (Inr ())), x2)"
        using a request_unit_Inr [of st "su_ask S" "Renew (en_certificate en)" x1 x2] by simp
      with Inr show ?thesis
        using a by (cases "connect_host st (su_ask S) (su_task S) (host_id code) x2")
          (simp add: rejoin_def reserve_recorded p q en h request_recorded connect_recorded)
    qed
  qed
qed

text \<open>The commands of each call.\<close>

definition commands :: "'e lib \<Rightarrow> ('e, 'o) surroundings \<Rightarrow> 'e handle \<Rightarrow> 'e interface_call \<Rightarrow> 'o \<Rightarrow> 'e owner_command list" where
  "commands L S h c x =
     (if su_stopped S \<or> \<not> acceptable L S h c x then []
      else case c of
        Call_Issue opts address \<Rightarrow> [IssueCode opts address]
      | Call_Revoke_Code cid \<Rightarrow> [RevokeCode cid]
      | Call_Rejoin code connection exchange \<Rightarrow>
          (case redeem L code (host_id code) (hd_self h) exchange (Some (hd_trust h)) (su_now S) of
             Inl _ \<Rightarrow> []
           | Inr en \<Rightarrow> Renew (en_certificate en) #
               (if fst (su_ask S (Renew (en_certificate en)) (snd (su_reserve S (128 * 1024) x))) = Some (Reply_Unit (Inr ()))
                then [Connect (host_id code)] else []))
      | Call_Disconnect peer \<Rightarrow> [Disconnect peer]
      | Call_Subscribe name so \<Rightarrow> [SubscribeTopic (Topic name) (so_mode so)]
      | Call_Publish name payload po \<Rightarrow> [Publish (Topic name) payload po]
      | Call_Deny cid \<Rightarrow> [Deny cid]
      | Call_Revoke snapshot \<Rightarrow> [Revoke snapshot]
      | Call_Metrics \<Rightarrow> [Metrics]
      | Call_Ready peer outgoing inc \<Rightarrow> [TopicsReady peer (Topic outgoing) (Topic inc)]
      | Call_Cancel i \<Rightarrow> [Cancel i]
      | Call_Shutdown Immediate \<Rightarrow> [Shutdown (su_instant S)]
      | Call_Shutdown (Drain d) \<Rightarrow> [Shutdown (su_instant S + d)])"

lemma topic_new_eq: "topic_new s = (if wf_topic (Topic s) then Inr (Topic s) else Inl InvalidTopic)"
  by (simp add: topic_new_def wf_topic_def)

lemma rejoin_commands:
  "(case su_reserve S (128 * 1024) x of
      (Inr _, x1) \<Rightarrow> (case rbind connection (\<lambda>remote. redeem L code remote (hd_self h) exchange (Some (hd_trust h)) (su_now S)) of
         Inr en \<Rightarrow> if su_stopped S \<or> hd_host h \<noteq> Some (host_id code) then []
           else Renew (en_certificate en) # (if fst (su_ask S (Renew (en_certificate en)) x1) = Some (Reply_Unit (Inr ()))
             then [Connect (host_id code)] else [])
       | Inl _ \<Rightarrow> [])
    | (Inl _, _) \<Rightarrow> []) = commands L S h (Call_Rejoin code connection exchange) x"
proof -
  obtain p x1 where p: "su_reserve S 131072 x = (p, x1)"
    by (rule prod.exhaust)
  have remote: "remote = host_id code" if "redeem L code remote (hd_self h) exchange (Some (hd_trust h)) (su_now S) = Inr en" for remote en
    using redeem_Inr(1) [OF that] .
  show ?thesis
  proof (cases "connection = Inr (host_id code)")
    case True
    then show ?thesis
      by (cases p) (auto simp: p commands_def acceptable_def split: sum.splits)
  next
    case False
    then have "\<exists>e. rbind connection (\<lambda>remote. redeem L code remote (hd_self h) exchange (Some (hd_trust h)) (su_now S)) = Inl e"
      using remote by (cases connection) (auto, metis sum.exhaust)
    with False show ?thesis
      by (cases p) (auto simp: p commands_def acceptable_def)
  qed
qed

lemma perform_recorded:
  "perform L (recording S) h c (l, x) = (case perform L S h c x of (r, y) \<Rightarrow> (r, l @ commands L S h c x, y))"
proof (cases c)
  case (Call_Rejoin code connection exchange)
  show ?thesis
    unfolding Call_Rejoin perform_def interface_call.case recording_simps rejoin_recorded rejoin_commands ..
next
  case (Call_Publish name payload po)
  obtain p x1 where "su_reserve S (512 + length (po_format po)) x = (p, x1)"
    by (rule prod.exhaust)
  with Call_Publish show ?thesis
    by (cases p; cases "wf_topic (Topic name)"; cases "allows (su_cert S) (Topic name) True"; cases "owns (hd_pool h) payload")
      (auto simp: perform_def operations commands_def acceptable_def topic_new_eq request_recorded reserve_recorded split: prod.split sum.split)
next
  case (Call_Shutdown mode)
  then show ?thesis
    by (cases mode) (auto simp: perform_def shutdown_recorded commands_def acceptable_def finished_call_def instant_checked_add_def
        split: prod.split sum.split)
next
  case (Call_Issue opts address)
  then show ?thesis
    by (cases "join_options_validate opts")
      (simp_all add: perform_def operations commands_def acceptable_def request_recorded split: prod.split sum.split)
next
  case (Call_Subscribe name so)
  obtain r y where "request (su_stopped S) (su_ask S) unit_answer (SubscribeTopic (Topic name) (so_mode so)) x = (r, y)"
    by (rule prod.exhaust)
  with Call_Subscribe show ?thesis
    by (cases "wf_topic (Topic name)"; cases r)
      (auto simp: perform_def operations commands_def acceptable_def topic_new_eq request_recorded)
next
  case (Call_Ready peer outgoing inc)
  then show ?thesis
    by (cases "wf_topic (Topic outgoing)"; cases "wf_topic (Topic inc)")
      (auto simp: perform_def operations commands_def acceptable_def topic_new_eq request_recorded split: prod.split sum.split)
qed (simp_all add: perform_def operations commands_def acceptable_def request_recorded split: prod.split sum.split)

lemma sent_commands: "sent L S h c x = commands L S h c x"
  by (simp add: sent_def perform_recorded split: prod.split)

lemma commands_vetted: "list_all (vetted L (su_cert S) (su_now S) (su_instant S) h) (commands L S h c x)"
proof (cases c)
  case (Call_Rejoin code connection exchange)
  then show ?thesis
    by (auto simp: commands_def acceptable_def vetted_def dest: redeem_Inr(4) split: sum.split)
qed (auto simp: commands_def acceptable_def vetted_def topic_new_eq split: shutdown_mode.split)

lemma commands_empty: "commands L S h c x = [] \<longleftrightarrow> su_stopped S \<or> \<not> acceptable L S h c x"
  by (cases c) (auto simp: commands_def acceptable_def split: shutdown_mode.split sum.split)

lemma rejoin_refused:
  assumes "su_stopped S \<or> \<not> acceptable L S h (Call_Rejoin code connection exchange) x"
  shows "isl (fst (rejoin L (su_stopped S) (su_ask S) (su_reserve S) (su_task S) h code connection exchange (su_now S) x))"
proof -
  obtain p x1 where p: "su_reserve S 131072 x = (p, x1)"
    by (rule prod.exhaust)
  let ?en = "rbind connection (\<lambda>remote. redeem L code remote (hd_self h) exchange (Some (hd_trust h)) (su_now S))"
  consider "hd_host h \<noteq> Some (host_id code)" | "isl p" | "isl ?en" | "su_stopped S"
    using assms p redeem_Inr(1) [of L code _ "hd_self h" exchange "Some (hd_trust h)" "su_now S"]
    by (cases connection; cases ?en) (auto simp: acceptable_def)
  then show ?thesis
  proof cases
    case 4
    then show ?thesis
      by (cases "hd_host h = Some (host_id code)"; cases p; cases ?en) (simp_all add: rejoin_def p request_def)
  qed (cases "hd_host h = Some (host_id code)"; cases p; cases ?en; simp add: rejoin_def p)+
qed

lemma commands_refused:
  assumes "commands L S h c x = []"
  shows "isl (fst (perform L S h c x))"
proof -
  have refused: "su_stopped S \<or> \<not> acceptable L S h c x"
    using assms by (simp add: commands_empty)
  show ?thesis
  proof (cases c)
    case (Call_Rejoin code connection exchange)
    with refused rejoin_refused show ?thesis
      by (simp add: perform_def)
  next
    case (Call_Publish name payload po)
    obtain p x1 where "su_reserve S (512 + length (po_format po)) x = (p, x1)"
      by (rule prod.exhaust)
    with refused Call_Publish show ?thesis
      by (cases p; cases "wf_topic (Topic name)"; cases "allows (su_cert S) (Topic name) True"; cases "owns (hd_pool h) payload")
        (simp_all add: perform_def operations acceptable_def topic_new_eq request_def)
  next
    case (Call_Shutdown mode)
    with refused show ?thesis
      by (cases mode) (auto simp: perform_def shutdown_def acceptable_def finished_call_def instant_checked_add_def)
  next
    case (Call_Issue opts address)
    with refused show ?thesis
      by (cases "join_options_validate opts") (auto simp: perform_def operations acceptable_def request_def)
  qed (use refused in \<open>auto simp: perform_def operations acceptable_def topic_new_eq request_def\<close>)
qed


section \<open>Witnesses\<close>

theorem new_host_starts_witness:
  "\<exists>h ow. host_in_memory sample_lib config_new (be_bytes 32 5) [sample_permission] sample_authority (replicate 16 3) sample_quic sample_tick () = Inr (h, ow)
     \<and> local_valid sample_tick ow = Inr 15"
proof -
  have "(15 :: u64) < 15 + as_secs MAX_JOIN_LIFETIME"
    by (simp add: as_secs_def MAX_JOIN_LIFETIME_def from_secs_def)
  note starts = new_host_starts [OF sample.external_axioms config_new_valid _ this, of sample_tick sample_authority "replicate 16 3"
      "[sample_permission]" sample_quic "be_bytes 32 5" "()"]
  have "length [sample_permission] \<le> MAX_PERMISSIONS" "length [sample_permission] \<le> 53"
    by (simp_all add: MAX_PERMISSIONS_def)
  with starts sample_permission_wf \<open>(15 :: u64) < _\<close> show ?thesis
    by (fastforce simp: sample_tick_def sample_authority_def)
qed

definition sample_enrollment :: "256 word enrollment" where
  "sample_enrollment = \<lparr>en_trust = sample_trust, en_expires = 100, en_certificate = sample_cert 5\<rparr>"

definition sample_host_reply :: "bytes \<Rightarrow> bytes" where
  "sample_host_reply = (\<lambda>request. case serve sample_lib (\<lambda>_ _. Inr sample_enrollment) request of Inr reply \<Rightarrow> reply | Inl _ \<Rightarrow> [])"

lemma sample_redeem:
  assumes "expected = None \<or> expected = Some sample_trust"
  shows "\<exists>en. redeem sample_lib sample_join_code (host_id sample_join_code) 5 sample_host_reply expected 15 = Inr en
     \<and> c_bytes (en_certificate en) = c_bytes (sample_cert 5) \<and> en_trust en = sample_trust"
proof -
  have wf: "wf_enrollment sample_lib sample_enrollment"
    using sample_cert(3) [of 5]
    by (simp add: wf_enrollment_def sample_enrollment_def authority_trust_def trust_new_def sample_authority_def)
  have "redeem sample_lib sample_join_code (host_id sample_join_code) 5 sample_host_reply expected 15
      = parse_join_reply sample_lib READY (enrollment_encode sample_lib sample_enrollment) 5 expected 15"
    by (rule sample.redeem_exchange [OF _ sample_host_reply_def])
      (simp_all add: sample_join_code_def join_reply_def sample.enrollment_encode_size [OF wf])
  then show ?thesis
    using sample.enrollment_decode_encode [OF wf, of 15 expected 5] sample_verify [of 5] assms
    by (auto simp: parse_join_reply_def READY_def sample_enrollment_def stored_certificate_def)
qed

theorem join_starts_witness:
  "\<exists>h ow. join_start sample_lib config_new (be_bytes 32 5) sample_join_code sample_quic (Inr (host_id sample_join_code)) sample_host_reply 15 sample_tick ()
       = Inr (h, ow) \<and> trust_verify sample_lib (o_trust ow) (o_cert ow) 5 15 = Inr () \<and> fresh_owner sample_lib ow"
proof -
  have self: "key_public sample_lib (be_bytes 32 5) = 5"
    by (simp add: sample_lib_def be_val_be_bytes)
  obtain en where en: "redeem sample_lib sample_join_code (host_id sample_join_code) 5 sample_host_reply None 15 = Inr en"
      "c_bytes (en_certificate en) = c_bytes (sample_cert 5)" "en_trust en = sample_trust"
    using sample_redeem [of None] by blast
  have "length (c_bytes (en_certificate en)) \<le> MAX_CERT"
    using sample.wf_certificate_payload [OF sample_cert(3) [of 5]] en(2) by auto
  then obtain h ow where "start_bound sample_lib config_new (en_trust en) (be_bytes 32 5) (en_certificate en) (Client (host_id sample_join_code))
      (Some (host_id sample_join_code)) sample_tick () = Inr (h, ow)"
    using start_bound_new [OF config_new_valid, of "en_certificate en" "en_trust en" "Client (host_id sample_join_code)"]
    by (fastforce simp: en(3) authority_trust_def trust_new_def revoked_count_def admission_meter_def)
  then have j: "join_start sample_lib config_new (be_bytes 32 5) sample_join_code sample_quic (Inr (host_id sample_join_code)) sample_host_reply 15 sample_tick ()
       = Inr (h, ow)"
    using en(1) config_new_valid by (simp add: join_start_def self) (simp add: sample_join_code_def host_id_def)
  from join_starts [OF this] j self show ?thesis
    by auto
qed

text \<open>An endpoint on a client's handle, whose owner accepts everything.\<close>

definition sample_handle :: "256 word handle" where
  "sample_handle = \<lparr>hd_pool = pool_new 0 4096 1024, hd_metadata = \<lparr>br_id = 1, br_limit = 4096\<rparr>, hd_config = config_new, hd_trust = sample_trust,
     hd_self = 5, hd_host = Some (host_id sample_join_code)\<rparr>"

definition sample_surroundings :: "(256 word, nat) surroundings" where
  "sample_surroundings = \<lparr>su_stopped = False, su_ask = (\<lambda>_ n. (Some (Reply_Unit (Inr ())), n + 1)),
     su_reserve = (\<lambda>k n. (Inr \<lparr>permit_id = 9, permit_budget = 1, permit_n = k\<rparr>, n)), su_task = (\<lambda>n. (Some (Inr ()), n)),
     su_ending = (\<lambda>n. (None, n)), su_cert = sample_cert 5, su_now = 15, su_instant = 0\<rparr>"


end
