(* ===== verification/Joining.thy ===== *)
theory Joining
  imports Endpoint
begin

text \<open>
  From a join code to a session: that an endpoint which was enrolled is admitted until its certificate expires, and what the
  parts that carry it there (\<open>Join\<close>, \<open>Handshake\<close>, the registration of the owner) do together. The clock of a host does not go
  back within a run. A host starts with codes that no one has redeemed, a new one with none, and may restart at any time from
  whatever its storage then holds.
\<close>

section \<open>A host, its clock and its storage\<close>

text \<open>The storage as a restart sees it: the states that it may read. A save that succeeded has replaced them, one that failed
  may have. A restart reads one of them, and then that is the one that is stored.\<close>

definition crash_save :: "unit result \<Rightarrow> bytes \<Rightarrow> bytes set \<Rightarrow> unit result \<times> bytes set" where
  "crash_save r b D = (r, case r of Inr _ \<Rightarrow> {b} | Inl _ \<Rightarrow> insert b D)"

text \<open>So a storage that keeps its contract, the state file in particular, does: what it may hold after a save is what \<open>crash_save\<close> says.\<close>

context host_storage
begin

lemma saved_images:
  assumes "ready w" and "save b w = (r, w')" and old: "after w w1" "load w1 = (Inr v, w1)"
  shows "{x. \<exists>w2. after w' w2 \<and> load w2 = (Inr (Some x), w2)} \<subseteq> snd (crash_save r b {x. \<exists>w2. after w w2 \<and> load w2 = (Inr (Some x), w2)})"
proof
  fix x
  assume "x \<in> {x. \<exists>w2. after w' w2 \<and> load w2 = (Inr (Some x), w2)}"
  then obtain w2 where w2: "after w' w2" "load w2 = (Inr (Some x), w2)"
    by blast
  show "x \<in> snd (crash_save r b {x. \<exists>w2. after w w2 \<and> load w2 = (Inr (Some x), w2)})"
  proof (cases r)
    case (Inr u)
    then show ?thesis
      using saved [OF assms(1) _ w2(1)] assms(2) w2(2) by (simp add: crash_save_def)
  next
    case (Inl e)
    then show ?thesis
      using atomic [OF assms(1,2) w2(1)] w2(2) old by (auto simp: crash_save_def)
  qed
qed

end

lemma state_file_images:
  assumes "state_ready dir d n r w" and "save_file (dir @ [n]) r b w = (res, w')"
  shows "{x. \<exists>w2. power_failure w' w2 \<and> load_file (dir @ [n]) w2 = (Inr (Some x), w2)}
    \<subseteq> snd (crash_save res b {x. \<exists>w2. power_failure w w2 \<and> load_file (dir @ [n]) w2 = (Inr (Some x), w2)})"
proof -
  from assms(1) obtain old where old: "durable (fs_table w) dir d n old" "case old of None \<Rightarrow> True | Some c \<Rightarrow> length c \<le> MAX_BYTES"
    by (auto simp: state_ready_def)
  let ?w1 = "boot 0 (settle (fs_table w))"
  have "power_failure w ?w1"
    using crash_image_settle by (auto simp: power_failure_def)
  moreover have "load_file (dir @ [n]) ?w1 = (Inr old, ?w1)"
    using old crash_image_settle by (auto simp: durable_def intro: load_file_stored)
  ultimately show ?thesis
    by (rule state_file.saved_images [OF assms])
qed

inductive timed_host_step ::
  "('e::linorder) lib \<Rightarrow> u64 \<times> 'e host \<times> bytes set \<Rightarrow> u64 \<times> 'e host \<times> bytes set \<Rightarrow> bool"
  for L
where
  issue: "\<lbrakk>admission_issue L (crash_save r) opts addr now mx secret cid (Host h) m D = (res, Host h', m', D'); T \<le> now; mx \<le> 256;
    \<forall>p \<in> set (jo_permissions opts). wf_topic (p_topic p);
    \<not> bm_has (join_code_id L \<lparr>jc_address = compact_address addr, jc_secret = secret\<rparr>) (ho_codes h)\<rbrakk> \<Longrightarrow>
    timed_host_step L (T, h, D) (now, h', D')"
| revoke: "revoke_code L (crash_save r) cid (Host h) D = (res, Host h', D') \<Longrightarrow> timed_host_step L (T, h, D) (T, h', D')"
| enroll: "\<lbrakk>enroll L (crash_save r) peer cid secret now host_expires trust mx fresh (Host h) m D = (res, Host h', m', D'); T \<le> now; mx \<le> 256;
    length fresh = 16; \<not> bm_has fresh (ho_members h)\<rbrakk> \<Longrightarrow> timed_host_step L (T, h, D) (now, h', D')"
| prune: "\<lbrakk>prune now (Host h) = Host h'; T \<le> now\<rbrakk> \<Longrightarrow> timed_host_step L (T, h, D) (now, h', D)"
| restart: "\<lbrakk>b \<in> D; host_decode L b now = Inr h'; T \<le> now\<rbrakk> \<Longrightarrow> timed_host_step L (T, h, D) (now, h', {b})"

text \<open>A host with storage starts with its state stored (or with nothing that can be read), one without never restarts.\<close>

inductive host_at :: "('e::linorder) lib \<Rightarrow> u64 \<Rightarrow> 'e host \<Rightarrow> bytes set \<Rightarrow> bool" for L where
  start: "wf_host L h \<Longrightarrow> \<forall>(k, g) \<in> set (ho_codes h). g_redeemed g = [] \<Longrightarrow> D \<subseteq> (if ho_storage h then {host_encode L h} else {}) \<Longrightarrow>
    host_at L T h D"
| step: "host_at L T h D \<Longrightarrow> timed_host_step L (T, h, D) (T', h', D') \<Longrightarrow> host_at L T' h' D'"

text \<open>A member, and that every certificate a code remembers is one until it expires.\<close>

definition admitted :: "'e host \<Rightarrow> 'e \<Rightarrow> 'e certificate \<Rightarrow> bool" where
  "admitted h e c \<longleftrightarrow>
     (\<exists>mb. bm_get (certificate_id c) (ho_members h) = Some mb \<and> endpoint_id (mb_certificate mb) = e
        \<and> expires_at (mb_certificate mb) = expires_at c)"

definition enrolled :: "u64 \<Rightarrow> ('e::linorder) host \<Rightarrow> bool" where
  "enrolled T h \<longleftrightarrow>
     (\<forall>k g e c. bm_get k (ho_codes h) = Some g \<longrightarrow> bm_get e (g_redeemed g) = Some c \<longrightarrow> T < expires_at c \<longrightarrow> admitted h e c)"

lemma enrolledI [intro?]:
  assumes "\<And>k g e c. bm_get k (ho_codes h) = Some g \<Longrightarrow> bm_get e (g_redeemed g) = Some c \<Longrightarrow> T < expires_at c \<Longrightarrow> admitted h e c"
  shows "enrolled T h"
  using assms by (auto simp: enrolled_def)

lemma enrolledD:
  "enrolled T h \<Longrightarrow> bm_get k (ho_codes h) = Some g \<Longrightarrow> bm_get e (g_redeemed g) = Some c \<Longrightarrow> T < expires_at c \<Longrightarrow> admitted h e c"
  by (auto simp: enrolled_def)

lemma admitted_check: "admitted h e c \<Longrightarrow> admission_check (Host h) e c = Inr ()"
  by (auto simp: admitted_def admission_check_def)

lemma admitted_codes [simp]: "admitted (h\<lparr>ho_codes := cs\<rparr>) e c = admitted h e c"
  by (simp add: admitted_def)

lemma admitted_live:
  assumes "bm_ok (ho_members h)" and "admitted h e c" and "now < expires_at c"
  shows "admitted (live_members now h) e c"
  using assms by (auto simp: admitted_def live_members_def bm_get_retain)

lemma enrolled_live:
  assumes "bm_ok (ho_members h)" and "enrolled T h" and "T \<le> now"
  shows "enrolled now (live_members now h)"
proof
  fix k g e c
  assume "bm_get k (ho_codes (live_members now h)) = Some g" and "bm_get e (g_redeemed g) = Some c" and "now < expires_at c"
  then show "admitted (live_members now h) e c"
    using assms(3) by (intro admitted_live [OF assms(1)] enrolledD [OF assms(2)]) (auto simp: live_members_def)
qed

lemma admitted_admit:
  assumes "\<not> bm_has (certificate_id c) (ho_members h)" and "admitted h e d"
  shows "admitted (admit_member cid peer c memory h) e d"
  using assms by (auto simp: admitted_def admit_member_def bmap_simps bm_has_def)

lemma admitted_new: "endpoint_id c = peer \<Longrightarrow> admitted (admit_member cid peer c memory h) peer c"
  by (auto simp: admitted_def admit_member_def bmap_simps)

lemma enrolled_admit:
  assumes "enrolled T h" and "\<not> bm_has (certificate_id c) (ho_members h)" and "endpoint_id c = peer"
  shows "enrolled T (admit_member cid peer c memory h)"
proof
  fix k g e d
  assume g: "bm_get k (ho_codes (admit_member cid peer c memory h)) = Some g" and d: "bm_get e (g_redeemed g) = Some d" and "T < expires_at d"
  from g obtain g0 where g0: "bm_get k (ho_codes h) = Some g0" "g_redeemed g \<in> {g_redeemed g0, bm_put peer c (g_redeemed g0)}"
    by (cases "bm_get k (ho_codes h)") (auto simp: admit_member_def bmap_simps split: if_splits)
  have "bm_get e (g_redeemed g0) = Some d \<or> e = peer \<and> d = c"
    using g0(2) d by (cases "e = peer") (auto simp: bm_get_put)
  then consider "admitted h e d" | "e = peer" "d = c"
    using enrolledD [OF assms(1) g0(1) _ \<open>T < expires_at d\<close>] by blast
  then show "admitted (admit_member cid peer c memory h) e d"
    using admitted_admit [OF assms(2)] admitted_new [OF assms(3)] by cases auto
qed

lemma live_admitted: "bm_ok (ho_members h) \<Longrightarrow> admitted (live_members now h) e c \<Longrightarrow> admitted h e c"
  by (auto simp: admitted_def live_members_def bm_get_retain split: option.splits if_splits)

lemma admitted_stored: "admitted (stored_host h) e c \<longleftrightarrow> admitted h e c"
  by (auto simp: admitted_def stored_host_def stored_member_def bmap_simps certificate_id_def expires_at_def endpoint_id_def)

lemma enrolled_stored:
  assumes "enrolled T h"
  shows "enrolled T (stored_host h)"
proof
  fix k g e c
  assume "bm_get k (ho_codes (stored_host h)) = Some g" "bm_get e (g_redeemed g) = Some c" "T < expires_at c"
  then obtain g0 c0 where "bm_get k (ho_codes h) = Some g0" "bm_get e (g_redeemed g0) = Some c0" and c: "c = stored_certificate c0" "T < expires_at c0"
    by (auto simp: stored_host_def stored_grant_def bmap_simps expires_at_def)
  then have "admitted h e c0"
    by (intro enrolledD [OF assms]) simp_all
  then show "admitted (stored_host h) e c"
    by (auto simp: admitted_def c(1) stored_host_def stored_member_def bmap_simps certificate_id_def expires_at_def endpoint_id_def)
qed

lemma stored_issued: "issued_by L a e c \<Longrightarrow> issued_by L a e (stored_certificate c)"
  by (auto simp: issued_by_def wf_certificate_def endpoint_id_def split: sum.splits)

lemma set_bm_map: "(k, y) \<in> set (bm_map f m) \<longleftrightarrow> (\<exists>x. (k, x) \<in> set m \<and> y = f k x)"
  by (force simp: bm_map_def)

lemma wf_stored:
  assumes "wf_host L h"
  shows "wf_host L (stored_host h)"
proof -
  have grant: "wf_grant L (ho_authority h) (stored_grant g)" if "wf_grant L (ho_authority h) g" for g
    using that stored_options_valid [of "g_options g"] bm_ok_map [of _ "g_redeemed g"]
    by (auto simp: wf_grant_def stored_grant_def set_bm_map stored_options_def intro!: stored_issued)
  have member: "certificate_id (mb_certificate (stored_member mb)) = certificate_id (mb_certificate mb)"
    "issued_by L a e (mb_certificate mb) \<Longrightarrow> issued_by L a e (mb_certificate (stored_member mb))"
    "endpoint_id (mb_certificate (stored_member mb)) = endpoint_id (mb_certificate mb)" for mb a e
    by (auto simp: stored_member_def certificate_id_def endpoint_id_def intro: stored_issued)
  from assms show ?thesis
    by (auto simp: wf_host_def stored_host_def set_bm_map bm_ok_simps member(1,3) intro!: grant member(2)) force+
qed

text \<open>Whatever a restart may read has the members that have not expired.\<close>

definition images_ok :: "('e::linorder) lib \<Rightarrow> u64 \<Rightarrow> 'e host \<Rightarrow> bytes set \<Rightarrow> bool" where
  "images_ok L T h D \<longleftrightarrow> (\<not> ho_storage h \<longrightarrow> D = {})
     \<and> (\<forall>b \<in> D. \<exists>hs. b = host_encode L hs \<and> wf_host L hs \<and> enrolled T hs
          \<and> (\<forall>e c. admitted h e c \<longrightarrow> T < expires_at c \<longrightarrow> admitted hs e c))"

definition host_inv :: "('e::linorder) lib \<Rightarrow> u64 \<times> 'e host \<times> bytes set \<Rightarrow> bool" where
  "host_inv L = (\<lambda>(T, h, D). wf_host L h \<and> enrolled T h \<and> images_ok L T h D)"

lemma enrolled_later: "enrolled T h \<Longrightarrow> T \<le> now \<Longrightarrow> enrolled now h"
  by (auto simp: enrolled_def)

text \<open>Later, and with fewer members or members that have expired, the same storage is still right.\<close>

lemma images_ok_mono:
  assumes "images_ok L T h D" and "T \<le> now" and "ho_storage h' = ho_storage h"
    and "\<And>e c. admitted h' e c \<Longrightarrow> now < expires_at c \<Longrightarrow> admitted h e c"
  shows "images_ok L now h' D"
  unfolding images_ok_def
proof (intro conjI ballI)
  show "\<not> ho_storage h' \<longrightarrow> D = {}"
    using assms(1,3) by (simp add: images_ok_def)
  fix b
  assume "b \<in> D"
  with assms(1) obtain hs where hs: "b = host_encode L hs" "wf_host L hs" "enrolled T hs"
      and keeps: "\<forall>e c. admitted h e c \<longrightarrow> T < expires_at c \<longrightarrow> admitted hs e c"
    unfolding images_ok_def by blast
  have "admitted hs e c" if "admitted h' e c" "now < expires_at c" for e c
    using keeps assms(4) [OF that] that(2) assms(2) by simp
  with hs enrolled_later [OF hs(3) assms(2)]
  show "\<exists>hs. b = host_encode L hs \<and> wf_host L hs \<and> enrolled now hs \<and> (\<forall>e c. admitted h' e c \<longrightarrow> now < expires_at c \<longrightarrow> admitted hs e c)"
    by blast
qed

lemma persist_images:
  assumes "persist L (crash_save r) h' D = (res, D')" and "images_ok L T h D" and "wf_host L h'" and "enrolled T h'"
    and "ho_storage h' = ho_storage h" and "\<And>e c. admitted h e c \<Longrightarrow> T < expires_at c \<Longrightarrow> admitted h' e c"
  shows "images_ok L T h D'" and "res = Inr () \<Longrightarrow> images_ok L T h' D'"
proof -
  show "images_ok L T h D'"
    using assms by (auto simp: persist_def crash_save_def images_ok_def Let_def split: if_splits sum.splits)
  assume "res = Inr ()"
  then show "images_ok L T h' D'"
    using assms by (auto simp: persist_def crash_save_def images_ok_def Let_def split: if_splits)
qed

lemma revoke_saves:
  "revoke_code L save cid (Host h) w = (res, adm', w') \<Longrightarrow> \<exists>r1. persist L save (h\<lparr>ho_codes := bm_del cid (ho_codes h)\<rparr>) w = (r1, w')"
  by (auto simp: revoke_code_def Let_def split: prod.splits sum.splits)

context ordered_external
begin

lemma issue_saves:
  assumes op: "admission_issue L save opts addr now mx secret cid (Host h) m w = (res, adm', m', w')"
    and wf: "wf_host L h" and "mx \<le> 256" and "\<forall>p \<in> set (jo_permissions opts). wf_topic (p_topic p)"
    and "\<not> bm_has (join_code_id L \<lparr>jc_address = compact_address addr, jc_secret = secret\<rparr>) (ho_codes h)"
  shows "w' = w \<or> (\<exists>k g h1 r1. h1 = h\<lparr>ho_codes := bm_put k g (ho_codes h)\<rparr> \<and> persist L save h1 w = (r1, w') \<and> g_redeemed g = [] \<and> wf_host L h1)"
proof (cases "w' = w")
  case False
  define code where "code = \<lparr>jc_address = compact_address addr, jc_secret = secret\<rparr>"
  from op False obtain memory c nxt where attempt: "join_options_validate opts = Inr ()" "length (ho_codes h) < mx"
      "authority_issue L (ho_authority h) cid (ad_id addr) (jo_permissions opts) now (now + as_secs (jo_certificate_lifetime opts)) (jo_limits opts) = Inr c"
    and saved: "\<exists>r1. persist L save (h\<lparr>ho_codes := bm_put (join_code_id L code) \<lparr>g_hash = digest L secret, g_expires = now + as_secs (jo_lifetime opts),
        g_options = opts, g_redeemed = [], g_memory = Some memory\<rparr> (ho_codes h)\<rparr>) w = (r1, w')"
    by (auto simp: admission_issue_def Let_def code_def [symmetric] result_simps split: sum.splits prod.splits)
  define g where "g = \<lparr>g_hash = digest L secret, g_expires = now + as_secs (jo_lifetime opts), g_options = opts,
      g_redeemed = [] :: ('e, 'e certificate) bmap, g_memory = Some memory\<rparr>"
  have "wf_grant L (ho_authority h) g"
    using attempt(1) authority_issue_valid [OF attempt(3) assms(4)] by (auto simp: wf_grant_def g_def digest_def sha256_length)
  moreover have "length (join_code_id L code) = 16"
    by (simp add: join_code_id_def digest_def sha256_length)
  ultimately have "wf_host L (h\<lparr>ho_codes := bm_put (join_code_id L code) g (ho_codes h)\<rparr>)"
    using wf_put_code [OF wf] attempt(2) assms(3) by simp
  moreover have "g_redeemed g = []"
    by (simp add: g_def)
  ultimately show ?thesis
    using saved unfolding g_def [symmetric] by blast
qed simp

lemma enroll_saves:
  assumes op: "enroll L save peer cid secret now host_expires trust mx fresh (Host h) m w = (res, adm', m', w')"
    and wf: "wf_host L h" and "mx \<le> 256" and "length fresh = 16" and "\<not> bm_has fresh (ho_members h)"
  shows "w' = w \<or> (\<exists>c memory h1 r1. h1 = admit_member cid peer c memory (live_members now h) \<and> persist L save h1 w = (r1, w')
    \<and> wf_host L h1 \<and> issued_by L (ho_authority h) peer c \<and> certificate_id c = fresh)"
proof (cases "w' = w")
  case False
  with op obtain g memory c nxt r1 where e: "enroll_lookup L peer cid secret now trust mx (live_members now h) = Inr (Inr g)"
      "enroll_certificate (live_members now h) g peer fresh now host_expires m = Inr (memory, c, nxt)"
    and saved: "persist L save (admit_member cid peer c memory (live_members now h)) w = (r1, w')"
    by (auto simp: enroll_eq Let_def split: sum.splits prod.splits)
  note g = enroll_lookup_grant [OF e(1)]
  then have get: "bm_get cid (ho_codes (live_members now h)) = Some g"
    by (simp add: grant_valid_def)
  note c = enroll_certificate_issued [OF e(2) wf_live_members [OF wf] get assms(4)]
  have "wf_host L (admit_member cid peer c memory (live_members now h))"
    using g c assms(3) by (intro wf_admit_member [OF wf_live_members [OF wf] get]) auto
  with c have "wf_host L (admit_member cid peer c memory (live_members now h)) \<and> issued_by L (ho_authority h) peer c \<and> certificate_id c = fresh"
    by simp
  with saved show ?thesis
    by blast
qed simp

lemma timed_host_step_inv:
  assumes "timed_host_step L s t" and "host_inv L s"
  shows "host_inv L t \<and> fst s \<le> fst t
    \<and> (\<forall>e c. admitted (fst (snd s)) e c \<longrightarrow> fst t < expires_at c \<longrightarrow> admitted (fst (snd t)) e c)"
  using assms
proof (induction rule: timed_host_step.induct)
  case (issue r opts addr now mx secret cid h m D res h' m' D' T)
  then have wf: "wf_host L h" and later: "enrolled now h" and i0: "images_ok L now h D"
    by (auto simp: host_inv_def intro: enrolled_later images_ok_mono)
  have i: "images_ok L now h D'"
    using issue_saves [OF issue.hyps(1) wf issue.hyps(3,4,5)]
  proof (elim disjE exE conjE)
    fix k g h1 r1
    assume h1: "h1 = h\<lparr>ho_codes := bm_put k g (ho_codes h)\<rparr>" "persist L (crash_save r) h1 D = (r1, D')" "g_redeemed g = []" "wf_host L h1"
    have "enrolled now h1"
      using later unfolding h1(1) by (auto simp: enrolled_def bmap_simps h1(3) split: if_splits)
    with persist_images(1) [OF h1(2) i0 h1(4)] show ?thesis
      by (simp add: h1(1))
  qed (use i0 in simp)
  from admission_issue_cases [OF issue.hyps(1) wf issue.hyps(3,4,5)] consider "h' = h"
    | code g where "g_redeemed g = []" "h' = h\<lparr>ho_codes := bm_put (join_code_id L code) g (ho_codes h)\<rparr>" "wf_host L h'"
    by auto
  then show ?case
  proof cases
    case 2
    have "enrolled now h'"
      using later unfolding 2(2) by (auto simp: enrolled_def bmap_simps 2(1) split: if_splits)
    moreover have "images_ok L now h' D'"
      by (rule images_ok_mono [OF i order_refl]) (simp_all add: 2(2))
    ultimately show ?thesis
      using 2 issue.hyps(2) by (simp add: host_inv_def)
  qed (use wf later i issue.hyps(2) in \<open>simp add: host_inv_def\<close>)
next
  case (revoke r cid h D res h' D' T)
  then have wf: "wf_host L h" and now: "enrolled T h" and i0: "images_ok L T h D"
    by (simp_all add: host_inv_def)
  have del: "enrolled T (h\<lparr>ho_codes := bm_del cid (ho_codes h)\<rparr>)"
    using now by (auto simp: enrolled_def bmap_simps split: if_splits)
  obtain r1 where "persist L (crash_save r) (h\<lparr>ho_codes := bm_del cid (ho_codes h)\<rparr>) D = (r1, D')"
    using revoke_saves [OF revoke.hyps] by blast
  from persist_images(1) [OF this i0 wf_del_code [OF wf] del] have i: "images_ok L T h D'"
    by simp
  have "images_ok L T (h\<lparr>ho_codes := bm_del cid (ho_codes h)\<rparr>) D'"
    by (rule images_ok_mono [OF i order_refl]) simp_all
  then show ?case
    using revoke_code_cases [OF revoke.hyps wf] wf_del_code [OF wf, of cid] wf now del i by (auto simp: host_inv_def)
next
  case (enroll r peer cid secret now host_expires trust mx fresh h m D res h' m' D' T)
  then have wf: "wf_host L h" and ok: "bm_ok (ho_members h)" and e: "enrolled T h" and i0: "images_ok L T h D"
    by (auto simp: wf_host_def host_inv_def)
  let ?h = "live_members now h"
  have live: "enrolled now ?h"
    using enrolled_live [OF ok e enroll.hyps(2)] .
  have i1: "images_ok L now ?h D"
    by (rule images_ok_mono [OF i0 enroll.hyps(2)]) (simp_all add: live_admitted [OF ok])
  have new: "\<not> bm_has fresh (ho_members ?h)"
    using enroll.hyps(5) by (auto simp: live_members_def bm_has_iff set_bm_retain)
  have admit: "enrolled now (admit_member cid peer c memory ?h) \<and> (\<forall>e d. admitted ?h e d \<longrightarrow> admitted (admit_member cid peer c memory ?h) e d)"
    if "issued_by L (ho_authority h) peer c" "certificate_id c = fresh" for c memory
    using that new enrolled_admit [OF live] by (auto simp: issued_by_def intro!: admitted_admit)
  have i2: "images_ok L now ?h D'"
    using enroll_saves [OF enroll.hyps(1) wf enroll.hyps(3,4,5)]
  proof (elim disjE exE conjE)
    fix c memory h1 r1
    assume "h1 = admit_member cid peer c memory ?h" "persist L (crash_save r) h1 D = (r1, D')" "wf_host L h1"
      "issued_by L (ho_authority h) peer c" "certificate_id c = fresh"
    then show ?thesis
      using persist_images(1) [OF _ i1, of r h1 r1 D'] admit [of c memory] by simp
  qed (use i1 in simp)
  from enroll.hyps(1) wf enroll.hyps(3,4,5) show ?case
  proof (rule enroll_cases)
    fix g c memory
    assume c: "issued_by L (ho_authority h) peer c" "certificate_id c = fresh" "Host h' = Host (admit_member cid peer c memory ?h)"
      "wf_host L (admit_member cid peer c memory ?h)" "persist L (crash_save r) (admit_member cid peer c memory ?h) D = (Inr (), D')"
    have "images_ok L now h' D'"
      using persist_images(2) [OF c(5) i1 c(4)] admit [OF c(1,2)] c(3) by simp
    with c admit [OF c(1,2)] enroll.hyps(2) show ?thesis
      by (auto simp: host_inv_def intro: admitted_live [OF ok])
  qed (use enroll.hyps(2) wf_live_members [OF wf] live i2 in \<open>auto simp: host_inv_def intro: admitted_live [OF ok]\<close>)
next
  case (prune now h h' T D)
  then have wf: "wf_host L h" and ok: "bm_ok (ho_members h)" "bm_ok (ho_codes h)" and e: "enrolled T h" and i0: "images_ok L T h D"
    by (auto simp: wf_host_def host_inv_def)
  have h': "h' = live_members now h\<lparr>ho_codes := bm_retain (\<lambda>_ g. g_expires g > now) (ho_codes h)\<rparr>"
    using prune.hyps(1) by (auto simp: prune_def live_members_def)
  have "enrolled now h'"
    using enrolled_live [OF ok(1) e prune.hyps(2)]
    by (auto simp: enrolled_def h' bm_get_retain [OF ok(2)] live_members_def split: option.splits if_splits)
  moreover have "images_ok L now h' D"
    by (rule images_ok_mono [OF i0 prune.hyps(2)]) (simp_all add: h' live_admitted [OF ok(1)])
  ultimately show ?case
    using wf_prune [OF wf prune.hyps(1)] prune.hyps(2) by (auto simp: host_inv_def h' intro: admitted_live [OF ok(1)])
next
  case (restart b D now h' T h)
  then have "images_ok L T h D"
    by (simp add: host_inv_def)
  with restart.hyps(1) obtain hs where hs: "b = host_encode L hs" "wf_host L hs" "enrolled T hs"
      and keeps: "\<forall>e c. admitted h e c \<longrightarrow> T < expires_at c \<longrightarrow> admitted hs e c"
    unfolding images_ok_def by blast
  have "length b \<le> MAX_BYTES"
    using restart.hyps(2) by (auto simp: host_decode_def Let_def result_simps)
  then have h': "h' = stored_host hs"
    using restart.hyps(2) host_decode_encode [OF hs(2)] hs(1) by auto
  have later: "enrolled now hs"
    using enrolled_later [OF hs(3) restart.hyps(3)] .
  have "images_ok L now h' {b}"
    using hs later by (auto simp: images_ok_def h' admitted_stored) (simp add: stored_host_def)
  then show ?case
    using restart.hyps(3) wf_stored [OF hs(2)] enrolled_stored [OF later] keeps
    by (fastforce simp: host_inv_def h' admitted_stored)
qed

lemma host_at_inv: "host_at L T h D \<Longrightarrow> host_inv L (T, h, D)"
proof (induction rule: host_at.induct)
  case (start h D T)
  then have e: "enrolled T h"
    by (fastforce simp: enrolled_def dest: bm_get_in_set)
  with start have "images_ok L T h D"
    by (auto simp: images_ok_def split: if_splits)
  with start e show ?case
    by (simp add: host_inv_def)
next
  case (step T h D T' h' D')
  then show ?case
    using timed_host_step_inv [of "(T, h, D)" "(T', h', D')"] by auto
qed

lemma admitted_stays:
  assumes "(timed_host_step L)\<^sup>*\<^sup>* s t" and "host_inv L s" and "admitted (fst (snd s)) e c" and "fst t < expires_at c"
  shows "admitted (fst (snd t)) e c"
proof -
  have "host_inv L t \<and> (fst t < expires_at c \<longrightarrow> admitted (fst (snd t)) e c)"
    using assms(1)
  proof (induction rule: rtranclp_induct)
    case base
    then show ?case
      using assms(2,3) by simp
  next
    case (step u v)
    then show ?case
      using timed_host_step_inv [of u v] by auto
  qed
  with assms(4) show ?thesis
    by simp
qed

lemma enroll_admits:
  assumes "host_at L T h D" and "T \<le> now"
    and "enroll L save peer cid secret now host_expires trust mx fresh (Host h) m w = (Inr en, adm', m', w')"
    and "mx \<le> 256" and "length fresh = 16" and "\<not> bm_has fresh (ho_members h)"
  shows "\<exists>h'. adm' = Host h' \<and> admitted h' peer (en_certificate en) \<and> issued_by L (ho_authority h) peer (en_certificate en)
    \<and> en_trust en = authority_trust L (ho_authority h)"
proof -
  have wf: "wf_host L h" and inv: "enrolled T h"
    using host_at_inv [OF assms(1)] by (auto simp: host_inv_def)
  from assms(3) wf assms(4,5,6) show ?thesis
  proof (rule enroll_cases)
    fix g c
    assume g: "grant_valid L h cid secret now g" "bm_get peer (g_redeemed g) = Some c" "now < expires_at c" "adm' = Host (live_members now h)"
      and en: "Inr en = (Inr \<lparr>en_trust = authority_trust L (ho_authority h), en_expires = g_expires g, en_certificate = c\<rparr> :: 'e enrollment result)"
    have "admitted (live_members now h) peer c"
      using wf inv g assms(2) by (intro admitted_live enrolledD [OF inv]) (auto simp: wf_host_def grant_valid_def)
    moreover have "issued_by L (ho_authority h) peer c"
      using wf g(1) bm_get_in_set [OF g(2)] by (fastforce simp: wf_host_def wf_grant_def grant_valid_def dest!: bm_get_in_set)
    ultimately show ?thesis
      using g(4) en by simp
  qed (auto simp: issued_by_def intro!: admitted_new)
qed

end

section \<open>From a code to a session\<close>

text \<open>A command to the owner and its reply, and the bytes that a host with the owner \<open>ow\<close> sends on an enrollment connection from \<open>peer\<close>.\<close>

definition owner_turn ::
  "('e::linorder, 'w) env \<Rightarrow> 'e tick \<Rightarrow> 'e owner_command \<Rightarrow> ('e, 'w) owner \<Rightarrow> 'e reply option \<times> ('e, 'w) owner"
where
  "owner_turn E tk c ow = (case turn E tk (Command c) ow of (r, go, ow) \<Rightarrow> (Some r, ow))"

definition served :: "('e::linorder, 'w) env \<Rightarrow> 'e tick \<Rightarrow> 'e \<Rightarrow> ('e, 'w) owner \<Rightarrow> bytes \<Rightarrow> bytes" where
  "served E tk peer ow b =
     (case fst (serve_connection (ev_lib E) (owner_turn E tk) peer b ow) of
        Inr reply \<Rightarrow> reply | Inl _ \<Rightarrow> [])"

text \<open>An owner that serves a realm: it admits by the members of its host and trusts the authority that it issues with.\<close>

definition serving :: "('e::linorder, 'w) env \<Rightarrow> u64 \<Rightarrow> ('e, 'w) owner \<Rightarrow> 'e host \<Rightarrow> bool" where
  "serving E T ow h \<longleftrightarrow>
     o_admission ow = Host h \<and> (\<exists>D. host_at (ev_lib E) T h D)
     \<and> t_root (o_trust ow) = key_public (ev_lib E) (a_key (ho_authority h)) \<and> t_realm (o_trust ow) = a_realm (ho_authority h)
     \<and> config_validate (o_config ow) = Inr () \<and> wf_certificate (ev_lib E) (o_cert ow)"

lemma schedule_admission [simp]: "o_admission (schedule E tk ow) = o_admission ow"
  unfolding schedule_def by (intro fold_same) (simp add: schedule_one_def Let_def update_peer_def set_binding_def split: option.splits)

lemma turn_enroll:
  "turn E tk (Command (Enroll peer cid secret)) ow =
     (case cmd_enroll E tk peer cid secret ow of (r, ow) \<Rightarrow>
        (Reply_Enrollment r, \<not> drained tk (schedule E tk (release_held ow)), schedule E tk (release_held ow)))"
  by (simp add: turn_def handle_input_def command_def Let_def split: prod.split)

lemma turn_register:
  "turn E tk (Command (Register peer reg)) ow =
     (case register E tk peer reg ow of (r, ow) \<Rightarrow>
        (Reply_Registered r, \<not> drained tk (schedule E tk (release_held ow)), schedule E tk (release_held ow)))"
  by (simp add: turn_def handle_input_def command_def Let_def split: prod.split)

lemma served_serve:
  "served E tk peer ow =
     (\<lambda>b. case serve (ev_lib E) (\<lambda>cid secret. fst (cmd_enroll E tk peer cid secret ow)) b of Inr reply \<Rightarrow> reply | Inl _ \<Rightarrow> [])"
  by (rule ext) (auto simp: served_def owner_turn_def serve_connection_def serve_def turn_enroll result_simps sbind_def rbind_def split: prod.split sum.split)

text \<open>No room for a session: as many peers as the configuration allows, or not enough metadata memory for the peer and its certificate.\<close>

definition crowded :: "'e certificate \<Rightarrow> ('e, 'w) owner \<Rightarrow> bool" where
  "crowded c ow \<longleftrightarrow>
     max_peers (o_config ow) \<le> length (o_peers ow)
     \<or> min (br_limit (o_metadata ow)) (2 ^ 64 - 1) < meter_used (owner_meter (o_metadata ow) ow) + length (c_bytes c) * 5 + 20 * 1024"

lemma charged_sum: "charged i ps = (\<Sum>p \<in> {p \<in> set ps. permit_budget p = i}. permit_n p)"
  by (simp add: charged_def total_def sum_list_distinct_conv_sum_set)

lemma charged_more: "charged i (xs @ ys @ p # zs) \<le> charged i (xs @ ys @ zs) + permit_n p"
proof -
  have "charged i (xs @ ys @ p # zs) \<le> (\<Sum>q \<in> insert p {q \<in> set (xs @ ys @ zs). permit_budget q = i}. permit_n q)"
    unfolding charged_sum by (intro sum_mono2) auto
  also have "\<dots> \<le> permit_n p + charged i (xs @ ys @ zs)"
    unfolding charged_sum by (intro sum.insert_if [THEN eq_refl, THEN order_trans]) auto
  finally show ?thesis
    by simp
qed

lemma o_reserve_full:
  "o_reserve b n ow = Inl e \<Longrightarrow> e = QueueFull \<and> min (br_limit b) (2 ^ 64 - 1) < meter_used (owner_meter b ow) + n"
  by (auto simp: o_reserve_def admit_def owner_meter_def result_simps split: if_splits)

lemma o_reserve_used:
  assumes "o_reserve b n ow = Inr (p, ow')"
  shows "meter_used (owner_meter b ow') \<le> meter_used (owner_meter b ow) + n" "o_config ow' = o_config ow" "o_peers ow' = o_peers ow"
    "o_metadata ow' = o_metadata ow"
proof -
  from assms obtain m where a: "admit (owner_meter b ow) n = Inr (p, m)" and ow': "ow' = ow\<lparr>o_held := p # o_held ow, o_next := meter_next m\<rparr>"
    unfolding o_reserve_def by (cases "admit (owner_meter b ow) n") auto
  from a have p: "permit_n p = n"
    by (auto simp: admit_def meter_permit_def split: if_splits)
  from ow' show "o_config ow' = o_config ow" "o_peers ow' = o_peers ow" "o_metadata ow' = o_metadata ow"
    by simp_all
  have "live_permits ow' = owner_permits ow @ o_outside ow @ p # o_held ow"
    by (simp add: ow' live_permits_def owner_permits_def)
  then show "meter_used (owner_meter b ow') \<le> meter_used (owner_meter b ow) + n"
    using charged_more [of "br_id b" "owner_permits ow" "o_outside ow" p "o_held ow"] p
    by (simp add: meter_used_def owner_meter_def live_permits_def)
qed

text \<open>A peer that is admitted with a valid certificate is turned away only for lack of room, or because it has a session already.\<close>

lemma register_admitted:
  assumes "local_valid tk ow = Inr n" and "o_drain ow = None" and "trust_verify (ev_lib E) (o_trust ow) (reg_cert reg) peer n = Inr ()"
    and "admission_check (o_admission ow) peer (reg_cert reg) = Inr ()"
  shows "\<exists>r go ow'. turn E tk (Command (Register peer reg)) ow = (Reply_Registered r, go, ow')
    \<and> (r = Inr True \<or> r = Inl QueueFull \<and> crowded (reg_cert reg) ow \<or> r = Inr False \<and> bm_has peer (o_peers ow))"
proof -
  obtain r ow' where r: "register E tk peer reg ow = (r, ow')"
    by (rule prod.exhaust)
  let ?n = "length (c_bytes (reg_cert reg))"
  have late: "r = Inr True \<or> r = Inl QueueFull \<and> crowded (reg_cert reg) ow" if "register_early peer reg ow = None"
  proof (cases "o_reserve (o_metadata ow) (?n * 4 + 16 * 1024) ow")
    case (Inl e)
    with o_reserve_full [OF Inl] r assms that show ?thesis
      by (auto simp: register_def crowded_def)
  next
    case (Inr x)
    obtain p ow1 where x: "x = (p, ow1)"
      by (rule prod.exhaust)
    note used = o_reserve_used [OF Inr [unfolded x]]
    show ?thesis
    proof (cases "o_reserve (o_metadata ow1) (?n + 4096) ow1")
      case e: (Inl e)
      with o_reserve_full [OF e] used r assms that Inr x show ?thesis
        by (auto simp: register_def crowded_def)
    next
      case (Inr y)
      with r assms that \<open>o_reserve (o_metadata ow) _ ow = _\<close> x show ?thesis
        by (cases y) (auto simp: register_def)
    qed
  qed
  have "r = Inr True \<or> r = Inl QueueFull \<and> crowded (reg_cert reg) ow \<or> r = Inr False \<and> bm_has peer (o_peers ow)"
  proof (cases "register_early peer reg ow")
    case (Some q)
    with r assms show ?thesis
      by (auto simp: register_def register_early_def bm_has_def crowded_def split: option.splits if_splits)
  qed (use late in blast)
  with r show ?thesis
    by (auto simp: turn_register)
qed

lemma issued_verifies:
  assumes "issued_by L a e c" and "t_root t = key_public L (a_key a)" and "check t c e n = Inr ()"
  shows "trust_verify L t c e n = Inr ()"
  using assms by (auto simp: issued_by_def trust_verify_Inr)

text \<open>What an enrollment leaves at the host, and what the endpoint receives.\<close>

lemma enrolled_at_host:
  assumes "external (ev_lib E)" and "serving E T ow h" and "tk_now tk = Inr t" and "T \<le> t"
    and "length (tk_rand tk) = 16" and "\<not> bm_has (tk_rand tk) (ho_members h)"
    and "turn E tk (Command (Enroll peer cid secret)) ow = (Reply_Enrollment (Inr en), go, ow')"
  obtains h' where "o_admission ow' = Host h'" "admitted h' peer (en_certificate en)"
    "issued_by (ev_lib E) (ho_authority h) peer (en_certificate en)" "en_trust en = authority_trust (ev_lib E) (ho_authority h)"
    "o_trust ow' = o_trust ow" "o_cert ow' = o_cert ow" "o_config ow' = o_config ow" "wf_enrollment (ev_lib E) en"
proof -
  have cfg: "max_peers (o_config ow) \<le> 256"
    using assms(2) by (auto simp: serving_def config_validate_def result_simps)
  obtain D where host: "o_admission ow = Host h" and at: "host_at (ev_lib E) T h D"
    using assms(2) by (auto simp: serving_def)
  note ext = ordered_external.intro [OF assms(1)]
  note inv = ordered_external.host_at_inv [OF ext at]
  from assms(7) obtain ow1 where cmd: "cmd_enroll E tk peer cid secret ow = (Inr en, ow1)" and ow': "ow' = schedule E tk (release_held ow1)"
    by (auto simp: turn_enroll split: prod.splits)
  from cmd assms(3) obtain adm m w where op: "enroll (ev_lib E) (ev_save E) peer cid secret t (expires_at (o_cert ow)) (o_trust ow)
        (max_peers (o_config ow)) (tk_rand tk) (Host h) (outer_meter ow) (o_world ow) = (Inr en, adm, m, w)"
      and ow1: "o_admission ow1 = adm" "o_trust ow1 = o_trust ow" "o_cert ow1 = o_cert ow" "o_config ow1 = o_config ow"
    by (auto simp: cmd_enroll_def not_draining_def local_valid_def host result_simps Let_def hand_out_def split: prod.splits sum.splits)
  from ordered_external.enroll_admits [OF ext at assms(4) op cfg assms(5,6)]
  obtain h' where h': "adm = Host h'" "admitted h' peer (en_certificate en)" "issued_by (ev_lib E) (ho_authority h) peer (en_certificate en)"
      "en_trust en = authority_trust (ev_lib E) (ho_authority h)"
    by blast
  moreover have "length (a_realm (ho_authority h)) = 16"
    using inv by (simp add: wf_host_def host_inv_def)
  ultimately have "wf_enrollment (ev_lib E) en"
    by (simp add: wf_enrollment_def issued_by_def authority_trust_def trust_new_def)
  with h' ow1 that ow' show ?thesis
    by (simp add: release_held_def)
qed

lemma redeem_served:
  assumes "external (ev_lib E)" and "length (jc_secret code) = 32"
    and "turn E tk (Command (Enroll self (join_code_id (ev_lib E) code) (jc_secret code))) ow = (Reply_Enrollment (Inr en), go, ow')"
    and "wf_enrollment (ev_lib E) en" and "now < en_expires en"
    and "trust_verify (ev_lib E) (en_trust en) (en_certificate en) self now = Inr ()"
  shows "redeem (ev_lib E) code (host_id code) self (served E tk self ow) None now
    = Inr (en\<lparr>en_certificate := stored_certificate (en_certificate en)\<rparr>)"
proof -
  let ?owner = "\<lambda>cid secret. fst (cmd_enroll E tk self cid secret ow)"
  have "?owner (join_code_id (ev_lib E) code) (jc_secret code) = Inr en"
    using assms(3) by (auto simp: turn_enroll split: prod.splits)
  then have "join_reply (ev_lib E) (?owner (join_code_id (ev_lib E) code) (jc_secret code)) = (READY, enrollment_encode (ev_lib E) en)"
    by (simp add: join_reply_def)
  from external.redeem_exchange [OF assms(1,2) served_serve this external.enrollment_encode_size [OF assms(1,4)], of self None now]
  show ?thesis
    using external.enrollment_decode_encode [OF assms(1,4,5), of None self] assms(6) by (simp add: parse_join_reply_def READY_def)
qed

text \<open>A client that redeemed its code starts: a valid configuration has memory for its certificate.\<close>

lemma join_start_redeemed:
  assumes "redeem L code (host_id code) (key_public L identity) exchange None now = Inr en" and "external L"
    and "config_validate cfg = Inr ()" and "key_public L identity \<noteq> host_id code" and "bind q cfg identity = Inr ()"
    and "revoked_count (en_trust en) = 0"
  obtains hd cl where "join_start L cfg identity code q (Inr (host_id code)) exchange now tk w = Inr (hd, cl)"
    "o_trust cl = en_trust en" "o_self cl = key_public L identity" "c_claims (o_cert cl) = c_claims (en_certificate en)"
    "c_bytes (o_cert cl) = c_bytes (en_certificate en)" "o_clock_failed cl = False" "o_drain cl = None" "o_peers cl = []"
    "o_admission cl = Client (host_id code)" "o_config cl = cfg"
proof -
  note r = redeem_Inr [OF assms(1)]
  have "length (c_bytes (en_certificate en)) \<le> MAX_CERT"
    using external.wf_certificate_payload [OF assms(2) r(2)] by blast
  then obtain hd cl where start: "start_bound L cfg (en_trust en) identity (en_certificate en) (Client (host_id code)) (Some (host_id code)) tk w = Inr (hd, cl)"
    using start_bound_new [OF assms(3) _ assms(6), of "en_certificate en" "Client (host_id code)"] by (fastforce simp: admission_meter_def)
  note cl = start_bound_Inr [OF start assms(3) r(3,2)]
  have "o_drain cl = None" "o_peers cl = []" "o_config cl = cfg"
    using start by (auto simp: start_bound_def Let_def result_simps owner_new_def)
  moreover have "o_admission cl = Client (host_id code)"
    using cl(9) by (auto simp: admission_meter_def)
  moreover have "join_start L cfg identity code q (Inr (host_id code)) exchange now tk w = Inr (hd, cl)"
    using assms(1,3,4,5) start by (simp add: join_start_def)
  ultimately show ?thesis
    using that cl by blast
qed

text \<open>Both ends of an enrollment: the host admits the certificate and trusts it, and the client that redeemed the code has it.\<close>

lemma joined_client:
  fixes E :: "('e::linorder, 'w) env"
  assumes "external L" and lib: "ev_lib E = L"
    and host: "serving E T ow h" "tk_now tk = Inr t" "T \<le> t" "length (tk_rand tk) = 16" "\<not> bm_has (tk_rand tk) (ho_members h)"
    and enroll: "turn E tk (Command (Enroll (key_public L identity) (join_code_id L code) (jc_secret code))) ow = (Reply_Enrollment (Inr en), go, ow')"
    and client: "length (jc_secret code) = 32" "key_public L identity \<noteq> host_id code" "config_validate cfg = Inr ()" "bind q cfg identity = Inr ()"
    and clock: "d < en_expires en" "check (en_trust en) (en_certificate en) (key_public L identity) d = Inr ()"
  obtains h' hd cl where
    "o_admission ow' = Host h'" "admitted h' (key_public L identity) (en_certificate en)"
    "\<And>n. check (o_trust ow) (en_certificate en) (key_public L identity) n = Inr () \<Longrightarrow>
       trust_verify L (o_trust ow) (o_cert cl) (key_public L identity) n = Inr ()"
    "o_trust ow' = o_trust ow" "o_cert ow' = o_cert ow" "o_config ow' = o_config ow" "t_realm (en_trust en) = t_realm (o_trust ow)"
    "join_start L cfg identity code q (Inr (host_id code)) (served E tk (key_public L identity) ow) d tk1 v = Inr (hd, cl)"
    "o_trust cl = en_trust en" "c_claims (o_cert cl) = c_claims (en_certificate en)" "wf_certificate L (o_cert cl)"
    "local_valid tk1 cl = rbind (tk_now tk1) (\<lambda>n. rbind (check (en_trust en) (en_certificate en) (key_public L identity) n) (\<lambda>_. Inr n))"
    "o_drain cl = None" "o_peers cl = []" "o_admission cl = Client (host_id code)"
proof -
  let ?self = "key_public L identity"
  obtain h' where h': "o_admission ow' = Host h'" "admitted h' ?self (en_certificate en)" "issued_by L (ho_authority h) ?self (en_certificate en)"
      "en_trust en = authority_trust L (ho_authority h)" "o_trust ow' = o_trust ow" "o_cert ow' = o_cert ow" "o_config ow' = o_config ow"
      "wf_enrollment L en"
    using enrolled_at_host [OF _ host enroll] assms(1) lib by metis
  have root: "t_root (o_trust ow) = key_public L (a_key (ho_authority h))" "t_realm (o_trust ow) = a_realm (ho_authority h)"
    using host(1) by (simp_all add: serving_def lib)
  have trust: "t_root (en_trust en) = key_public L (a_key (ho_authority h))" "t_realm (en_trust en) = t_realm (o_trust ow)" "revoked_count (en_trust en) = 0"
    by (simp_all add: h'(4) authority_trust_def trust_new_def revoked_count_def root)
  have "redeem L code (host_id code) ?self (served E tk ?self ow) None d = Inr (en\<lparr>en_certificate := stored_certificate (en_certificate en)\<rparr>)"
    using redeem_served [of E code tk ?self ow en go ow' d] issued_verifies [OF h'(3) trust(1) clock(2)] assms(1) client(1) enroll h'(8) clock(1)
    by (simp add: lib)
  then obtain hd cl where cl: "join_start L cfg identity code q (Inr (host_id code)) (served E tk ?self ow) d tk1 v = Inr (hd, cl)"
      "o_trust cl = en_trust en" "o_self cl = ?self" "c_claims (o_cert cl) = c_claims (en_certificate en)"
      "c_bytes (o_cert cl) = c_bytes (en_certificate en)" "o_clock_failed cl = False" "o_drain cl = None" "o_peers cl = []"
      "o_admission cl = Client (host_id code)"
    by (rule join_start_redeemed [OF _ assms(1) client(3,2,4)]) (use trust(3) in auto)
  have "wf_certificate L (o_cert cl)"
    using h'(3) cl(4,5) by (auto simp: issued_by_def wf_certificate_def split: sum.splits)
  moreover have "trust_verify L (o_trust ow) (o_cert cl) ?self n = Inr ()" if "check (o_trust ow) (en_certificate en) ?self n = Inr ()" for n
    using issued_verifies [OF h'(3) root(1) that] trust_verify_same [OF cl(4,5)] by simp
  moreover have "local_valid tk1 cl = rbind (tk_now tk1) (\<lambda>n. rbind (check (en_trust en) (en_certificate en) ?self n) (\<lambda>_. Inr n))"
    using check_claims [OF cl(4)] by (simp add: local_valid_def cl)
  ultimately show ?thesis
    using that h' trust(2) cl by blast
qed

section \<open>Properties\<close>


text \<open>The sample host with a storage: an enrollment, a restart from what was stored, and pruning.\<close>

lemma sample_enrolled_size:
  assumes "length (c_bytes c) \<le> MAX_CERT"
  shows "length (host_encode sample_lib (admit_member (replicate 16 8) 5 c memory (sample_host True))) \<le> MAX_BYTES"
proof -
  note u = sample.enc_u64_size and a = sample.enc_array_size and b = sample.enc_bytes_size
  define g where "g = sample_grant\<lparr>g_redeemed := [(5, c)]\<rparr>"
  have r: "length (redeemed_bytes sample_lib (5, c)) \<le> 9 + ((32 + 9) + (length (c_bytes c) + 9))"
    unfolding redeemed_bytes_def length_append
    using b [of "ep_bytes sample_lib 5"] sample.ep_bytes_length [of 5] by (intro add_mono a) (simp_all add: b)
  have "length (g_hash g) = 32"
    by (simp add: g_def sample_grant_def digest_def sample.sha256_length)
  then have h: "length (enc_bytes (codec sample_lib) (g_hash g)) \<le> 32 + 9"
    using b [of "g_hash g"] by simp
  have "jo_permissions (g_options g) = [sample_permission]" "g_redeemed g = [(5, c)]"
    by (simp_all add: g_def sample_grant_def)
  then have "length (grant_bytes sample_lib (replicate 16 8, g)) \<le> 9 + ((16 + 9) + ((32 + 9) + (9 + (9 + (9 + (9 + (9 + (9 + (9 + (9
      + (283 + (9 + (9 + ((32 + 9) + (length (c_bytes c) + 9)))))))))))))))"
    unfolding grant_bytes_def Let_def length_append fst_conv snd_conv
    using sample.permission_bytes_size [of sample_permission] sample_permission_wf b [of "replicate 16 8"] r h
    by (intro add_mono a u) (simp_all add: wf_permission_def)
  moreover have "length (member_bytes sample_lib \<lparr>mb_certificate = c, mb_memory = Some memory\<rparr>) \<le> length (c_bytes c) + 9"
    using b [of "c_bytes c"] by (simp add: member_bytes_def)
  moreover have "admit_member (replicate 16 8) 5 c memory (sample_host True) = \<lparr>ho_authority = sample_authority, ho_codes = [(replicate 16 8, g)],
      ho_members = [(certificate_id c, \<lparr>mb_certificate = c, mb_memory = Some memory\<rparr>)], ho_storage = True\<rparr>"
    by (simp add: admit_member_def sample_host_def g_def bm_adjust_def bm_map_def sample_grant_def)
  moreover have "length (host_encode sample_lib \<lparr>ho_authority = sample_authority, ho_codes = [(replicate 16 8, g)],
      ho_members = [(certificate_id c, \<lparr>mb_certificate = c, mb_memory = Some memory\<rparr>)], ho_storage = True\<rparr>)
    \<le> 9 + (9 + ((32 + 9) + ((16 + 9) + (9 + (length (grant_bytes sample_lib (replicate 16 8, g)) + (9
      + (length (member_bytes sample_lib \<lparr>mb_certificate = c, mb_memory = Some memory\<rparr>) + 9)))))))"
    unfolding host_encode_eq host_body_def Let_def length_append
    using b [of "a_key sample_authority"] b [of "a_realm sample_authority"]
    by (intro add_mono a u) (simp_all add: sample_authority_def bm_vals_def)
  ultimately show ?thesis
    using assms by (simp add: MAX_CERT_def MAX_BYTES_def)
qed


section \<open>A host and the client that joins it\<close>

definition sample_realm :: "256 word host" where
  "sample_realm = (sample_host False)\<lparr>ho_codes := [(join_code_id sample_lib sample_join_code, sample_grant)]\<rparr>"

definition sample_hosting :: "(256 word, unit) owner" where
  "sample_hosting =
     owner_new config_new sample_trust (be_bytes 32 7) 7 (sample_cert 7) \<lparr>permit_id = 0, permit_budget = 1, permit_n = 96\<rparr>
       \<lparr>br_id = 0, br_limit = 128 * 1024 * 1024\<rparr> \<lparr>br_id = 1, br_limit = 32 * 1024 * 1024\<rparr> (Host sample_realm) [] 10 sample_tick ()"

lemma sample_realm_wf: "wf_host sample_lib sample_realm"
  using sample_host_wf [of False] by (simp add: sample_realm_def sample_host_def wf_host_def bm_ok_def join_code_id_def digest_def sample.sha256_length)

lemma sample_serving: "serving sample_env 15 sample_hosting sample_realm"
  using sample_realm_wf sample_cert(3) [of 7] config_new_valid
  by (auto simp: serving_def sample_hosting_def owner_new_def sample_env_def authority_trust_def trust_new_def sample_realm_def sample_host_def
      sample_grant_def intro!: host_at.start)

lemma sample_served:
  obtains en go ow' where
    "turn sample_env sample_tick (Command (Enroll 5 (join_code_id sample_lib sample_join_code) (replicate 32 9))) sample_hosting
       = (Reply_Enrollment (Inr en), go, ow')"
    "en_expires en = 100" "check (en_trust en) (en_certificate en) 5 15 = Inr ()" "en_trust en = sample_trust"
    "o_trust ow' = sample_trust" "o_cert ow' = sample_cert 7" "local_valid sample_tick ow' = Inr 15" "o_drain ow' = None"
proof -
  let ?m = "outer_meter sample_hosting" and ?cid = "join_code_id sample_lib sample_join_code"
  have live: "live_members 15 sample_realm = sample_realm"
    by (simp add: live_members_def sample_realm_def sample_host_def bm_retain_def)
  have l: "enroll_lookup sample_lib 5 ?cid (replicate 32 9) 15 sample_trust 256 sample_realm = Inr (Inr sample_grant)"
    by (simp add: enroll_lookup_def sample_realm_def sample_host_def bm_get_def) (simp add: sample_grant_def)
  obtain memory m1 where m1: "admit (with_host sample_realm ?m) 1024 = Inr (memory, m1)" "meter_limit m1 = 32 * 1024 * 1024" "meter_used m1 \<le> 4096"
  proof -
    have "with_host sample_realm ?m = \<lparr>meter_budget = 1, meter_limit = 32 * 1024 * 1024,
        meter_live = [\<lparr>permit_id = 0, permit_budget = 1, permit_n = 96\<rparr>], meter_next = 10\<rparr>"
      by (simp add: with_host_def outer_meter_def owner_meter_def sample_hosting_def owner_new_def
        sample_realm_def sample_host_def host_permits_def sample_grant_def grant_permits_def sample_defs)
    then show ?thesis
      by (intro that) (auto simp: admit_def meter_used_def charged_def meter_permit_def total_def)
  qed
  obtain c where c: "authority_issue sample_lib sample_authority (replicate 16 6) 5 [sample_permission] 15 20 limits_default = Inr c"
    using sample.authority_issue_succeeds [of sample_authority "replicate 16 6" "[sample_permission]" 15 20 5 limits_default]
    by (auto simp: sample_authority_def)
  have "length (c_bytes c) \<le> MAX_CERT"
    using c by (auto simp: authority_issue_def Let_def result_simps certificate_from_bytes_def dest!: parse_cose_Inr)
  then obtain c' m2 where cm: "certificate_metered c m1 = Inr (c', m2)"
    using m1(2,3) by (auto simp: certificate_metered_def admit_def MAX_CERT_def)
  have "sample.enroll_certificate sample_realm sample_grant 5 (replicate 16 6) 15 20 ?m = Inr (memory, c', meter_next m2)"
    using m1(1) c cm
    by (simp add: sample.enroll_certificate_def sample_grant_def sample_realm_def sample_host_def as_secs_def from_secs_def min_def)
  then have op: "enroll sample_lib save 5 ?cid (replicate 32 9) 15 20 sample_trust 256 (replicate 16 6) (Host sample_realm) ?m w
      = (Inr \<lparr>en_trust = sample_trust, en_expires = 100, en_certificate = c'\<rparr>, Host (admit_member ?cid 5 c' memory sample_realm),
         ?m\<lparr>meter_next := meter_next m2\<rparr>, w)" for save and w :: unit
    using l by (simp add: sample.enroll_eq live Let_def persist_def) (simp add: sample_realm_def sample_host_def sample_grant_def)
  have "trust_verify sample_lib sample_trust c 5 15 = Inr ()"
    using sample_permission_wf
    by (intro sample.authority_issue_verifies [OF c]) (auto simp: sample_authority_def wf_permission_def)
  then have check: "check sample_trust c' 5 15 = Inr ()"
    using check_claims [of c' c] certificate_metered_wf [OF cm] by (simp add: trust_verify_Inr)
  have local: "local_valid sample_tick sample_hosting = Inr 15"
    by (simp add: sample_hosting_def owner_new_def sample_defs)
  obtain ow1 where cmd: "cmd_enroll sample_env sample_tick 5 ?cid (replicate 32 9) sample_hosting
      = (Inr \<lparr>en_trust = sample_trust, en_expires = 100, en_certificate = c'\<rparr>, ow1)"
      and ow1: "o_trust ow1 = sample_trust" "o_cert ow1 = sample_cert 7" "o_self ow1 = 7" "o_clock_failed ow1 = False" "o_drain ow1 = None"
    using op local sample_cert(1) [of 7] by (auto simp: cmd_enroll_def not_draining_def expires_at_def Let_def hand_out_def sample_env_def sample_tick_def
        sample_hosting_def owner_new_def config_new_def)
  have "local_valid sample_tick (schedule sample_env sample_tick (release_held ow1)) = Inr 15"
    by (simp add: local_valid_def release_held_def ow1) (simp add: sample_tick_def sample_local)
  with cmd check ow1 that show ?thesis
    by (simp add: turn_enroll release_held_def)
qed

end
