(* ===== verification/Owner_Outcomes.thy ===== *)
theory Owner_Outcomes
  imports Owner_Sample
begin

text \<open>
  What the publisher learns of a delivery. Every message that \<open>publish\<close> accepts has an outcome for
  each of its recipients: rejected at once, or pending and then one final outcome; identifiers
  are never used twice; and shutting down settles what is still pending.
\<close>

section \<open>The outcome of a delivery\<close>

definition outcomes :: "'e key \<Rightarrow> 'e event list \<Rightarrow> recipient_outcome list" where
  "outcomes k es =
     List.map_filter (\<lambda>v. case v of Outcome_Set j r \<Rightarrow> if j = k then Some r else None | _ \<Rightarrow> None) es"

definition settled :: "recipient_outcome list \<Rightarrow> bool" where
  "settled rs \<longleftrightarrow> rs = [] \<or> (\<exists>e. rs = [Rejected e]) \<or> (\<exists>r. r \<noteq> Pending \<and> rs = [Pending, r])"

definition issued :: "('e, 'w) owner \<Rightarrow> 'e message_id \<Rightarrow> bool" where
  "issued ow i \<longleftrightarrow>
     realm_id i = t_realm (o_trust ow) \<and> publisher_endpoint_id i = o_self ow \<and> publisher_epoch i = o_epoch ow
     \<and> (\<exists>n. bm_get (mid_topic i) (o_sequences ow) = Some n \<and> mid_sequence i \<le> n)"

definition outcome_ok :: "('e, 'w) owner \<Rightarrow> 'e key \<Rightarrow> bool" where
  "outcome_ok ow k \<longleftrightarrow>
     (if bm_has k (o_pending ow) then outcomes k (o_log ow) = [Pending] else settled (outcomes k (o_log ow)))
     \<and> (outcomes k (o_log ow) \<noteq> [] \<longrightarrow> issued ow (snd (snd k)))"

definition outcome_inv :: "('e, 'w) owner \<Rightarrow> bool" where
  "outcome_inv ow \<longleftrightarrow> (\<forall>k. outcome_ok ow k)"

lemma outcomes_append [simp]: "outcomes k (es @ fs) = outcomes k es @ outcomes k fs"
  by (simp add: outcomes_def List.map_filter_def)

lemma outcomes_simps [simp]:
  "outcomes k [] = []"
  "outcomes k (Outcome_Set j r # es) = (if j = k then r # outcomes k es else outcomes k es)"
  "outcomes k (Delivered sub e body # es) = outcomes k es"
  "outcomes k (Completed d c # es) = outcomes k es"
  by (simp_all add: outcomes_def List.map_filter_def)

lemma outcomes_completed: "\<forall>v \<in> set es. \<exists>d c. v = Completed d c \<Longrightarrow> outcomes k es = []"
  by (induction es) auto

lemma finish_effect:
  "bm_has j (o_pending (finish k r ow)) \<longleftrightarrow> j \<noteq> k \<and> bm_has j (o_pending ow)"
  "outcomes j (o_log (finish k r ow)) = outcomes j (o_log ow) @ (if j = k \<and> bm_has k (o_pending ow) then [r] else [])"
  "issued (finish k r ow) = issued ow"
  by (auto simp: finish_def Let_def log_event_def bmap_simps issued_def fun_eq_iff bm_has_def split: option.splits)

lemma outcome_invD: "outcome_inv ow \<Longrightarrow> outcome_ok ow k"
  unfolding outcome_inv_def by blast

lemma outcome_finish: "outcome_inv ow \<Longrightarrow> r \<noteq> Pending \<Longrightarrow> outcome_inv (finish k r ow)"
  unfolding outcome_inv_def
proof
  fix j
  assume inv: "\<forall>k. outcome_ok ow k" and r: "r \<noteq> Pending"
  from inv have "outcome_ok ow j"
    by blast
  with r show "outcome_ok (finish k r ow) j"
    by (auto simp: outcome_ok_def finish_effect settled_def)
qed

lemma recipients_subset: "set (map fst (recipients t now topic mode ps)) \<subseteq> set (map fst ps)"
  by (induction ps) (auto simp: recipients_def List.map_filter_simps split: option.splits if_splits)

lemma recipients_distinct: "distinct (map fst ps) \<Longrightarrow> distinct (map fst (recipients t now topic mode ps))"
proof (induction ps)
  case (Cons x ps)
  moreover have "recipients t now topic mode (x # ps) = recipients t now topic mode ps
      \<or> (\<exists>sub. recipients t now topic mode (x # ps) = (fst x, sub) # recipients t now topic mode ps)"
    by (cases x) (auto simp: recipients_def List.map_filter_simps split: option.splits)
  ultimately show ?case
    using recipients_subset [of t now topic mode ps] by auto
qed (simp add: recipients_def List.map_filter_simps)

lemma publish_one_effect:
  assumes "publish_one tk opts payload e sb ((peer, sub), memory) ow = ow'"
  shows "j \<noteq> (peer, sub, env_id e) \<Longrightarrow> bm_has j (o_pending ow') = bm_has j (o_pending ow) \<and> outcomes j (o_log ow') = outcomes j (o_log ow)"
    and "outcomes (peer, sub, env_id e) (o_log ow) = [] \<Longrightarrow> \<not> bm_has (peer, sub, env_id e) (o_pending ow) \<Longrightarrow>
      (if bm_has (peer, sub, env_id e) (o_pending ow') then outcomes (peer, sub, env_id e) (o_log ow') = [Pending]
       else settled (outcomes (peer, sub, env_id e) (o_log ow')))"
    and "issued ow' = issued ow" "o_peers ow' = o_peers ow"
  using assms
  by (auto simp: publish_one_def Let_def log_event_def bmap_simps settled_def issued_def fun_eq_iff
      dest!: recipient_reserve_Inr split: option.splits sum.splits)

lemma outcome_publish_all:
  assumes "outcome_inv ow" "issued ow (env_id e)" "distinct (map (fst \<circ> fst) zs)"
    and "\<And>peer sub. peer \<in> set (map (fst \<circ> fst) zs) \<Longrightarrow> outcomes (peer, sub, env_id e) (o_log ow) = []"
  shows "outcome_inv (fold (publish_one tk opts payload e sb) zs ow)"
  using assms
proof (induction zs arbitrary: ow)
  case (Cons z zs)
  obtain peer sub memory where z: "z = ((peer, sub), memory)"
    by (metis surj_pair)
  define ow' where "ow' = publish_one tk opts payload e sb ((peer, sub), memory) ow"
  note eff = publish_one_effect [OF ow'_def [symmetric]]
  have new: "outcomes (peer, sub, env_id e) (o_log ow) = []"
    using Cons.prems(4) [of peer sub] by (simp add: z)
  then have fresh: "\<not> bm_has (peer, sub, env_id e) (o_pending ow)"
    using outcome_invD [OF Cons.prems(1), of "(peer, sub, env_id e)"] by (auto simp: outcome_ok_def)
  have "outcome_ok ow' j" for j
  proof (cases "j = (peer, sub, env_id e)")
    case True
    with eff(2) [OF new fresh] eff(3) Cons.prems(2) show ?thesis
      by (simp add: outcome_ok_def)
  next
    case False
    with eff(1) [OF False] eff(3) outcome_invD [OF Cons.prems(1), of j] show ?thesis
      by (simp add: outcome_ok_def)
  qed
  then have "outcome_inv ow'"
    by (simp add: outcome_inv_def)
  moreover have "outcomes (q, sub', env_id e) (o_log ow') = []" if "q \<in> set (map (fst \<circ> fst) zs)" for q sub'
    using Cons.prems(3,4) that eff(1) [of "(q, sub', env_id e)"] by (auto simp: z)
  ultimately show ?case
    using Cons.IH [of ow'] Cons.prems eff(3) by (simp add: z ow'_def)
qed simp

lemma next_sequence_effect:
  assumes "next_sequence topic ow = (Inr n, ow')"
  shows "o_pending ow' = o_pending ow" "o_log ow' = o_log ow" "o_peers ow' = o_peers ow"
    and "issued ow i \<Longrightarrow> issued ow' i"
    and "issued ow' (MessageId (t_realm (o_trust ow)) (o_self ow) (o_epoch ow) topic n)"
    and "\<not> issued ow (MessageId (t_realm (o_trust ow)) (o_self ow) (o_epoch ow) topic n)"
proof -
  obtain m where m: "checked_add m 1 = Some n" "ow' = ow\<lparr>o_sequences := bm_put topic n (o_sequences ow)\<rparr>"
      "m = (case bm_get topic (o_sequences ow) of None \<Rightarrow> 0 | Some n \<Rightarrow> n)"
    using assms by (auto simp: next_sequence_def Let_def split: option.splits)
  then have less: "m < n"
    using checked_add_Some [OF m(1)] by (simp add: word_less_nat_alt)
  show "o_pending ow' = o_pending ow" "o_log ow' = o_log ow" "o_peers ow' = o_peers ow"
    by (simp_all add: m)
  show "issued ow i \<Longrightarrow> issued ow' i"
    using less m(2,3) by (auto simp: issued_def bmap_simps)
  show "issued ow' (MessageId (t_realm (o_trust ow)) (o_self ow) (o_epoch ow) topic n)"
    using m(2) by (simp add: issued_def bmap_simps)
  show "\<not> issued ow (MessageId (t_realm (o_trust ow)) (o_self ow) (o_epoch ow) topic n)"
    using less m(3) by (auto simp: issued_def)
qed

lemma next_sequence_Inl: "next_sequence topic ow = (Inl x, ow') \<Longrightarrow> \<exists>n. ow' = ow\<lparr>o_sequences := bm_put topic n (o_sequences ow)\<rparr>
     \<and> n = (case bm_get topic (o_sequences ow) of None \<Rightarrow> 0 | Some n \<Rightarrow> n)"
  by (auto simp: next_sequence_def Let_def split: option.splits)

lemma outcome_next_sequence: "outcome_inv ow \<Longrightarrow> outcome_inv (snd (next_sequence topic ow))"
proof -
  have "issued (snd (next_sequence topic ow)) i" if "issued ow i" for i
    using that next_sequence_effect(4) [of topic ow]
    by (cases "next_sequence topic ow"; cases "fst (next_sequence topic ow)")
      (auto dest!: next_sequence_Inl simp: issued_def bmap_simps split: option.splits if_splits)
  moreover have "o_pending (snd (next_sequence topic ow)) = o_pending ow" "o_log (snd (next_sequence topic ow)) = o_log ow"
    by (auto simp: next_sequence_def Let_def split: option.splits)
  ultimately show "outcome_inv ow \<Longrightarrow> ?thesis"
    by (auto simp: outcome_inv_def outcome_ok_def)
qed


definition published_envelope ::
  "('e, 'w) env \<Rightarrow> u64 \<Rightarrow> u64 \<Rightarrow> topic \<Rightarrow> lease \<Rightarrow> publish_options \<Rightarrow> ('e, 'w) owner \<Rightarrow> u64 \<Rightarrow> 'e envelope"
where
  "published_envelope E now expires topic payload opts ow n =
     \<lparr>env_id = MessageId (t_realm (o_trust ow)) (o_self ow) (o_epoch ow) topic n, env_created = now, env_expires = expires,
      env_format = po_format opts, env_len = lease_len payload, env_digest = digest (ev_lib E) (lease_bytes payload),
      env_mode = po_mode opts\<rparr>"

lemma publish_refused:
  "publish E tk topic payload opts ow = (Inl x, ow') \<Longrightarrow> ow' = ow \<or> ow' = snd (next_sequence topic ow)"
  unfolding publish_def Let_def by (simp only: sbind_eq prod.inject tryop_eq) (elim disjE conjE exE; auto)

lemma publish_accepted:
  assumes "publish E tk topic payload opts ow = (Inr x, ow')"
  obtains now n ow1 expires e ms h m rs where "local_valid tk ow = Inr now" "o_drain ow = None"
      "allows (o_cert ow) topic True" "next_sequence topic ow = (Inr n, ow1)"
      "checked_add now (as_secs (po_lifetime opts)) = Some expires"
      "e = published_envelope E now expires topic payload opts ow n"
      "rs = recipients (o_trust ow) now topic (po_mode opts) (o_peers ow)" "rs \<noteq> []"
      "length ms = length rs" "x = (env_id e, map fst rs)"
      "ow' = hand_out ms (schedule E tk (fold (publish_one tk opts payload e (envelope_sign (ev_lib E) e (o_identity ow)))
         (zip rs ms) (ow1\<lparr>o_held := h, o_next := m\<rparr>)))"
proof -
  have ids: "next_sequence topic ow = (Inr n, ow1) \<Longrightarrow> o_trust ow1 = o_trust ow \<and> o_self ow1 = o_self ow \<and> o_epoch ow1 = o_epoch ow
      \<and> o_identity ow1 = o_identity ow \<and> o_peers ow1 = o_peers ow" for n ow1
    by (auto simp: next_sequence_def Let_def split: option.splits)
  from assms obtain now n ow1 expires ms ow2 where 1: "local_valid tk ow = Inr now" "o_drain ow = None"
      "allows (o_cert ow) topic True" "next_sequence topic ow = (Inr n, ow1)"
      "recipients (o_trust ow) now topic (po_mode opts) (o_peers ow) \<noteq> []"
      "checked_add now (as_secs (po_lifetime opts)) = Some expires"
    and ms: "reserve_many (o_metadata ow1) (length (envelope_sign (ev_lib E)
        (published_envelope E now expires topic payload opts ow1 n) (o_identity ow1)) + 2048)
        (length (recipients (o_trust ow) now topic (po_mode opts) (o_peers ow))) ow1 = Inr (ms, ow2)"
    and x: "x = (MessageId (t_realm (o_trust ow1)) (o_self ow1) (o_epoch ow1) topic n,
        map fst (recipients (o_trust ow) now topic (po_mode opts) (o_peers ow)))"
      "ow' = hand_out ms (schedule E tk (fold (publish_one tk opts payload (published_envelope E now expires topic payload opts ow1 n)
         (envelope_sign (ev_lib E) (published_envelope E now expires topic payload opts ow1 n) (o_identity ow1)))
         (zip (recipients (o_trust ow) now topic (po_mode opts) (o_peers ow)) ms) ow2))"
    unfolding publish_def Let_def published_envelope_def
    by (simp only: sbind_eq prod.inject tryop_eq) (elim conjE exE, simp add: result_simps)
  from reserve_many_Inr [OF ms] obtain h m where "ow2 = ow1\<lparr>o_held := h, o_next := m\<rparr>"
      "length ms = length (recipients (o_trust ow) now topic (po_mode opts) (o_peers ow))"
    by blast
  moreover have "published_envelope E now expires topic payload opts ow1 n = published_envelope E now expires topic payload opts ow n"
    using ids [OF 1(4)] by (simp add: published_envelope_def)
  ultimately show thesis
    using that [OF 1(1-4,6) refl refl 1(5)] x ids [OF 1(4)] by (simp add: published_envelope_def)
qed

lemma outcome_frame:
  assumes "\<And>k. bm_has k (o_pending ow') = bm_has k (o_pending ow)" "\<And>k. outcomes k (o_log ow') = outcomes k (o_log ow)"
    and "o_sequences ow' = o_sequences ow" "o_epoch ow' = o_epoch ow" "o_self ow' = o_self ow"
      "t_realm (o_trust ow') = t_realm (o_trust ow)"
  shows "outcome_inv ow' = outcome_inv ow"
  using assms by (simp add: outcome_inv_def outcome_ok_def issued_def)

lemma outcome_core: "outcome_inv ow \<Longrightarrow> core ow' = core ow \<Longrightarrow> outcome_inv ow'"
  by (subst outcome_frame [of _ ow]) (auto simp: core_def dest: fun_cong)

lemma outcome_publish:
  assumes "owner_wf L ow" "outcome_inv ow"
  shows "outcome_inv (snd (publish E tk topic payload opts ow))"
proof (cases "publish E tk topic payload opts ow")
  case (Pair r ow')
  show ?thesis
  proof (cases r)
    case (Inl x)
    with Pair publish_refused [of E tk topic payload opts ow x ow'] assms(2) outcome_next_sequence [OF assms(2), of topic]
    show ?thesis
      by auto
  next
    case (Inr x)
    with Pair have "publish E tk topic payload opts ow = (Inr x, ow')"
      by simp
    then obtain now n ow1 expires e ms h m rs where seq: "next_sequence topic ow = (Inr n, ow1)"
      and e: "e = published_envelope E now expires topic payload opts ow n"
      and rs: "rs = recipients (o_trust ow) now topic (po_mode opts) (o_peers ow)" "length ms = length rs"
      and ow': "ow' = hand_out ms (schedule E tk (fold (publish_one tk opts payload e (envelope_sign (ev_lib E) e (o_identity ow)))
         (zip rs ms) (ow1\<lparr>o_held := h, o_next := m\<rparr>)))"
      by (rule publish_accepted)
    let ?ow1 = "ow1\<lparr>o_held := h, o_next := m\<rparr>"
    have inv: "outcome_inv ?ow1"
      using outcome_next_sequence [OF assms(2), of topic] seq by (auto intro!: outcome_core [of ow1 ?ow1])
    have i: "issued ?ow1 (env_id e)"
      using next_sequence_effect(5) [OF seq] by (simp add: e published_envelope_def issued_def)
    have new: "outcomes (q, sub, env_id e) (o_log ?ow1) = []" for q sub
      using outcome_invD [OF assms(2), of "(q, sub, env_id e)"] next_sequence_effect(2,6) [OF seq]
      by (auto simp: outcome_ok_def e published_envelope_def)
    have "map (fst \<circ> fst) (zip rs ms) = map fst rs"
      using rs(2) by (simp flip: map_map)
    then have "distinct (map (fst \<circ> fst) (zip rs ms))"
      using recipients_distinct [OF bm_ok_distinct [OF owner_wfD(1) [OF assms(1)]]] by (simp add: rs(1))
    then show ?thesis
      unfolding Pair ow' snd_conv by (intro outcome_core [OF outcome_publish_all [OF inv i _ new]]) simp_all
  qed
qed

lemma outcome_deliver: "outcome_inv ow \<Longrightarrow> outcome_inv (deliver E e sub t payload s ow)"
  by (subst outcome_frame [of _ ow]) (auto simp: deliver_def Let_def log_event_def split: option.split)

lemma settle_log:
  "\<exists>es. o_log (settle_dedup E x now ow) = o_log ow @ es \<and> (\<forall>v \<in> set es. \<exists>d c. v = Completed d c)"
  by (auto simp: settle_dedup_def Let_def case_prod_beta fold_same List.map_filter_def)

lemma outcome_settle: "outcome_inv ow \<Longrightarrow> outcome_inv (settle_dedup E x now ow)"
  using settle_log [of E x now ow] by (subst outcome_frame [of _ ow]) (auto simp: outcomes_completed)

interpretation outcome: core_invariant E outcome_inv for E
proof (rule core_invariant.intro)
  show "fresh_owner (ev_lib E) ow \<Longrightarrow> outcome_inv ow" for ow
    by (auto simp: fresh_owner_def owner_new_def outcome_inv_def outcome_ok_def settled_def)
  show "core_preserved E tk outcome_inv (\<lambda>_ _ _. True)" for tk
    by unfold_locales
      (rule outcome_core outcome_finish outcome_publish outcome_deliver outcome_settle; assumption)+
  show "outcome_inv ow \<Longrightarrow> outcome_inv (ow\<lparr>o_dedup := bm_adjust k (\<lambda>d. d\<lparr>dd_state := DedupProcessing code\<rparr>) (o_dedup ow)\<rparr>)"
    for ow k code
    by (subst outcome_frame [of _ ow]) auto
qed

section \<open>What an accepted message reports\<close>

text \<open>The delivery is pending or was rejected, and says so.\<close>

definition reported :: "('e, 'w) owner \<Rightarrow> 'e key \<Rightarrow> bool" where
  "reported ow k \<longleftrightarrow>
     (if bm_has k (o_pending ow) then outcomes k (o_log ow) = [Pending] else (\<exists>x. outcomes k (o_log ow) = [Rejected x]))"

definition untouched :: "('e, 'w) owner \<Rightarrow> ('e, 'w) owner \<Rightarrow> 'e key \<Rightarrow> bool" where
  "untouched ow ow' k \<longleftrightarrow>
     outcomes k (o_log ow') = outcomes k (o_log ow) \<and> bm_has k (o_pending ow') = bm_has k (o_pending ow)"

lemma publish_one_reported:
  assumes "bm_has peer (o_peers ow)" "outcomes (peer, sub, env_id e) (o_log ow) = []"
      "\<not> bm_has (peer, sub, env_id e) (o_pending ow)"
  shows "reported (publish_one tk opts payload e sb ((peer, sub), memory) ow) (peer, sub, env_id e)"
  using assms
  by (auto simp: reported_def publish_one_def Let_def log_event_def bmap_simps bm_has_def
      dest!: recipient_reserve_Inr split: option.splits sum.splits)

lemma publish_one_untouched:
  "k \<noteq> (peer, sub, env_id e) \<Longrightarrow> untouched ow (publish_one tk opts payload e sb ((peer, sub), memory) ow) k"
  by (simp add: untouched_def publish_one_effect(1) [OF refl])

lemma untouched_trans: "untouched a b k \<Longrightarrow> untouched b c k \<Longrightarrow> untouched a c k"
  by (simp add: untouched_def)

lemma publish_all_untouched:
  "snd (snd k) \<noteq> env_id e \<or> fst k \<notin> set (map (fst \<circ> fst) zs) \<Longrightarrow>
     untouched ow (fold (publish_one tk opts payload e sb) zs ow) k"
proof (induction zs arbitrary: ow)
  case (Cons z zs)
  obtain peer sub memory where z: "z = ((peer, sub), memory)"
    by (metis surj_pair)
  have "k \<noteq> (peer, sub, env_id e)"
    using Cons.prems by (auto simp: z)
  then have "untouched ow (publish_one tk opts payload e sb z ow) k"
    unfolding z by (rule publish_one_untouched)
  with Cons show ?case
    by (auto intro: untouched_trans)
qed (simp add: untouched_def)

lemma publish_all_reported:
  assumes "distinct (map (fst \<circ> fst) zs)" "((peer, sub), m) \<in> set zs" "bm_has peer (o_peers ow)"
    and "outcomes (peer, sub, env_id e) (o_log ow) = []" "\<not> bm_has (peer, sub, env_id e) (o_pending ow)"
  shows "reported (fold (publish_one tk opts payload e sb) zs ow) (peer, sub, env_id e)"
  using assms
proof (induction zs arbitrary: ow)
  case (Cons z zs)
  let ?ow = "publish_one tk opts payload e sb z ow"
  obtain q t n where z: "z = ((q, t), n)"
    by (metis surj_pair)
  show ?case
  proof (cases "z = ((peer, sub), m)")
    case True
    with Cons.prems have "reported ?ow (peer, sub, env_id e)"
      by (simp add: publish_one_reported)
    moreover from True Cons.prems(1) have "untouched ?ow (fold (publish_one tk opts payload e sb) zs ?ow) (peer, sub, env_id e)"
      by (intro publish_all_untouched) auto
    ultimately show ?thesis
      by (simp add: reported_def untouched_def)
  next
    case False
    with Cons.prems(1,2) have "((peer, sub), m) \<in> set zs" "q \<noteq> peer"
      by (force simp: z)+
    then show ?thesis
      using Cons.IH [of ?ow] Cons.prems(1,3,4,5) publish_one_untouched [of "(peer, sub, env_id e)" q t e ow tk opts payload sb n]
        publish_one_effect(4) [OF refl, of tk opts payload e sb q t n ow]
      by (simp add: z untouched_def)
  qed
qed simp

lemma publish_all_issued: "issued (fold (publish_one tk opts payload e sb) zs ow) = issued ow"
  by (rule fold_same) (metis publish_one_effect(3) surj_pair)

lemma issued_frame:
  "issued (hand_out ps ow) = issued ow" "issued (schedule E tk ow) = issued ow" "issued (ow\<lparr>o_held := ps, o_next := n\<rparr>) = issued ow"
  by (simp_all add: issued_def fun_eq_iff)

lemma recipients_binding:
  "(e, sub) \<in> set (recipients t now topic mode ps) \<Longrightarrow>
     \<exists>p b. (e, p) \<in> set ps \<and> bm_get topic (p_outbound p) = Some b \<and> b_sub b = sub \<and> b_mode b = mode
       \<and> check t (reg_cert (p_reg p)) e now = Inr ()"
  by (auto simp: recipients_def List.map_filter_def split: option.splits if_splits)

lemma zip_member: "length xs = length ys \<Longrightarrow> x \<in> set xs \<Longrightarrow> \<exists>y. (x, y) \<in> set (zip xs ys)"
  by (metis in_set_impl_in_set_zip1)

text \<open>What an accepted publication is: a new identifier, and the fan-out to its recipients.\<close>

lemma publish_fan_out:
  assumes "outcome_inv ow" "publish E tk topic payload opts ow = (Inr x, ow')"
  obtains now rs ms e sb ow1 where "rs = recipients (o_trust ow) now topic (po_mode opts) (o_peers ow)" "rs \<noteq> []"
      "length ms = length rs" "x = (env_id e, map fst rs)" "\<not> issued ow (env_id e)" "issued ow' (env_id e)"
      "o_peers ow1 = o_peers ow" "\<forall>k. untouched ow ow1 k"
      "\<forall>q sub. outcomes (q, sub, env_id e) (o_log ow1) = [] \<and> \<not> bm_has (q, sub, env_id e) (o_pending ow1)"
      "\<forall>k. untouched (fold (publish_one tk opts payload e sb) (zip rs ms) ow1) ow' k"
proof -
  obtain now n ow1 expires e ms h m rs where seq: "next_sequence topic ow = (Inr n, ow1)"
    and e: "e = published_envelope E now expires topic payload opts ow n"
    and rs: "rs = recipients (o_trust ow) now topic (po_mode opts) (o_peers ow)" "rs \<noteq> []" "length ms = length rs"
    and x: "x = (env_id e, map fst rs)"
    and ow': "ow' = hand_out ms (schedule E tk (fold (publish_one tk opts payload e (envelope_sign (ev_lib E) e (o_identity ow)))
       (zip rs ms) (ow1\<lparr>o_held := h, o_next := m\<rparr>)))"
    by (rule publish_accepted [OF assms(2)])
  let ?ow1 = "ow1\<lparr>o_held := h, o_next := m\<rparr>"
  let ?fold = "fold (publish_one tk opts payload e (envelope_sign (ev_lib E) e (o_identity ow))) (zip rs ms) ?ow1"
  note eff = next_sequence_effect [OF seq]
  have ids: "\<not> issued ow (env_id e)" "issued ow' (env_id e)"
    using eff(5,6) by (simp_all add: ow' issued_frame publish_all_issued) (simp_all add: e published_envelope_def)
  have new: "outcomes (q, sub, env_id e) (o_log ?ow1) = [] \<and> \<not> bm_has (q, sub, env_id e) (o_pending ?ow1)" for q sub
    using outcome_invD [OF assms(1), of "(q, sub, env_id e)"] eff(1,2) ids(1)
    by (auto simp: outcome_ok_def split: if_splits)
  have "untouched ?fold ow' k" for k
    using fun_cong [of "\<lambda>k. bm_has k (o_pending (schedule E tk ?fold))" "\<lambda>k. bm_has k (o_pending ?fold)" k] core_schedule [of E tk ?fold]
    by (simp add: ow' core_def untouched_def)
  moreover have "untouched ow ?ow1 k" for k
    using eff(1,2) by (simp add: untouched_def)
  moreover have "o_peers ?ow1 = o_peers ow"
    using eff(3) by simp
  ultimately show thesis
    using that [OF rs x ids] new by blast
qed

section \<open>Properties\<close>

text \<open>C4. The receipt of a recipient shows one outcome: in every reachable state of the endpoint owner, a
  delivery that is pending has the outcome \<open>Pending\<close> and no other, and one that is not pending either was never
  published, or was rejected when it was published, or was pending once and then got one final outcome, which
  never changes.\<close>

theorem outcome_once:
  "reach E s \<Longrightarrow>
     (if bm_has k (o_pending (sy_owner s)) then outcomes k (o_log (sy_owner s)) = [Pending]
      else settled (outcomes k (o_log (sy_owner s))))"
  using outcome_invD [OF outcome.holds, of E s k] by (simp add: outcome_ok_def)

theorem outcome_once_witness:
  "bm_has sample_key_out (o_pending sample_published) \<and> outcomes sample_key_out (o_log sample_published) = [Pending]"
  using outcome_once [OF sample_publish_reach(2), of sample_key_out]
  by (simp add: sample_sys_def sample_published_def bm_has_def bm_get_def)

text \<open>C16. Publishing reports every recipient: an accepted message has an identifier that was never used before, and each
  of the peers it returns, which are distinct, has a binding of that mode on the topic and exactly one outcome, \<open>Pending\<close> if the
  delivery is in the table of pending deliveries and \<open>Rejected\<close> otherwise; no other delivery changes. A
  refused message leaves the outcomes and the pending deliveries as they were.\<close>

theorem publish_reports:
  assumes "reach E s" "publish E tk topic payload opts (sy_owner s) = (r, ow')"
  shows "case r of
      Inl _ \<Rightarrow> o_log ow' = o_log (sy_owner s) \<and> o_pending ow' = o_pending (sy_owner s)
    | Inr (i, peers) \<Rightarrow>
        peers \<noteq> [] \<and> distinct peers \<and> \<not> issued (sy_owner s) i \<and> issued ow' i
        \<and> (\<forall>e \<in> set peers. \<exists>p b. bm_get e (o_peers (sy_owner s)) = Some p \<and> bm_get topic (p_outbound p) = Some b
             \<and> b_mode b = po_mode opts \<and> reported ow' (e, b_sub b, i))
        \<and> (\<forall>k. snd (snd k) \<noteq> i \<or> fst k \<notin> set peers \<longrightarrow> untouched (sy_owner s) ow' k)"
proof (cases r)
  case (Inl x)
  with assms publish_refused [of E tk topic payload opts "sy_owner s" x ow'] show ?thesis
    by (auto simp: next_sequence_def Let_def split: option.splits)
next
  case (Inr x)
  note wf = wf.holds [OF assms(1)]
  obtain now rs ms e sb ow1 where rs: "rs = recipients (o_trust (sy_owner s)) now topic (po_mode opts) (o_peers (sy_owner s))" "rs \<noteq> []"
      "length ms = length rs" and x: "x = (env_id e, map fst rs)"
    and ids: "\<not> issued (sy_owner s) (env_id e)" "issued ow' (env_id e)"
    and ow1: "o_peers ow1 = o_peers (sy_owner s)" "\<forall>k. untouched (sy_owner s) ow1 k"
      "\<forall>q sub. outcomes (q, sub, env_id e) (o_log ow1) = [] \<and> \<not> bm_has (q, sub, env_id e) (o_pending ow1)"
    and ow': "\<forall>k. untouched (fold (publish_one tk opts payload e sb) (zip rs ms) ow1) ow' k"
    by (rule publish_fan_out [OF outcome.holds [OF assms(1)] assms(2) [unfolded Inr]])
  have zs: "map (fst \<circ> fst) (zip rs ms) = map fst rs"
    using rs(3) by (simp flip: map_map)
  have d: "distinct (map fst rs)"
    using recipients_distinct [OF bm_ok_distinct [OF owner_wfD(1) [OF wf]]] by (simp add: rs(1))
  have "untouched (sy_owner s) ow' k" if "snd (snd k) \<noteq> env_id e \<or> fst k \<notin> set (map fst rs)" for k
    using untouched_trans [OF spec [OF ow1(2)] untouched_trans [OF publish_all_untouched spec [OF ow']]] that by (simp add: zs)
  moreover have "\<exists>p b. bm_get q (o_peers (sy_owner s)) = Some p \<and> bm_get topic (p_outbound p) = Some b
      \<and> b_mode b = po_mode opts \<and> reported ow' (q, b_sub b, env_id e)" if "q \<in> set (map fst rs)" for q
  proof -
    from that obtain sub m where z: "((q, sub), m) \<in> set (zip rs ms)" "(q, sub) \<in> set rs"
      using zip_member [OF rs(3) [symmetric]] by force
    obtain p b where pb: "(q, p) \<in> set (o_peers (sy_owner s))" "bm_get topic (p_outbound p) = Some b" "b_sub b = sub"
        "b_mode b = po_mode opts"
      using recipients_binding [OF z(2) [unfolded rs(1)]] by blast
    have p: "bm_get q (o_peers (sy_owner s)) = Some p"
      using pb(1) by (rule bm_in_set_get [OF owner_wfD(1) [OF wf]])
    have "reported (fold (publish_one tk opts payload e sb) (zip rs ms) ow1) (q, sub, env_id e)"
      by (rule publish_all_reported [OF _ z(1)]) (use d p ow1 zs in \<open>auto simp: bm_has_def\<close>)
    with p pb spec [OF ow', of "(q, sub, env_id e)"] show ?thesis
      by (auto simp: reported_def untouched_def)
  qed
  ultimately show ?thesis
    using d ids rs(2) by (auto simp: Inr x)
qed

theorem publish_reports_witness:
  "reported (snd (publish sample_env sample_tick jobs sample_body sample_options sample_bound)) sample_key_out"
proof -
  have "bm_get 7 (o_peers sample_bound) = Some (sample_peer [(jobs, sample_binding False)] [])"
    "bm_get jobs (p_outbound (sample_peer [(jobs, sample_binding False)] [])) = Some (sample_binding False)"
    by (simp_all add: sample_bound_def bm_get_def sample_peer_def)
  then show ?thesis
    using publish_reports [OF sample_publish_reach(1), of sample_tick jobs sample_body sample_options]
    by (simp add: sample_sys_def sample_publish sample_key_out_def sample_binding_def)
qed

end
