(* ===== verification/Owner_Replay.thy ===== *)
theory Owner_Replay
  imports Owner_Outcomes
begin

text \<open>
  What a subscriber sees. A message is delivered to its subscription at most once at a time, and
  every delivery is completed before the next one; a message that was acknowledged, or refused
  for good, is not delivered again; and what is delivered was signed by its publisher, whom the
  root of the realm permits to publish on the topic.
\<close>

section \<open>Delivered once at a time\<close>

text \<open>The history of one message at a subscription: whether a delivery is open. \<open>None\<close> would be a delivery
  while another is open, or a completion without a delivery.\<close>

fun replay_step :: "'e dedup_key \<Rightarrow> 'e event \<Rightarrow> bool option \<Rightarrow> bool option" where
  "replay_step k (Delivered sub e body) st =
     (if (sub, env_id e) = k then (if st = Some False then Some True else None) else st)"
| "replay_step k (Completed j c) st = (if j = k then (if st = Some True then Some False else None) else st)"
| "replay_step k (Outcome_Set j r) st = st"

definition replay :: "'e dedup_key \<Rightarrow> 'e event list \<Rightarrow> bool option" where
  "replay k es = fold (replay_step k) es (Some False)"

definition processing :: "'e dedup_key \<Rightarrow> ('e dedup_key, dedup) bmap \<Rightarrow> bool" where
  "processing k m \<longleftrightarrow>
     (case bm_get k m of None \<Rightarrow> False | Some d \<Rightarrow> (case dd_state d of DedupProcessing _ \<Rightarrow> True | _ \<Rightarrow> False))"

definition replay_inv :: "('e, 'w) owner \<Rightarrow> bool" where
  "replay_inv ow \<longleftrightarrow> (\<forall>k. replay k (o_log ow) = Some (processing k (o_dedup ow)))"

lemma replay_append: "replay k (es @ fs) = fold (replay_step k) fs (replay k es)"
  by (simp add: replay_def)

lemma replay_invD: "replay_inv ow \<Longrightarrow> replay k (o_log ow) = Some (processing k (o_dedup ow))"
  unfolding replay_inv_def by blast

lemma replay_frame:
  "(\<And>k. replay k (o_log ow') = replay k (o_log ow)) \<Longrightarrow> o_dedup ow' = o_dedup ow \<Longrightarrow> replay_inv ow' = replay_inv ow"
  unfolding replay_inv_def by simp

lemma replay_outcomes: "\<forall>v \<in> set es. \<exists>j r. v = Outcome_Set j r \<Longrightarrow> fold (replay_step k) es st = st"
  by (induction es) auto

text \<open>The log of an operation that only sets outcomes.\<close>

definition sets_outcomes :: "('e, 'w) owner \<Rightarrow> ('e, 'w) owner \<Rightarrow> bool" where
  "sets_outcomes ow ow' \<longleftrightarrow>
     t_realm (o_trust ow') = t_realm (o_trust ow) \<and> t_root (o_trust ow') = t_root (o_trust ow)
     \<and> o_dedup ow' = o_dedup ow \<and> (\<exists>es. o_log ow' = o_log ow @ es \<and> (\<forall>v \<in> set es. \<exists>j r. v = Outcome_Set j r))"

lemma sets_outcomes_refl: "sets_outcomes ow ow"
  by (simp add: sets_outcomes_def)

lemma sets_outcomes_trans: "sets_outcomes a b \<Longrightarrow> sets_outcomes b c \<Longrightarrow> sets_outcomes a c"
  by (force simp: sets_outcomes_def)

lemma sets_outcomes_core: "sets_outcomes a b \<Longrightarrow> core c = core b \<Longrightarrow> sets_outcomes a c"
  by (simp add: sets_outcomes_def core_def)

lemma sets_outcomes_finish: "sets_outcomes ow (finish k r ow)"
  by (cases k) (auto simp: sets_outcomes_def finish_def Let_def log_event_def split: option.split)

lemma sets_outcomes_publish_one: "sets_outcomes ow (publish_one tk opts payload e sb z ow)"
  by (cases z) (auto simp: sets_outcomes_def publish_one_def Let_def log_event_def case_prod_beta
      dest!: recipient_reserve_Inr split: option.split sum.split)

lemma sets_outcomes_publish: "sets_outcomes ow (snd (publish E tk topic payload opts ow))"
  unfolding publish_def Let_def
  apply (rule sbind_pure_inv [where P = "sets_outcomes ow"], rule sets_outcomes_refl)+
  apply (rule sbind_inv [where P = "sets_outcomes ow"])
  apply (force simp: next_sequence_def Let_def sets_outcomes_def split: option.split)
  apply (rule sbind_pure_inv [where P = "sets_outcomes ow"], assumption)
  apply (rule sbind_try_inv [where P = "sets_outcomes ow"], assumption)
  apply (simp, rule sets_outcomes_core [rotated, where b = "fold f xs y" for f xs y], simp)
  apply (rule fold_inv [where P = "sets_outcomes ow"])
  apply (erule sets_outcomes_trans [OF _ sets_outcomes_publish_one])
  apply (force simp: sets_outcomes_def dest!: reserve_many_Inr)
  done

lemma replay_sets_outcomes: "sets_outcomes ow ow' \<Longrightarrow> replay_inv ow \<Longrightarrow> replay_inv ow'"
  by (subst replay_frame [of _ ow]) (auto simp: sets_outcomes_def replay_append replay_outcomes)

lemma processing_put:
  "processing j (bm_put k d m) = (if j = k then (case dd_state d of DedupProcessing _ \<Rightarrow> True | _ \<Rightarrow> False) else processing j m)"
  by (simp add: processing_def bmap_simps)

lemma replay_deliver:
  assumes "replay_inv ow"
    and "case bm_get (sub, env_id (rt_envelope t)) (o_dedup ow) of None \<Rightarrow> True | Some d \<Rightarrow> dd_state d = DedupRetryable"
  shows "replay_inv (deliver E e sub t payload s ow)"
proof -
  have closed: "\<not> processing (sub, env_id (rt_envelope t)) (o_dedup ow)"
    using assms(2) by (auto simp: processing_def split: option.splits)
  show ?thesis
    unfolding replay_inv_def
  proof
    fix k
    show "replay k (o_log (deliver E e sub t payload s ow)) = Some (processing k (o_dedup (deliver E e sub t payload s ow)))"
      using closed replay_invD [OF assms(1), of k]
      by (auto simp: deliver_def Let_def log_event_def replay_append processing_put split: option.split)
  qed
qed

lemma fold_completed:
  assumes "distinct (map fst m)"
  shows "fold (replay_step k) (List.map_filter (\<lambda>(k, d). map_option (Completed k) (f d)) m) st =
    (case bm_get k m of None \<Rightarrow> st | Some d \<Rightarrow> (case f d of None \<Rightarrow> st | Some c \<Rightarrow> replay_step k (Completed k c) st))"
  using assms
proof (induction m arbitrary: st)
  case (Cons x m)
  obtain j d where x: "x = (j, d)"
    by (cases x)
  show ?case
  proof (cases "j = k")
    case True
    with Cons.prems x have "bm_get k m = None"
      by (auto simp: bm_get_def map_of_eq_None_iff)
    with True Cons x show ?thesis
      by (cases "f d") (simp_all add: List.map_filter_simps bm_get_def)
  next
    case False
    with Cons x show ?thesis
      by (cases "f d") (simp_all add: List.map_filter_simps bm_get_def)
  qed
qed (simp add: List.map_filter_simps)

lemma replay_settle:
  assumes "owner_wf L ow" "replay_inv ow"
  shows "replay_inv (settle_dedup E x now ow)"
  unfolding replay_inv_def
proof
  fix k
  let ?f = "\<lambda>d. fst (snd (dispose x now d))"
  have log: "o_log (settle_dedup E x now ow) = o_log ow @ List.map_filter (\<lambda>(k, d). map_option (Completed k) (?f d)) (o_dedup ow)"
    by (simp add: settle_dedup_def Let_def case_prod_beta fold_same)
  have dedup: "o_dedup (settle_dedup E x now ow) =
      bm_retain (\<lambda>_ d. now < dd_expires d) (bm_map (\<lambda>_ d. d\<lparr>dd_state := fst (dispose x now d)\<rparr>) (o_dedup ow))"
    by (simp add: settle_dedup_def Let_def case_prod_beta fold_same)
  have ok: "bm_ok (o_dedup ow)"
    by (rule owner_wfD(4) [OF assms(1)])
  show "replay k (o_log (settle_dedup E x now ow)) = Some (processing k (o_dedup (settle_dedup E x now ow)))"
    unfolding log dedup replay_append fold_completed [OF bm_ok_distinct [OF ok]] replay_invD [OF assms(2), of k]
    using ok
    by (auto simp: processing_def bm_get_retain bm_ok_map bmap_simps dispose_def disposed_state_def
        split: option.splits dedup_state.splits if_splits)
qed

lemma replay_finish: "replay_inv ow \<Longrightarrow> replay_inv (finish k r ow)"
  by (rule replay_sets_outcomes [OF sets_outcomes_finish])

lemma replay_publish: "replay_inv ow \<Longrightarrow> replay_inv (snd (publish E tk topic payload opts ow))"
  by (rule replay_sets_outcomes [OF sets_outcomes_publish])

lemma replay_core: "replay_inv ow \<Longrightarrow> core ow' = core ow \<Longrightarrow> replay_inv ow'"
  by (subst replay_frame [of _ ow]) (auto simp: core_def)

interpretation replay: core_invariant E replay_inv for E
proof (rule core_invariant.intro)
  show "fresh_owner (ev_lib E) ow \<Longrightarrow> replay_inv ow" for ow
    by (auto simp: fresh_owner_def owner_new_def replay_inv_def replay_def processing_def)
  show "core_preserved E tk replay_inv (\<lambda>_ _ _. True)" for tk
    by unfold_locales
      (rule replay_core replay_finish replay_publish replay_deliver replay_settle; assumption)+
  show "replay_inv (ow\<lparr>o_dedup := bm_adjust k (\<lambda>d. d\<lparr>dd_state := DedupProcessing code\<rparr>) (o_dedup ow)\<rparr>)"
    if "replay_inv ow" "bm_get k (o_dedup ow) = Some d" "dd_state d = DedupProcessing 0" for ow k d code
    using that unfolding replay_inv_def by (auto simp: processing_def bmap_simps split: option.splits)
qed

section \<open>Genuine messages\<close>

text \<open>A permission to publish, signed by the root of the realm.\<close>

definition may_publish :: "'e lib \<Rightarrow> bytes \<Rightarrow> 'e \<Rightarrow> 'e \<Rightarrow> topic \<Rightarrow> bool" where
  "may_publish L realm root e topic \<longleftrightarrow>
     (\<exists>c. wf_certificate L c \<and> verify_cose L (c_bytes c) root CERT_CONTEXT MAX_CERT \<in> range Inr
        \<and> cl_subject (c_claims c) = e \<and> cl_realm (c_claims c) = realm \<and> allows c topic True)"

definition genuine :: "'e lib \<Rightarrow> bytes \<Rightarrow> 'e \<Rightarrow> 'e \<Rightarrow> 'e envelope \<Rightarrow> bool" where
  "genuine L realm root peer e \<longleftrightarrow>
     (\<exists>sb. envelope_verify L sb peer = Inr e) \<and> realm_id (env_id e) = realm
     \<and> may_publish L realm root peer (mid_topic (env_id e))"

fun genuine_event :: "'e lib \<Rightarrow> bytes \<Rightarrow> 'e \<Rightarrow> 'e event \<Rightarrow> bool" where
  "genuine_event L realm root (Delivered sub e body) \<longleftrightarrow> (\<exists>peer. genuine L realm root peer e) \<and> payload_matches L e body"
| "genuine_event L realm root v \<longleftrightarrow> True"

definition genuine_log :: "'e lib \<Rightarrow> bytes \<Rightarrow> 'e \<Rightarrow> ('e, 'w) owner \<Rightarrow> bool" where
  "genuine_log L realm root ow \<longleftrightarrow>
     t_realm (o_trust ow) = realm \<and> t_root (o_trust ow) = root \<and> list_all (genuine_event L realm root) (o_log ow)"

lemma genuine_outcomes: "\<forall>v \<in> set es. \<exists>j r. v = Outcome_Set j r \<Longrightarrow> list_all (genuine_event L realm root) es"
  by (induction es) auto

lemma sets_outcomes_genuine:
  "sets_outcomes ow ow' \<Longrightarrow> genuine_log L realm root ow \<Longrightarrow> genuine_log L realm root ow'"
  by (auto simp: sets_outcomes_def genuine_log_def genuine_outcomes)

lemma begin_ticket:
  assumes "begin_data E tk peer session sub stream sb len ow = (Inr (Some t), ow')"
  shows "begin_checks E tk peer session sb len ow = Inr (rt_envelope t) \<and> rt_fingerprint t = digest (ev_lib E) sb"
  using assms by (auto simp: begin_data_def Let_def result_simps split: if_splits)

lemma begin_genuine:
  assumes "owner_wf (ev_lib E) ow" "begin_checks E tk peer session sb len ow = Inr e"
  shows "genuine (ev_lib E) (t_realm (o_trust ow)) (t_root (o_trust ow)) peer e"
proof -
  from assms(2) obtain p where p: "bm_get peer (o_peers ow) = Some p" "envelope_verify (ev_lib E) sb peer = Inr e"
      "realm_id (env_id e) = t_realm (o_trust ow)" "allows (reg_cert (p_reg p)) (mid_topic (env_id e)) True"
    by (auto simp: begin_checks_def peer_valid_def Let_def result_simps)
  moreover have "peer_wf (ev_lib E) (o_config ow) (t_realm (o_trust ow)) (t_root (o_trust ow)) peer p"
    using assms(1) p(1) by (auto simp: owner_wf_def dest: bm_allD)
  ultimately show ?thesis
    by (auto simp: genuine_def may_publish_def peer_wf_def)
qed


lemma genuine_preserved:
  "core_preserved E tk (genuine_log (ev_lib E) realm root) (\<lambda>e _ t. genuine (ev_lib E) realm root e (rt_envelope t))"
proof
  show "genuine_log (ev_lib E) realm root ow \<Longrightarrow> core ow' = core ow \<Longrightarrow> genuine_log (ev_lib E) realm root ow'" for ow ow' :: "('a, 'b) owner"
    by (simp add: genuine_log_def core_def)
  show "genuine_log (ev_lib E) realm root ow \<Longrightarrow> genuine_log (ev_lib E) realm root (finish k r ow)" for ow :: "('a, 'b) owner" and k r
    by (rule sets_outcomes_genuine [OF sets_outcomes_finish])
  show "genuine_log (ev_lib E) realm root ow \<Longrightarrow> genuine_log (ev_lib E) realm root (snd (publish E tk topic payload opts ow))"
    for ow :: "('a, 'b) owner" and topic payload opts
    by (rule sets_outcomes_genuine [OF sets_outcomes_publish])
  show "genuine_log (ev_lib E) realm root ow \<Longrightarrow> genuine (ev_lib E) realm root e (rt_envelope t) \<Longrightarrow>
      payload_matches (ev_lib E) (rt_envelope t) (lease_bytes payload) \<Longrightarrow>
      genuine_log (ev_lib E) realm root (deliver E e sub t payload s ow)" for ow :: "('a, 'b) owner" and e t payload sub s
    by (auto simp: genuine_log_def deliver_def Let_def log_event_def split: option.split)
  show "genuine_log (ev_lib E) realm root ow \<Longrightarrow> genuine_log (ev_lib E) realm root (settle_dedup E x (wall tk) ow)"
    for ow :: "('a, 'b) owner" and x
    by (auto simp: genuine_log_def settle_dedup_def Let_def case_prod_beta fold_same List.map_filter_def list_all_iff)
qed

definition tickets_genuine :: "('e, 'w) env \<Rightarrow> ('e, 'w) system \<Rightarrow> bool" where
  "tickets_genuine E s \<longleftrightarrow>
     (\<exists>realm root. genuine_log (ev_lib E) realm root (sy_owner s)
        \<and> list_all (\<lambda>(peer, _, _, t). genuine (ev_lib E) realm root peer (rt_envelope t)) (sy_tickets s))"

lemma tickets_after_cases:
  "x \<in> set (tickets_after i r ts) \<Longrightarrow> x \<in> set ts
     \<or> (\<exists>peer session sub stream sb len t. i = Command (Begin peer session sub stream sb len) \<and> r = Reply_Ticket (Inr t)
          \<and> x = (peer, session, sub, t))"
  by (auto simp: tickets_after_def split: input.splits owner_command.splits reply.splits sum.splits dest!: subsetD [OF set_remove1_subset])

lemma tickets_after_genuine:
  assumes wf: "owner_wf (ev_lib E) ow" and realm: "t_realm (o_trust ow) = realm" "t_root (o_trust ow) = root"
    and t: "turn E tk i ow = (r, go, ow')"
    and old: "list_all (\<lambda>(peer, _, _, t). genuine (ev_lib E) realm root peer (rt_envelope t)) ts"
  shows "list_all (\<lambda>(peer, _, _, t). genuine (ev_lib E) realm root peer (rt_envelope t)) (tickets_after i r ts)"
proof -
  have "genuine (ev_lib E) realm root peer (rt_envelope tt)"
    if "i = Command (Begin peer session sub stream sb len)" "r = Reply_Ticket (Inr tt)" for peer session sub stream sb len tt
  proof -
    from t that obtain ow1 where "begin_data E tk peer session sub stream sb len ow = (Inr (Some tt), ow1)"
      by (auto simp: turn_def handle_input_def command_def Let_def split: prod.splits bool.splits sum.splits option.splits)
    from begin_genuine [OF wf] begin_ticket [OF this] realm show ?thesis
      by auto
  qed
  with old show ?thesis
    unfolding list_all_iff by (blast dest!: tickets_after_cases)
qed

interpretation genuine: system_invariant E "tickets_genuine E" for E
proof
  show "tickets_genuine E \<lparr>sy_owner = ow, sy_tickets = []\<rparr>" if "fresh_owner (ev_lib E) ow" for ow
    using that by (auto simp: fresh_owner_def owner_new_def tickets_genuine_def genuine_log_def)
  show "tickets_genuine E \<lparr>sy_owner = ow, sy_tickets = tickets_after i r (sy_tickets s)\<rparr>"
    if "reach E s" "tickets_genuine E s" "admissible (ev_lib E) s i" "turn E tk i (sy_owner s) = (r, go, ow)" for s i tk r go ow
  proof -
    from that(2) obtain realm root where g: "genuine_log (ev_lib E) realm root (sy_owner s)"
      and ts: "list_all (\<lambda>(peer, _, _, t). genuine (ev_lib E) realm root peer (rt_envelope t)) (sy_tickets s)"
      by (auto simp: tickets_genuine_def)
    have D: "genuine (ev_lib E) realm root e (rt_envelope t)" if "i = Command (Incoming e session sub t payload)" for e session sub t payload
      using ts \<open>admissible (ev_lib E) s i\<close> that by (auto simp: admissible_def list_all_iff)
    have "genuine_log (ev_lib E) realm root ow"
      using core_preserved.turn [OF genuine_preserved wf.holds [OF that(1)] g that(4)] D by blast
    moreover have "list_all (\<lambda>(peer, _, _, t). genuine (ev_lib E) realm root peer (rt_envelope t)) (tickets_after i r (sy_tickets s))"
      by (rule tickets_after_genuine [OF wf.holds [OF that(1)] _ _ that(4) ts]) (use g in \<open>auto simp: genuine_log_def\<close>)
    ultimately show ?thesis
      by (auto simp: tickets_genuine_def)
  qed
  show "tickets_genuine E (s\<lparr>sy_owner := ow\<rparr>)" if "tickets_genuine E s" "env_step (sy_owner s) ow" for s ow
  proof -
    from that(1) obtain realm root where g: "genuine_log (ev_lib E) realm root (sy_owner s)"
      and ts: "list_all (\<lambda>(peer, _, _, t). genuine (ev_lib E) realm root peer (rt_envelope t)) (sy_tickets s)"
      by (auto simp: tickets_genuine_def)
    have "genuine_log (ev_lib E) realm root ow"
      by (rule core_preserved.env [OF genuine_preserved that(2) g]) (use g in \<open>simp add: genuine_log_def\<close>)
    with ts show ?thesis
      by (auto simp: tickets_genuine_def)
  qed
  show "tickets_genuine E (s\<lparr>sy_tickets := filter keep (sy_tickets s)\<rparr>)" if "tickets_genuine E s" for s keep
    using that unfolding tickets_genuine_def by (simp add: list_all_iff) blast
qed


section \<open>Never again after an acknowledgement\<close>

text \<open>Runs on a wall clock that does not go back; the time of a run is the last reading.\<close>

definition later :: "'e tick \<Rightarrow> u64 \<Rightarrow> u64" where
  "later tk t = (case tk_now tk of Inr n \<Rightarrow> n | Inl _ \<Rightarrow> t)"

inductive timed_run :: "('e::linorder, 'w) env \<Rightarrow> u64 \<Rightarrow> ('e, 'w) system \<Rightarrow> u64 \<Rightarrow> ('e, 'w) system \<Rightarrow> bool" for E t s where
  nil: "timed_run E t s t s"
| owner_turn: "\<lbrakk>timed_run E t s u v; admissible (ev_lib E) v i; turn E tk i (sy_owner v) = (r, go, ow); u \<le> later tk u\<rbrakk>
    \<Longrightarrow> timed_run E t s (later tk u) \<lparr>sy_owner = ow, sy_tickets = tickets_after i r (sy_tickets v)\<rparr>"
| others: "\<lbrakk>timed_run E t s u v; env_step (sy_owner v) ow\<rbrakk> \<Longrightarrow> timed_run E t s u (v\<lparr>sy_owner := ow\<rparr>)"
| drop_ticket: "timed_run E t s u v \<Longrightarrow> timed_run E t s u (v\<lparr>sy_tickets := filter keep (sy_tickets v)\<rparr>)"

lemma timed_run_reach: "timed_run E t s u v \<Longrightarrow> reach E s \<Longrightarrow> reach E v"
  by (induction rule: timed_run.induct) (auto intro: reach.step sys_step.intros)

definition deliveries :: "bytes \<Rightarrow> 'e envelope \<Rightarrow> 'e event list \<Rightarrow> nat" where
  "deliveries sub e es = length (filter (\<lambda>v. case v of Delivered x f _ \<Rightarrow> x = sub \<and> f = e | _ \<Rightarrow> False) es)"

definition closed_record :: "bytes \<Rightarrow> 'e envelope \<Rightarrow> ('e, 'w) owner \<Rightarrow> bool" where
  "closed_record sub e ow \<longleftrightarrow>
     (case bm_get (sub, env_id e) (o_dedup ow) of
        None \<Rightarrow> False
      | Some d \<Rightarrow> dd_state d \<in> {DedupProcessed, DedupPermanent} \<and> dd_expires d = env_expires e)"

definition over :: "bytes \<Rightarrow> 'e envelope \<Rightarrow> nat \<Rightarrow> u64 \<Rightarrow> ('e, 'w) owner \<Rightarrow> bool" where
  "over sub e n u ow \<longleftrightarrow> deliveries sub e (o_log ow) = n \<and> (closed_record sub e ow \<or> env_expires e \<le> u)"

lemma deliveries_append: "deliveries sub e (es @ fs) = deliveries sub e es + deliveries sub e fs"
  by (simp add: deliveries_def)

lemma deliveries_none: "\<forall>v \<in> set es. \<not> (\<exists>x f b. v = Delivered x f b) \<Longrightarrow> deliveries sub e es = 0"
  by (auto simp: deliveries_def filter_empty_conv split: event.splits)

lemma sets_outcomes_over: "sets_outcomes ow ow' \<Longrightarrow> over sub e n u ow \<Longrightarrow> over sub e n u ow'"
  by (auto simp: sets_outcomes_def over_def closed_record_def deliveries_append intro!: deliveries_none)

lemma over_deliver:
  assumes "over sub e n u ow"
    and "case bm_get (x, env_id (rt_envelope t)) (o_dedup ow) of None \<Rightarrow> True | Some d \<Rightarrow> dd_state d = DedupRetryable"
    and "u < env_expires (rt_envelope t)"
  shows "over sub e n u (deliver E peer x t payload s ow)"
proof (cases "(x, env_id (rt_envelope t)) = (sub, env_id e)")
  case True
  then have late: "env_expires e \<le> u"
    using assms(1,2) by (auto simp: over_def closed_record_def split: option.splits)
  with assms(3) have "rt_envelope t \<noteq> e"
    by auto
  then have "deliveries sub e (o_log (deliver E peer x t payload s ow)) = deliveries sub e (o_log ow)"
    by (auto simp: deliver_def Let_def log_event_def deliveries_append deliveries_def split: option.split)
  with late assms(1) show ?thesis
    by (simp add: over_def)
next
  case False
  then have "deliveries sub e (o_log (deliver E peer x t payload s ow)) = deliveries sub e (o_log ow)"
    by (auto simp: deliver_def Let_def log_event_def deliveries_append deliveries_def split: option.split)
  moreover have "closed_record sub e (deliver E peer x t payload s ow) = closed_record sub e ow"
    using False by (auto simp: deliver_def Let_def closed_record_def bmap_simps split: option.split)
  ultimately show ?thesis
    using assms(1) by (simp add: over_def)
qed

lemma over_settle:
  assumes "owner_wf L ow" "over sub e n (later tk t) ow"
  shows "over sub e n (later tk t) (settle_dedup E y (wall tk) ow)"
proof -
  obtain es where es: "o_log (settle_dedup E y (wall tk) ow) = o_log ow @ es" "\<forall>v \<in> set es. \<exists>d c. v = Completed d c"
    using settle_log by blast
  then have "deliveries sub e (o_log (settle_dedup E y (wall tk) ow)) = deliveries sub e (o_log ow)"
    by (auto simp: deliveries_append intro!: deliveries_none)
  moreover have "closed_record sub e (settle_dedup E y (wall tk) ow) \<or> env_expires e \<le> later tk t" if "closed_record sub e ow"
    using that owner_wfD(4) [OF assms(1)]
    by (auto simp: settle_dedup_def Let_def case_prod_beta fold_same closed_record_def bm_get_retain bm_ok_map bmap_simps
        dispose_def later_def wall_def not_less split: option.splits sum.splits dedup_state.splits)
  ultimately show ?thesis
    using assms(2) by (auto simp: over_def)
qed

lemma over_preserved: "core_preserved E tk (over sub e n (later tk t)) (\<lambda>_ _ _. True)"
proof
  show "over sub e n (later tk t) ow \<Longrightarrow> core ow' = core ow \<Longrightarrow> over sub e n (later tk t) ow'" for ow ow' :: "('a, 'b) owner"
    by (simp add: over_def closed_record_def core_def)
  show "over sub e n (later tk t) ow \<Longrightarrow> over sub e n (later tk t) (finish k r ow)" for ow :: "('a, 'b) owner" and k r
    by (rule sets_outcomes_over [OF sets_outcomes_finish])
  show "over sub e n (later tk t) ow \<Longrightarrow> over sub e n (later tk t) (snd (publish E tk topic payload opts ow))"
    for ow :: "('a, 'b) owner" and topic payload opts
    by (rule sets_outcomes_over [OF sets_outcomes_publish])
  show "over sub e n (later tk t) (deliver E peer x tt payload s ow)"
    if "over sub e n (later tk t) ow"
      "case bm_get (x, env_id (rt_envelope tt)) (o_dedup ow) of None \<Rightarrow> True | Some d \<Rightarrow> dd_state d = DedupRetryable"
      "tk_now tk = Inr now" "now < env_expires (rt_envelope tt)" for ow :: "('a, 'b) owner" and peer x tt payload s now
    using over_deliver [OF that(1,2)] that(3,4) by (simp add: later_def)
  show "owner_wf (ev_lib E) ow \<Longrightarrow> over sub e n (later tk t) ow \<Longrightarrow> over sub e n (later tk t) (settle_dedup E y (wall tk) ow)"
    for ow :: "('a, 'b) owner" and y
    by (rule over_settle)
qed

lemma over_dispose:
  assumes "over sub e n u ow" "bm_get k (o_dedup ow) = Some d" "dd_state d = DedupProcessing 0"
  shows "over sub e n u (ow\<lparr>o_dedup := bm_adjust k (\<lambda>d. d\<lparr>dd_state := DedupProcessing code\<rparr>) (o_dedup ow)\<rparr>)"
  using assms by (cases "k = (sub, env_id e)") (auto simp: over_def closed_record_def bm_get_adjust)

text \<open>An invariant that may speak of the time holds at the end of a run.\<close>

lemma timed_run_inv:
  assumes "timed_run E t s u v" "reach E s" "I t (sy_owner s)"
    and preserved: "\<And>tk t. core_preserved E tk (I (later tk t)) (\<lambda>_ _ _. True)"
    and lasts: "\<And>t t' ow. I t ow \<Longrightarrow> t \<le> t' \<Longrightarrow> I t' ow"
    and dispose: "\<And>u ow k d code. \<lbrakk>I u ow; bm_get k (o_dedup ow) = Some d; dd_state d = DedupProcessing 0\<rbrakk>
      \<Longrightarrow> I u (ow\<lparr>o_dedup := bm_adjust k (\<lambda>d. d\<lparr>dd_state := DedupProcessing code\<rparr>) (o_dedup ow)\<rparr>)"
  shows "I u (sy_owner v)"
  using assms(1)
proof (induction rule: timed_run.induct)
  case (owner_turn u v i tk r go ow)
  have "I (later tk u) (sy_owner v)"
    using owner_turn.IH owner_turn.hyps(4) by (rule lasts)
  from core_preserved.turn [OF preserved wf.holds [OF timed_run_reach [OF owner_turn.hyps(1) assms(2)]] this owner_turn.hyps(3)]
  show ?case
    by simp
next
  case (others u v ow)
  define tk :: "'a tick" where "tk = \<lparr>tk_now = Inr u, tk_instant = 0, tk_rand = [], tk_rand2 = [], tk_jitter = (\<lambda>_. 0)\<rparr>"
  have u: "later tk u = u"
    by (simp add: tk_def later_def)
  have "I u ow"
    by (rule core_preserved.env [OF preserved [where tk = tk and t = u, unfolded u] others.hyps(2) others.IH])
      (use dispose [OF others.IH] in blast)
  then show ?case
    by simp
qed (use assms(3) in auto)

lemma over_run:
  assumes "timed_run E t s u v" "reach E s" "over sub e n t (sy_owner s)"
  shows "over sub e n u (sy_owner v)"
proof (rule timed_run_inv [where I = "over sub e n", OF assms over_preserved])
  show "over sub e n t ow \<Longrightarrow> t \<le> t' \<Longrightarrow> over sub e n t' ow" for t t' ow
    by (auto simp: over_def)
qed (rule over_dispose)

section \<open>Shutdown\<close>

lemma outcomes_set_all: "distinct ks \<Longrightarrow> outcomes k (map (\<lambda>k. Outcome_Set k r) ks) = (if k \<in> set ks then [r] else [])"
  by (induction ks) auto

lemma drop_all_peers:
  assumes "bm_ok (o_peers ow)" "ks = bm_keys (o_peers ow)"
  shows "o_peers (fold drop_peer ks ow) = []"
proof -
  have "o_peers (fold drop_peer ks ow) = fold bm_del ks (o_peers ow)" if "bm_ok (o_peers ow)"
    for ks :: "'a list" and ow :: "('a, 'b) owner"
    using that by (induction ks arbitrary: ow) (auto simp: drop_peer_peers bm_ok_del)
  moreover have "set (bm_keys (fold bm_del ks m)) = set (bm_keys m) - set ks" for ks :: "'a list" and m :: "('a, 'a peer) bmap"
    by (induction ks arbitrary: m) auto
  then have "fold bm_del (bm_keys m) m = []" for m :: "('a, 'a peer) bmap"
    by (metis Diff_cancel bm_keys_def map_is_Nil_conv set_empty)
  ultimately show ?thesis
    using assms by simp
qed


lemma fold_completed_all:
  "distinct ks \<Longrightarrow> fold (replay_step k) (map (\<lambda>k. Completed k c) ks) st =
     (if k \<in> set ks then (if st = Some True then Some False else None) else st)"
  by (induction ks arbitrary: st) auto

lemma fold_failed_all: "fold (replay_step k) (map (\<lambda>k. Outcome_Set k r) ks) st = st"
  by (induction ks) auto

lemma processing_retain:
  "bm_ok m \<Longrightarrow> k \<in> set (bm_keys (bm_retain (\<lambda>_ d. case dd_state d of DedupProcessing _ \<Rightarrow> True | _ \<Rightarrow> False) m)) \<longleftrightarrow> processing k m"
  by (auto simp: bm_keys_iff bm_has_def bm_get_retain processing_def split: option.splits if_splits)

lemma fold_drop_peer:
  "o_pending (fold drop_peer ks ow) = o_pending ow" "o_dedup (fold drop_peer ks ow) = o_dedup ow" "o_subs (fold drop_peer ks ow) = o_subs ow"
  "o_drain (fold drop_peer ks ow) = o_drain ow" "o_log (fold drop_peer ks ow) = o_log ow" "o_stats (fold drop_peer ks ow) = o_stats ow"
  by (induction ks arbitrary: ow) (auto simp: drop_peer_def abandon_queues_def hand_out_def split: option.split)

lemma fold_abandon_sub:
  "o_pending (fold abandon_sub ss ow) = o_pending ow" "o_dedup (fold abandon_sub ss ow) = o_dedup ow" "o_subs (fold abandon_sub ss ow) = o_subs ow"
  "o_drain (fold abandon_sub ss ow) = o_drain ow" "o_log (fold abandon_sub ss ow) = o_log ow" "o_stats (fold abandon_sub ss ow) = o_stats ow"
  "o_peers (fold abandon_sub ss ow) = o_peers ow"
  by (induction ss arbitrary: ow) (simp_all add: abandon_sub_def hand_out_def)

lemma stop_owner_effect:
  assumes "bm_ok (o_peers ow)" "stop_owner keep ow = (m, ow')"
  shows "o_pending ow' = []" "o_dedup ow' = []" "o_subs ow' = []" "o_peers ow' = []"
    and "o_log ow' = o_log ow @ map (\<lambda>k. Outcome_Set k (Failed ShuttingDown)) (bm_keys (o_pending ow))
      @ map (\<lambda>k. Completed k (Inl ShuttingDown))
          (bm_keys (bm_retain (\<lambda>_ d. case dd_state d of DedupProcessing _ \<Rightarrow> True | _ \<Rightarrow> False) (o_dedup ow)))"
    and "(m \<noteq> None) = (o_drain ow \<noteq> None)"
    and "m = Some x \<Longrightarrow> me_unfinished_on_shutdown x = length (o_pending ow) \<and> me_pending_deliveries x = 0"
proof -
  note eqs = stop_owner_def Let_def fold_drop_peer fold_abandon_sub drop_all_peers
  show "o_pending ow' = []" "o_dedup ow' = []" "o_subs ow' = []" "(m \<noteq> None) = (o_drain ow \<noteq> None)" "o_peers ow' = []"
    using assms by (auto simp: eqs)
  show "o_log ow' = o_log ow @ map (\<lambda>k. Outcome_Set k (Failed ShuttingDown)) (bm_keys (o_pending ow))
      @ map (\<lambda>k. Completed k (Inl ShuttingDown))
          (bm_keys (bm_retain (\<lambda>_ d. case dd_state d of DedupProcessing _ \<Rightarrow> True | _ \<Rightarrow> False) (o_dedup ow)))"
    using assms(2) by (auto simp: eqs)
  have me: "me_unfinished_on_shutdown (owner_metrics x) = me_unfinished_on_shutdown (o_stats x)"
      "me_pending_deliveries (owner_metrics x) = length (o_pending x)" for x :: "('a, 'b) owner"
    by (simp_all add: owner_metrics_def)
  show "me_unfinished_on_shutdown x = length (o_pending ow) \<and> me_pending_deliveries x = 0" if "m = Some x"
    using assms(2) that by (auto simp: eqs me)
qed

section \<open>Properties\<close>

text \<open>C18. Shutting down settles everything: after the main loop, whatever the tasks and the application still hold, the
  owner has no peer, subscription, pending delivery or replay record left; every delivery that was ever published has its final
  outcome and every message that was delivered has its completion; and the
  metrics, which only a shutdown that was asked for returns, count the deliveries that were unfinished.\<close>

theorem shutdown_settles:
  assumes "reach E s" "stop_owner keep (sy_owner s) = (m, ow')"
  shows "o_peers ow' = [] \<and> o_subs ow' = [] \<and> o_pending ow' = [] \<and> o_dedup ow' = []
    \<and> settled (outcomes k (o_log ow')) \<and> replay d (o_log ow') = Some False
    \<and> (case m of None \<Rightarrow> o_drain (sy_owner s) = None
       | Some x \<Rightarrow> o_drain (sy_owner s) \<noteq> None \<and> me_unfinished_on_shutdown x = length (o_pending (sy_owner s)))"
proof -
  let ?ow = "sy_owner s"
  note wf = owner_wfD [OF wf.holds [OF assms(1)]]
  note eff = stop_owner_effect [OF wf(1) assms(2)]
  have "settled (outcomes k (o_log ow'))"
    using outcome_invD [OF outcome.holds [OF assms(1)], of k] bm_ok_distinct [OF wf(3), folded bm_keys_def]
    by (auto simp: eff(5) outcomes_set_all outcomes_completed outcome_ok_def bm_keys_iff settled_def split: if_splits)
  moreover have "replay d (o_log ow') = Some False"
    using replay_invD [OF replay.holds [OF assms(1)], of d] processing_retain [OF wf(4), of d] bm_ok_distinct [OF bm_ok_retain [OF wf(4)], folded bm_keys_def]
    by (auto simp: eff(5) replay_append fold_failed_all fold_completed_all)
  ultimately show ?thesis
    using eff by (auto split: option.split)
qed

theorem shutdown_settles_witness:
  "outcomes sample_key_out (o_log (snd (stop_owner (\<lambda>_. True) sample_published))) = [Pending, Failed ShuttingDown]"
proof -
  obtain m ow' where stop: "stop_owner (\<lambda>_. True) sample_published = (m, ow')"
    by (cases "stop_owner (\<lambda>_. True) sample_published")
  have "settled (outcomes sample_key_out (o_log ow'))"
    using shutdown_settles [OF sample_publish_reach(2), of "\<lambda>_. True" m ow' sample_key_out] stop by (simp add: sample_sys_def)
  then show ?thesis
    using stop by (auto simp: stop_owner_def Let_def fold_drop_peer fold_abandon_sub sample_published_def settled_def bm_keys_def)
qed


text \<open>C5. A message is in the hands of its subscriber at most once at a time: in the history of every
  reachable state, deliveries of one message to one subscription and their completions alternate, starting with a delivery, and the last
  delivery is open exactly while the replay record says that it is being processed.\<close>

theorem delivered_once_at_a_time:
  "reach E s \<Longrightarrow> replay k (o_log (sy_owner s)) = Some (processing k (o_dedup (sy_owner s)))"
  by (rule replay_invD [OF replay.holds])

theorem delivered_once_at_a_time_witness:
  "replay (replicate 16 6, env_id sample_message) (o_log sample_7) = Some True
   \<and> replay (replicate 16 6, env_id sample_message) (o_log sample_9) = Some False"
  using delivered_once_at_a_time [OF sample_reach(4), of "(replicate 16 6, env_id sample_message)"]
    delivered_once_at_a_time [OF sample_reach(5), of "(replicate 16 6, env_id sample_message)"]
  by (simp add: sample_sys_def processing_def sample_7_def sample_9_def bm_get_def sample_record_def)

text \<open>C7. Whatever is delivered is genuine: in every reachable state, for every message put in the queue of a
  subscription, the publisher named in its identifier signed its envelope, the identifier names the realm, the root of the realm signed a certificate
  that permits the publisher to publish on the topic, and the payload has the length and the digest of the envelope.\<close>

theorem delivery_genuine:
  assumes "reach E s" "external (ev_lib E)" "Delivered sub e body \<in> set (o_log (sy_owner s))"
  shows "genuine (ev_lib E) (t_realm (o_trust (sy_owner s))) (t_root (o_trust (sy_owner s))) (publisher_endpoint_id (env_id e)) e
     \<and> payload_matches (ev_lib E) e body"
proof -
  from genuine.holds [OF assms(1)] obtain realm root where g: "genuine_log (ev_lib E) realm root (sy_owner s)"
    by (auto simp: tickets_genuine_def)
  with assms(3) obtain peer where "genuine (ev_lib E) realm root peer e" "payload_matches (ev_lib E) e body"
    by (force simp: genuine_log_def list_all_iff)
  moreover from this have "publisher_endpoint_id (env_id e) = peer"
    using external.envelope_verify_sound [OF assms(2)] by (fastforce simp: genuine_def wf_envelope_def)
  ultimately show ?thesis
    using g by (simp add: genuine_log_def)
qed

theorem delivery_genuine_witness:
  "genuine sample_lib (replicate 16 2) (t_root sample_trust) 7 sample_message \<and> payload_matches sample_lib sample_message [1, 2, 3]"
proof -
  have "o_trust sample_7 = sample_trust"
    by (simp add: sample_7_def sample_6_def sample_5_def sample_states)
  then show ?thesis
    using delivery_genuine [OF sample_reach(4), of "replicate 16 6" sample_message "[1, 2, 3]"]
    by (simp add: sample_sys_def sample_env_def sample.external_axioms sample_7_def sample_trust_fields)
      (simp add: sample_message_def)
qed

text \<open>A message that its subscriber acknowledged, or refused for good, is never delivered again: from a reachable
  state where its replay record is closed, no run on a wall clock that does not go back delivers it to that subscription once more,
  whatever the peers send again and whatever maintenance forgets.\<close>

theorem processed_final:
  assumes "reach E s" "closed_record sub e (sy_owner s)" "timed_run E t s u v"
  shows "deliveries sub e (o_log (sy_owner v)) = deliveries sub e (o_log (sy_owner s))"
  using over_run [OF assms(3,1), of sub e "deliveries sub e (o_log (sy_owner s))"] assms(2) by (simp add: over_def)

theorem processed_final_witness:
  "closed_record (replicate 16 6) sample_message sample_9
   \<and> deliveries (replicate 16 6) sample_message (o_log (sy_owner (sys_turn sample_env sample_tick (Command (Begin 7 (replicate 16 8) (replicate 16 6) 1 sample_signed 3))
        (sample_sys sample_9)))) = 1"
proof -
  have c: "closed_record (replicate 16 6) sample_message sample_9"
    by (simp add: closed_record_def sample_9_def bm_get_def sample_record_def) (simp add: sample_message_def)
  let ?i = "Command (Begin 7 (replicate 16 8) (replicate 16 6) 1 sample_signed 3)"
  obtain r go ow where t: "turn sample_env sample_tick ?i sample_9 = (r, go, ow)"
    by (metis surj_pair)
  have "timed_run sample_env 0 (sample_sys sample_9) (later sample_tick 0) (sys_turn sample_env sample_tick ?i (sample_sys sample_9))"
    using timed_run.owner_turn [OF timed_run.nil, of sample_env "sample_sys sample_9" ?i sample_tick r go ow 0] t
    by (simp add: sys_turn_def sample_sys_def admissible_def)
  from processed_final [OF sample_reach(5) _ this, of "replicate 16 6" sample_message] c show ?thesis
    by (simp add: sample_sys_def) (simp add: sample_9_def deliveries_def)
qed

end
