(* ===== verification/Receipts.thy ===== *)
theory Receipts
  imports Owner_Replay
begin

text \<open>
  The objects that the interface hands to the application, \<^verbatim>\<open>src/src/endpoint.rs\<close>: the receipt of a publication, the
  readiness of a subscription, and a delivery with its acknowledgement. Each watches a value that the owner changes. A
  task that waits sees the states of the owner one after the other, from the one in which it begins to the last one
  before its timeout.
\<close>

section \<open>Waiting\<close>

text \<open>\<open>while not found \{ changed().await? \}\<close>: the result, and the states that are left when it returns. \<open>None\<close> is a wait that
  has not ended with the last state.\<close>

fun watch_until ::
  "('s \<Rightarrow> 'r option) \<Rightarrow> ('s \<Rightarrow> bool) \<Rightarrow> error \<Rightarrow> 's \<Rightarrow> 's list \<Rightarrow> 'r result option \<times> 's \<times> 's list"
where
  "watch_until found closed gone s ss =
     (case found s of
        Some r \<Rightarrow> (Some (Inr r), s, ss)
      | None \<Rightarrow>
          if closed s then (Some (Inl gone), s, ss)
          else (case ss of [] \<Rightarrow> (None, s, []) | s' # ss' \<Rightarrow> watch_until found closed gone s' ss'))"

declare watch_until.simps [simp del]

section \<open>Receipts\<close>

text \<open>A \<open>ReceiptEntry\<close> is the key of its delivery: \<open>shown\<close> is what \<open>rx.borrow()\<close> gives, and its sender is in the
  table of pending deliveries.\<close>

definition shown :: "'e key \<Rightarrow> ('e, 'w) owner \<Rightarrow> recipient_outcome" where
  "shown k ow = (case rev (outcomes k (o_log ow)) of [] \<Rightarrow> Pending | r # _ \<Rightarrow> r)"

definition receipt_outcomes :: "'e key list \<Rightarrow> ('e, 'w) owner \<Rightarrow> ('e \<times> recipient_outcome) list" where
  "receipt_outcomes ks ow = map (\<lambda>k. (fst k, shown k ow)) ks"

fun wait_entries ::
  "'e key list \<Rightarrow> ('e, 'w) owner \<Rightarrow> ('e, 'w) owner list \<Rightarrow> unit result option \<times> ('e, 'w) owner \<times> ('e, 'w) owner list"
where
  "wait_entries [] ow ows = (Some (Inr ()), ow, ows)"
| "wait_entries (k # ks) ow ows =
     (case watch_until (\<lambda>ow. if terminal (shown k ow) then Some () else None) (\<lambda>ow. \<not> bm_has k (o_pending ow)) ShuttingDown ow ows of
        (Some (Inr _), ow, ows) \<Rightarrow> wait_entries ks ow ows
      | other \<Rightarrow> other)"

definition wait_for_processing ::
  "'e key list \<Rightarrow> ('e, 'w) owner \<Rightarrow> ('e, 'w) owner list \<Rightarrow> ('e \<times> recipient_outcome) list result \<times> ('e, 'w) owner"
where
  "wait_for_processing ks ow ows =
     (case wait_entries ks ow ows of
        (None, ow, _) \<Rightarrow> (Inl Timeout, ow)
      | (Some (Inl e), ow, _) \<Rightarrow> (Inl e, ow)
      | (Some (Inr _), ow, _) \<Rightarrow> (Inr (receipt_outcomes ks ow), ow))"

section \<open>Readiness\<close>

text \<open>\<open>wait_ready\<close>, on the values of the watch and whether its sender is gone.\<close>

definition wait_ready ::
  "'e \<Rightarrow> ('e, unit result) bmap \<times> bool \<Rightarrow> (('e, unit result) bmap \<times> bool) list \<Rightarrow> unit result"
where
  "wait_ready peer v vs =
     (case watch_until (\<lambda>(m, _). case bm_get peer m of
              Some r \<Rightarrow> if r \<noteq> Inl PeerUnavailable then Some r else None | None \<Rightarrow> None)
            snd SubscriptionClosed v vs of
        (None, _) \<Rightarrow> Inl Timeout
      | (Some (Inl e), _) \<Rightarrow> Inl e
      | (Some (Inr r), _) \<Rightarrow> r)"

section \<open>Deliveries\<close>

text \<open>The cell \<open>disposition\<close>, which the delivery shares with the replay record of its key while that is being processed.\<close>

definition set_disposition :: "('e::linorder) dedup_key \<Rightarrow> (nat \<Rightarrow> nat) \<Rightarrow> ('e, 'w) owner \<Rightarrow> ('e, 'w) owner" where
  "set_disposition k f ow =
     ow\<lparr>o_dedup := bm_adjust k (\<lambda>d. case dd_state d of DedupProcessing c \<Rightarrow> d\<lparr>dd_state := DedupProcessing (f c)\<rparr> | _ \<Rightarrow> d) (o_dedup ow)\<rparr>"

text \<open>\<open>Drop for Delivery\<close>: \<open>compare_exchange(0, 2)\<close>.\<close>

definition drop_delivery :: "('e::linorder) dedup_key \<Rightarrow> ('e, 'w) owner \<Rightarrow> ('e, 'w) owner" where
  "drop_delivery k = set_disposition k (\<lambda>c. if c = 0 then 2 else c)"

text \<open>The watch \<open>completion\<close> of the delivery that was logged before position \<open>p\<close> of the log.\<close>

definition completions :: "'e dedup_key \<Rightarrow> 'e event list \<Rightarrow> unit result list" where
  "completions k es = List.map_filter (\<lambda>v. case v of Completed j c \<Rightarrow> if j = k then Some c else None | _ \<Rightarrow> None) es"

definition completion :: "'e dedup_key \<Rightarrow> nat \<Rightarrow> ('e, 'w) owner \<Rightarrow> unit result option" where
  "completion k p ow = (case completions k (drop p (o_log ow)) of [] \<Rightarrow> None | c # _ \<Rightarrow> Some c)"

text \<open>\<open>complete\<close>; \<open>runs\<close> gives the states that follow the one with the stored code. \<open>self\<close> is dropped when it returns.\<close>

definition complete ::
  "('e::linorder) dedup_key \<Rightarrow> nat \<Rightarrow> nat \<Rightarrow> (('e, 'w) owner \<Rightarrow> ('e, 'w) owner list) \<Rightarrow> ('e, 'w) owner \<Rightarrow> unit result option \<times> ('e, 'w) owner"
where
  "complete k p code runs ow =
     (let ow = set_disposition k (\<lambda>_. code) ow in
      case watch_until (completion k p) (\<lambda>ow. \<not> processing k (o_dedup ow)) ShuttingDown ow (runs ow) of
        (None, ow, _) \<Rightarrow> (None, ow)
      | (Some (Inl e), ow, _) \<Rightarrow> (Some (Inl e), drop_delivery k ow)
      | (Some (Inr r), ow, _) \<Rightarrow> (Some r, drop_delivery k ow))"

definition ack ::
  "('e::linorder) dedup_key \<Rightarrow> nat \<Rightarrow> (('e, 'w) owner \<Rightarrow> ('e, 'w) owner list) \<Rightarrow> ('e, 'w) owner \<Rightarrow> unit result option \<times> ('e, 'w) owner"
where
  "ack k p = complete k p 1"

definition nack_delivery ::
  "nack \<Rightarrow> ('e::linorder) dedup_key \<Rightarrow> nat \<Rightarrow> (('e, 'w) owner \<Rightarrow> ('e, 'w) owner list) \<Rightarrow> ('e, 'w) owner \<Rightarrow> unit result option \<times> ('e, 'w) owner"
where
  "nack_delivery reason k p = complete k p (if reason = NackRetryable then 2 else 3)"

section \<open>The history only grows\<close>

definition grown :: "'e event list \<Rightarrow> ('e, 'w) owner \<Rightarrow> bool" where
  "grown es ow \<longleftrightarrow> (\<exists>fs. o_log ow = es @ fs)"

lemma grown_refl: "grown (o_log ow) ow"
  by (simp add: grown_def)

lemma sets_outcomes_grown: "sets_outcomes ow ow' \<Longrightarrow> grown es ow \<Longrightarrow> grown es ow'"
  by (auto simp: sets_outcomes_def grown_def)

lemma grown_preserved: "core_preserved E tk (grown es) (\<lambda>_ _ _. True)"
proof
  show "grown es ow \<Longrightarrow> core ow' = core ow \<Longrightarrow> grown es ow'" for ow ow' :: "('a, 'b) owner"
    by (simp add: grown_def core_def)
  show "grown es ow \<Longrightarrow> grown es (finish k r ow)" for ow :: "('a, 'b) owner" and k r
    by (rule sets_outcomes_grown [OF sets_outcomes_finish])
  show "grown es ow \<Longrightarrow> grown es (snd (publish E tk topic payload opts ow))" for ow :: "('a, 'b) owner" and topic payload opts
    by (rule sets_outcomes_grown [OF sets_outcomes_publish])
  show "grown es ow \<Longrightarrow> grown es (deliver E peer x t payload s ow)" for ow :: "('a, 'b) owner" and peer x t payload s
    by (auto simp: grown_def deliver_def Let_def log_event_def split: option.split)
  show "grown es ow \<Longrightarrow> grown es (settle_dedup E y (wall tk) ow)" for ow :: "('a, 'b) owner" and y
    using settle_log [of E y "wall tk" ow] by (auto simp: grown_def)
qed

lemma grown_step:
  assumes "reach E s" and "sys_step E s s'"
  shows "grown (o_log (sy_owner s)) (sy_owner s')"
  using assms(2)
proof cases
  case (owner_turn i tk r go ow)
  from core_preserved.turn [OF grown_preserved wf.holds [OF assms(1)] grown_refl owner_turn(3)] owner_turn(1) show ?thesis
    by simp
next
  case (others ow)
  from core_preserved.env [OF grown_preserved others(2) grown_refl] others(1) show ?thesis
    by (simp add: grown_def)
qed (simp add: grown_refl)

lemma reach_steps: "(sys_step E)\<^sup>*\<^sup>* s v \<Longrightarrow> reach E s \<Longrightarrow> reach E v"
  by (induction rule: rtranclp_induct) (auto intro: reach.step)

lemma grown_steps: "(sys_step E)\<^sup>*\<^sup>* s v \<Longrightarrow> reach E s \<Longrightarrow> grown (o_log (sy_owner s)) (sy_owner v)"
proof (induction rule: rtranclp_induct)
  case (step v v')
  from grown_step [OF reach_steps [OF step(1,4)] step(2)] step.IH [OF step(4)] show ?case
    by (auto simp: grown_def)
qed (simp add: grown_refl)

lemma shown_cases:
  assumes "reach E s"
  shows "bm_has k (o_pending (sy_owner s)) \<and> outcomes k (o_log (sy_owner s)) = [Pending]
    \<or> \<not> bm_has k (o_pending (sy_owner s)) \<and> settled (outcomes k (o_log (sy_owner s)))"
  using outcome_invD [OF outcome.holds [OF assms], of k] by (auto simp: outcome_ok_def split: if_splits)

text \<open>An outcome that is final stays.\<close>

lemma shown_final:
  assumes "reach E s" and "(sys_step E)\<^sup>*\<^sup>* s v" and "terminal (shown k (sy_owner s))"
  shows "shown k (sy_owner v) = shown k (sy_owner s)"
proof -
  obtain fs where fs: "o_log (sy_owner v) = o_log (sy_owner s) @ fs"
    using grown_steps [OF assms(2,1)] by (auto simp: grown_def)
  have "settled (outcomes k (o_log (sy_owner s)))" "outcomes k (o_log (sy_owner s)) \<noteq> []"
    using shown_cases [OF assms(1), of k] assms(3) by (auto simp: shown_def terminal_def)
  moreover have "outcomes k (o_log (sy_owner v)) = [Pending] \<or> settled (outcomes k (o_log (sy_owner v)))"
    using shown_cases [OF reach_steps [OF assms(2,1)], of k] by blast
  ultimately have "outcomes k (o_log (sy_owner v)) = outcomes k (o_log (sy_owner s))"
    by (auto simp: settled_def fs)
  then show ?thesis
    by (simp add: shown_def)
qed

section \<open>Watching a run\<close>

text \<open>The states that a task sees: some of those that the system goes through.\<close>

fun sys_path :: "('e::linorder, 'w) env \<Rightarrow> ('e, 'w) system \<Rightarrow> ('e, 'w) system list \<Rightarrow> bool" where
  "sys_path E s [] = True"
| "sys_path E s (s' # ss) = ((sys_step E)\<^sup>*\<^sup>* s s' \<and> sys_path E s' ss)"

lemma watch_path:
  assumes "sys_path E s ss" and "watch_until found closed gone (sy_owner s) (map sy_owner ss) = (r, ow, ows)"
  obtains v vs where "ow = sy_owner v" "ows = map sy_owner vs" "(sys_step E)\<^sup>*\<^sup>* s v" "sys_path E v vs"
    "case r of Some (Inr x) \<Rightarrow> found ow = Some x | Some (Inl e) \<Rightarrow> e = gone \<and> closed ow \<and> found ow = None | None \<Rightarrow> True"
  using assms
proof (induction ss arbitrary: s thesis)
  case Nil
  show ?case
    by (rule Nil(1) [of s "[]"]) (use Nil(3) in \<open>auto simp: watch_until.simps split: option.splits if_splits\<close>)
next
  case (Cons s' ss)
  show ?case
  proof (cases "found (sy_owner s) = None \<and> \<not> closed (sy_owner s)")
    case True
    then have "watch_until found closed gone (sy_owner s') (map sy_owner ss) = (r, ow, ows)"
      using Cons.prems(3) by (simp add: watch_until.simps [of found closed gone "sy_owner s"])
    from Cons.IH [OF _ _ this] Cons.prems(2) obtain v vs where "ow = sy_owner v" "ows = map sy_owner vs"
      "(sys_step E)\<^sup>*\<^sup>* s' v" "sys_path E v vs"
      "case r of Some (Inr x) \<Rightarrow> found ow = Some x | Some (Inl e) \<Rightarrow> e = gone \<and> closed ow \<and> found ow = None | None \<Rightarrow> True"
      by auto
    then show ?thesis
      using Cons.prems(2) by (intro Cons.prems(1) [of v vs]) auto
  next
    case False
    show ?thesis
      by (rule Cons.prems(1) [of s "s' # ss"])
        (use False Cons.prems(2,3) in \<open>auto simp: watch_until.simps [of found closed gone "sy_owner s"] split: option.splits if_splits\<close>)
  qed
qed

lemma wait_entries_path:
  assumes "reach E s" and "sys_path E s ss" and "\<forall>k \<in> set ks. outcomes k (o_log (sy_owner s)) \<noteq> []"
    and "wait_entries ks (sy_owner s) (map sy_owner ss) = (r, ow, ows)"
  obtains v where "ow = sy_owner v" "(sys_step E)\<^sup>*\<^sup>* s v" "r = Some (Inr ()) \<and> (\<forall>k \<in> set ks. terminal (shown k ow)) \<or> r = None"
  using assms
proof (induction ks arbitrary: s ss thesis)
  case Nil
  then show ?case
    by auto
next
  case (Cons k ks)
  let ?found = "\<lambda>ow. if terminal (shown k ow) then Some () else None"
  obtain q ow1 ows1 where w: "watch_until ?found (\<lambda>ow. \<not> bm_has k (o_pending ow)) ShuttingDown (sy_owner s) (map sy_owner ss) = (q, ow1, ows1)"
    by (metis prod_cases3)
  obtain u us where u: "ow1 = sy_owner u" "ows1 = map sy_owner us" "(sys_step E)\<^sup>*\<^sup>* s u" "sys_path E u us"
    and q: "case q of Some (Inr x) \<Rightarrow> ?found ow1 = Some x
      | Some (Inl e) \<Rightarrow> e = ShuttingDown \<and> \<not> bm_has k (o_pending ow1) \<and> ?found ow1 = None | None \<Rightarrow> True"
    by (rule watch_path [OF Cons.prems(3) w])
  have reach: "reach E u"
    by (rule reach_steps [OF u(3) Cons.prems(2)])
  have live: "outcomes j (o_log (sy_owner u)) \<noteq> []" if "j \<in> set (k # ks)" for j
    using grown_steps [OF u(3) Cons.prems(2)] Cons.prems(4) that by (auto simp: grown_def)
  consider "q = None" | "q = Some (Inr ())" "terminal (shown k ow1)"
    using q shown_cases [OF reach, of k] live [of k] u(1)
    by (auto simp: settled_def shown_def terminal_def split: option.splits sum.splits if_splits)
  then show ?case
  proof cases
    case 1
    with Cons.prems(5) w u show ?thesis
      by (intro Cons.prems(1) [of u]) auto
  next
    case 2
    with Cons.prems(5) w u have "wait_entries ks (sy_owner u) (map sy_owner us) = (r, ow, ows)"
      by simp
    from Cons.IH [OF _ reach u(4) _ this] live obtain v where v: "ow = sy_owner v" "(sys_step E)\<^sup>*\<^sup>* u v"
      "r = Some (Inr ()) \<and> (\<forall>k \<in> set ks. terminal (shown k ow)) \<or> r = None"
      by auto
    then show ?thesis
      using 2 u shown_final [OF reach v(2), of k] by (intro Cons.prems(1) [of v]) auto
  qed
qed

section \<open>Acknowledging\<close>

text \<open>What a delivery stores is what \<open>env_step\<close> lets the application do.\<close>

lemma set_disposition_eq:
  assumes "bm_ok (o_dedup ow)" and "bm_get k (o_dedup ow) = Some d" and "dd_state d = DedupProcessing c"
  shows "set_disposition k f ow = ow\<lparr>o_dedup := bm_adjust k (\<lambda>d. d\<lparr>dd_state := DedupProcessing (f c)\<rparr>) (o_dedup ow)\<rparr>"
proof -
  have "v = d" if "(k, v) \<in> set (o_dedup ow)" for v
    using assms(1,2) that by (simp add: bm_in_set_iff)
  then have "bm_adjust k (\<lambda>d. case dd_state d of DedupProcessing c \<Rightarrow> d\<lparr>dd_state := DedupProcessing (f c)\<rparr> | _ \<Rightarrow> d) (o_dedup ow)
      = bm_adjust k (\<lambda>d. d\<lparr>dd_state := DedupProcessing (f c)\<rparr>) (o_dedup ow)"
    using assms(3) by (auto simp: bm_adjust_def bm_map_def)
  then show ?thesis
    by (simp add: set_disposition_def)
qed

lemma set_disposition_step:
  assumes "reach E s" and "bm_get k (o_dedup (sy_owner s)) = Some d" and "dd_state d = DedupProcessing 0" and "f 0 \<in> {1, 2, 3}"
  shows "sys_step E s (s\<lparr>sy_owner := set_disposition k f (sy_owner s)\<rparr>)"
  using env_step.settle [OF assms(2-4)] set_disposition_eq [OF owner_wfD(4) [OF wf.holds [OF assms(1)]] assms(2,3), of f]
  by (intro sys_step.others) simp

text \<open>A message that was acknowledged or refused for good is over, or will be with the next maintenance.\<close>

definition decided :: "bytes \<Rightarrow> 'e envelope \<Rightarrow> ('e, 'w) owner \<Rightarrow> bool" where
  "decided sub e ow \<longleftrightarrow>
     (case bm_get (sub, env_id e) (o_dedup ow) of
        None \<Rightarrow> False
      | Some d \<Rightarrow> dd_state d \<in> {DedupProcessing 1, DedupProcessing 3} \<and> dd_expires d = env_expires e)"

definition acked :: "bytes \<Rightarrow> 'e envelope \<Rightarrow> nat \<Rightarrow> u64 \<Rightarrow> ('e, 'w) owner \<Rightarrow> bool" where
  "acked sub e n u ow \<longleftrightarrow> over sub e n u ow \<or> (deliveries sub e (o_log ow) = n \<and> decided sub e ow)"

lemma sets_outcomes_acked: "sets_outcomes ow ow' \<Longrightarrow> acked sub e n u ow \<Longrightarrow> acked sub e n u ow'"
  using sets_outcomes_over [of ow ow' sub e n u]
  by (auto simp: acked_def sets_outcomes_def decided_def deliveries_append intro!: deliveries_none)

lemma acked_deliver:
  assumes "acked sub e n u ow"
    and "case bm_get (x, env_id (rt_envelope t)) (o_dedup ow) of None \<Rightarrow> True | Some d \<Rightarrow> dd_state d = DedupRetryable"
    and "u < env_expires (rt_envelope t)"
  shows "acked sub e n u (deliver E peer x t payload s ow)"
proof (cases "over sub e n u ow")
  case True
  then show ?thesis
    using over_deliver [OF True assms(2,3)] by (simp add: acked_def)
next
  case False
  then have d: "deliveries sub e (o_log ow) = n" "decided sub e ow"
    using assms(1) by (auto simp: acked_def)
  then have other: "(x, env_id (rt_envelope t)) \<noteq> (sub, env_id e)"
    using assms(2) by (auto simp: decided_def split: option.splits)
  then have "deliveries sub e (o_log (deliver E peer x t payload s ow)) = n"
    using d(1) by (auto simp: deliver_def Let_def log_event_def deliveries_append deliveries_def split: option.split)
  moreover have "decided sub e (deliver E peer x t payload s ow)"
    using other d(2) by (auto simp: deliver_def Let_def decided_def bmap_simps split: option.split)
  ultimately show ?thesis
    by (simp add: acked_def)
qed

lemma acked_settle:
  assumes "owner_wf L ow" "acked sub e n (later tk t) ow"
  shows "acked sub e n (later tk t) (settle_dedup E y (wall tk) ow)"
proof (cases "over sub e n (later tk t) ow")
  case True
  then show ?thesis
    using over_settle [OF assms(1) True] by (simp add: acked_def)
next
  case False
  obtain es where es: "o_log (settle_dedup E y (wall tk) ow) = o_log ow @ es" "\<forall>v \<in> set es. \<exists>d c. v = Completed d c"
    using settle_log by blast
  have d: "deliveries sub e (o_log ow) = n" "decided sub e ow"
    using assms(2) False by (auto simp: acked_def)
  have "deliveries sub e (o_log (settle_dedup E y (wall tk) ow)) = n"
    using es d(1) by (auto simp: deliveries_append intro!: deliveries_none)
  moreover have "closed_record sub e (settle_dedup E y (wall tk) ow) \<or> env_expires e \<le> later tk t"
    using d(2) owner_wfD(4) [OF assms(1)]
    by (auto simp: settle_dedup_def Let_def case_prod_beta fold_same closed_record_def decided_def bm_get_retain bm_ok_map bmap_simps
        dispose_def disposed_state_def later_def wall_def not_less split: option.splits sum.splits dedup_state.splits if_splits)
  ultimately show ?thesis
    by (simp add: acked_def over_def)
qed

lemma acked_preserved: "core_preserved E tk (acked sub e n (later tk t)) (\<lambda>_ _ _. True)"
proof
  show "acked sub e n (later tk t) ow \<Longrightarrow> core ow' = core ow \<Longrightarrow> acked sub e n (later tk t) ow'" for ow ow' :: "('a, 'b) owner"
    by (simp add: acked_def over_def closed_record_def decided_def core_def)
  show "acked sub e n (later tk t) ow \<Longrightarrow> acked sub e n (later tk t) (finish k r ow)" for ow :: "('a, 'b) owner" and k r
    by (rule sets_outcomes_acked [OF sets_outcomes_finish])
  show "acked sub e n (later tk t) ow \<Longrightarrow> acked sub e n (later tk t) (snd (publish E tk topic payload opts ow))"
    for ow :: "('a, 'b) owner" and topic payload opts
    by (rule sets_outcomes_acked [OF sets_outcomes_publish])
  show "acked sub e n (later tk t) (deliver E peer x tt payload s ow)"
    if "acked sub e n (later tk t) ow"
      "case bm_get (x, env_id (rt_envelope tt)) (o_dedup ow) of None \<Rightarrow> True | Some d \<Rightarrow> dd_state d = DedupRetryable"
      "tk_now tk = Inr now" "now < env_expires (rt_envelope tt)" for ow :: "('a, 'b) owner" and peer x tt payload s now
    using acked_deliver [OF that(1,2)] that(3,4) by (simp add: later_def)
  show "owner_wf (ev_lib E) ow \<Longrightarrow> acked sub e n (later tk t) ow \<Longrightarrow> acked sub e n (later tk t) (settle_dedup E y (wall tk) ow)"
    for ow :: "('a, 'b) owner" and y
    by (rule acked_settle)
qed

lemma acked_dispose:
  assumes "acked sub e n u ow" "bm_get k (o_dedup ow) = Some d" "dd_state d = DedupProcessing 0"
  shows "acked sub e n u (ow\<lparr>o_dedup := bm_adjust k (\<lambda>d. d\<lparr>dd_state := DedupProcessing code\<rparr>) (o_dedup ow)\<rparr>)"
  using assms over_dispose [of sub e n u ow k d code]
  by (cases "k = (sub, env_id e)") (auto simp: acked_def decided_def bm_get_adjust)

section \<open>Maintenance answers\<close>

lemma completions_append: "completions k (es @ fs) = completions k es @ completions k fs"
  by (simp add: completions_def List.map_filter_def)

lemma completions_outcomes: "\<forall>v \<in> set es. \<exists>j r. v = Outcome_Set j r \<Longrightarrow> completions k es = []"
  by (induction es) (auto simp: completions_def List.map_filter_simps)

lemma completions_settle:
  "distinct (map fst m) \<Longrightarrow>
   completions k (List.map_filter (\<lambda>(k, d). map_option (Completed k) (f d)) m) = option_list (Option.bind (bm_get k m) f)"
proof (induction m)
  case Nil
  then show ?case
    by (simp add: completions_def List.map_filter_simps option_list_def bm_get_def)
next
  case (Cons p m)
  obtain j d where p: "p = (j, d)"
    by fastforce
  have other: "bm_get k m = None" if "k = j"
    using Cons.prems that by (simp add: p bm_get_def map_of_eq_None_iff)
  from Cons show ?case
    using other
    by (cases "f d") (auto simp: p List.map_filter_simps completions_def bm_get_def option_list_def split: if_splits)
qed

lemma sets_outcomes_remove_peer: "sets_outcomes ow (remove_peer tk e ow)"
  unfolding remove_peer_def Let_def case_prod_beta
proof (rule fold_inv [where P = "sets_outcomes ow"])
  show "sets_outcomes ow (finish k r x)" if "sets_outcomes ow x" for k r x
    by (rule sets_outcomes_trans [OF that sets_outcomes_finish])
qed (rule sets_outcomes_core [OF sets_outcomes_refl], simp add: core_pending bmap_simps)

lemma sets_outcomes_close: "sets_outcomes ow (close_subs E (remove_stale tk (clock_check tk ow)))"
proof (rule sets_outcomes_core [where b = "remove_stale tk (clock_check tk ow)"])
  show "sets_outcomes ow (remove_stale tk (clock_check tk ow))"
    unfolding remove_stale_def
    by (rule fold_inv [where P = "sets_outcomes ow"])
      (auto intro: sets_outcomes_trans [OF _ sets_outcomes_remove_peer] sets_outcomes_core [OF sets_outcomes_refl])
qed simp

lemma sets_outcomes_finish_pending: "sets_outcomes ow (finish_pending tk x now ow)"
  unfolding finish_pending_def
proof (rule fold_inv [where P = "sets_outcomes ow"])
  show "sets_outcomes ow (expire_one z y)" if "sets_outcomes ow y" for z y
  proof -
    have "sets_outcomes ow (if snd z = DeliveryExpired then y\<lparr>o_stats := (o_stats y)\<lparr>me_expired := me_expired (o_stats y) + 1\<rparr>\<rparr> else y)"
      by (rule sets_outcomes_core [OF that]) simp
    then show ?thesis
      by (cases z) (simp add: expire_one_def sets_outcomes_trans [OF _ sets_outcomes_finish])
  qed
qed (rule sets_outcomes_refl)

lemma maintenance_completes:
  assumes "owner_wf L ow" and "bm_get k (o_dedup ow) = Some d" and "turn E tk Maintain ow = (r, go, ow')"
  defines "x \<equiv> err (local_valid tk (clock_check tk ow))"
  shows "completion k (length (o_log ow)) ow' = fst (snd (dispose x (wall tk) d))"
proof -
  define a where "a = close_subs E (remove_stale tk (clock_check tk ow))"
  define b where "b = settle_dedup E x (wall tk) a"
  have a: "sets_outcomes ow a"
    unfolding a_def by (rule sets_outcomes_close)
  have b: "o_log b = o_log a @ List.map_filter (\<lambda>(k, d). map_option (Completed k) (fst (snd (dispose x (wall tk) d)))) (o_dedup a)"
    by (simp add: b_def settle_dedup_def Let_def case_prod_beta fold_same)
  have "core ow' = core (finish_pending tk x (wall tk) b)"
    using assms(3) by (auto simp: turn_def handle_input_def maintenance_def Let_def a_def b_def x_def split: prod.splits bool.splits)
  then have ow': "sets_outcomes b ow'"
    by (rule sets_outcomes_core [OF sets_outcomes_finish_pending])
  obtain es fs where logs: "o_log a = o_log ow @ es" "\<forall>v \<in> set es. \<exists>j r. v = Outcome_Set j r"
      "o_log ow' = o_log b @ fs" "\<forall>v \<in> set fs. \<exists>j r. v = Outcome_Set j r" and dedup: "o_dedup a = o_dedup ow"
    using a ow' by (auto simp: sets_outcomes_def)
  have "distinct (map fst (o_dedup ow))"
    by (rule bm_ok_distinct [OF owner_wfD(4) [OF assms(1)]])
  then show ?thesis
    using assms(2) logs
    by (simp add: completion_def b dedup completions_append completions_outcomes completions_settle option_list_def split: option.split)
qed

section \<open>Properties\<close>

text \<open>C15. Waiting for a receipt gives the truth, for good: from a reachable state in which every entry has its first
  outcome, as publishing leaves them, the wait never fails but by its timeout; when it returns, it reports every recipient with a final
  outcome, and every later state of the endpoint shows the same outcomes.\<close>

theorem receipt_final:
  assumes "reach E s" and "sys_path E s ss" and "\<forall>k \<in> set ks. outcomes k (o_log (sy_owner s)) \<noteq> []"
    and "wait_for_processing ks (sy_owner s) (map sy_owner ss) = (r, ow)"
  shows "case r of
      Inl e \<Rightarrow> e = Timeout
    | Inr outs \<Rightarrow> map fst outs = map fst ks \<and> (\<forall>(e, r) \<in> set outs. terminal r)
        \<and> (\<exists>u. ow = sy_owner u \<and> (sys_step E)\<^sup>*\<^sup>* s u \<and> (\<forall>v. (sys_step E)\<^sup>*\<^sup>* u v \<longrightarrow> receipt_outcomes ks (sy_owner v) = outs))"
proof -
  obtain q ow1 ows where w: "wait_entries ks (sy_owner s) (map sy_owner ss) = (q, ow1, ows)"
    by (metis prod_cases3)
  obtain u where u: "ow1 = sy_owner u" "(sys_step E)\<^sup>*\<^sup>* s u"
    "q = Some (Inr ()) \<and> (\<forall>k \<in> set ks. terminal (shown k ow1)) \<or> q = None"
    by (rule wait_entries_path [OF assms(1-3) w])
  show ?thesis
  proof (cases q)
    case None
    with w assms(4) show ?thesis
      by (auto simp: wait_for_processing_def)
  next
    case (Some x)
    then have r: "r = Inr (receipt_outcomes ks ow1)" "ow = ow1" and t: "\<forall>k \<in> set ks. terminal (shown k ow1)"
      using w assms(4) u(3) by (auto simp: wait_for_processing_def)
    have "receipt_outcomes ks (sy_owner v) = receipt_outcomes ks ow1" if "(sys_step E)\<^sup>*\<^sup>* u v" for v
      using shown_final [OF reach_steps [OF u(2) assms(1)] that] t u(1) by (simp add: receipt_outcomes_def)
    moreover have "map fst (receipt_outcomes ks ow1) = map fst ks" "\<forall>(e, r) \<in> set (receipt_outcomes ks ow1). terminal r"
      using t by (auto simp: receipt_outcomes_def)
    ultimately show ?thesis
      unfolding r sum.case using u(1,2) by (intro conjI exI [of _ u] allI impI)
  qed
qed

text \<open>C6. From the moment a subscriber acknowledges a delivery, or refuses it for good, the message is never delivered to
  that subscription again, whatever the peers send again, whatever maintenance forgets, and whether or not
  the subscriber waits for the completion; the wall clock must not go back.\<close>

theorem acknowledged_final:
  assumes "reach E s" and "bm_get (sub, env_id e) (o_dedup (sy_owner s)) = Some d" and "dd_state d = DedupProcessing 0"
    and "dd_expires d = env_expires e" and "code = 1 \<or> code = 3"
    and "timed_run E t (s\<lparr>sy_owner := set_disposition (sub, env_id e) (\<lambda>_. code) (sy_owner s)\<rparr>) u v"
  shows "deliveries sub e (o_log (sy_owner v)) = deliveries sub e (o_log (sy_owner s))"
proof -
  let ?s = "s\<lparr>sy_owner := set_disposition (sub, env_id e) (\<lambda>_. code) (sy_owner s)\<rparr>"
  let ?n = "deliveries sub e (o_log (sy_owner s))"
  have "reach E ?s"
    using set_disposition_step [OF assms(1-3), of "\<lambda>_. code"] assms(1,5) by (auto intro: reach.step)
  moreover have "acked sub e ?n t (sy_owner ?s)"
    using assms(2-5) by (auto simp: acked_def decided_def set_disposition_def bm_get_adjust)
  ultimately have "acked sub e ?n u (sy_owner v)"
  proof (rule timed_run_inv [where I = "acked sub e ?n", OF assms(6) _ _ acked_preserved])
    show "acked sub e ?n t ow \<Longrightarrow> t \<le> t' \<Longrightarrow> acked sub e ?n t' ow" for t t' ow
      by (auto simp: acked_def over_def)
  qed (rule acked_dispose)
  then show ?thesis
    by (auto simp: acked_def over_def)
qed

text \<open>C19. An acknowledgement is answered by the next maintenance: \<open>ack\<close> and \<open>nack\<close> return then, with success if the endpoint's own certificate is
  valid and the message has not expired, and with the error that says why otherwise.\<close>

theorem complete_answered:
  assumes "reach E s" and "bm_get k (o_dedup (sy_owner s)) = Some d" and "dd_state d = DedupProcessing 0" and "code \<in> {1, 2, 3}"
    and "turn E tk Maintain (set_disposition k (\<lambda>_. code) (sy_owner s)) = (r, go, ow)" and "length (o_log (sy_owner s)) = p"
  shows "fst (complete k p code (\<lambda>_. ow # later_states) (sy_owner s)) = Some
    (case err (local_valid tk (clock_check tk (sy_owner s))) of
       Some e \<Rightarrow> Inl e
     | None \<Rightarrow> if dd_expires d \<le> wall tk then Inl DeliveryExpired else Inr ())"
proof -
  let ?ow = "set_disposition k (\<lambda>_. code) (sy_owner s)"
  have s': "reach E (s\<lparr>sy_owner := ?ow\<rparr>)"
    using set_disposition_step [OF assms(1-3), of "\<lambda>_. code"] assms(1,4) by (auto intro: reach.step)
  have d: "bm_get k (o_dedup ?ow) = Some (d\<lparr>dd_state := DedupProcessing code\<rparr>)"
    using assms(2,3) by (simp add: set_disposition_def bm_get_adjust)
  have owner: "owner_wf (ev_lib E) ?ow"
    using wf.holds [OF s'] by simp
  have log: "o_log ?ow = o_log (sy_owner s)"
    by (simp add: set_disposition_def)
  have valid: "local_valid tk (clock_check tk ?ow) = local_valid tk (clock_check tk (sy_owner s))"
    by (cases "tk_now tk") (simp_all add: set_disposition_def clock_check_def local_valid_def Let_def)
  have first: "completion k p ?ow = None" "processing k (o_dedup ?ow)"
    using assms(6) d by (simp_all add: completion_def completions_def log List.map_filter_simps processing_def)
  have next_state: "completion k p ow = fst (snd (dispose (err (local_valid tk (clock_check tk ?ow))) (wall tk) (d\<lparr>dd_state := DedupProcessing code\<rparr>)))"
    using maintenance_completes [OF owner d assms(5)] assms(6) log by simp
  show ?thesis
    using assms(4) next_state
    by (auto simp: complete_def Let_def watch_until.simps [of _ _ _ ?ow] watch_until.simps [of _ _ _ ow] first valid dispose_def
      split: option.split)
qed

section \<open>Witnesses\<close>

lemma sample_7_record:
  "bm_get (replicate 16 6, env_id sample_message) (o_dedup sample_7) = Some (sample_record (DedupProcessing 0))"
  "set_disposition (replicate 16 6, env_id sample_message) (\<lambda>_. 1) sample_7 = sample_8"
  by (simp_all add: sample_8_def sample_7_def bm_get_def set_disposition_def bm_adjust_def bm_map_def sample_record_def)

lemma sample_7_eq:
  "sample_7 = sample_4\<lparr>o_peers := [(7, sample_peer [] [(jobs, replicate 16 6, 1)])],
     o_subs := [(jobs, sample_sub [\<lparr>d_id = env_id sample_message, d_format = ''opaque'', d_payload = sample_payload\<rparr>] {7} [(7, Inr ())] [] [])],
     o_dedup := o_dedup sample_7, o_cursor := 1, o_outside := o_outside sample_7, o_next := 22, o_log := o_log sample_7\<rparr>"
  by (simp add: sample_7_def sample_6_def sample_5_def sample_4_def)

theorem acknowledged_final_witness:
  "deliveries (replicate 16 6) sample_message (o_log sample_9) = deliveries (replicate 16 6) sample_message (o_log sample_7)"
proof -
  have run: "timed_run sample_env 0 (sample_sys sample_8) (later sample_tick 0) (sample_sys sample_9)"
    using timed_run.owner_turn [OF timed_run.nil, of sample_env "sample_sys sample_8" Maintain sample_tick _ _ sample_9 0] step_9
    by (simp add: sample_sys_def admissible_def tickets_after_def)
  have "(sample_sys sample_7)\<lparr>sy_owner := set_disposition (replicate 16 6, env_id sample_message) (\<lambda>_. 1) (sy_owner (sample_sys sample_7))\<rparr>
      = sample_sys sample_8"
    using sample_7_record(2) by (simp add: sample_sys_def)
  from acknowledged_final [OF sample_reach(4), of "replicate 16 6" sample_message "sample_record (DedupProcessing 0)" 1, unfolded this, OF _ _ _ _ run]
  show ?thesis
    using sample_7_record(1) by (simp add: sample_sys_def sample_record_def) (simp add: sample_message_def)
qed

theorem complete_answered_witness:
  "fst (complete (replicate 16 6, env_id sample_message) (length (o_log sample_7)) 1 (\<lambda>_. [sample_9]) sample_7) = Some (Inr ())"
proof -
  have "local_valid sample_tick (clock_check sample_tick sample_7) = Inr 15"
    using sample_fields(1,2) [OF sample_7_eq] by simp
  then show ?thesis
    using complete_answered [OF sample_reach(4), of "(replicate 16 6, env_id sample_message)" "sample_record (DedupProcessing 0)" 1 sample_tick _ _ sample_9 _ "[]"]
      sample_7_record step_9
    by (simp add: sample_sys_def sample_record_def err_def)
qed

abbreviation sample_cancelled :: "(256 word, unit) system" where
  "sample_cancelled \<equiv> sys_turn sample_env sample_tick (Command (Cancel (env_id sample_out))) (sample_sys sample_published)"

lemma sample_cancel: "o_log (sy_owner sample_cancelled) = [Outcome_Set sample_key_out Pending, Outcome_Set sample_key_out Cancelled]"
proof -
  have "o_log (cmd_cancel (env_id sample_out) sample_published) = [Outcome_Set sample_key_out Pending, Outcome_Set sample_key_out Cancelled]"
    by (simp add: cmd_cancel_def finish_def sample_published_def bm_keys_def bm_get_def sample_key_out_def Let_def log_event_def)
  then show ?thesis
    using core_schedule [of sample_env sample_tick "release_held (cmd_cancel (env_id sample_out) sample_published)"]
    by (simp add: sys_turn_def turn_def handle_input_def command_def sample_sys_def Let_def core_def)
qed

theorem receipt_final_witness:
  "wait_for_processing [sample_key_out] sample_published [sy_owner sample_cancelled] = (Inr [(7, Cancelled)], sy_owner sample_cancelled)
   \<and> receipt_outcomes [sample_key_out] (sy_owner sample_cancelled) = [(7, Cancelled)]"
proof -
  have log: "o_log sample_published = [Outcome_Set sample_key_out Pending]" "bm_has sample_key_out (o_pending sample_published)"
    by (simp_all add: sample_published_def bm_has_def bm_get_def)
  have shown: "shown sample_key_out (sy_owner sample_cancelled) = Cancelled" "shown sample_key_out sample_published = Pending"
    by (simp_all add: shown_def sample_cancel log)
  have fst: "fst sample_key_out = 7"
    by (simp add: sample_key_out_def)
  have wait: "wait_for_processing [sample_key_out] sample_published [sy_owner sample_cancelled] = (Inr [(7, Cancelled)], sy_owner sample_cancelled)"
    by (simp add: wait_for_processing_def watch_until.simps [of _ _ _ sample_published] watch_until.simps [of _ _ _ "sy_owner sample_cancelled"]
        shown terminal_def log receipt_outcomes_def fst)
  have step: "(sys_step sample_env)\<^sup>*\<^sup>* (sample_sys sample_published) sample_cancelled"
    by (cases "turn sample_env sample_tick (Command (Cancel (env_id sample_out))) (sy_owner (sample_sys sample_published))")
      (auto simp: sys_turn_def admissible_def intro!: r_into_rtranclp sys_step.owner_turn)
  have "\<exists>u. sy_owner sample_cancelled = sy_owner u
      \<and> (\<forall>v. (sys_step sample_env)\<^sup>*\<^sup>* u v \<longrightarrow> receipt_outcomes [sample_key_out] (sy_owner v) = [(7, Cancelled)])"
    using receipt_final [OF sample_publish_reach(2), of "[sample_cancelled]" "[sample_key_out]" "Inr [(7, Cancelled)]" "sy_owner sample_cancelled"]
      step wait log by (auto simp: sample_sys_def)
  then have "receipt_outcomes [sample_key_out] (sy_owner sample_cancelled) = [(7, Cancelled)]"
    by (metis rtranclp.rtrancl_refl)
  with wait show ?thesis
    by blast
qed

end
