(* ===== verification/Messaging.thy ===== *)
theory Messaging
  imports Joining Receipts
begin

text \<open>
  A message on its way: from the queue of a writer, over the bytes of a data stream, through the owner of the receiving endpoint
  into the queue of a subscription; and its outcome, from the receiver's control frame to the receipt of the publisher.
\<close>

section \<open>A subscription that is ready for a message\<close>

text \<open>What the owner asks of a message before it hands it to the subscription \<open>s\<close>: a valid session, permissions on both
  sides, the limits of size and time, a stream for the topic, credit, no copy of the message yet, room in the queue.\<close>

definition receptive ::
  "('e::linorder, 'w) env \<Rightarrow> 'e tick \<Rightarrow> 'e \<Rightarrow> bytes \<Rightarrow> u64 \<Rightarrow> 'e envelope \<Rightarrow> bytes \<Rightarrow> 'e peer \<Rightarrow> 'e local_sub \<Rightarrow> credit_grant \<Rightarrow> ('e, 'w) owner \<Rightarrow> bool"
where
  "receptive E tk peer session sid e sb p s g ow \<longleftrightarrow>
     peer_valid tk peer session ow = Inr p
     \<and> realm_id (env_id e) = t_realm (o_trust ow)
     \<and> allows (reg_cert (p_reg p)) (mid_topic (env_id e)) True \<and> allows (o_cert ow) (mid_topic (env_id e)) False
     \<and> env_len e \<le> cf_max_payload (o_config ow)
     \<and> \<not> over_limit (env_len e) (max_payload (certificate_limits (o_cert ow)))
     \<and> \<not> over_limit (env_len e) (max_payload (certificate_limits (reg_cert (p_reg p))))
     \<and> (case tk_now tk of
          Inl _ \<Rightarrow> False
        | Inr now \<Rightarrow> env_created e \<le> saturating_add now (clock_skew_secs (o_trust ow)) \<and> now < env_expires e)
     \<and> env_expires e - env_created e \<le> as_secs (delivery_window (o_config ow))
     \<and> (case bm_get (mid_topic (env_id e)) (p_inbound p) of
          None \<Rightarrow> length (p_inbound p) < max_topics (o_config ow)
        | Some (sub, stream) \<Rightarrow> sub = s_id s \<longrightarrow> stream = sid)
     \<and> bm_get (mid_topic (env_id e)) (o_subs ow) = Some s
     \<and> s_mode s = env_mode e \<and> peer \<in> s_confirmed s \<and> bm_get peer (s_grants s) = Some g
     \<and> env_len e + length (data_frame (codec (ev_lib E)) session (s_id s) sb) + 12 \<le> cg_bytes g
     \<and> \<not> bm_has (s_id s, env_id e) (o_dedup ow)
     \<and> \<not> ch_closed (s_tx s) \<and> length (ch_items (s_tx s)) < ch_capacity (s_tx s)"

text \<open>The frame that tells the publisher of the message \<open>i\<close> that the subscription \<open>sub\<close> has processed it.\<close>

definition processed_frame :: "'e message_id \<Rightarrow> bytes \<Rightarrow> control" where
  "processed_frame i sub = Outcome (mid_topic i) sub (publisher_epoch i) (mid_sequence i) 0"

section \<open>Lemmas\<close>

text \<open>What \<open>peer_valid\<close> looks at of a peer.\<close>

definition peer_view :: "'e \<Rightarrow> ('e, 'w) owner \<Rightarrow> (bytes \<times> 'e certificate) option" where
  "peer_view peer ow = map_option (\<lambda>p. (reg_session (p_reg p), reg_cert (p_reg p))) (bm_get peer (o_peers ow))"

lemma peer_view_update:
  "(\<And>p. reg_session (p_reg (f p)) = reg_session (p_reg p) \<and> reg_cert (p_reg (f p)) = reg_cert (p_reg p)) \<Longrightarrow>
     peer_view peer (update_peer e f ow) = peer_view peer ow"
  by (auto simp: peer_view_def update_peer_def bm_get_adjust option.map_comp comp_def)

lemma peer_view_frame [simp]:
  "peer_view peer (ow\<lparr>o_world := w\<rparr>) = peer_view peer ow" "peer_view peer (ow\<lparr>o_pending := pd\<rparr>) = peer_view peer ow"
  "peer_view peer (ow\<lparr>o_stats := st\<rparr>) = peer_view peer ow" "peer_view peer (release_held ow) = peer_view peer ow"
  "peer_view peer (ow\<lparr>o_subs := sm\<rparr>) = peer_view peer ow" "peer_view peer (hand_out ps ow) = peer_view peer ow"
  by (simp_all add: peer_view_def release_held_def hand_out_def)

lemma peer_view_schedule [simp]: "peer_view peer (schedule E tk ow) = peer_view peer ow"
proof -
  have "peer_view peer (schedule_one E tk k ow) = peer_view peer ow" for k ow
    by (simp add: schedule_one_def Let_def set_binding_def peer_view_update split: option.split)
  then show ?thesis
    unfolding schedule_def by (intro fold_inv [where P = "\<lambda>ow'. peer_view peer ow' = peer_view peer ow"]) auto
qed

lemma peer_valid_view:
  assumes "peer_valid tk peer session ow = Inr p" and "peer_view peer ow' = peer_view peer ow"
    and "o_trust ow' = o_trust ow" "o_cert ow' = o_cert ow" "o_self ow' = o_self ow" "o_clock_failed ow' = o_clock_failed ow"
  shows "\<exists>p'. peer_valid tk peer session ow' = Inr p'"
  using assms by (auto simp: peer_valid_def peer_view_def local_valid_def result_simps)

lemma chan_send_room: "\<not> ch_closed c \<Longrightarrow> length (ch_items c) < ch_capacity c \<Longrightarrow> chan_send x c = Some (c\<lparr>ch_items := ch_items c @ [x]\<rparr>)"
  by (simp add: chan_send_def)

lemma begin_receptive:
  assumes "external (ev_lib E)" and "owner_wf (ev_lib E) ow" and "wf_envelope (key_public (ev_lib E) identity) e"
    and "receptive E tk (key_public (ev_lib E) identity) session sid e (envelope_sign (ev_lib E) e identity) p s g ow"
  obtains t ow' where
    "turn E tk (Command (Begin (key_public (ev_lib E) identity) session (s_id s) sid (envelope_sign (ev_lib E) e identity) (env_len e))) ow
       = (Reply_Ticket (Inr t), \<not> drained tk ow', ow')"
    "rt_envelope t = e" "rt_permits t = cg_permits g"
    "bm_get (mid_topic (env_id e)) (o_subs ow') = Some (s\<lparr>s_grants := bm_del (key_public (ev_lib E) identity) (s_grants s)\<rparr>)"
    "o_dedup ow' = o_dedup ow" "o_trust ow' = o_trust ow" "o_cert ow' = o_cert ow" "o_self ow' = o_self ow"
    "o_clock_failed ow' = o_clock_failed ow" "o_log ow' = o_log ow"
    "peer_view (key_public (ev_lib E) identity) ow' = peer_view (key_public (ev_lib E) identity) ow"
proof -
  let ?L = "ev_lib E" and ?peer = "key_public (ev_lib E) identity" and ?sb = "envelope_sign (ev_lib E) e identity" and ?topic = "mid_topic (env_id e)"
  let ?s' = "s\<lparr>s_grants := bm_del ?peer (s_grants s)\<rparr>"
  note r = assms(4) [unfolded receptive_def]
  have verify: "envelope_verify ?L ?sb ?peer = Inr e"
    using external.envelope_verify_sign [OF assms(1,3)] envelope_sign_size [OF assms(1,3), of identity] by simp
  from r obtain now where now: "tk_now tk = Inr now" "env_created e \<le> saturating_add now (clock_skew_secs (o_trust ow))" "now < env_expires e"
    by (auto split: sum.splits)
  have get: "bm_get ?peer (o_peers ow) = Some p"
    using r by (auto simp: peer_valid_def result_simps)
  have checks: "begin_checks E tk ?peer session ?sb (env_len e) ow = Inr e"
    using r now verify by (simp add: begin_checks_def Let_def not_less)
  define ow1 where "ow1 = update_peer ?peer (\<lambda>p. p\<lparr>p_inbound := bm_put ?topic (s_id s, sid) (p_inbound p)\<rparr>) ow"
  have stream: "begin_stream ?peer (s_id s) sid ?topic ow = (Inr (), ow1)"
    using r get by (auto simp: begin_stream_def ow1_def bm_has_def split: option.splits)
  define ow2 where "ow2 = update_sub ?topic (\<lambda>s. s\<lparr>s_grants := bm_del ?peer (s_grants s)\<rparr>) ow1"
  have grant: "begin_grant ?peer (s_id s) e ow1 = (Inr g, ow2)"
    using r by (simp add: begin_grant_def Let_def ow1_def ow2_def update_peer_def)
  define m where "m = (cg_metadata g)\<lparr>permit_n := length ?sb + 2048\<rparr>"
  define t where "t = \<lparr>rt_envelope = e, rt_fingerprint = digest ?L ?sb, rt_permits = cg_permits g, rt_metadata = m\<rparr>"
  have dedup: "bm_get (s_id s, env_id e) (o_dedup ow2) = None"
    using r by (simp add: ow2_def ow1_def update_sub_def update_peer_def bm_has_def)
  have "begin_data E tk ?peer session (s_id s) sid ?sb (env_len e) ow =
      (if length ?sb + 2048 > permit_n (cg_metadata g) then (Inr None, ow2) else (Inr (Some t), hand_out (m # cg_permits g) ow2))"
    using r by (simp add: begin_data_def checks stream grant dedup Let_def t_def m_def not_less)
  moreover have "fst (begin_data E tk ?peer session (s_id s) sid ?sb (env_len e) ow) \<noteq> Inr None"
    by (rule begin_no_panic [OF assms(2)])
  ultimately have begun: "begin_data E tk ?peer session (s_id s) sid ?sb (env_len e) ow = (Inr (Some t), hand_out (m # cg_permits g) ow2)"
    by (auto split: if_splits)
  have "peer_view ?peer ow2 = peer_view ?peer ow"
    by (simp add: ow2_def ow1_def update_sub_def peer_view_update)
  moreover have frame: "o_dedup ow2 = o_dedup ow" "o_trust ow2 = o_trust ow" "o_cert ow2 = o_cert ow" "o_self ow2 = o_self ow"
      "o_clock_failed ow2 = o_clock_failed ow" "o_log ow2 = o_log ow"
    by (simp_all add: ow2_def ow1_def)
  moreover have "bm_get ?topic (o_subs ow2) = Some ?s'"
    using r by (simp add: ow2_def ow1_def update_sub_def update_peer_def bm_get_adjust)
  ultimately show ?thesis
    using begun that [of t "schedule E tk (release_held (hand_out (m # cg_permits g) ow2))"]
    by (simp add: turn_def handle_input_def command_def Let_def t_def frame)
qed

lemma incoming_receptive:
  assumes "peer_valid tk peer session ow = Inr p" and "payload_matches (ev_lib E) (rt_envelope t) (lease_bytes l)"
    and "tk_now tk = Inr now" and "now < env_expires (rt_envelope t)"
    and "bm_get (mid_topic (env_id (rt_envelope t))) (o_subs ow) = Some s" and "\<not> bm_has (s_id s, env_id (rt_envelope t)) (o_dedup ow)"
    and "\<not> ch_closed (s_tx s)" and "length (ch_items (s_tx s)) < ch_capacity (s_tx s)"
  obtains ow' where
    "turn E tk (Command (Incoming peer session (s_id s) t l)) ow = (Reply_None, \<not> drained tk ow', ow')"
    "bm_get (mid_topic (env_id (rt_envelope t))) (o_subs ow') = Some (s\<lparr>s_tx := (s_tx s)\<lparr>ch_items := ch_items (s_tx s)
       @ [\<lparr>d_id = env_id (rt_envelope t), d_format = env_format (rt_envelope t), d_payload = l\<rparr>]\<rparr>\<rparr>)"
    "\<exists>d. bm_get (s_id s, env_id (rt_envelope t)) (o_dedup ow') = Some d \<and> dd_state d = DedupProcessing 0"
    "o_log ow' = o_log ow @ [Delivered (s_id s) (rt_envelope t) (lease_bytes l)]"
proof -
  have "incoming E tk peer session (s_id s) t l ow = (Inr (), deliver E peer (s_id s) t l s ow)"
    using assms by (simp add: incoming_def Let_def bm_has_def not_le)
  then show ?thesis
    using that [of "schedule E tk (release_held (deliver E peer (s_id s) t l s ow))"] assms(5) chan_send_room [OF assms(7,8)]
    by (simp add: turn_def handle_input_def command_def cmd_incoming_def Let_def deliver_def update_sub_def bmap_simps log_event_def)
qed

text \<open>The publisher's side of an outcome.\<close>

lemma outcome_settles:
  assumes "peer_valid tk peer session ow = Inr p" and "bm_get (peer, sub, i) (o_pending ow) = Some pd" and "pd_attempts pd > 0"
    and "realm_id i = t_realm (o_trust ow)" and "publisher_endpoint_id i = o_self ow"
  shows "\<exists>go ow'. turn E tk (Command (Remote peer session (Outcome (mid_topic i) sub (publisher_epoch i) (mid_sequence i) 0))) ow = (Reply_None, go, ow')
    \<and> shown (peer, sub, i) ow' = Processed"
proof -
  have i: "MessageId (t_realm (o_trust ow)) (o_self ow) (publisher_epoch i) (mid_topic i) (mid_sequence i) = i"
    using assms(4,5) by (metis message_id.collapse)
  have "has_session peer session ow"
    using assms(1) by (auto simp: peer_valid_def has_session_def result_simps)
  then show ?thesis
    using assms(1,2,3)
    by (simp add: turn_def handle_input_def command_def cmd_remote_def owner_control_def control_outcome_def Let_def i bm_has_def finish_def log_event_def
        shown_def outcomes_append)
qed

section \<open>The control channel of a session\<close>

text \<open>What the owner relies on of the channels to the control writers: a frame that was accepted for a session is queued there, and it stays
  queued when another frame is accepted.\<close>

locale control_channel =
  fixes E :: "('e::linorder, 'w) env" and queued :: "'e \<Rightarrow> bytes \<Rightarrow> control \<Rightarrow> 'w \<Rightarrow> bool"
  assumes sent: "ev_ctl E e s c w = Some w' \<Longrightarrow> queued e s c w'"
    and kept: "ev_ctl E e s c w = Some w' \<Longrightarrow> queued e' s' c' w \<Longrightarrow> queued e' s' c' w'"

text \<open>A frame is on its way to a peer, or the session with the peer has been cancelled because its channel refused a frame.\<close>

definition frame_reported :: "('e \<Rightarrow> bytes \<Rightarrow> control \<Rightarrow> 'w \<Rightarrow> bool) \<Rightarrow> 'e \<Rightarrow> bytes \<Rightarrow> control \<Rightarrow> ('e, 'w) owner \<Rightarrow> bool" where
  "frame_reported queued e session c ow \<longleftrightarrow>
     queued e session c (o_world ow)
     \<or> (case bm_get e (o_peers ow) of None \<Rightarrow> False | Some p \<Rightarrow> reg_session (p_reg p) = session \<and> reg_cancelled (p_reg p))"

lemma reported_update:
  assumes "frame_reported queued e session c ow"
    and "\<And>p. bm_get e' (o_peers ow) = Some p \<Longrightarrow> reg_session (p_reg (f p)) = reg_session (p_reg p)"
    and "\<And>p. bm_get e' (o_peers ow) = Some p \<Longrightarrow> reg_cancelled (p_reg p) \<Longrightarrow> reg_cancelled (p_reg (f p))"
  shows "frame_reported queued e session c (update_peer e' f ow)"
  using assms by (auto simp: frame_reported_def update_peer_def bm_get_adjust split: option.splits)

lemma reported_binding: "frame_reported queued e session c ow \<Longrightarrow> frame_reported queued e session c (set_binding e' t f ow)"
  unfolding set_binding_def by (rule reported_update) auto

lemma reported_same:
  "frame_reported queued e session c ow \<Longrightarrow> o_peers ow' = o_peers ow \<Longrightarrow> o_world ow' = o_world ow \<Longrightarrow> frame_reported queued e session c ow'"
  by (simp add: frame_reported_def)

lemma reported_frame [simp]:
  "frame_reported queued e session c (ow\<lparr>o_pending := pd\<rparr>) = frame_reported queued e session c ow" "frame_reported queued e session c (ow\<lparr>o_stats := st\<rparr>) = frame_reported queued e session c ow"
  "frame_reported queued e session c (ow\<lparr>o_held := h\<rparr>) = frame_reported queued e session c ow" "frame_reported queued e session c (ow\<lparr>o_next := n\<rparr>) = frame_reported queued e session c ow"
  "frame_reported queued e session c (update_sub t g ow) = frame_reported queued e session c ow" "frame_reported queued e session c (release_held ow) = frame_reported queued e session c ow"
  "frame_reported queued e session c (retain_budgets ow) = frame_reported queued e session c ow" "frame_reported queued e session c (ow\<lparr>o_cursor := n\<rparr>) = frame_reported queued e session c ow"
  by (simp_all add: frame_reported_def update_sub_def release_held_def retain_budgets_def)

lemma finish_pending_world [simp]: "o_world (finish_pending tk x now ow) = o_world ow"
  by (auto simp: finish_pending_def expire_one_def finish_def Let_def log_event_def intro!: fold_same split: option.split)

lemma session_of_close: "session_of e (close_subs E ow) = session_of e ow"
proof -
  have "session_of e (o_send E e' c ow) = session_of e ow" for e' c ow
    by (auto simp: o_send_eq session_of_def update_peer_def bm_get_adjust split: option.splits)
  then have "session_of e (close_sub E t ow) = session_of e ow" for t ow
    by (auto simp: close_sub_def fold_same [where g = "session_of e"] session_of_update split: option.split) (simp add: session_of_def)
  then show ?thesis
    unfolding close_subs_def by (rule fold_same)
qed

context control_channel
begin

lemma reported_send: "frame_reported queued e session c ow \<Longrightarrow> frame_reported queued e session c (o_send E e' c' ow)"
  using kept by (auto simp: o_send_eq frame_reported_def update_peer_def bm_get_adjust split: option.splits)

lemma reported_world: "frame_reported queued e session c ow \<Longrightarrow> ev_ctl E e' s' c' (o_world ow) = Some w \<Longrightarrow> frame_reported queued e session c (ow\<lparr>o_world := w\<rparr>)"
  using kept by (auto simp: frame_reported_def)

lemma send_reports: "session_of e ow = Some session \<Longrightarrow> frame_reported queued e session c (o_send E e c ow)"
  using sent by (auto simp: o_send_eq frame_reported_def session_of_def update_peer_def bm_get_adjust split: option.splits)

lemma reported_return: "frame_reported queued e session c ow \<Longrightarrow> frame_reported queued e session c (return_credits E ow)"
  unfolding return_credits_def return_peer_def Let_def
  by (rule fold_inv [where P = "frame_reported queued e session c"])
    (auto intro!: fold_inv [where P = "frame_reported queued e session c"] reported_send reported_update split: option.split)

lemma reported_grant: "frame_reported queued e session c ow \<Longrightarrow> frame_reported queued e session c (grant_credits E tk ow)"
proof -
  have "frame_reported queued e session c (grant_one E x ow)" if "frame_reported queued e session c ow" for x ow
    using that
    by (cases x) (auto simp: grant_one_def credit_reserve_def Let_def result_simps dest!: o_reserve_Inr intro!: reported_send
        split: option.split sum.split)
  then show "frame_reported queued e session c ow \<Longrightarrow> ?thesis"
    by (auto simp: grant_credits_def Let_def intro!: fold_inv [where P = "frame_reported queued e session c"] split: sum.split)
qed

lemma reported_schedule: "frame_reported queued e session c ow \<Longrightarrow> frame_reported queued e session c (schedule E tk ow)"
proof -
  have "frame_reported queued e session c (schedule_one E tk k ow)" if "frame_reported queued e session c ow" for k ow
    using that by (auto simp: schedule_one_def Let_def intro!: reported_binding reported_update reported_world split: option.split)
  then show "frame_reported queued e session c ow \<Longrightarrow> ?thesis"
    unfolding schedule_def by (auto intro!: fold_inv [where P = "frame_reported queued e session c"])
qed

text \<open>Maintenance sends the outcome of every delivery that was disposed of.\<close>

lemma settle_reports:
  assumes "bm_get (sub, i) (o_dedup ow) = Some d" and "snd (snd (dispose x now d)) = Some code"
    and "session_of (publisher_endpoint_id i) ow = Some session"
  shows "frame_reported queued (publisher_endpoint_id i) session (Outcome (mid_topic i) sub (publisher_epoch i) (mid_sequence i) code) (settle_dedup E x now ow)"
proof -
  let ?e = "publisher_endpoint_id i" and ?c = "Outcome (mid_topic i) sub (publisher_epoch i) (mid_sequence i) code"
  let ?send = "\<lambda>((sub, i), code). send_outcome E (publisher_endpoint_id i) sub i code"
  define xs where "xs = List.map_filter (\<lambda>(k, d). map_option (Pair k) (snd (snd (dispose x now d)))) (o_dedup ow)"
  define a where "a = ow\<lparr>o_dedup := bm_map (\<lambda>_ d. d\<lparr>dd_state := fst (dispose x now d)\<rparr>) (o_dedup ow),
    o_log := o_log ow @ List.map_filter (\<lambda>(k, d). map_option (Completed k) (fst (snd (dispose x now d)))) (o_dedup ow)\<rparr>"
  have "((sub, i), d) \<in> set (o_dedup ow)"
    using assms(1) by (simp add: bm_get_def map_of_SomeD)
  then have "((sub, i), code) \<in> set xs"
    using assms(2) by (force simp: xs_def List.map_filter_def)
  then obtain ys zs where xs: "xs = ys @ ((sub, i), code) # zs"
    by (meson split_list)
  have "session_of ?e (fold ?send ys a) = session_of ?e a"
    by (rule fold_same) (auto simp: send_outcome_def o_send_eq session_of_def update_peer_def bm_get_adjust split: option.splits)
  then have "frame_reported queued ?e session ?c (?send ((sub, i), code) (fold ?send ys a))"
    using assms(3) by (simp add: send_outcome_def send_reports a_def session_of_def)
  then have "frame_reported queued ?e session ?c (fold ?send xs a)"
    unfolding xs by (auto simp: send_outcome_def intro!: fold_inv [where P = "frame_reported queued ?e session ?c"] reported_send)
  then show ?thesis
    by (auto simp: settle_dedup_def Let_def a_def xs_def elim: reported_same)
qed

lemma maintenance_reports:
  assumes "bm_ok (o_peers ow)" and "bm_get (sub, i) (o_dedup ow) = Some d" and "dd_state d = DedupProcessing code" and "code \<noteq> 0"
    and "peer_valid tk (publisher_endpoint_id i) session (clock_check tk ow) = Inr p" and "\<not> reg_cancelled (p_reg p)" and "\<not> reg_closed (p_reg p)"
    and "wall tk < dd_expires d" and "turn E tk Maintain ow = (r, go, ow')"
  shows "frame_reported queued (publisher_endpoint_id i) session (Outcome (mid_topic i) sub (publisher_epoch i) (mid_sequence i) (disposed_code code)) ow'"
proof -
  let ?e = "publisher_endpoint_id i" and ?c = "Outcome (mid_topic i) sub (publisher_epoch i) (mid_sequence i) (disposed_code code)"
  define a where "a = clock_check tk ow"
  have v: "err (local_valid tk a) = None" "bm_get ?e (o_peers a) = Some p" "reg_session (p_reg p) = session"
      "check (o_trust a) (reg_cert (p_reg p)) ?e (wall tk) = Inr ()"
    using assms(5) by (auto simp: a_def peer_valid_def err_def result_simps local_valid_def wall_def)
  have ok: "bm_ok (o_peers a)"
    using assms(1) by (simp add: a_def)
  have "?e \<notin> set (stale_peers tk a)"
    using v assms(6,7) ok by (auto simp: stale_peers_def bm_get_def bm_ok_distinct dest!: map_of_is_SomeI [rotated])
  then have "session_of ?e (close_subs E (remove_stale tk a)) = Some session"
    unfolding session_of_close
    using v ok by (simp add: session_of_def remove_stale_def fold_remove_peers bm_retain_def [symmetric, where P = "\<lambda>e _. e \<notin> set (stale_peers tk a)"]
        bm_get_retain)
  moreover have "o_dedup (close_subs E (remove_stale tk a)) = o_dedup ow"
    using sets_outcomes_close [of ow E tk] by (simp add: a_def sets_outcomes_def)
  moreover have "snd (snd (dispose None (wall tk) d)) = Some (disposed_code code)"
    using assms(3,4,8) by (simp add: dispose_def)
  ultimately have "frame_reported queued ?e session ?c (settle_dedup E None (wall tk) (close_subs E (remove_stale tk a)))"
    using settle_reports assms(2) by simp
  then have "frame_reported queued ?e session ?c (finish_pending tk None (wall tk) (settle_dedup E None (wall tk) (close_subs E (remove_stale tk a))))"
    by (rule reported_same) simp_all
  then have "frame_reported queued ?e session ?c (maintenance E tk ow)"
    using v(1) by (simp add: maintenance_def Let_def a_def [symmetric] reported_schedule reported_grant reported_return)
  then show ?thesis
    using assms(9) by (auto simp: turn_def handle_input_def Let_def reported_schedule split: prod.splits bool.splits if_splits)
qed

end

text \<open>The channels as the sessions make them: a bounded queue for each (\<^verbatim>\<open>mpsc::channel(64)\<close> in \<^verbatim>\<open>run\<close>), beside
  the rest of the world; a frame is refused when there is no such queue, when it is full or when its writer is gone.\<close>

type_synonym 'e controls = "'e \<times> bytes \<Rightarrow> control chan option"

definition ctl_send :: "'e \<Rightarrow> bytes \<Rightarrow> control \<Rightarrow> 'e controls \<times> 'f \<Rightarrow> ('e controls \<times> 'f) option" where
  "ctl_send e session c w =
     (case fst w (e, session) of
        None \<Rightarrow> None
      | Some ch \<Rightarrow> map_option (\<lambda>ch. ((fst w)((e, session) \<mapsto> ch), snd w)) (chan_send c ch))"

definition ctl_queued :: "'e \<Rightarrow> bytes \<Rightarrow> control \<Rightarrow> 'e controls \<times> 'f \<Rightarrow> bool" where
  "ctl_queued e session c w = (case fst w (e, session) of None \<Rightarrow> False | Some ch \<Rightarrow> c \<in> set (ch_items ch))"

interpretation ctl: control_channel "E\<lparr>ev_ctl := ctl_send\<rparr>" ctl_queued
  by unfold_locales (auto simp: ctl_send_def ctl_queued_def chan_send_def split: option.splits if_splits)

text \<open>What maintenance leaves of the record of an acknowledged delivery.\<close>

lemma maintenance_settles:
  assumes "owner_wf L ow" and "bm_get k (o_dedup ow) = Some d" and "wall tk < dd_expires d" and "turn E tk Maintain ow = (r, go, ow')"
  shows "bm_get k (o_dedup ow') = Some (d\<lparr>dd_state := fst (dispose (err (local_valid tk (clock_check tk ow))) (wall tk) d)\<rparr>)"
proof -
  define x where "x = err (local_valid tk (clock_check tk ow))"
  define a where "a = close_subs E (remove_stale tk (clock_check tk ow))"
  define b where "b = settle_dedup E x (wall tk) a"
  have a: "o_dedup a = o_dedup ow"
    using sets_outcomes_close [of ow E tk] by (simp add: a_def sets_outcomes_def)
  have "core ow' = core (finish_pending tk x (wall tk) b)"
    using assms(4) by (auto simp: turn_def handle_input_def maintenance_def Let_def a_def b_def x_def split: prod.splits bool.splits)
  then have "o_dedup ow' = o_dedup b"
    using sets_outcomes_core [OF sets_outcomes_finish_pending] by (fastforce simp: sets_outcomes_def)
  then show ?thesis
    using assms(2,3) owner_wfD(4) [OF assms(1)]
    by (simp add: b_def settle_dedup_def Let_def case_prod_beta fold_same a x_def bm_get_retain bm_ok_map bmap_simps)
qed

section \<open>Properties\<close>

text \<open>C2. A message that a publisher has signed and written to a data stream reaches the subscription: when the receiving owner is
  ready for it (\<open>receptive\<close>) and has memory for the frame, reading the bytes ends without an error, the message is the last in the queue of
  the subscription with the payload that was sent, charged to the permits of the credit, its credit is used up and it is recorded as being
  processed.\<close>

theorem message_delivered:
  fixes E :: "('e::linorder, 'w) env" and E' :: "('e, 'v) env"
  assumes "external L" and lib: "ev_lib E = L"
    and message: "wf_envelope (key_public L identity) e" "payload_matches L e payload"
    and item: "item_message item = (s_id s, envelope_sign L e identity, payload)" "length (s_id s) = 16" "length session = 16" "cf_max_payload (o_config ow) \<le> mx" "mx \<le> 1024 * 1024"
    and written: "write_items L pipe stopped ask session [item] [] x = (Inr (), w, x')"
    and receiver: "owner_wf L ow" "receptive E tk (key_public L identity) session sid e (envelope_sign L e identity) p s g ow"
      "rsv (length (data_frame (codec L) session (s_id s) (envelope_sign L e identity)) * 2 + 1024) ow0 = (Inr memory, ow)"
  shows "\<exists>ow' s' d.
      read_data L (owner_turn E tk) rsv sid (key_public L identity) session mx None \<lparr>st_bytes = w, st_fin = True\<rparr> ow0 = (Inr (), ow')
    \<and> bm_get (mid_topic (env_id e)) (o_subs ow') = Some s'
    \<and> ch_items (s_tx s') = ch_items (s_tx s) @ [\<lparr>d_id = env_id e, d_format = env_format e, d_payload = lease_received payload (cg_permits g)\<rparr>]
    \<and> bm_get (key_public L identity) (s_grants s') = None
    \<and> bm_get (s_id s, env_id e) (o_dedup ow') = Some d \<and> dd_state d = DedupProcessing 0
    \<and> o_log ow' = o_log ow @ [Delivered (s_id s) e payload]"
proof -
  let ?peer = "key_public L identity" and ?sb = "envelope_sign L e identity"
  have len: "length payload = env_len e" "env_len e \<le> cf_max_payload (o_config ow)"
    using message(2) receiver(2) by (auto simp: payload_matches_def receptive_def)
  have wf: "wf_message mx (s_id s, ?sb, payload)"
    using item(2,4) len envelope_sign_size [OF assms(1) message(1), of identity] by (simp add: wf_message_def)
  have "w = message_frame L session (s_id s, ?sb, payload)"
    using write_items_frames [OF assms(1) item(3,5) _ written] wf by (simp add: item(1))
  then have read: "read_data L (owner_turn E tk) rsv sid ?peer session mx None \<lparr>st_bytes = w, st_fin = True\<rparr> ow0
      = deliver_items L (owner_turn E tk) rsv sid ?peer session None [(s_id s, ?sb, payload)] ow0"
    using read_data_frames [OF assms(1) item(3,5), of "[(s_id s, ?sb, payload)]"] wf by simp
  obtain t ow1 where b: "turn E tk (Command (Begin ?peer session (s_id s) sid ?sb (env_len e))) ow = (Reply_Ticket (Inr t), \<not> drained tk ow1, ow1)"
      "rt_envelope t = e" "rt_permits t = cg_permits g"
      "bm_get (mid_topic (env_id e)) (o_subs ow1) = Some (s\<lparr>s_grants := bm_del ?peer (s_grants s)\<rparr>)"
      "o_dedup ow1 = o_dedup ow" "o_trust ow1 = o_trust ow" "o_cert ow1 = o_cert ow" "o_self ow1 = o_self ow"
      "o_clock_failed ow1 = o_clock_failed ow" "o_log ow1 = o_log ow" "peer_view ?peer ow1 = peer_view ?peer ow"
    by (rule begin_receptive [where E = E and ow = ow and identity = identity and e = e and tk = tk and session = session and sid = sid
          and p = p and s = s and g = g, unfolded lib, OF assms(1) receiver(1) message(1) receiver(2)])
  note r = receiver(2) [unfolded receptive_def lib]
  obtain p1 where p1: "peer_valid tk ?peer session ow1 = Inr p1"
    using peer_valid_view [OF _ b(11,6-9)] r by blast
  obtain now where now: "tk_now tk = Inr now" "now < env_expires e"
    using r by (auto split: sum.splits)
  obtain ow' where i: "turn E tk (Command (Incoming ?peer session (s_id s) t (lease_received payload (cg_permits g)))) ow1 = (Reply_None, \<not> drained tk ow', ow')"
      "bm_get (mid_topic (env_id e)) (o_subs ow') = Some (s\<lparr>s_grants := bm_del ?peer (s_grants s), s_tx := (s_tx s)\<lparr>ch_items := ch_items (s_tx s)
         @ [\<lparr>d_id = env_id e, d_format = env_format e, d_payload = lease_received payload (cg_permits g)\<rparr>]\<rparr>\<rparr>)"
      "\<exists>d. bm_get (s_id s, env_id e) (o_dedup ow') = Some d \<and> dd_state d = DedupProcessing 0"
      "o_log ow' = o_log ow @ [Delivered (s_id s) e payload]"
    using incoming_receptive [OF p1, of E t "lease_received payload (cg_permits g)" now "s\<lparr>s_grants := bm_del ?peer (s_grants s)\<rparr>"]
      message(2) now b(2,4,5,10) r by (auto simp: lib lease_received_def)
  have "deliver_items L (owner_turn E tk) rsv sid ?peer session None [(s_id s, ?sb, payload)] ow0 = (Inr (), ow')"
    using receiver(3) b(1,3) i(1) by (simp add: owner_turn_def len)
  then show ?thesis
    using read i(2-4) by (auto simp: bm_get_del)
qed

text \<open>C3. An acknowledgement reaches the publisher. At the next maintenance after a message has been acknowledged, while the receiver's certificate
  and its session with the publisher are valid and the message has not expired, the message is recorded as processed and its outcome is queued on the control
  channel of the session, unless that channel is full, which cancels the session; and when the publisher, whose delivery is still pending,
  has memory for the frame and reads the bytes that the control writer makes of it, its receipt shows the delivery as processed.\<close>

theorem acknowledgement_reported:
  fixes E :: "('e::linorder, 'w) env" and E' :: "('e, 'v) env"
  assumes "external L" and "control_channel E queued"
    and receiver: "owner_wf L b" "bm_get (sub, i) (o_dedup b) = Some d" "dd_state d = DedupProcessing 1" "wall tk < dd_expires d"
      "peer_valid tk (publisher_endpoint_id i) session (clock_check tk b) = Inr p" "\<not> reg_cancelled (p_reg p)" "\<not> reg_closed (p_reg p)"
      "turn E tk Maintain b = (r, go, b')"
    and publisher: "peer_valid tk' (o_self b) session a = Inr p'" "bm_get (o_self b, sub, i) (o_pending a) = Some pd" "pd_attempts pd > 0"
      "realm_id i = t_realm (o_trust a)" "publisher_endpoint_id i = o_self a"
    and stream: "length session = 16" "wf_control (processed_frame i sub)"
      "rsv (length (snd (control_encode (codec L) (processed_frame i sub) session)) * 2 + 1024) a0 = (Inr memory, a)"
  shows "bm_get (sub, i) (o_dedup b') = Some (d\<lparr>dd_state := DedupProcessed\<rparr>)
    \<and> frame_reported queued (publisher_endpoint_id i) session (processed_frame i sub) b'
    \<and> (\<exists>w a'. control_writer L pipe session [processed_frame i sub] [] = (Inr (), w)
        \<and> control_reader L (owner_turn E' tk') rsv (o_self b) session [t, t'] 0 start \<lparr>st_bytes = w, st_fin = True\<rparr> a0 = (Inr (), a')
        \<and> shown (o_self b, sub, i) a' = Processed)"
proof (intro conjI)
  have valid: "err (local_valid tk (clock_check tk b)) = None"
    using receiver(5) by (auto simp: peer_valid_def err_def result_simps)
  show "bm_get (sub, i) (o_dedup b') = Some (d\<lparr>dd_state := DedupProcessed\<rparr>)"
    using maintenance_settles [OF receiver(1,2,4,8)] receiver(3,4) by (simp add: valid dispose_def disposed_state_def)
  show "frame_reported queued (publisher_endpoint_id i) session (processed_frame i sub) b'"
    using control_channel.maintenance_reports [OF assms(2) owner_wfD(1) [OF receiver(1)] receiver(2,3) _ receiver(5-7,4,8)]
    by (simp add: processed_frame_def disposed_code_def)
next
  obtain a' where a': "owner_turn E' tk' (Remote (o_self b) session (processed_frame i sub)) a = (Some Reply_None, a')" "shown (o_self b, sub, i) a' = Processed"
    using outcome_settles [OF publisher, of E'] by (auto simp: owner_turn_def processed_frame_def)
  then have "forward_controls L (owner_turn E' tk') rsv (o_self b) session [processed_frame i sub] a0 = (Inr (), a')"
    using stream(3) by simp
  then show "\<exists>w a'. control_writer L pipe session [processed_frame i sub] [] = (Inr (), w)
        \<and> control_reader L (owner_turn E' tk') rsv (o_self b) session [t, t'] 0 start \<lparr>st_bytes = w, st_fin = True\<rparr> a0 = (Inr (), a')
        \<and> shown (o_self b, sub, i) a' = Processed"
    using control_writer_frames [OF assms(1) stream(1), of "[processed_frame i sub]" "[]"]
      control_reader_frames [OF assms(1) stream(1), of "[processed_frame i sub]" "[t, t']" 0 "owner_turn E' tk'" rsv "o_self b" start a0] stream(2) a'(2)
    by (simp del: control_writer.simps control_reader.simps forward_controls.simps)
qed

section \<open>Witnesses\<close>

abbreviation sample_credited :: "256 word local_sub" where
  "sample_credited \<equiv> sample_sub [] {7} [(7, Inr ())] [(7, sample_credit)] []"

lemma sample_receptive:
  "receptive sample_env sample_tick 7 (replicate 16 8) 1 sample_message sample_signed (sample_peer [] []) sample_credited sample_credit sample_5"
proof -
  have c: "codec sample_lib = rfc8949"
    by (simp add: sample_lib_def)
  have v: "peer_valid sample_tick 7 (replicate 16 8) sample_5 = Inr (sample_peer [] [])"
    by (simp add: peer_valid_def sample_5_def sample_states sample_defs)
  show ?thesis
    unfolding receptive_def v
    using sample_data
    by (simp add: sample_5_def sample_states sample_message_def sample_credit_def sample_defs over_limit_def c MAX_METADATA_def
        sample_trust_fields as_secs_def from_secs_def saturating_add_def)
qed

theorem message_delivered_witness:
  "\<exists>w x' ow' s' d.
      write_items sample_lib pipe (\<lambda>_. None) (\<lambda>_ n. (Some Reply_None, Suc n)) (replicate 16 8) [sample_item] [] 0 = (Inr (), w, x')
    \<and> read_data sample_lib (owner_turn sample_env sample_tick) (\<lambda>k x. (Inr (sample_permit 30 1 k), x)) 1 7 (replicate 16 8) (1024 * 1024) None
        \<lparr>st_bytes = w, st_fin = True\<rparr> sample_5 = (Inr (), ow')
    \<and> bm_get jobs (o_subs ow') = Some s'
    \<and> ch_items (s_tx s') = [\<lparr>d_id = env_id sample_message, d_format = ''opaque'', d_payload = lease_received [1, 2, 3] (cg_permits sample_credit)\<rparr>]
    \<and> bm_get 7 (s_grants s') = None
    \<and> bm_get (replicate 16 6, env_id sample_message) (o_dedup ow') = Some d \<and> dd_state d = DedupProcessing 0
    \<and> o_log ow' = [Delivered (replicate 16 6) sample_message [1, 2, 3]]"
proof -
  let ?m = "item_message sample_item" and ?s = "replicate 16 8 :: bytes"
  have w: "write_items sample_lib pipe (\<lambda>_. None) (\<lambda>_ n. (Some Reply_None, Suc n)) ?s [sample_item] [] 0
      = (Inr (), message_frame sample_lib ?s ?m, 1)"
    using read_message(1) [OF sample.external_axioms _ sample_item(1), of ?s "[]"]
    by (simp add: send_frame_def) (simp add: item_message_def send_frame_def)
  have f: "mid_topic (env_id sample_message) = jobs" "env_format sample_message = ''opaque''" "s_id sample_credited = replicate 16 6"
      "ch_items (s_tx sample_credited) = []" "o_log sample_5 = []" "cf_max_payload (o_config sample_5) \<le> 1024 * 1024"
    by (simp_all add: sample_message_def sample_sub_def sample_5_def sample_states config_new_def)
  have "payload_matches sample_lib sample_message [1, 2, 3]"
    by (simp add: payload_matches_def sample_message_def)
  moreover have "owner_wf sample_lib sample_5"
    using wf.holds [OF sample_reach(2)] by (simp add: sample_sys_def sample_env_def)
  ultimately have "\<exists>ow' s' d. read_data sample_lib (owner_turn sample_env sample_tick) (\<lambda>k x. (Inr (sample_permit 30 1 k), x)) 1 7 ?s (1024 * 1024) None
        \<lparr>st_bytes = message_frame sample_lib ?s ?m, st_fin = True\<rparr> sample_5 = (Inr (), ow')
    \<and> bm_get jobs (o_subs ow') = Some s'
    \<and> ch_items (s_tx s') = [\<lparr>d_id = env_id sample_message, d_format = ''opaque'', d_payload = lease_received [1, 2, 3] (cg_permits sample_credit)\<rparr>]
    \<and> bm_get 7 (s_grants s') = None
    \<and> bm_get (replicate 16 6, env_id sample_message) (o_dedup ow') = Some d \<and> dd_state d = DedupProcessing 0
    \<and> o_log ow' = [Delivered (replicate 16 6) sample_message [1, 2, 3]]"
    using message_delivered [OF sample.external_axioms, of sample_env "be_bytes 32 7" sample_message "[1, 2, 3]" sample_item sample_credited ?s sample_5 "1024 * 1024",
        OF _ _ _ _ _ _ _ _ w, of sample_tick 1 "sample_peer [] []" sample_credit "\<lambda>k x. (Inr (sample_permit 30 1 k), x)" sample_5]
      sample_receptive sample_message_wf f
    by (simp add: sample_key sample_env_def sample_item(2) sample_signed_def [symmetric])
  then show ?thesis
    using w by blast
qed

text \<open>The sample run once more, with the control channels as its world.\<close>

definition with_world :: "'v \<Rightarrow> ('e, 'w) owner \<Rightarrow> ('e, 'v) owner" where
  "with_world w ow =
     \<lparr>o_config = o_config ow, o_trust = o_trust ow, o_identity = o_identity ow, o_self = o_self ow, o_cert = o_cert ow,
      o_revocation_memory = o_revocation_memory ow, o_pool = o_pool ow, o_metadata = o_metadata ow, o_peers = o_peers ow,
      o_peer_budgets = o_peer_budgets ow, o_subs = o_subs ow, o_pending = o_pending ow, o_dedup = o_dedup ow, o_terminal = o_terminal ow,
      o_auth_attempts = o_auth_attempts ow, o_auth_window = o_auth_window ow, o_sequences = o_sequences ow, o_epoch = o_epoch ow,
      o_quota = o_quota ow, o_stats = o_stats ow, o_drain = o_drain ow, o_cursor = o_cursor ow, o_clock_start = o_clock_start ow,
      o_clock_failed = o_clock_failed ow, o_admission = o_admission ow, o_outside = o_outside ow, o_held = o_held ow, o_next = o_next ow,
      o_world = w, o_log = o_log ow\<rparr>"

lemma with_world:
  "owner_wf L (with_world w ow) = owner_wf L ow" "o_dedup (with_world w ow) = o_dedup ow" "o_self (with_world w ow) = o_self ow"
  "peer_valid tk e session (clock_check tk (with_world w ow)) = peer_valid tk e session (clock_check tk ow)"
  by (simp_all add: with_world_def owner_wf_def)
    (cases "tk_now tk"; simp add: clock_check_def Let_def peer_valid_def local_valid_def cong: if_cong)

definition sample_controls :: "256 word controls \<times> unit" where
  "sample_controls = ([(7, replicate 16 8) \<mapsto> chan_new 64 (sample_permit 40 1 0)], ())"

definition sample_ctl_env :: "(256 word, 256 word controls \<times> unit) env" where
  "sample_ctl_env = \<lparr>ev_lib = sample_lib, ev_ctl = ctl_send, ev_save = (\<lambda>_ w. (Inr (), w)), ev_delivery_size = 100\<rparr>"

lemma sample_ctl_channel: "control_channel sample_ctl_env ctl_queued"
  using ctl.control_channel_axioms [of sample_ctl_env] by (simp add: sample_ctl_env_def)

text \<open>The publisher, with its delivery written and not yet answered.\<close>

definition sample_publisher :: "(256 word, unit) owner" where
  "sample_publisher = sample_start\<lparr>o_self := 7, o_cert := sample_cert 7,
     o_peers := [(5, (sample_peer [] [])\<lparr>p_reg := sample_reg\<lparr>reg_cert := sample_cert 5\<rparr>\<rparr>)],
     o_pending := [((5, replicate 16 6, env_id sample_message), (snd (hd (o_pending sample_published)))\<lparr>pd_attempts := 1\<rparr>)]\<rparr>"

theorem acknowledgement_reported_witness:
  "\<exists>r go b' w a'. turn sample_ctl_env sample_tick Maintain (with_world sample_controls sample_8) = (r, go, b')
    \<and> bm_get (replicate 16 6, env_id sample_message) (o_dedup b') = Some (sample_record DedupProcessed)
    \<and> frame_reported ctl_queued 7 (replicate 16 8) (Outcome jobs (replicate 16 6) (replicate 16 4) 1 0) b'
    \<and> control_writer sample_lib pipe (replicate 16 8) [Outcome jobs (replicate 16 6) (replicate 16 4) 1 0] [] = (Inr (), w)
    \<and> control_reader sample_lib (owner_turn sample_env sample_tick) (\<lambda>k x. (Inr (sample_permit 30 1 k), x)) 5 (replicate 16 8) [0, 0] 0 0
        \<lparr>st_bytes = w, st_fin = True\<rparr> sample_publisher = (Inr (), a')
    \<and> shown (5, replicate 16 6, env_id sample_message) a' = Processed"
proof -
  obtain r go b' where t: "turn sample_ctl_env sample_tick Maintain (with_world sample_controls sample_8) = (r, go, b')"
    by (metis prod_cases3)
  have frame: "processed_frame (env_id sample_message) (replicate 16 6) = Outcome jobs (replicate 16 6) (replicate 16 4) 1 0"
      "publisher_endpoint_id (env_id sample_message) = 7" "realm_id (env_id sample_message) = replicate 16 2"
    by (simp_all add: processed_frame_def sample_message_def)
  have wf: "wf_control (Outcome jobs (replicate 16 6) (replicate 16 4) 1 0)"
    by (simp add: wf_topic_def topic_new_def is_ascii_alphanumeric_def)
  have receiver: "owner_wf sample_lib sample_8" "bm_get (replicate 16 6, env_id sample_message) (o_dedup sample_8) = Some (sample_record (DedupProcessing 1))"
      "o_self sample_8 = 5"
    using wf.holds [OF reach.step [OF sample_reach(4) sys_step.others, of sample_8]] step_8
    by (simp_all add: sample_sys_def sample_env_def) (simp_all add: sample_8_def bm_get_def sample_7_def sample_6_def sample_5_def sample_states)
  have session: "peer_valid sample_tick 7 (replicate 16 8) (clock_check sample_tick sample_8) = Inr (sample_peer [] [(jobs, replicate 16 6, 1)])"
      "\<not> reg_cancelled (p_reg (sample_peer [] [(jobs, replicate 16 6, 1)]))" "\<not> reg_closed (p_reg (sample_peer [] [(jobs, replicate 16 6, 1)]))"
    by (simp_all add: clock_check_def wall_def abs_diff_def prune_def as_secs_def peer_valid_def sample_8_def sample_7_def sample_6_def sample_5_def
        sample_states sample_defs)
  have publisher: "peer_valid sample_tick 5 (replicate 16 8) sample_publisher = Inr ((sample_peer [] [])\<lparr>p_reg := sample_reg\<lparr>reg_cert := sample_cert 5\<rparr>\<rparr>)"
      "bm_get (5, replicate 16 6, env_id sample_message) (o_pending sample_publisher) = Some ((snd (hd (o_pending sample_published)))\<lparr>pd_attempts := 1\<rparr>)"
      "t_realm (o_trust sample_publisher) = replicate 16 2" "o_self sample_publisher = 7"
    by (simp_all add: sample_publisher_def peer_valid_def sample_states sample_defs sample_trust_fields)
  show ?thesis
    using acknowledgement_reported [OF sample.external_axioms sample_ctl_channel, of "with_world sample_controls sample_8" "replicate 16 6" "env_id sample_message"
        "sample_record (DedupProcessing 1)" sample_tick "replicate 16 8" _ r go b' sample_tick sample_publisher _ _ "\<lambda>k x. (Inr (sample_permit 30 1 k), x)"
        sample_publisher _ sample_env 0 0 0]
      t wf receiver session publisher
    by (simp add: with_world frame sample_record_def)
qed

end
