(* ===== verification/Spec2Isabelle.thy ===== *)
theory Spec2Isabelle
  imports Messaging
begin

text \<open>
  A verification development of \<^verbatim>\<open>rtn-mq\<close>, a peer-to-peer publish/subscribe library over QUIC
  (\<^verbatim>\<open>src/src\<close>). Endpoints of one realm hold certificates signed by the root of the realm; a host
  hands them out against join codes. An endpoint publishes signed messages on topics to the peers
  that subscribed; receivers grant credit, deliver each message to the local subscription, and
  acknowledge it; publishers retry until they have an outcome.

  \<^bold>\<open>The parts of the program and their theories.\<close>

  \<^item> \<open>Prelude\<close>: results and errors (\<^verbatim>\<open>error.rs\<close>), durations, bytes, checked and saturating
    arithmetic on \<open>u64\<close>, and the ordered maps that stand for \<^verbatim>\<open>BTreeMap\<close>, with the locale
    \<open>ordered_map\<close> for their laws.
  \<^item> \<open>Cbor\<close> (\<^verbatim>\<open>cbor.rs\<close>): \<open>Writer\<close> and \<open>Reader\<close> over the locale \<open>cbor_codec\<close>, which states what the
    \<^verbatim>\<open>minicbor\<close> crate promises; \<open>Cbor_RFC8949\<close> interprets it by the encoding of RFC 8949.
  \<^item> \<open>External\<close>: the locale \<open>external\<close> for Ed25519 keys, SHA-256, base64 and relay URLs, and an
    instance of it for witnesses.
  \<^item> \<open>Buffer\<close> (\<^verbatim>\<open>buffer.rs\<close>): budgets, permits, leases and the pool; the counter of a budget under
    every interleaving of its threads, and the same budget as the sum of the permits that can be
    reached, which the other components use.
  \<^item> \<open>Queue\<close> (\<^verbatim>\<open>queue.rs\<close>): the single-producer single-consumer queue over the locale \<open>ring_buffer\<close>
    (the \<^verbatim>\<open>rtrb\<close> crate), its concurrent executions, order, capacity and wake-ups.
  \<^item> \<open>Topics\<close>, \<open>Message\<close> (\<^verbatim>\<open>message.rs\<close>): topic names, message identities, the signed envelope.
  \<^item> \<open>Auth\<close> (\<^verbatim>\<open>auth.rs\<close>): permissions, claims, COSE signatures, certificates, the authority,
    trust and revocations.
  \<^item> \<open>Wire\<close> (\<^verbatim>\<open>wire.rs\<close>): the frame prefix, frames on a byte stream, HELLO, READY, control frames
    and DATA.
  \<^item> \<open>JoinCode\<close>, \<open>Join\<close> (\<^verbatim>\<open>join.rs\<close>): join codes and their text, the state of a host and its
    stored form, admission decisions, and the enrollment exchange between \<open>redeem\<close> and \<open>serve\<close>.
  \<^item> \<open>Settings\<close> (\<^verbatim>\<open>endpoint.rs\<close>): configuration and its limits, options and outcomes.
  \<^item> \<open>Owner_State\<close>, \<open>Owner_Peers\<close>, \<open>Owner_Delivery\<close>, \<open>Owner_Maintenance\<close>, \<open>Owner\<close>
    (\<^verbatim>\<open>endpoint/owner.rs\<close>): the actor that owns the state of an endpoint. The record \<open>owner\<close> has
    the tables of the struct \<open>Owner\<close>; every method, every arm of \<open>command\<close> and every kind of
    control frame is a definition; \<open>turn\<close> is one turn of the main loop, \<open>stop_owner\<close> what follows it.
  \<^item> \<open>Owner_Run\<close>: the owner among the tasks and the application that share its queues and permits,
    as a step relation; \<open>reach\<close> are the states an endpoint can be in.
  \<^item> \<open>Owner_Invariant\<close>, \<open>Owner_Core\<close>, \<open>Owner_Outcomes\<close>, \<open>Owner_Replay\<close>, \<open>Owner_Sessions\<close>,
    \<open>Owner_Limits\<close>: what holds in all of them. \<open>Owner_Sample\<close> is a concrete run, where the properties
    are evaluated.
  \<^item> \<open>Filesystem\<close>, \<open>Atomic_Replace\<close>, \<open>Files\<close>: the calls of \<^verbatim>\<open>std::fs\<close> on a POSIX file system with
    permissions, failing calls and power failures; the reasoning about a file that is replaced by \<open>rename\<close>; and on them
    \<open>FileHostStorage\<close> of \<^verbatim>\<open>join.rs\<close> and the key files of \<^verbatim>\<open>identity.rs\<close>.
  \<^item> \<open>Handshake\<close>, \<open>Bind\<close>, \<open>Transport\<close> (\<^verbatim>\<open>endpoint/transport.rs\<close>): the HELLO and READY exchange on the bytes of
    its streams; what \<open>bind\<close> asks of the builder of an iroh endpoint; \<open>connect\<close>, \<open>incoming\<close> and \<open>run\<close>, the registration, the reader and the writer of control
    frames and of DATA, and the loop that accepts streams.
  \<^item> \<open>Receipts\<close> (\<^verbatim>\<open>endpoint.rs\<close>): receipts, readiness of subscriptions, deliveries and how they are
    completed, as functions of the states that a waiting task sees.
  \<^item> \<open>Endpoint\<close> (\<^verbatim>\<open>endpoint.rs\<close>): starting a host or a client, and the operations of \<open>MessagingEndpoint\<close>
    and \<open>Publisher\<close>; \<open>perform\<close> collects them, to say what they send to the owner.
  \<^item> \<open>Joining\<close>: the life of an enrollment, from the code over the members of a host, their storage and its restarts
    (\<open>timed_host_step\<close>; the storage is the set of states that a restart may read) to the registration of a session, which
    ties \<open>Join\<close>, \<open>Handshake\<close>, \<open>Endpoint\<close> and the owner together. The theorem at the end of this theory is its sum.
  \<^item> \<open>Messaging\<close>: the life of a message between two endpoints, from the bytes of a writer through the owner into the queue of a
    subscription, and back from the acknowledgement over the control channel (the locale \<open>control_channel\<close>) to the receipt of the
    publisher, which ties \<open>Transport\<close>, the owner and \<open>Receipts\<close> together.

  \<^bold>\<open>How the parts interact.\<close> The transport tasks and the application send commands to the owner;
  the owner answers, puts DATA in the queues of its writers and deliveries in the queues of its
  subscriptions, and sends control frames. The tasks and the interface are written over a function that
  asks the owner and one that reserves memory; the locale \<open>owner_channel\<close> says what they rely on, and
  \<open>owner_ask\<close>, \<open>owner_reserve\<close> provide it on the system of \<open>Owner_Run\<close>. Certificates are checked by
  \<open>Auth\<close>, messages by \<open>Message\<close>, and every byte the owner keeps is charged to a budget of \<open>Buffer\<close>. The
  enrollment of \<open>Join\<close> runs inside the owner and saves through the locale \<open>host_storage\<close>, which the
  memory storage and, across power failures, the state file of \<open>Files\<close> provide. \<open>Owner_State\<close> shows that
  the queues of the model are what \<open>Queue\<close> implements.

  \<^bold>\<open>What the theorems show.\<close> Encoders and decoders are inverse and canonical (\<open>Auth\<close>, \<open>Message\<close>,
  \<open>Wire\<close>, \<open>JoinCode\<close>, \<open>Join\<close>); signatures for different purposes cannot be exchanged; a
  certificate is accepted only if the root signed it, it is in date, not revoked and for the peer;
  budgets and queues are exact under concurrency; the state of a host is atomic, never exceeds a join
  code, and survives power failures at any moment of a save. A handshake that succeeds is with the
  holder of a valid certificate, both sides agree on the session, and two honest sides complete it; an
  endpoint that was enrolled stays a member until its certificate expires, through failed saves and restarts, and a client that redeemed its code gets a session. What a
  task of a session does to the owner is a step of \<open>Owner_Run\<close>, whatever bytes the peer sends; DATA that is
  written to a stream is what the reader at the other end hands to its owner, in order; a session cannot
  exceed the rate of control frames; a session that ended leaves nothing behind. For the
  owner: its tables keep their invariant in every reachable state; a receipt shows one final outcome,
  and waiting for it returns it; an accepted message reports every recipient; deliveries of a
  message and their completions alternate; a message whose delivery was acknowledged is never delivered
  again; what is delivered is genuine; shutting down settles everything. Between two endpoints: a message on a data stream ends in the
  queue of a subscription that is ready for it, and an acknowledgement reaches the receipt. A fresh host and
  a client that redeemed a code start in reachable states, the operations of the interface keep to them, and send only commands
  whose arguments were checked. A state or a key is loaded only from a private file.

  \<^bold>\<open>A gap that the model shows.\<close> When \<open>save_file\<close> creates the directory of the state file, it does not
  synchronize the directory that contains it: \<open>new_directory_not_durable\<close> in \<open>Files\<close> is a run in which a
  power failure after the first successful save loses the state. The theorems on power failures
  therefore start from a directory that is itself on the disk.

  \<^bold>\<open>Assumptions and bounds.\<close> Code outside the repository is a parameter, and its documented
  behaviour the \<open>assumes\<close> of a locale that is interpreted: \<open>cbor_codec\<close>, \<open>external\<close>,
  \<open>ring_buffer\<close>, \<open>notifier\<close>. Binding a QUIC endpoint (\<open>quic\<close>) and connecting may fail in any way. The control channel of a session (\<^verbatim>\<open>tokio::mpsc\<close>) is a function that may refuse
  any frame; where a theorem needs that it keeps what it accepts, \<open>control_channel\<close> says so, and bounded queues provide it. A handler of the owner reads the wall clock once (the code may read it several times
  within one turn), and the readings, the random identifiers and the retry jitter are arguments
  (\<open>tick\<close>). A stream is the bytes that will arrive and whether it ends or stalls after them; cancelling a
  task, or a timeout around it, is a stream that stalls or a queue that ends. No other process changes the files of
  an endpoint, and a synchronized inode is what the disk holds. The process owns the files and has no privileges: it opens a
  file, searches a directory and changes its entries as the bits of the owner permit, and else gets \<open>EACCES\<close>. Saving is shown to be
  safe for a umask that leaves the owner the right to read what it creates (a file that was renamed before its permissions were set could not be
  read otherwise). \<open>Duration\<close> and \<open>Instant\<close> are
  nanoseconds without overflow. Integers that can wrap or saturate are words with the operation the
  code uses. All functions are total: loops run over lists or over the bytes that are left in a stream, and the
  compare-and-swap loop of a budget and the blocking \<open>recv\<close> are step relations. A symbolic link is
  followed at most as often as the kernel does. A panic of \<open>shrink_to\<close> is a value of the result.

  \<^bold>\<open>Not modelled.\<close> \<open>online\<close>, which waits for the iroh endpoint; the generation of keys; tracing; the peaks that the metrics
  report next to the current use, which belong to the counters of \<open>Buffer\<close>; accessors that return a field;
  tests and examples.
\<close>

text \<open>C1. A client that has a join code gets a session with its host. Let the owner of a host that serves a realm grant an enrollment for a
  code to an endpoint that is not the host. Then the endpoint that redeems the code over the host's own reply to its request starts as a
  client; on a connection between the two that speaks the messaging protocol the handshake succeeds on both sides, on streams that carry
  what the other side writes, with the same session identifier; and both owners register the session, unless they have no room for it (as many
  peers as the configuration allows, or too little metadata memory) or, at the host, the client already has a session. The certificates are valid at the times of the checks and, at the host, not revoked; the clock of the host does
  not go back.\<close>

theorem joined_client_connects:
  fixes E :: "('e::linorder, 'w) env" and E' :: "('e, 'v) env"
  assumes "external L" and lib: "ev_lib E = L" "ev_lib E' = L"
    and host: "serving E T ow h" "tk_now tk = Inr t" "T \<le> t" "length (tk_rand tk) = 16" "\<not> bm_has (tk_rand tk) (ho_members h)"
    and enroll: "turn E tk (Command (Enroll (key_public L identity) (join_code_id L code) (jc_secret code))) ow = (Reply_Enrollment (Inr en), go, ow')"
    and client: "length (jc_secret code) = 32" "key_public L identity \<noteq> host_id code" "config_validate cfg = Inr ()" "bind q cfg identity = Inr ()"
    and clock: "tk_now tk1 = Inr d" "d < en_expires en" "check (en_trust en) (en_certificate en) (key_public L identity) d = Inr ()"
      "trust_verify L (en_trust en) (o_cert ow) (host_id code) d = Inr ()"
    and later: "local_valid tk2 ow' = Inr n" "o_drain ow' = None"
      "check (o_trust ow') (en_certificate en) (key_public L identity) n = Inr ()"
    and connection: "cn_alpn conC = MQ_ALPN" "cn_alpn conH = MQ_ALPN" "cn_remote conC = host_id code" "cn_remote conH = key_public L identity"
      "cn_export conC = cn_export conH" "cn_export conH SESSION_LABEL (t_realm (o_trust ow)) = Some k" "length nonceC = 16" "length nonceH = 16"
  shows "\<exists>hd cl outC outH c a.
      join_start L cfg identity code q (Inr (host_id code)) (served E tk (key_public L identity) ow) d tk1 v = Inr (hd, cl)
    \<and> handshake L pipe conC (Inr ()) True cfg (o_trust cl) (o_cert cl) nonceC (Inr d) (Inr d) \<lparr>st_bytes = outH, st_fin = False\<rparr> [] = (Inr c, outC)
    \<and> handshake L pipe conH (Inr ()) False (o_config ow') (o_trust ow') (o_cert ow') nonceH (Inr n) (Inr n) \<lparr>st_bytes = outC, st_fin = False\<rparr> []
        = (Inr a, outH)
    \<and> hs_session c = k \<and> hs_session a = k
    \<and> (\<exists>r go' cl'. turn E' tk1 (Command (Register (host_id code) (new_registration c))) cl = (Reply_Registered r, go', cl')
        \<and> (r = Inr True \<or> r = Inl QueueFull \<and> crowded (o_cert ow') cl))
    \<and> (\<exists>r go' ow''. turn E tk2 (Command (Register (key_public L identity) (new_registration a))) ow' = (Reply_Registered r, go', ow'')
        \<and> (r = Inr True \<or> r = Inl QueueFull \<and> crowded (o_cert cl) ow' \<or> r = Inr False \<and> bm_has (key_public L identity) (o_peers ow')))"
proof -
  let ?self = "key_public L identity"
  obtain h' hd cl where
    h': "o_admission ow' = Host h'" "admitted h' ?self (en_certificate en)"
      "\<And>n. check (o_trust ow) (en_certificate en) ?self n = Inr () \<Longrightarrow> trust_verify L (o_trust ow) (o_cert cl) ?self n = Inr ()"
      "o_trust ow' = o_trust ow" "o_cert ow' = o_cert ow" "o_config ow' = o_config ow" "t_realm (en_trust en) = t_realm (o_trust ow)"
    and cl: "join_start L cfg identity code q (Inr (host_id code)) (served E tk ?self ow) d tk1 v = Inr (hd, cl)"
      "o_trust cl = en_trust en" "c_claims (o_cert cl) = c_claims (en_certificate en)" "wf_certificate L (o_cert cl)"
      "local_valid tk1 cl = rbind (tk_now tk1) (\<lambda>n. rbind (check (en_trust en) (en_certificate en) ?self n) (\<lambda>_. Inr n))"
      "o_drain cl = None" "o_peers cl = []" "o_admission cl = Client (host_id code)"
    by (rule joined_client [where ?tk1.0 = tk1 and v = v, OF assms(1) lib(1) host enroll client clock(2,3)]) blast
  have certs: "trust_verify L (o_trust cl) (o_cert ow') (cn_remote conC) d = Inr ()" "trust_verify L (o_trust ow') (o_cert cl) (cn_remote conH) n = Inr ()"
    using clock(4) connection(3,4) h'(3) later(3) by (simp_all add: cl(2) h'(4,5))
  obtain outC outH c a where hs:
      "handshake L pipe conC (Inr ()) True cfg (o_trust cl) (o_cert cl) nonceC (Inr d) (Inr d) \<lparr>st_bytes = outH, st_fin = False\<rparr> [] = (Inr c, outC)"
      "handshake L pipe conH (Inr ()) False (o_config ow') (o_trust ow') (o_cert ow') nonceH (Inr n) (Inr n) \<lparr>st_bytes = outC, st_fin = False\<rparr> [] = (Inr a, outH)"
      "hs_cert c = o_cert ow'\<lparr>c_memory := None\<rparr>" "hs_cert a = o_cert cl\<lparr>c_memory := None\<rparr>" "hs_session c = k" "hs_session a = k"
    using honest_handshake [OF assms(1) client(3) _ cl(4) _ connection(7,8,1,2) _ _ certs certs(2), of "o_config ow'" k k "Inr d" "[]" False "[]" False]
      connection(5,6) host(1) by (auto simp: h'(4-7) cl(2) serving_def lib)
  from register_admitted [OF _ cl(6), of tk1 d E' "new_registration c" "host_id code"] certs(1) connection(3) clock(1,3)
  have "\<exists>r go' cl'. turn E' tk1 (Command (Register (host_id code) (new_registration c))) cl = (Reply_Registered r, go', cl')
      \<and> (r = Inr True \<or> r = Inl QueueFull \<and> crowded (o_cert ow') cl)"
    by (auto simp: new_registration_def hs(3) lib cl(5,7,8) admission_check_def crowded_def)
  moreover have "admission_check (o_admission ow') ?self (hs_cert a) = Inr ()"
    using admitted_check [OF h'(2)] cl(3) by (simp add: h'(1) hs(4) admission_check_def certificate_id_def)
  from register_admitted [OF later(1,2), of E "new_registration a" ?self] certs(2) connection(4) this
  have "\<exists>r go' ow''. turn E tk2 (Command (Register ?self (new_registration a))) ow' = (Reply_Registered r, go', ow'')
        \<and> (r = Inr True \<or> r = Inl QueueFull \<and> crowded (o_cert cl) ow' \<or> r = Inr False \<and> bm_has ?self (o_peers ow'))"
    by (simp add: new_registration_def hs(4) lib crowded_def)
  ultimately show ?thesis
    using cl(1) hs by blast
qed

theorem joined_client_connects_witness:
  "\<exists>hd cl c. join_start sample_lib config_new (be_bytes 32 5) sample_join_code sample_quic (Inr (host_id sample_join_code))
        (served sample_env sample_tick 5 sample_hosting) 15 sample_tick () = Inr (hd, cl)
     \<and> hs_session c = replicate 16 1
     \<and> (\<exists>r go cl'. turn sample_env sample_tick (Command (Register (host_id sample_join_code) (new_registration c))) cl = (Reply_Registered r, go, cl')
          \<and> (r = Inr True \<or> r = Inl QueueFull \<and> crowded (sample_cert 7) cl))"
proof -
  have self: "key_public sample_lib (be_bytes 32 5) = 5"
    by (simp add: sample_lib_def be_val_be_bytes)
  have code: "jc_secret sample_join_code = replicate 32 9" "host_id sample_join_code = 7"
    by (simp_all add: sample_join_code_def host_id_def)
  have lib: "ev_lib sample_env = sample_lib" and now: "tk_now sample_tick = Inr 15" "length (tk_rand sample_tick) = 16"
    by (simp_all add: sample_env_def sample_tick_def)
  have trust: "o_trust sample_hosting = sample_trust" "o_cert sample_hosting = sample_cert 7" "\<not> bm_has (tk_rand sample_tick) (ho_members sample_realm)"
    by (simp_all add: sample_hosting_def owner_new_def sample_realm_def sample_host_def)
  obtain en go ow' where en:
    "turn sample_env sample_tick (Command (Enroll 5 (join_code_id sample_lib sample_join_code) (replicate 32 9))) sample_hosting
       = (Reply_Enrollment (Inr en), go, ow')"
    "en_expires en = 100" "check (en_trust en) (en_certificate en) 5 15 = Inr ()" "en_trust en = sample_trust"
    "o_trust ow' = sample_trust" "o_cert ow' = sample_cert 7" "local_valid sample_tick ow' = Inr 15" "o_drain ow' = None"
    by (rule sample_served)
  from joined_client_connects [OF sample.external_axioms lib lib sample_serving now(1) order_refl now(2) trust(3), of "be_bytes 32 5" sample_join_code
      en go ow' config_new sample_quic sample_tick 15 sample_tick 15 "sample_con 7" "sample_con 5" "replicate 16 1" "replicate 16 8" "replicate 16 9" "()"]
    en config_new_valid sample_verify [of 7] now(1)
  obtain hd cl c where "join_start sample_lib config_new (be_bytes 32 5) sample_join_code sample_quic (Inr 7)
        (served sample_env sample_tick 5 sample_hosting) 15 sample_tick () = Inr (hd, cl)" "hs_session c = replicate 16 1"
      "\<exists>r go cl'. turn sample_env sample_tick (Command (Register 7 (new_registration c))) cl = (Reply_Registered r, go, cl')
          \<and> (r = Inr True \<or> r = Inl QueueFull \<and> crowded (sample_cert 7) cl)"
    by (simp only: self code trust sample_con sample_bind length_replicate zero_less_numeral) (simp, blast)
  then show ?thesis
    unfolding code by blast
qed

end
